(* ===== verification/Prelude.thy ===== *)
theory Prelude
  imports Main
begin

text \<open>
  Shared vocabulary of the development: how a C++ function can end, actions
  that pass a state along, bounded counting loops, and the generic lemmas and
  \<^theory_text>\<open>named_theorems\<close> collections that the component theories use.

  A call of the modelled program ends in one of four ways.  It returns a value
  (\<open>Inr\<close>), it leaves by an exception (\<open>Inl (Throw e)\<close>), it ends the whole
  process through \<open>exit\<close> (\<open>Inl (Exit n)\<close>), or it does something the C++
  standard leaves undefined (\<open>Inl Undefined\<close>): a write past the end of an
  array, a null pointer handed to a string, a signed overflow.
\<close>

named_theorems act_simps \<open>equations that run an action on a state\<close>
named_theorems frame_simps \<open>what an operation leaves unchanged\<close>
named_theorems cxx_simps \<open>evaluation of the C++ string operations\<close>

section \<open>How a call ends\<close>

datatype exn = ParseError | TypeError | InvalidArgument | OutOfRange | RuntimeError

datatype stop = Throw exn | Exit int | Undefined

type_synonym 'a res = "stop + 'a"

definition rbind :: "'a res \<Rightarrow> ('a \<Rightarrow> 'b res) \<Rightarrow> 'b res" where
  "rbind m f = (case m of Inl e \<Rightarrow> Inl e | Inr x \<Rightarrow> f x)"

lemma rbind_simps [simp]:
  "rbind (Inl e) f = Inl e"
  "rbind (Inr x) f = f x"
  by (simp_all add: rbind_def)

lemma rbind_Inr_iff: "rbind m f = Inr y \<longleftrightarrow> (\<exists>x. m = Inr x \<and> f x = Inr y)"
  by (cases m) auto

lemma rbind_assoc: "rbind (rbind m f) g = rbind m (\<lambda>x. rbind (f x) g)"
  by (cases m) simp_all

section \<open>Actions on a state\<close>

text \<open>
  An action takes the state and returns how the call ended together with the
  state it left behind.  The state survives an exception and an exit, because
  the writes made before it are visible to the rest of the system.
\<close>

type_synonym ('s, 'a) act = "'s \<Rightarrow> 'a res \<times> 's"

definition ret :: "'a \<Rightarrow> ('s, 'a) act" where
  "ret x = (\<lambda>s. (Inr x, s))"

definition halt :: "stop \<Rightarrow> ('s, 'a) act" where
  "halt e = (\<lambda>s. (Inl e, s))"

definition of_res :: "'a res \<Rightarrow> ('s, 'a) act" where
  "of_res r = (\<lambda>s. (r, s))"

definition bnd :: "('s, 'a) act \<Rightarrow> ('a \<Rightarrow> ('s, 'b) act) \<Rightarrow> ('s, 'b) act" where
  "bnd m f = (\<lambda>s. case m s of
      (Inl e, s') \<Rightarrow> (Inl e, s')
    | (Inr x, s') \<Rightarrow> f x s')"

definition thn :: "('s, unit) act \<Rightarrow> ('s, 'b) act \<Rightarrow> ('s, 'b) act" where
  "thn m n = bnd m (\<lambda>_. n)"

lemma ret_app [simp, act_simps]: "ret x s = (Inr x, s)"
  by (simp add: ret_def)

lemma halt_app [simp, act_simps]: "halt e s = (Inl e, s)"
  by (simp add: halt_def)

lemma of_res_app [simp, act_simps]: "of_res r s = (r, s)"
  by (simp add: of_res_def)

lemma bnd_app [simp, act_simps]:
  "bnd m f s = (case m s of (Inl e, s') \<Rightarrow> (Inl e, s') | (Inr x, s') \<Rightarrow> f x s')"
  by (simp add: bnd_def)

lemma thn_app [simp, act_simps]:
  "thn m n s = (case m s of (Inl e, s') \<Rightarrow> (Inl e, s') | (Inr x, s') \<Rightarrow> n s')"
  by (simp add: thn_def)

lemma bnd_InrE:
  assumes "bnd m f s = (Inr y, s')"
  obtains x s1 where "m s = (Inr x, s1)" and "f x s1 = (Inr y, s')"
  using assms by (cases "m s"; cases "fst (m s)") auto

lemma thn_InrE:
  assumes "thn m n s = (Inr y, s')"
  obtains s1 where "m s = (Inr (), s1)" and "n s1 = (Inr y, s')"
  using assms unfolding thn_def by (elim bnd_InrE) auto

lemma bnd_ret [simp]: "bnd (ret x) f = f x"
  by (rule ext) simp

lemma bnd_halt [simp]: "bnd (halt e) f = halt e"
  by (rule ext) simp

text \<open>
  A property of states that an action keeps, whatever way it ends.  The frame
  lemmas of the components are stated with it and composed with the rules
  below.
\<close>

definition keeps :: "('s \<Rightarrow> 's \<Rightarrow> bool) \<Rightarrow> ('s, 'a) act \<Rightarrow> bool" where
  "keeps R m \<longleftrightarrow> (\<forall>s. R s (snd (m s)))"

lemma keepsI: "(\<And>s. R s (snd (m s))) \<Longrightarrow> keeps R m"
  by (simp add: keeps_def)

lemma keepsD: "keeps R m \<Longrightarrow> R s (snd (m s))"
  by (simp add: keeps_def)

lemma keeps_pure:
  assumes "reflp R"
  shows "keeps R (ret x)" "keeps R (halt e)" "keeps R (of_res r)"
  using assms by (auto simp: keeps_def reflp_def)

lemma keeps_bnd:
  assumes "transp R" and "keeps R m" and "\<And>x. keeps R (f x)"
  shows "keeps R (bnd m f)"
proof (rule keepsI)
  fix s
  obtain r s' where m: "m s = (r, s')" by (cases "m s")
  from assms(2) m have 1: "R s s'" by (auto simp: keeps_def dest: spec [of _ s])
  show "R s (snd (bnd m f s))"
  proof (cases r)
    case (Inl e)
    with m 1 show ?thesis by simp
  next
    case (Inr x)
    from assms(3) have "R s' (snd (f x s'))" by (simp add: keeps_def)
    with 1 assms(1) have "R s (snd (f x s'))" by (blast dest: transpD)
    with m Inr show ?thesis by simp
  qed
qed

lemma keeps_thn:
  assumes "transp R" and "keeps R m" and "keeps R n"
  shows "keeps R (thn m n)"
  unfolding thn_def by (rule keeps_bnd [OF assms(1,2)]) (rule assms(3))

lemma keeps_if:
  "(b \<Longrightarrow> keeps R m) \<Longrightarrow> (\<not> b \<Longrightarrow> keeps R n) \<Longrightarrow> keeps R (if b then m else n)"
  by simp

section \<open>Counting loops\<close>

text \<open>
  \<open>for (int i = lo; i < hi; ++i) body\<close>: the body may end the loop early with
  an exception or undefined behaviour.
\<close>

function for_res :: "int \<Rightarrow> int \<Rightarrow> (int \<Rightarrow> 's \<Rightarrow> 's res) \<Rightarrow> 's \<Rightarrow> 's res" where
  "for_res lo hi body s =
     (if lo < hi then rbind (body lo s) (for_res (lo + 1) hi body) else Inr s)"
  by pat_completeness auto
termination
  by (relation "measure (\<lambda>(lo, hi, body, s). nat (hi - lo))") auto

declare for_res.simps [simp del]

lemma for_res_done [simp]: "hi \<le> lo \<Longrightarrow> for_res lo hi body s = Inr s"
  by (subst for_res.simps) simp

lemma for_res_step:
  "lo < hi \<Longrightarrow> for_res lo hi body s = rbind (body lo s) (for_res (lo + 1) hi body)"
  by (subst for_res.simps) simp

text \<open>The invariant rule: total, the loop returns and keeps what each round keeps.\<close>

lemma for_res_inv:
  assumes "lo \<le> hi" and "P lo s"
    and "\<And>i s. lo \<le> i \<Longrightarrow> i < hi \<Longrightarrow> P i s \<Longrightarrow> \<exists>s'. body i s = Inr s' \<and> P (i + 1) s'"
  shows "\<exists>s'. for_res lo hi body s = Inr s' \<and> P hi s'"
  using assms
proof (induction lo hi body s rule: for_res.induct)
  case (1 lo hi body s)
  show ?case
  proof (cases "lo < hi")
    case False
    with "1.prems" have "lo = hi" by simp
    with "1.prems"(2) show ?thesis by simp
  next
    case True
    from "1.prems"(3) [of lo s] True "1.prems"(2) obtain s' where
      s': "body lo s = Inr s'" "P (lo + 1) s'" by auto
    have "\<exists>t. for_res (lo + 1) hi body s' = Inr t \<and> P hi t"
    proof (rule "1.IH" [OF True])
      show "lo + 1 \<le> hi" using True by simp
      show "P (lo + 1) s'" by (rule s')
      show "\<exists>u. body i t = Inr u \<and> P (i + 1) u"
        if "lo + 1 \<le> i" "i < hi" "P i t" for i t
        using that by (intro "1.prems"(3)) auto
    qed
    with True s' show ?thesis by (simp add: for_res_step)
  qed
qed

section \<open>Lists\<close>

lemma takeWhile_take_idem: "\<forall>x \<in> set xs. P x \<Longrightarrow> takeWhile P (xs @ y # ys) = xs @ takeWhile P (y # ys)"
  by (induction xs) simp_all

lemma list_update_append_length [simp]: "(xs @ y # ys)[length xs := z] = xs @ z # ys"
  by (induction xs) simp_all

lemma filter_neq_idem: "c \<notin> set xs \<Longrightarrow> filter (\<lambda>x. x \<noteq> c) xs = xs"
  by (induction xs) auto

end
