(* ===== verification/Cxx_Strings.thy ===== *)
theory Cxx_Strings
  imports Prelude
begin

text \<open>
  The part of the C and C++ string library that the program uses, on byte
  strings (\<open>string\<close>, a list of characters): C strings inside fixed character
  arrays, \<open>std::string::find\<close> and \<open>substr\<close>, \<open>strtok\<close>, the erase/remove idiom,
  \<open>std::stoi\<close> and decimal printing.
\<close>

section \<open>C strings in character arrays\<close>

definition NUL :: char where
  "NUL = CHR 0x00"

text \<open>Reading an array as a C string runs past its end when it holds no NUL.\<close>

definition c_str :: "string \<Rightarrow> string res" where
  "c_str buf = (if NUL \<in> set buf then Inr (takeWhile (\<lambda>c. c \<noteq> NUL) buf) else Inl Undefined)"

text \<open>\<open>buf[n] = c\<close>, undefined outside the array.\<close>

definition buf_set :: "string \<Rightarrow> nat \<Rightarrow> char \<Rightarrow> string res" where
  "buf_set buf n c = (if n < length buf then Inr (buf[n := c]) else Inl Undefined)"

text \<open>A transfer of \<open>bs\<close> into the array from its start, as \<open>recv\<close> and \<open>read\<close> do.\<close>

definition buf_fill :: "string \<Rightarrow> string \<Rightarrow> string" where
  "buf_fill buf bs = bs @ drop (length bs) buf"

text \<open>The idiom \<open>n = recv(...); buffer[n] = 0; std::string(buffer)\<close>.\<close>

definition terminated :: "string \<Rightarrow> string \<Rightarrow> string res" where
  "terminated buf bs = rbind (buf_set (buf_fill buf bs) (length bs) NUL) c_str"

definition text_of :: "string \<Rightarrow> string" where
  "text_of bs = takeWhile (\<lambda>c. c \<noteq> NUL) bs"

lemma length_buf_fill [simp]: "length bs \<le> length buf \<Longrightarrow> length (buf_fill buf bs) = length buf"
  by (simp add: buf_fill_def)

lemma buf_fill_terminated:
  assumes "length bs < length buf"
  shows "buf_set (buf_fill buf bs) (length bs) NUL = Inr (bs @ NUL # drop (Suc (length bs)) buf)"
proof -
  from assms have "drop (length bs) buf = buf ! length bs # drop (Suc (length bs)) buf"
    by (rule Cons_nth_drop_Suc [symmetric])
  with assms show ?thesis by (simp add: buf_set_def buf_fill_def)
qed

lemma c_str_terminated: "c_str (bs @ NUL # rest) = Inr (text_of bs)"
  by (induction bs) (auto simp: c_str_def text_of_def)

text \<open>
  The terminated read does not depend on what the array held before, and it is
  undefined exactly when the transfer filled the whole array.
\<close>

lemma terminated_fits: "length bs < length buf \<Longrightarrow> terminated buf bs = Inr (text_of bs)"
  by (simp add: terminated_def buf_fill_terminated c_str_terminated)

lemma terminated_overrun: "length bs = length buf \<Longrightarrow> terminated buf bs = Inl Undefined"
  by (simp add: terminated_def buf_set_def)

lemma text_of_plain [simp]: "NUL \<notin> set bs \<Longrightarrow> text_of bs = bs"
  unfolding text_of_def by (simp add: takeWhile_eq_all_conv) (metis)

lemma NUL_notin_text_of [simp]: "NUL \<notin> set (text_of bs)"
  unfolding text_of_def by (auto dest: set_takeWhileD)

text \<open>
  Sending a string literal with an explicit byte count: the literal is followed
  by one NUL in memory, and a longer count reads past it.
\<close>

definition literal_bytes :: "string \<Rightarrow> nat \<Rightarrow> string res" where
  "literal_bytes lit n =
     (if n \<le> Suc (length lit) then Inr (take n (lit @ [NUL])) else Inl Undefined)"

section \<open>Searching and cutting\<close>

text \<open>\<open>std::string::npos\<close>, the largest \<open>size_t\<close>; adding one to it wraps to zero.\<close>

definition npos :: nat where
  "npos = 2 ^ 64 - 1"

definition size_plus1 :: "nat \<Rightarrow> nat" where
  "size_plus1 n = (n + 1) mod 2 ^ 64"

fun find_from :: "char \<Rightarrow> string \<Rightarrow> nat \<Rightarrow> nat" where
  "find_from c [] i = npos"
| "find_from c (x # xs) i = (if x = c then i else find_from c xs (Suc i))"

definition str_find :: "string \<Rightarrow> char \<Rightarrow> nat" where
  "str_find s c = find_from c s 0"

definition substr :: "string \<Rightarrow> nat \<Rightarrow> nat \<Rightarrow> string res" where
  "substr s pos n = (if pos > length s then Inl (Throw OutOfRange) else Inr (take n (drop pos s)))"

lemma size_plus1_npos [simp]: "size_plus1 npos = 0"
  by (simp add: size_plus1_def npos_def)

lemma find_from_here: "c \<notin> set xs \<Longrightarrow> find_from c (xs @ c # ys) i = i + length xs"
  by (induction xs arbitrary: i) auto

lemma find_from_none: "c \<notin> set xs \<Longrightarrow> find_from c xs i = npos"
  by (induction xs arbitrary: i) auto

lemma str_find_here: "c \<notin> set xs \<Longrightarrow> str_find (xs @ c # ys) c = length xs"
  by (simp add: str_find_def find_from_here)

lemma str_find_none: "c \<notin> set xs \<Longrightarrow> str_find xs c = npos"
  by (simp add: str_find_def find_from_none)

section \<open>strtok and erase/remove\<close>

text \<open>
  One call of \<open>strtok\<close> with a one-character delimiter set: leading delimiters
  are skipped, the token runs to the next delimiter, and the scan position
  after it is kept for the next call.  \<open>None\<close> is the null pointer.
\<close>

definition strtok :: "char \<Rightarrow> string \<Rightarrow> string option \<times> string" where
  "strtok d s =
     (let s' = dropWhile (\<lambda>c. c = d) s in
      if s' = [] then (None, [])
      else (Some (takeWhile (\<lambda>c. c \<noteq> d) s'), drop 1 (dropWhile (\<lambda>c. c \<noteq> d) s')))"

text \<open>\<open>s.erase(std::remove(s.begin(), s.end(), c), s.end())\<close>\<close>

definition erase_char :: "char \<Rightarrow> string \<Rightarrow> string" where
  "erase_char c s = filter (\<lambda>x. x \<noteq> c) s"

lemma takeWhile_delim: "d \<notin> set tok \<Longrightarrow> takeWhile (\<lambda>c. c \<noteq> d) (tok @ d # rest) = tok"
  by (induction tok) auto

lemma dropWhile_delim: "d \<notin> set tok \<Longrightarrow> dropWhile (\<lambda>c. c \<noteq> d) (tok @ d # rest) = d # rest"
  by (induction tok) auto

lemma strtok_field:
  assumes "d \<notin> set tok" and "tok \<noteq> []"
  shows "strtok d (tok @ d # rest) = (Some tok, rest)"
proof -
  from assms have "dropWhile (\<lambda>c. c = d) (tok @ d # rest) = tok @ d # rest"
    by (cases tok) auto
  with assms show ?thesis
    by (simp add: strtok_def takeWhile_delim dropWhile_delim)
qed

lemma strtok_last:
  assumes "d \<notin> set tok" and "tok \<noteq> []"
  shows "strtok d tok = (Some tok, [])"
proof -
  from assms have 1: "dropWhile (\<lambda>c. c = d) tok = tok" by (cases tok) auto
  from assms(1) have 2: "takeWhile (\<lambda>c. c \<noteq> d) tok = tok" by (induction tok) auto
  from assms(1) have 3: "dropWhile (\<lambda>c. c \<noteq> d) tok = []" by (induction tok) auto
  show ?thesis using assms(2) by (simp only: strtok_def Let_def 1 2 3) simp
qed

lemma strtok_no_delim: "strtok d s = (Some t, r) \<Longrightarrow> d \<notin> set t"
  by (auto simp: strtok_def Let_def split: if_splits dest: set_takeWhileD)

section \<open>Decimal numbers\<close>

definition INT_MAX :: int where
  "INT_MAX = 2 ^ 31 - 1"

definition INT_MIN :: int where
  "INT_MIN = - (2 ^ 31)"

definition in_int :: "int \<Rightarrow> bool" where
  "in_int n \<longleftrightarrow> INT_MIN \<le> n \<and> n \<le> INT_MAX"

definition is_digit :: "char \<Rightarrow> bool" where
  "is_digit c \<longleftrightarrow> (48 :: nat) \<le> of_char c \<and> of_char c \<le> (57 :: nat)"

definition is_space :: "char \<Rightarrow> bool" where
  "is_space c \<longleftrightarrow> c = CHR '' '' \<or> ((9 :: nat) \<le> of_char c \<and> of_char c \<le> (13 :: nat))"

definition digit_val :: "char \<Rightarrow> int" where
  "digit_val c = int (of_char c) - 48"

definition digit_char :: "nat \<Rightarrow> char" where
  "digit_char d = char_of (48 + d)"

definition digits_val :: "string \<Rightarrow> int" where
  "digits_val ds = foldl (\<lambda>a c. 10 * a + digit_val c) 0 ds"

text \<open>
  \<open>std::stoi\<close> in base ten, as \<open>strtol\<close> reads it: white space, an optional sign,
  the longest run of digits, anything after them ignored.  No digit throws
  \<open>std::invalid_argument\<close>, a value outside \<open>int\<close> throws \<open>std::out_of_range\<close>.
\<close>

definition stoi :: "string \<Rightarrow> int res" where
  "stoi s =
     (let t = dropWhile is_space s;
          neg = (t \<noteq> [] \<and> hd t = CHR ''-'');
          u = (if t \<noteq> [] \<and> (hd t = CHR ''-'' \<or> hd t = CHR ''+'') then tl t else t);
          ds = takeWhile is_digit u;
          v = (if neg then - digits_val ds else digits_val ds)
      in if ds = [] then Inl (Throw InvalidArgument)
         else if in_int v then Inr v else Inl (Throw OutOfRange))"

function show_nat :: "nat \<Rightarrow> string" where
  "show_nat n = (if n < 10 then [digit_char n] else show_nat (n div 10) @ [digit_char (n mod 10)])"
  by pat_completeness auto
termination
  by (relation "measure (\<lambda>n. n)") auto

declare show_nat.simps [simp del]

definition show_int :: "int \<Rightarrow> string" where
  "show_int n = (if n < 0 then CHR ''-'' # show_nat (nat (- n)) else show_nat (nat n))"

lemma digit_char_digit [simp]: "d < 10 \<Longrightarrow> is_digit (digit_char d)"
  by (simp add: is_digit_def digit_char_def)

lemma digit_val_digit_char [simp]: "d < 10 \<Longrightarrow> digit_val (digit_char d) = int d"
  by (simp add: digit_val_def digit_char_def)

lemma digits_val_snoc: "digits_val (ds @ [c]) = 10 * digits_val ds + digit_val c"
  by (simp add: digits_val_def)

lemma show_nat_digits: "\<forall>c \<in> set (show_nat n). is_digit c"
proof (induction n rule: show_nat.induct)
  case (1 n)
  then show ?case by (subst show_nat.simps) auto
qed

lemma show_nat_nonempty [simp]: "show_nat n \<noteq> []"
  by (subst show_nat.simps) simp

lemma digits_val_show_nat [simp]: "digits_val (show_nat n) = int n"
proof (induction n rule: show_nat.induct)
  case (1 n)
  show ?case
  proof (cases "n < 10")
    case True
    then show ?thesis by (subst show_nat.simps) (simp add: digits_val_def)
  next
    case False
    with 1 have IH: "digits_val (show_nat (n div 10)) = int (n div 10)" by simp
    from False show ?thesis
      by (subst show_nat.simps) (simp add: digits_val_snoc IH zdiv_int zmod_int)
  qed
qed

lemma takeWhile_show_nat: "takeWhile is_digit (show_nat n) = show_nat n"
  using show_nat_digits [of n] by (simp add: takeWhile_eq_all_conv)

lemma digit_not_space_sign:
  assumes "is_digit c"
  shows "\<not> is_space c" "c \<noteq> CHR ''-''" "c \<noteq> CHR ''+''"
  using assms by (auto simp: is_digit_def is_space_def)

lemma show_nat_hd: "is_digit (hd (show_nat n))"
  using show_nat_digits [of n] by (simp add: list.set_sel(1))

lemma dropWhile_space_show_nat: "dropWhile is_space (show_nat n) = show_nat n"
  using show_nat_hd [of n] show_nat_nonempty [of n] digit_not_space_sign(1)
  by (cases "show_nat n") auto

text \<open>Printing and reading an \<open>int\<close> is a round trip.\<close>

lemma stoi_show_int:
  assumes "in_int n"
  shows "stoi (show_int n) = Inr n"
proof (cases "n < 0")
  case True
  have "\<not> is_space (CHR ''-'')" by (simp add: is_space_def)
  with True assms show ?thesis
    by (simp add: stoi_def show_int_def Let_def takeWhile_show_nat)
next
  case False
  with assms show ?thesis
    using digit_not_space_sign [OF show_nat_hd [of "nat n"]]
    by (simp add: stoi_def show_int_def Let_def takeWhile_show_nat dropWhile_space_show_nat)
qed

lemma stoi_in_int: "stoi s = Inr v \<Longrightarrow> in_int v"
  by (auto simp: stoi_def Let_def split: if_splits)

lemma stoi_errors: "stoi s = Inl e \<Longrightarrow> e = Throw InvalidArgument \<or> e = Throw OutOfRange"
  by (auto simp: stoi_def Let_def split: if_splits)

lemma in_int_nonneg: "0 \<le> n \<Longrightarrow> in_int n \<longleftrightarrow> n \<le> INT_MAX"
  by (simp add: in_int_def INT_MIN_def INT_MAX_def)

section \<open>Seven-bit text\<close>

definition ascii :: "string \<Rightarrow> bool" where
  "ascii s \<longleftrightarrow> (\<forall>c \<in> set s. of_char c < (128 :: nat))"

lemma ascii_append [simp]: "ascii (xs @ ys) \<longleftrightarrow> ascii xs \<and> ascii ys"
  by (auto simp: ascii_def)

lemma ascii_filter: "ascii s \<Longrightarrow> ascii (filter P s)"
  by (simp add: ascii_def)

lemma ascii_erase_char: "ascii s \<Longrightarrow> ascii (erase_char c s)"
  by (simp add: erase_char_def ascii_filter)

lemma ascii_text_of: "ascii bs \<Longrightarrow> ascii (text_of bs)"
  by (auto simp: ascii_def text_of_def dest: set_takeWhileD)

lemma terminated_ascii:
  assumes "terminated buf bs = Inr t" and "ascii bs"
  shows "ascii t"
proof (cases "length bs < length buf")
  case True
  with assms show ?thesis by (auto simp: terminated_fits ascii_text_of)
next
  case False
  with assms(1) show ?thesis by (simp add: terminated_def buf_set_def buf_fill_def)
qed

end
