(* ===== verification/Json_Api.thy ===== *)
theory Json_Api
  imports Cxx_Strings
begin

text \<open>
  The interface of the JSON library (\<open>nlohmann::json\<close>, fetched by the build
  and not part of the sources).  Its operations are the fields of a record that
  every definition using JSON takes as an argument; what the program relies on
  is the locale \<open>json_api\<close>, whose assumptions state the documented behaviour of
  these operations.  Two documents that the library compares equal are
  identified.

  \<^item> \<open>jl_get\<close> is the constant \<open>operator[]\<close>: undefined on a missing key, a
    type error on a value that is not an object;
  \<^item> \<open>jl_ref\<close> is the other \<open>operator[]\<close>, which inserts a null under a missing
    key: it returns the document after the insertion and the value referred to;
  \<^item> \<open>jl_set\<close> is \<open>j[k] = v\<close>;
  \<^item> \<open>jl_of_list\<close> builds an object from an initializer list of pairs.
\<close>

record 'j json_lib =
  jl_null :: 'j
  jl_of_int :: "int \<Rightarrow> 'j"
  jl_of_str :: "string \<Rightarrow> 'j"
  jl_of_list :: "(string \<times> 'j) list \<Rightarrow> 'j"
  jl_parse :: "string \<Rightarrow> 'j res"
  jl_dump :: "'j \<Rightarrow> string res"
  jl_contains :: "'j \<Rightarrow> string \<Rightarrow> bool"
  jl_get :: "'j \<Rightarrow> string \<Rightarrow> 'j res"
  jl_ref :: "'j \<Rightarrow> string \<Rightarrow> ('j \<times> 'j) res"
  jl_set :: "'j \<Rightarrow> string \<Rightarrow> 'j \<Rightarrow> 'j res"
  jl_is_null :: "'j \<Rightarrow> bool"
  jl_get_int :: "'j \<Rightarrow> int res"

text \<open>The members of a document, read off the interface.\<close>

definition jlook :: "'j json_lib \<Rightarrow> 'j \<Rightarrow> string \<Rightarrow> 'j option" where
  "jlook J j k =
     (if jl_contains J j k then (case jl_get J j k of Inl e \<Rightarrow> None | Inr v \<Rightarrow> Some v) else None)"

text \<open>
  \<open>obj\<close> holds of JSON objects.  \<open>plain\<close> holds of the documents built from
  nulls, integers, seven-bit strings and objects with seven-bit keys: these are
  the ones that \<open>dump\<close> always writes and \<open>parse\<close> reads back unchanged (a
  string that is not UTF-8 makes \<open>dump\<close> throw, and a NaN is written as null).
\<close>

locale json_api =
  fixes J :: "'j json_lib" and obj :: "'j \<Rightarrow> bool" and plain :: "'j \<Rightarrow> bool"
  assumes contains_obj: "jl_contains J j k \<Longrightarrow> obj j"
    and get_present: "jl_contains J j k \<Longrightarrow> \<exists>v. jl_get J j k = Inr v"
    and get_missing: "obj j \<Longrightarrow> \<not> jl_contains J j k \<Longrightarrow> jl_get J j k = Inl Undefined"
    and get_type: "\<not> obj j \<Longrightarrow> jl_get J j k = Inl (Throw TypeError)"
    and ref_present: "jlook J j k = Some v \<Longrightarrow> jl_ref J j k = Inr (j, v)"
    and ref_missing: "obj j \<or> jl_is_null J j \<Longrightarrow> jlook J j k = None \<Longrightarrow>
        \<exists>j'. jl_ref J j k = Inr (j', jl_null J) \<and> obj j' \<and> jlook J j' = (jlook J j)(k \<mapsto> jl_null J)"
    and ref_type: "\<not> obj j \<Longrightarrow> \<not> jl_is_null J j \<Longrightarrow> jl_ref J j k = Inl (Throw TypeError)"
    and set_member: "obj j \<or> jl_is_null J j \<Longrightarrow>
        \<exists>j'. jl_set J j k v = Inr j' \<and> obj j' \<and> jlook J j' = (jlook J j)(k \<mapsto> v)"
    and set_type: "\<not> obj j \<Longrightarrow> \<not> jl_is_null J j \<Longrightarrow> jl_set J j k v = Inl (Throw TypeError)"
    and of_list_object: "kvs \<noteq> [] \<Longrightarrow> distinct (map fst kvs) \<Longrightarrow>
        obj (jl_of_list J kvs) \<and> jlook J (jl_of_list J kvs) = map_of kvs"
    and null_is_null: "jl_is_null J (jl_null J)"
    and int_not_null: "\<not> jl_is_null J (jl_of_int J n)"
    and obj_not_null: "obj j \<Longrightarrow> \<not> jl_is_null J j"
    and get_int_of_int: "in_int n \<Longrightarrow> jl_get_int J (jl_of_int J n) = Inr n"
    and dump_parse: "plain j \<Longrightarrow> \<exists>t. jl_dump J j = Inr t \<and> jl_parse J t = Inr j"
    and parse_empty: "jl_parse J [] = Inl (Throw ParseError)"
    and plain_null: "plain (jl_null J)"
    and plain_int: "plain (jl_of_int J n)"
    and plain_str: "ascii s \<Longrightarrow> plain (jl_of_str J s)"
    and plain_of_list: "kvs \<noteq> [] \<Longrightarrow> distinct (map fst kvs) \<Longrightarrow>
        (\<And>k v. (k, v) \<in> set kvs \<Longrightarrow> ascii k \<and> plain v) \<Longrightarrow> plain (jl_of_list J kvs)"
    and plain_member: "plain j \<Longrightarrow> jlook J j k = Some v \<Longrightarrow> plain v"
    and plain_set: "plain j \<Longrightarrow> ascii k \<Longrightarrow> plain v \<Longrightarrow> jl_set J j k v = Inr j' \<Longrightarrow> plain j'"
    and plain_ref: "plain j \<Longrightarrow> ascii k \<Longrightarrow> jl_ref J j k = Inr (j', v) \<Longrightarrow> plain j'"
begin

lemma look_obj: "jlook J j k = Some v \<Longrightarrow> obj j"
  by (auto simp: jlook_def dest: contains_obj split: if_splits)

lemma contains_look: "jl_contains J j k \<longleftrightarrow> jlook J j k \<noteq> None"
  by (auto simp: jlook_def dest!: get_present)

lemma get_look: "jlook J j k = Some v \<Longrightarrow> jl_get J j k = Inr v"
  by (auto simp: jlook_def split: if_splits sum.splits)

lemma look_null: "jlook J (jl_null J) k = None"
  using null_is_null obj_not_null look_obj by (cases "jlook J (jl_null J) k") blast+

lemma set_present:
  assumes "obj j"
  obtains j' where "jl_set J j k v = Inr j'" and "obj j'" and "jlook J j' = (jlook J j)(k \<mapsto> v)"
  using set_member [of j k v] assms by blast

lemma set_on_null:
  obtains j' where "jl_set J (jl_null J) k v = Inr j'" and "obj j'" and "jlook J j' = [k \<mapsto> v]"
proof -
  have "jlook J (jl_null J) = Map.empty" by (rule ext) (simp add: look_null)
  with set_member [of "jl_null J" k v] null_is_null that show thesis by auto
qed

lemma dump_ok:
  assumes "plain j"
  obtains t where "jl_dump J j = Inr t" and "jl_parse J t = Inr j"
  using dump_parse [OF assms] by blast

end

end
