(* ===== verification/Kv_Api.thy ===== *)
theory Kv_Api
  imports Prelude
begin

text \<open>
  The interface of the key-value store (\<open>rocksdb::DB\<close>, an external library).
  \<open>kv_get\<close> is \<open>Get\<close>: the value, or the text of a status that is not OK.
  \<open>kv_put\<close> is \<open>Put\<close>: the text of a status that is not OK, or \<open>None\<close>, with the
  store afterwards.  The locale states what a successful \<open>Put\<close> promises.
\<close>

record 'd kv_lib =
  kv_get :: "'d \<Rightarrow> string \<Rightarrow> string + string"
  kv_put :: "'d \<Rightarrow> string \<Rightarrow> string \<Rightarrow> string option \<times> 'd"

locale kv_api =
  fixes K :: "'d kv_lib"
  assumes put_get: "kv_put K d k v = (None, d') \<Longrightarrow> kv_get K d' k = Inr v"
    and put_other: "kv_put K d k v = (None, d') \<Longrightarrow> k' \<noteq> k \<Longrightarrow> kv_get K d' k' = kv_get K d k'"
begin

lemma put_put:
  assumes "kv_put K d k v = (None, d')" and "kv_put K d' k w = (None, d'')"
  shows "kv_get K d'' k = Inr w"
  using assms(2) by (rule put_get)

lemma put_frame:
  assumes "kv_put K d k v = (None, d')"
  shows "kv_get K d' = (kv_get K d)(k := Inr v)"
  by (rule ext) (simp add: put_get [OF assms] put_other [OF assms])

end

text \<open>A store that is open for writing accepts every write and stays open.\<close>

locale kv_writable = kv_api K for K :: "'d kv_lib" +
  fixes open_rw :: "'d \<Rightarrow> bool"
  assumes put_ok: "open_rw d \<Longrightarrow> \<exists>d'. kv_put K d k v = (None, d') \<and> open_rw d'"
begin

lemma put_obtain:
  assumes "open_rw d"
  obtains d' where "kv_put K d k v = (None, d')" and "kv_get K d' k = Inr v" and "open_rw d'"
  using put_ok [OF assms, of k v] put_get by blast

end

section \<open>A reference store\<close>

text \<open>
  A store that keeps its pairs in memory and refuses writes when it has been
  opened read only.  It meets the interface and is what the witnesses run on.
\<close>

record ref_db =
  rd_readonly :: bool
  rd_pairs :: "string \<rightharpoonup> string"

definition ref_get :: "ref_db \<Rightarrow> string \<Rightarrow> string + string" where
  "ref_get d k = (case rd_pairs d k of None \<Rightarrow> Inl ''NotFound: '' | Some v \<Rightarrow> Inr v)"

definition ref_put :: "ref_db \<Rightarrow> string \<Rightarrow> string \<Rightarrow> string option \<times> ref_db" where
  "ref_put d k v =
     (if rd_readonly d then (Some ''Not implemented: Not supported operation in read only mode.'', d)
      else (None, d\<lparr>rd_pairs := (rd_pairs d)(k \<mapsto> v)\<rparr>))"

definition ref_kv :: "ref_db kv_lib" where
  "ref_kv = \<lparr>kv_get = ref_get, kv_put = ref_put\<rparr>"

definition empty_db :: ref_db where
  "empty_db = \<lparr>rd_readonly = False, rd_pairs = Map.empty\<rparr>"

lemma ref_kv_simps [simp]:
  "kv_get ref_kv = ref_get"
  "kv_put ref_kv = ref_put"
  by (simp_all add: ref_kv_def)

definition ref_open :: "ref_db \<Rightarrow> bool" where
  "ref_open d \<longleftrightarrow> \<not> rd_readonly d"

interpretation ref_store: kv_writable ref_kv ref_open
  by unfold_locales (auto simp: ref_get_def ref_put_def ref_open_def split: if_splits)

end
