(* ===== verification/Json_Ref.thy ===== *)
theory Json_Ref
  imports Json_Api
begin

text \<open>
  A JSON implementation that meets the interface of \<open>Json_Api\<close>: documents made
  of nulls, integers, strings and objects, a printer that writes them as JSON
  text on one line, and a reader for that text.  It shows that the laws of the
  interface can hold together, and the witnesses of the development run on it.
  It is not a model of the external library: the properties hold for every
  implementation of the interface.
\<close>

section \<open>Documents\<close>

datatype json = JNull | JInt int | JStr string | JObj members
  and members = MNil | MCons string json members

primrec m_look :: "members \<Rightarrow> string \<Rightarrow> json option" where
  "m_look MNil k = None"
| "m_look (MCons k' v ms) k = (if k' = k then Some v else m_look ms k)"

primrec m_set :: "members \<Rightarrow> string \<Rightarrow> json \<Rightarrow> members" where
  "m_set MNil k v = MCons k v MNil"
| "m_set (MCons k' v' ms) k v = (if k' = k then MCons k v ms else MCons k' v' (m_set ms k v))"

primrec m_of_list :: "(string \<times> json) list \<Rightarrow> members" where
  "m_of_list [] = MNil"
| "m_of_list (kv # kvs) = MCons (fst kv) (snd kv) (m_of_list kvs)"

primrec j_plain :: "json \<Rightarrow> bool" and m_plain :: "members \<Rightarrow> bool" where
  "j_plain JNull = True"
| "j_plain (JInt n) = True"
| "j_plain (JStr s) = ascii s"
| "j_plain (JObj ms) = m_plain ms"
| "m_plain MNil = True"
| "m_plain (MCons k v ms) = (ascii k \<and> j_plain v \<and> m_plain ms)"

fun members_of :: "json \<Rightarrow> members" where
  "members_of (JObj ms) = ms"
| "members_of _ = MNil"

fun is_obj :: "json \<Rightarrow> bool" where
  "is_obj (JObj ms) = True"
| "is_obj _ = False"

text \<open>Induction on a member list alone.\<close>

lemma members_list_induct [case_names nil cons]:
  assumes "P MNil" and "\<And>k v ms. P ms \<Longrightarrow> P (MCons k v ms)"
  shows "P ms"
  by (rule members.induct [of "\<lambda>_. True" P]) (simp_all add: assms)

lemma m_look_set [simp]: "m_look (m_set ms k v) = (m_look ms)(k \<mapsto> v)"
  by (induction ms rule: members_list_induct) auto

lemma m_look_of_list [simp]: "m_look (m_of_list kvs) = map_of kvs"
  by (induction kvs) auto

lemma m_plain_set: "m_plain ms \<Longrightarrow> ascii k \<Longrightarrow> j_plain v \<Longrightarrow> m_plain (m_set ms k v)"
  by (induction ms rule: members_list_induct) auto

lemma m_plain_look: "m_plain ms \<Longrightarrow> m_look ms k = Some v \<Longrightarrow> j_plain v"
  by (induction ms rule: members_list_induct) (auto split: if_splits)

lemma m_plain_of_list:
  "\<forall>(k, v) \<in> set kvs. ascii k \<and> j_plain v \<Longrightarrow> m_plain (m_of_list kvs)"
  by (induction kvs) auto

section \<open>Printing\<close>

text \<open>A quote, a backslash or a control character is written as \<open>\u00hl\<close>.\<close>

definition hex_char :: "nat \<Rightarrow> char" where
  "hex_char d = char_of (if d < 10 then 48 + d else 87 + d)"

definition hex_val :: "char \<Rightarrow> nat" where
  "hex_val c = (if of_char c < (97 :: nat) then of_char c - 48 else of_char c - 87)"

definition must_escape :: "char \<Rightarrow> bool" where
  "must_escape c \<longleftrightarrow> c = CHR 0x22 \<or> c = CHR 0x5C \<or> of_char c < (32 :: nat)"

definition escape_char :: "char \<Rightarrow> string" where
  "escape_char c =
     (if must_escape c
      then CHR 0x5C # ''u00'' @ [hex_char (of_char c div 16), hex_char (of_char c mod 16)]
      else [c])"

definition quote :: "string \<Rightarrow> string" where
  "quote s = CHR 0x22 # concat (map escape_char s) @ [CHR 0x22]"

primrec j_text :: "json \<Rightarrow> string" and m_text :: "members \<Rightarrow> string" where
  "j_text JNull = ''null''"
| "j_text (JInt n) = show_int n"
| "j_text (JStr s) = quote s"
| "j_text (JObj ms) = CHR ''{'' # m_text ms"
| "m_text MNil = ''}''"
| "m_text (MCons k v ms) =
     quote k @ '':'' @ j_text v @ (case ms of MNil \<Rightarrow> [] | MCons _ _ _ \<Rightarrow> '','') @ m_text ms"

section \<open>Reading\<close>

text \<open>The rest of a string literal after its opening quote.\<close>

fun read_string :: "string \<Rightarrow> (string \<times> string) option" where
  "read_string [] = None"
| "read_string (c # cs) =
     (if c = CHR 0x22 then Some ([], cs)
      else if c = CHR 0x5C then
        (case cs of
           u # z1 # z2 # h # l # rest \<Rightarrow>
             (case read_string rest of
                None \<Rightarrow> None
              | Some (s, r) \<Rightarrow> Some (char_of (16 * hex_val h + hex_val l) # s, r))
         | _ \<Rightarrow> None)
      else (case read_string cs of None \<Rightarrow> None | Some (s, r) \<Rightarrow> Some (c # s, r)))"

definition read_int :: "string \<Rightarrow> (int \<times> string) option" where
  "read_int t =
     (let neg = (t \<noteq> [] \<and> hd t = CHR ''-''); u = (if neg then tl t else t);
          ds = takeWhile is_digit u
      in if ds = [] then None
         else Some (if neg then - digits_val ds else digits_val ds, dropWhile is_digit u))"

fun read_value :: "nat \<Rightarrow> string \<Rightarrow> (json \<times> string) option"
  and read_members :: "nat \<Rightarrow> string \<Rightarrow> (members \<times> string) option" where
  "read_value 0 t = None"
| "read_value (Suc f) [] = None"
| "read_value (Suc f) (c # cs) =
     (if c = CHR ''{'' then
        (case read_members f cs of None \<Rightarrow> None | Some (ms, r) \<Rightarrow> Some (JObj ms, r))
      else if c = CHR 0x22 then
        (case read_string cs of None \<Rightarrow> None | Some (s, r) \<Rightarrow> Some (JStr s, r))
      else if c = CHR ''n'' then
        (if take 3 cs = ''ull'' then Some (JNull, drop 3 cs) else None)
      else (case read_int (c # cs) of None \<Rightarrow> None | Some (n, r) \<Rightarrow> Some (JInt n, r)))"
| "read_members 0 t = None"
| "read_members (Suc f) [] = None"
| "read_members (Suc f) (c # cs) =
     (if c = CHR ''}'' then Some (MNil, cs)
      else if c = CHR 0x22 then
        (case read_string cs of
           Some (k, x # r) \<Rightarrow>
             (if x = CHR '':'' then
                (case read_value f r of
                   Some (v, y # r') \<Rightarrow>
                     (if y = CHR '','' then
                        (case read_members f r' of
                           Some (ms, r'') \<Rightarrow> Some (MCons k v ms, r'') | None \<Rightarrow> None)
                      else if y = CHR ''}'' then Some (MCons k v MNil, r') else None)
                 | _ \<Rightarrow> None)
              else None)
         | _ \<Rightarrow> None)
      else None)"

section \<open>Reading back what was printed\<close>

lemma hex_round [simp]: "d < 16 \<Longrightarrow> hex_val (hex_char d) = d"
  by (simp add: hex_val_def hex_char_def)

lemma hex_pair: "char_of (16 * hex_val (hex_char (of_char c div 16)) + hex_val (hex_char (of_char c mod 16))) = c"
proof -
  have "of_char c < (256 :: nat)" by simp
  then have "of_char c div 16 < (16 :: nat)" by (simp add: less_mult_imp_div_less)
  then show ?thesis by simp
qed

lemma read_string_escape:
  "read_string (escape_char c @ t) =
     (case read_string t of None \<Rightarrow> None | Some (s, r) \<Rightarrow> Some (c # s, r))"
  using hex_pair [of c]
  by (auto simp: escape_char_def must_escape_def split: option.splits)

lemma read_string_quoted:
  "read_string (concat (map escape_char s) @ CHR 0x22 # rest) = Some (s, rest)"
  by (induction s) (simp_all add: read_string_escape)

definition ends_number :: "string \<Rightarrow> bool" where
  "ends_number r \<longleftrightarrow> r = [] \<or> \<not> is_digit (hd r)"

lemma takeWhile_number: "ends_number r \<Longrightarrow> takeWhile is_digit (show_nat n @ r) = show_nat n"
  using show_nat_digits [of n] by (cases r) (auto simp: ends_number_def takeWhile_append)

lemma dropWhile_number: "ends_number r \<Longrightarrow> dropWhile is_digit (show_nat n @ r) = r"
  using show_nat_digits [of n] by (cases r) (auto simp: ends_number_def dropWhile_append)

lemma read_int_show:
  assumes "ends_number r"
  shows "read_int (show_int n @ r) = Some (n, r)"
proof (cases "n < 0")
  case True
  with assms show ?thesis
    by (simp add: read_int_def show_int_def Let_def takeWhile_number dropWhile_number)
next
  case False
  have "hd (show_nat (nat n) @ r) \<noteq> CHR ''-''"
    using digit_not_space_sign(2) [OF show_nat_hd [of "nat n"]] by simp
  with False assms show ?thesis
    by (simp add: read_int_def show_int_def Let_def takeWhile_number dropWhile_number)
qed

lemma show_int_start:
  obtains c cs where "show_int n = c # cs" and "c = CHR ''-'' \<or> is_digit c"
proof (cases "n < 0")
  case True
  then show thesis by (intro that [of "CHR ''-''" "show_nat (nat (- n))"]) (simp_all add: show_int_def)
next
  case False
  obtain c cs where "show_nat (nat n) = c # cs" by (cases "show_nat (nat n)") auto
  with False show_nat_hd [of "nat n"] that show thesis by (simp add: show_int_def)
qed

lemma not_digit_chars [simp]:
  "\<not> is_digit (CHR ''{'')" "\<not> is_digit (CHR 0x22)" "\<not> is_digit (CHR ''n'')"
  "\<not> is_digit (CHR '','')" "\<not> is_digit (CHR ''}'')"
  by (simp_all add: is_digit_def)

lemma read_value_int:
  assumes "ends_number r"
  shows "read_value (Suc f) (show_int n @ r) = Some (JInt n, r)"
proof -
  obtain c cs where c: "show_int n = c # cs" "c = CHR ''-'' \<or> is_digit c" by (rule show_int_start)
  then have "c \<noteq> CHR ''{''" "c \<noteq> CHR 0x22" "c \<noteq> CHR ''n''" by auto
  with read_int_show [OF assms, of n] c(1) show ?thesis by simp
qed

lemma quote_length: "0 < length (quote s)"
  by (simp add: quote_def)

lemma read_printed:
  "ends_number r \<Longrightarrow> length (j_text j) \<le> f \<Longrightarrow> read_value (Suc f) (j_text j @ r) = Some (j, r)"
  "length (m_text ms) \<le> f \<Longrightarrow> read_members (Suc f) (m_text ms @ r) = Some (ms, r)"
proof (induction j and ms arbitrary: r f and r f rule: json.induct members.induct)
  case JNull
  then show ?case by simp
next
  case (JInt n)
  then show ?case by (simp add: read_value_int)
next
  case (JStr s)
  then show ?case by (simp add: quote_def read_string_quoted)
next
  case (JObj ms)
  then obtain g where "f = Suc g" "length (m_text ms) \<le> g" by (cases f) auto
  with JObj.IH [of g r] show ?case by simp
next
  case MNil
  then show ?case by simp
next
  case (MCons k v ms)
  let ?sep = "case ms of MNil \<Rightarrow> [] | MCons _ _ _ \<Rightarrow> '',''"
  from MCons.prems obtain g where f: "f = Suc g" by (cases f) (auto simp: quote_def)
  with MCons.prems have lv: "length (j_text v) \<le> g" and lm: "length (m_text ms) \<le> g"
    by (auto simp: quote_def)
  have "ends_number (?sep @ m_text ms @ r)"
    by (cases ms) (simp_all add: ends_number_def)
  from MCons.IH(1) [OF this lv] MCons.IH(2) [OF lm, of r]
  show ?case
    by (cases ms) (simp_all add: f quote_def read_string_quoted)
qed

section \<open>The instance of the interface\<close>

definition ref_dump :: "json \<Rightarrow> string res" where
  "ref_dump j = (if j_plain j then Inr (j_text j) else Inl (Throw TypeError))"

definition ref_parse :: "string \<Rightarrow> json res" where
  "ref_parse t = (case read_value (Suc (length t)) t of
     Some (j, []) \<Rightarrow> Inr j | _ \<Rightarrow> Inl (Throw ParseError))"

definition ref_json :: "json json_lib" where
  "ref_json =
    \<lparr>jl_null = JNull, jl_of_int = JInt, jl_of_str = JStr, jl_of_list = (\<lambda>kvs. JObj (m_of_list kvs)),
     jl_parse = ref_parse, jl_dump = ref_dump,
     jl_contains = (\<lambda>j k. m_look (members_of j) k \<noteq> None),
     jl_get = (\<lambda>j k. if \<not> is_obj j then Inl (Throw TypeError)
        else case m_look (members_of j) k of None \<Rightarrow> Inl Undefined | Some v \<Rightarrow> Inr v),
     jl_ref = (\<lambda>j k. if \<not> is_obj j \<and> j \<noteq> JNull then Inl (Throw TypeError)
        else case m_look (members_of j) k of
               None \<Rightarrow> Inr (JObj (m_set (members_of j) k JNull), JNull) | Some v \<Rightarrow> Inr (j, v)),
     jl_set = (\<lambda>j k v. if \<not> is_obj j \<and> j \<noteq> JNull then Inl (Throw TypeError)
        else Inr (JObj (m_set (members_of j) k v))),
     jl_is_null = (\<lambda>j. j = JNull),
     jl_get_int = (\<lambda>j. case j of JInt n \<Rightarrow> Inr ((n + 2 ^ 31) mod 2 ^ 32 - 2 ^ 31)
        | _ \<Rightarrow> Inl (Throw TypeError))\<rparr>"

lemma ref_json_simps [simp]:
  "jl_null ref_json = JNull" "jl_of_int ref_json = JInt" "jl_of_str ref_json = JStr"
  "jl_of_list ref_json kvs = JObj (m_of_list kvs)"
  "jl_parse ref_json = ref_parse" "jl_dump ref_json = ref_dump"
  "jl_is_null ref_json j \<longleftrightarrow> j = JNull"
  "jl_contains ref_json j k \<longleftrightarrow> m_look (members_of j) k \<noteq> None"
  "jl_get ref_json j k = (if \<not> is_obj j then Inl (Throw TypeError)
     else case m_look (members_of j) k of None \<Rightarrow> Inl Undefined | Some v \<Rightarrow> Inr v)"
  "jl_ref ref_json j k = (if \<not> is_obj j \<and> j \<noteq> JNull then Inl (Throw TypeError)
     else case m_look (members_of j) k of
            None \<Rightarrow> Inr (JObj (m_set (members_of j) k JNull), JNull) | Some v \<Rightarrow> Inr (j, v))"
  "jl_set ref_json j k v = (if \<not> is_obj j \<and> j \<noteq> JNull then Inl (Throw TypeError)
     else Inr (JObj (m_set (members_of j) k v)))"
  by (simp_all add: ref_json_def)

lemma is_obj_iff: "is_obj j \<longleftrightarrow> (\<exists>ms. j = JObj ms)"
  by (cases j) auto

lemma look_is_obj: "m_look (members_of j) k = Some v \<Longrightarrow> is_obj j"
  by (cases j) auto

lemma ref_look: "jlook ref_json j = m_look (members_of j)"
  by (rule ext, cases j) (auto simp: jlook_def split: option.splits)

lemma ref_look_obj [simp]: "jlook ref_json (JObj ms) = m_look ms"
  by (simp add: ref_look)

lemma ref_dump_parse: "j_plain j \<Longrightarrow> jl_dump ref_json j = Inr (j_text j) \<and> jl_parse ref_json (j_text j) = Inr j"
  using read_printed(1) [of "[]" j "length (j_text j)"]
  by (simp add: ref_dump_def ref_parse_def ends_number_def)

lemma ref_get_int: "in_int n \<Longrightarrow> jl_get_int ref_json (JInt n) = Inr n"
  by (simp add: ref_json_def in_int_def INT_MIN_def INT_MAX_def)

interpretation ref_doc: json_api ref_json is_obj j_plain
proof (unfold_locales, goal_cases)
  case (6 j k)
  then show ?case by (cases j) (auto simp: ref_look)
next
  case (8 j k v)
  then show ?case by (cases j) (auto simp: ref_look)
next
  case (14 n)
  then show ?case by (simp add: ref_get_int)
next
  case (15 j)
  then show ?case using ref_dump_parse by blast
next
  case (20 kvs)
  then have "\<forall>(k, v) \<in> set kvs. ascii k \<and> j_plain v" by blast
  then show ?case by (simp add: m_plain_of_list)
next
  case (21 j k v)
  then show ?case by (cases j) (auto simp: ref_look dest: m_plain_look)
next
  case (22 j k v j')
  then show ?case by (cases j) (auto simp: m_plain_set split: if_splits)
next
  case (23 j k j' v)
  then show ?case by (cases j) (auto simp: m_plain_set split: if_splits option.splits)
qed (auto simp: ref_look ref_parse_def dest: look_is_obj split: option.splits)

end
