(* ===== verification/Refuge.thy ===== *)
theory Refuge
  imports Supplies Json_Ref
begin

text \<open>
  What the summary of \<open>Supplies\<close> stands for: the record \<open>refuge\<close>, its
  well-formedness, and the lemmas that each operation of \<open>supplies.cpp\<close>
  implements an operation on that record.  The lemmas live in the locale
  \<open>refuge_env\<close>, which puts the JSON and the store interface together.
\<close>

section \<open>The abstract state\<close>

record refuge =
  alerts :: "string \<rightharpoonup> int"
  food :: "string \<rightharpoonup> int"
  medicine :: "string \<rightharpoonup> int"
  last_keepalived :: string
  last_event :: string

definition alert_keys :: "string set" where
  "alert_keys = {''north_entry'', ''east_entry'', ''west_entry'', ''south_entry''}"

definition food_keys :: "string set" where
  "food_keys = {''meat'', ''vegetables'', ''fruits'', ''water''}"

definition medicine_keys :: "string set" where
  "medicine_keys = {''antibiotics'', ''analgesics'', ''bandages''}"

definition initial_refuge :: refuge where
  "initial_refuge =
    \<lparr>alerts = [''north_entry'' \<mapsto> 0, ''east_entry'' \<mapsto> 0, ''west_entry'' \<mapsto> 0, ''south_entry'' \<mapsto> 0],
     food = [''meat'' \<mapsto> 100, ''vegetables'' \<mapsto> 100, ''fruits'' \<mapsto> 100, ''water'' \<mapsto> 100],
     medicine = [''antibiotics'' \<mapsto> 100, ''analgesics'' \<mapsto> 100, ''bandages'' \<mapsto> 100],
     last_keepalived = ''NONE'', last_event = ''NONE''\<rparr>"

text \<open>Every quantity is present, is an \<open>int\<close> and is not negative; the texts are seven-bit.\<close>

definition counts_ok :: "string set \<Rightarrow> (string \<rightharpoonup> int) \<Rightarrow> bool" where
  "counts_ok ks m \<longleftrightarrow> dom m = ks \<and> (\<forall>k v. m k = Some v \<longrightarrow> 0 \<le> v \<and> v \<le> INT_MAX)"

definition refuge_wf :: "refuge \<Rightarrow> bool" where
  "refuge_wf r \<longleftrightarrow> counts_ok alert_keys (alerts r) \<and> counts_ok food_keys (food r) \<and>
     counts_ok medicine_keys (medicine r) \<and> ascii (last_keepalived r) \<and> ascii (last_event r)"

definition known_supply :: "refuge \<Rightarrow> string \<Rightarrow> bool" where
  "known_supply r key \<longleftrightarrow> key \<in> dom (food r) \<union> dom (medicine r)"

definition set_supply :: "string \<Rightarrow> int \<Rightarrow> refuge \<Rightarrow> refuge" where
  "set_supply key v r =
     (if key \<in> dom (food r) then r\<lparr>food := (food r)(key \<mapsto> v)\<rparr>
      else if key \<in> dom (medicine r) then r\<lparr>medicine := (medicine r)(key \<mapsto> v)\<rparr>
      else r)"

definition count_alert :: "string \<Rightarrow> refuge \<Rightarrow> refuge" where
  "count_alert entry r = (case alerts r entry of None \<Rightarrow> r | Some n \<Rightarrow> r\<lparr>alerts := (alerts r)(entry \<mapsto> n + 1)\<rparr>)"

definition note_emergency :: "string \<Rightarrow> string \<Rightarrow> refuge \<Rightarrow> refuge" where
  "note_emergency timestamp message r =
     r\<lparr>last_keepalived := timestamp, last_event := erase_char (CHR 0x0A) message\<rparr>"

text \<open>The quantities of the initial state as the initializer lists of the code give them.\<close>

definition food_list :: "(string \<times> int) list" where
  "food_list = [(''meat'', 100), (''vegetables'', 100), (''fruits'', 100), (''water'', 100)]"

definition medicine_list :: "(string \<times> int) list" where
  "medicine_list = [(''antibiotics'', 100), (''analgesics'', 100), (''bandages'', 100)]"

lemma food_list_map: "map_of food_list = food initial_refuge"
  by (rule ext) (simp add: food_list_def initial_refuge_def)

lemma medicine_list_map: "map_of medicine_list = medicine initial_refuge"
  by (rule ext) (simp add: medicine_list_def initial_refuge_def)

lemma initial_lists:
  "food_list \<noteq> []" "distinct (map fst food_list)"
  "medicine_list \<noteq> []" "distinct (map fst medicine_list)"
  by (simp_all add: food_list_def medicine_list_def)

lemma initial_refuge_wf: "refuge_wf initial_refuge"
  by (auto simp: refuge_wf_def initial_refuge_def counts_ok_def alert_keys_def food_keys_def
        medicine_keys_def INT_MAX_def ascii_def split: if_splits)

lemma counts_ok_upd: "counts_ok ks m \<Longrightarrow> k \<in> ks \<Longrightarrow> 0 \<le> v \<Longrightarrow> v \<le> INT_MAX \<Longrightarrow> counts_ok ks (m(k \<mapsto> v))"
  by (auto simp: counts_ok_def)

lemma set_supply_wf: "refuge_wf r \<Longrightarrow> 0 \<le> v \<Longrightarrow> v \<le> INT_MAX \<Longrightarrow> refuge_wf (set_supply key v r)"
  by (auto simp: refuge_wf_def set_supply_def intro!: counts_ok_upd) (auto simp: counts_ok_def)

lemma count_alert_wf:
  assumes "refuge_wf r" and "\<And>n. alerts r entry = Some n \<Longrightarrow> n < INT_MAX"
  shows "refuge_wf (count_alert entry r)"
  using assms
  by (auto simp: refuge_wf_def count_alert_def counts_ok_def split: option.splits)

lemma note_emergency_wf: "refuge_wf r \<Longrightarrow> ascii ts \<Longrightarrow> ascii msg \<Longrightarrow> refuge_wf (note_emergency ts msg r)"
  by (simp add: refuge_wf_def note_emergency_def ascii_erase_char)

section \<open>What a document and a store represent\<close>

definition counts_doc :: "'j json_lib \<Rightarrow> ('j \<Rightarrow> bool) \<Rightarrow> 'j \<Rightarrow> (string \<rightharpoonup> int) \<Rightarrow> bool" where
  "counts_doc J obj j m \<longleftrightarrow> obj j \<and> jlook J j = (\<lambda>k. map_option (jl_of_int J) (m k))"

definition summary_doc :: "'j json_lib \<Rightarrow> ('j \<Rightarrow> bool) \<Rightarrow> ('j \<Rightarrow> bool) \<Rightarrow> 'j \<Rightarrow> refuge \<Rightarrow> bool" where
  "summary_doc J obj plain j r \<longleftrightarrow> plain j \<and> obj j \<and>
     (\<exists>a s f m e. jlook J j = [''alerts'' \<mapsto> a, ''supplies'' \<mapsto> s, ''emergency'' \<mapsto> e] \<and>
        counts_doc J obj a (alerts r) \<and>
        obj s \<and> jlook J s = [''food'' \<mapsto> f, ''medicine'' \<mapsto> m] \<and>
        counts_doc J obj f (food r) \<and> counts_doc J obj m (medicine r) \<and>
        obj e \<and> jlook J e = [''last_keepalived'' \<mapsto> jl_of_str J (last_keepalived r),
                             ''last_event'' \<mapsto> jl_of_str J (last_event r)])"

lemma summary_docI:
  assumes "plain j" "obj j" "jlook J j = [''alerts'' \<mapsto> a, ''supplies'' \<mapsto> s, ''emergency'' \<mapsto> e]"
    and "counts_doc J obj a (alerts r)"
    and "obj s" "jlook J s = [''food'' \<mapsto> f, ''medicine'' \<mapsto> m]"
    and "counts_doc J obj f (food r)" "counts_doc J obj m (medicine r)"
    and "obj e" "jlook J e = [''last_keepalived'' \<mapsto> jl_of_str J (last_keepalived r),
                             ''last_event'' \<mapsto> jl_of_str J (last_event r)]"
  shows "summary_doc J obj plain j r"
  using assms unfolding summary_doc_def by blast

lemma summary_docE:
  assumes "summary_doc J obj plain j r"
  obtains a s f m e where "plain j" "obj j"
    and "jlook J j = [''alerts'' \<mapsto> a, ''supplies'' \<mapsto> s, ''emergency'' \<mapsto> e]"
    and "counts_doc J obj a (alerts r)"
    and "obj s" "jlook J s = [''food'' \<mapsto> f, ''medicine'' \<mapsto> m]"
    and "counts_doc J obj f (food r)" "counts_doc J obj m (medicine r)"
    and "obj e" "jlook J e = [''last_keepalived'' \<mapsto> jl_of_str J (last_keepalived r),
                             ''last_event'' \<mapsto> jl_of_str J (last_event r)]"
  using assms unfolding summary_doc_def by blast

definition store_holds ::
    "'j json_lib \<Rightarrow> 'd kv_lib \<Rightarrow> ('j \<Rightarrow> bool) \<Rightarrow> ('j \<Rightarrow> bool) \<Rightarrow> 'd \<Rightarrow> refuge \<Rightarrow> bool" where
  "store_holds J K obj plain d r \<longleftrightarrow>
     (\<exists>t j. kv_get K d summary_key = Inr t \<and> jl_parse J t = Inr j \<and> summary_doc J obj plain j r)"

lemma ascii_keys [simp]:
  "ascii ''alerts''" "ascii ''supplies''" "ascii ''emergency''" "ascii ''food''" "ascii ''medicine''"
  "ascii ''last_keepalived''" "ascii ''last_event''" "ascii ''NONE''"
  "ascii ''north_entry''" "ascii ''east_entry''" "ascii ''west_entry''" "ascii ''south_entry''"
  "ascii ''meat''" "ascii ''vegetables''" "ascii ''fruits''" "ascii ''water''"
  "ascii ''antibiotics''" "ascii ''analgesics''" "ascii ''bandages''"
  by (simp_all add: ascii_def)

section \<open>The operations implement the abstract ones\<close>

locale refuge_env = json_api J obj plain + kv_writable K open_rw
  for J :: "'j json_lib" and obj plain and K :: "'d kv_lib" and open_rw
begin

lemma counts_doc_set:
  assumes "counts_doc J obj a m" and "jl_set J a k (jl_of_int J v) = Inr a'"
  shows "counts_doc J obj a' (m(k \<mapsto> v))"
  using assms set_member [of a k "jl_of_int J v"] by (auto simp: counts_doc_def fun_eq_iff)

text \<open>A write through one reference into an object that is there.\<close>

lemma set2_present:
  assumes "obj j" and "jlook J j k1 = Some a" and "obj a"
  obtains a' j' where "jl_set J a k2 v = Inr a'" and "obj a'" and "jlook J a' = (jlook J a)(k2 \<mapsto> v)"
    and "json_set2 J j k1 k2 v = Inr j'" and "obj j'" and "jlook J j' = (jlook J j)(k1 \<mapsto> a')"
    and "plain j \<Longrightarrow> plain v \<Longrightarrow> ascii k1 \<Longrightarrow> ascii k2 \<Longrightarrow> plain j'"
proof -
  obtain a' where a': "jl_set J a k2 v = Inr a'" "obj a'" "jlook J a' = (jlook J a)(k2 \<mapsto> v)"
    using set_present [OF assms(3)] by blast
  obtain j' where j': "jl_set J j k1 a' = Inr j'" "obj j'" "jlook J j' = (jlook J j)(k1 \<mapsto> a')"
    using set_present [OF assms(1)] by blast
  have "plain j'" if "plain j" "plain v" "ascii k1" "ascii k2"
    using that plain_set plain_member [OF _ assms(2)] a'(1) j'(1) by blast
  moreover have "json_set2 J j k1 k2 v = Inr j'"
    by (simp add: json_set2_def ref_present [OF assms(2)] a'(1) j'(1))
  ultimately show thesis using that a' j'(2,3) by blast
qed

text \<open>The same write when the first key is missing: the reference inserts it.\<close>

lemma set2_missing:
  assumes "obj j \<or> jl_is_null J j" and "jlook J j k1 = None"
  obtains a' j' where "obj a'" and "jlook J a' = [k2 \<mapsto> v]"
    and "json_set2 J j k1 k2 v = Inr j'" and "obj j'" and "jlook J j' = (jlook J j)(k1 \<mapsto> a')"
    and "plain j \<Longrightarrow> plain v \<Longrightarrow> ascii k1 \<Longrightarrow> ascii k2 \<Longrightarrow> plain j'"
proof -
  obtain j1 where j1: "jl_ref J j k1 = Inr (j1, jl_null J)" "obj j1"
      "jlook J j1 = (jlook J j)(k1 \<mapsto> jl_null J)"
    using ref_missing [OF assms] by blast
  obtain a' where a': "jl_set J (jl_null J) k2 v = Inr a'" "obj a'" "jlook J a' = [k2 \<mapsto> v]"
    using set_on_null by blast
  obtain j' where j': "jl_set J j1 k1 a' = Inr j'" "obj j'" "jlook J j' = (jlook J j1)(k1 \<mapsto> a')"
    using set_present [OF j1(2)] by blast
  have "plain j'" if "plain j" "plain v" "ascii k1" "ascii k2"
    using that plain_ref [OF _ _ j1(1)] plain_set [OF plain_null _ _ a'(1)] plain_set [OF _ _ _ j'(1)]
    by blast
  moreover have "json_set2 J j k1 k2 v = Inr j'" by (simp add: json_set2_def j1(1) a'(1) j'(1))
  moreover have "jlook J j' = (jlook J j)(k1 \<mapsto> a')" by (simp add: j'(3) j1(3))
  ultimately show thesis using that a'(2,3) j'(2) by blast
qed

text \<open>Writing a document and reading it back.\<close>

lemma store_summary_writes:
  assumes "plain j" and "open_rw (db s)"
  obtains t d' where "store_summary J K j s = (Inr True, s\<lparr>db := d'\<rparr>)"
    and "kv_get K d' summary_key = Inr t" and "jl_parse J t = Inr j" and "open_rw d'"
proof -
  obtain t where t: "jl_dump J j = Inr t" "jl_parse J t = Inr j" using dump_ok [OF assms(1)] .
  obtain d' where p: "kv_put K (db s) summary_key t = (None, d')" "kv_get K d' summary_key = Inr t" "open_rw d'"
    using assms(2) by (rule put_obtain)
  have "store_summary J K j s = (Inr True, s\<lparr>db := d'\<rparr>)"
    by (simp add: store_summary_def put_value_def t(1) p(1))
  then show thesis using p(2) t(2) p(3) by (rule that)
qed

lemma with_summary_reads:
  assumes "store_holds J K obj plain (db s) r"
  obtains j where "summary_doc J obj plain j r" and "\<forall>body. with_summary J K body s = body j s"
  using assms by (auto simp: store_holds_def with_summary_def after_read_def get_value_def parse_state_summary_def)

lemma store_holdsI:
  "kv_get K d summary_key = Inr t \<Longrightarrow> jl_parse J t = Inr j \<Longrightarrow> summary_doc J obj plain j r
   \<Longrightarrow> store_holds J K obj plain d r"
  unfolding store_holds_def by blast

end

subsection \<open>The initial summary\<close>

context refuge_env begin

lemma initial_alerts:
  obtains j a where
    "rbind (json_set2 J (jl_null J) ''alerts'' ''north_entry'' (jl_of_int J 0)) (\<lambda>j.
     rbind (json_set2 J j ''alerts'' ''east_entry'' (jl_of_int J 0)) (\<lambda>j.
     rbind (json_set2 J j ''alerts'' ''west_entry'' (jl_of_int J 0)) (\<lambda>j.
     rbind (json_set2 J j ''alerts'' ''south_entry'' (jl_of_int J 0)) g))) = g j"
    and "plain j" and "obj j" and "jlook J j = [''alerts'' \<mapsto> a]"
    and "counts_doc J obj a (alerts initial_refuge)"
proof -
  note P = plain_int [of 0]
  have n: "jlook J (jl_null J) = Map.empty" by (rule ext) (rule look_null)
  obtain a1 j1 where 1: "obj a1" "jlook J a1 = [''north_entry'' \<mapsto> jl_of_int J 0]"
      "json_set2 J (jl_null J) ''alerts'' ''north_entry'' (jl_of_int J 0) = Inr j1"
      "obj j1" "jlook J j1 = [''alerts'' \<mapsto> a1]" "plain j1"
    by (rule set2_missing [of "jl_null J" "''alerts''" "''north_entry''" "jl_of_int J 0"])
       (auto simp: null_is_null look_null plain_null P n)
  obtain a2 j2 where 2: "obj a2" "jlook J a2 = (jlook J a1)(''east_entry'' \<mapsto> jl_of_int J 0)"
      "json_set2 J j1 ''alerts'' ''east_entry'' (jl_of_int J 0) = Inr j2"
      "obj j2" "jlook J j2 = [''alerts'' \<mapsto> a2]" "plain j2"
    by (rule set2_present [of j1 "''alerts''" a1 "''east_entry''" "jl_of_int J 0"]) (auto simp: 1 P)
  obtain a3 j3 where 3: "obj a3" "jlook J a3 = (jlook J a2)(''west_entry'' \<mapsto> jl_of_int J 0)"
      "json_set2 J j2 ''alerts'' ''west_entry'' (jl_of_int J 0) = Inr j3"
      "obj j3" "jlook J j3 = [''alerts'' \<mapsto> a3]" "plain j3"
    by (rule set2_present [of j2 "''alerts''" a2 "''west_entry''" "jl_of_int J 0"]) (auto simp: 2 P)
  obtain a4 j4 where 4: "obj a4" "jlook J a4 = (jlook J a3)(''south_entry'' \<mapsto> jl_of_int J 0)"
      "json_set2 J j3 ''alerts'' ''south_entry'' (jl_of_int J 0) = Inr j4"
      "obj j4" "jlook J j4 = [''alerts'' \<mapsto> a4]" "plain j4"
    by (rule set2_present [of j3 "''alerts''" a3 "''south_entry''" "jl_of_int J 0"]) (auto simp: 3 P)
  have "counts_doc J obj a4 (alerts initial_refuge)"
    by (auto simp: counts_doc_def initial_refuge_def 1(2) 2(2) 3(2) 4(1,2))
  with 4 show thesis by (intro that [of j4 a4]) (simp_all add: 1(3) 2(3) 3(3))
qed

lemma counts_of_list:
  assumes "kvs \<noteq> []" and "distinct (map fst kvs)"
  shows "counts_doc J obj (jl_of_list J (map (\<lambda>kv. (fst kv, jl_of_int J (snd kv))) kvs)) (map_of kvs)"
proof -
  let ?l = "map (\<lambda>kv. (fst kv, jl_of_int J (snd kv))) kvs"
  have "map fst ?l = map fst kvs" by simp
  with assms have "obj (jl_of_list J ?l)" "jlook J (jl_of_list J ?l) = map_of ?l"
    using of_list_object [of ?l] by (simp_all add: comp_def)
  moreover have "map_of ?l = (\<lambda>k. map_option (jl_of_int J) (map_of kvs k))"
    by (induction kvs) auto
  ultimately show ?thesis by (simp add: counts_doc_def)
qed

lemma plain_counts_list:
  assumes "kvs \<noteq> []" and "distinct (map fst kvs)" and "\<forall>kv \<in> set kvs. ascii (fst kv)"
  shows "plain (jl_of_list J (map (\<lambda>kv. (fst kv, jl_of_int J (snd kv))) kvs))"
  using assms by (intro plain_of_list) (auto simp: comp_def plain_int)

lemma initial_supplies:
  fixes f m :: 'j
  assumes "plain j" and "obj j" and "jlook J j = [''alerts'' \<mapsto> a]" and "plain f" and "plain m"
  obtains j' s where
    "rbind (json_set2 J j ''supplies'' ''food'' f) (\<lambda>j.
     rbind (json_set2 J j ''supplies'' ''medicine'' m) g) = g j'"
    and "plain j'" and "obj j'" and "jlook J j' = [''alerts'' \<mapsto> a, ''supplies'' \<mapsto> s]"
    and "obj s" and "jlook J s = [''food'' \<mapsto> f, ''medicine'' \<mapsto> m]"
proof -
  obtain s1 j1 where 1: "obj s1" "jlook J s1 = [''food'' \<mapsto> f]"
      "json_set2 J j ''supplies'' ''food'' f = Inr j1"
      "obj j1" "jlook J j1 = [''alerts'' \<mapsto> a, ''supplies'' \<mapsto> s1]" "plain j1"
    by (rule set2_missing [of j "''supplies''" "''food''" f]) (auto simp: assms)
  obtain s2 j2 where 2: "obj s2" "jlook J s2 = (jlook J s1)(''medicine'' \<mapsto> m)"
      "json_set2 J j1 ''supplies'' ''medicine'' m = Inr j2"
      "obj j2" "jlook J j2 = [''alerts'' \<mapsto> a, ''supplies'' \<mapsto> s2]" "plain j2"
    by (rule set2_present [of j1 "''supplies''" s1 "''medicine''" m]) (auto simp: 1 assms)
  show thesis by (rule that [of j2 s2]) (simp_all add: 1 2)
qed

lemma initial_emergency:
  assumes "plain j" and "obj j" and "jlook J j = [''alerts'' \<mapsto> a, ''supplies'' \<mapsto> s]"
  obtains j' e where
    "rbind (json_set2 J j ''emergency'' ''last_keepalived'' (jl_of_str J ''NONE'')) (\<lambda>j.
     json_set2 J j ''emergency'' ''last_event'' (jl_of_str J ''NONE'')) = Inr j'"
    and "plain j'" and "obj j'" and "jlook J j' = [''alerts'' \<mapsto> a, ''supplies'' \<mapsto> s, ''emergency'' \<mapsto> e]"
    and "obj e" and "jlook J e = [''last_keepalived'' \<mapsto> jl_of_str J ''NONE'', ''last_event'' \<mapsto> jl_of_str J ''NONE'']"
proof -
  note P = plain_str [of "''NONE''", simplified]
  obtain e1 j1 where 1: "obj e1" "jlook J e1 = [''last_keepalived'' \<mapsto> jl_of_str J ''NONE'']"
      "json_set2 J j ''emergency'' ''last_keepalived'' (jl_of_str J ''NONE'') = Inr j1"
      "obj j1" "jlook J j1 = [''alerts'' \<mapsto> a, ''supplies'' \<mapsto> s, ''emergency'' \<mapsto> e1]" "plain j1"
    by (rule set2_missing [of j "''emergency''" "''last_keepalived''" "jl_of_str J ''NONE''"])
       (auto simp: assms P)
  obtain e2 j2 where 2: "obj e2" "jlook J e2 = (jlook J e1)(''last_event'' \<mapsto> jl_of_str J ''NONE'')"
      "json_set2 J j1 ''emergency'' ''last_event'' (jl_of_str J ''NONE'') = Inr j2"
      "obj j2" "jlook J j2 = [''alerts'' \<mapsto> a, ''supplies'' \<mapsto> s, ''emergency'' \<mapsto> e2]" "plain j2"
    by (rule set2_present [of j1 "''emergency''" e1 "''last_event''" "jl_of_str J ''NONE''"])
       (auto simp: 1 P)
  show thesis by (rule that [of j2 e2]) (simp_all add: 1 2)
qed

lemma initial_document:
  obtains j where "create_initial_state_summary J = Inr j" and "summary_doc J obj plain j initial_refuge"
proof -
  let ?f = "jl_of_list J (map (\<lambda>kv. (fst kv, jl_of_int J (snd kv))) food_list)"
  let ?m = "jl_of_list J (map (\<lambda>kv. (fst kv, jl_of_int J (snd kv))) medicine_list)"
  have f: "counts_doc J obj ?f (food initial_refuge)" "plain ?f"
    using counts_of_list [OF initial_lists(1,2)] plain_counts_list [OF initial_lists(1,2)]
    by (simp_all add: food_list_map) (simp add: food_list_def)
  have m: "counts_doc J obj ?m (medicine initial_refuge)" "plain ?m"
    using counts_of_list [OF initial_lists(3,4)] plain_counts_list [OF initial_lists(3,4)]
    by (simp_all add: medicine_list_map) (simp add: medicine_list_def)
  define g3 where "g3 = (\<lambda>j. rbind (json_set2 J j ''emergency'' ''last_keepalived'' (jl_of_str J ''NONE'')) (\<lambda>j.
     json_set2 J j ''emergency'' ''last_event'' (jl_of_str J ''NONE'')))"
  define g2 where "g2 = (\<lambda>j. rbind (json_set2 J j ''supplies'' ''food'' ?f) (\<lambda>j.
     rbind (json_set2 J j ''supplies'' ''medicine'' ?m) g3))"
  obtain j1 a where 1: "create_initial_state_summary J = g2 j1"
      "plain j1" "obj j1" "jlook J j1 = [''alerts'' \<mapsto> a]" "counts_doc J obj a (alerts initial_refuge)"
    by (rule initial_alerts [of g2])
       (simp add: create_initial_state_summary_def g2_def g3_def food_list_def medicine_list_def)
  obtain j2 s where 2: "g2 j1 = g3 j2" "plain j2" "obj j2"
      "jlook J j2 = [''alerts'' \<mapsto> a, ''supplies'' \<mapsto> s]" "obj s" "jlook J s = [''food'' \<mapsto> ?f, ''medicine'' \<mapsto> ?m]"
    by (rule initial_supplies [OF 1(2-4) f(2) m(2), of g3]) (simp add: g2_def)
  obtain j3 e where 3: "g3 j2 = Inr j3" "plain j3" "obj j3"
      "jlook J j3 = [''alerts'' \<mapsto> a, ''supplies'' \<mapsto> s, ''emergency'' \<mapsto> e]" "obj e"
      "jlook J e = [''last_keepalived'' \<mapsto> jl_of_str J ''NONE'', ''last_event'' \<mapsto> jl_of_str J ''NONE'']"
    by (rule initial_emergency [OF 2(2-4)]) (simp add: g3_def)
  have "summary_doc J obj plain j3 initial_refuge"
  proof (rule summary_docI)
    show "jlook J e = [''last_keepalived'' \<mapsto> jl_of_str J (last_keepalived initial_refuge),
        ''last_event'' \<mapsto> jl_of_str J (last_event initial_refuge)]"
      by (simp add: 3(6) initial_refuge_def)
  qed (fact 1 2 3 f m)+
  with 1(1) 2(1) 3(1) that show thesis by simp
qed

lemma create_state_summary_holds:
  assumes "open_rw (db s)"
  obtains d' where "create_state_summary J K s = (Inr (), s\<lparr>db := d'\<rparr>)"
    and "store_holds J K obj plain d' initial_refuge" and "open_rw d'"
proof -
  obtain j where j: "create_initial_state_summary J = Inr j" "summary_doc J obj plain j initial_refuge"
    by (rule initial_document)
  then have "plain j" by (simp add: summary_doc_def)
  then obtain t where t: "jl_dump J j = Inr t" "jl_parse J t = Inr j" by (rule dump_ok)
  obtain d' where p: "kv_put K (db s) summary_key t = (None, d')" "kv_get K d' summary_key = Inr t" "open_rw d'"
    using assms by (rule put_obtain)
  have "create_state_summary J K s = (Inr (), s\<lparr>db := d'\<rparr>)"
    by (simp add: create_state_summary_def put_value_def j(1) t(1) p(1))
  moreover have "store_holds J K obj plain d' initial_refuge"
    by (rule store_holdsI [OF p(2) t(2) j(2)])
  ultimately show thesis using p(3) by (rule that)
qed

end

subsection \<open>modify_supplies\<close>

lemma wf_ascii:
  assumes "refuge_wf r"
  shows "k \<in> dom (food r) \<Longrightarrow> ascii k" "k \<in> dom (medicine r) \<Longrightarrow> ascii k"
  using assms by (auto simp: refuge_wf_def counts_ok_def food_keys_def medicine_keys_def)

context refuge_env begin

lemma counts_doc_contains:
  assumes "counts_doc J obj a m"
  shows "jl_contains J a k \<longleftrightarrow> k \<in> dom m"
  using assms by (auto simp: contains_look counts_doc_def)

lemma has_supply_doc:
  assumes "summary_doc J obj plain j r"
  shows "has_supply J j ''food'' k = Inr (k \<in> dom (food r))"
    and "has_supply J j ''medicine'' k = Inr (k \<in> dom (medicine r))"
proof -
  from assms obtain a s f m e where
    d: "jlook J j = [''alerts'' \<mapsto> a, ''supplies'' \<mapsto> s, ''emergency'' \<mapsto> e]"
       "jlook J s = [''food'' \<mapsto> f, ''medicine'' \<mapsto> m]"
       "counts_doc J obj f (food r)" "counts_doc J obj m (medicine r)"
    by (rule summary_docE)
  then have r: "jl_ref J j ''supplies'' = Inr (j, s)" "jl_ref J s ''food'' = Inr (s, f)"
      "jl_ref J s ''medicine'' = Inr (s, m)" "jl_contains J s ''food''" "jl_contains J s ''medicine''"
    by (auto intro!: ref_present simp: contains_look)
  show "has_supply J j ''food'' k = Inr (k \<in> dom (food r))"
    and "has_supply J j ''medicine'' k = Inr (k \<in> dom (medicine r))"
    using d(3,4) by (simp_all add: has_supply_def r counts_doc_contains)
qed

text \<open>The chained write \<open>j[k1][k2][k3] = n\<close> into counts that are there.\<close>

lemma set3_counts:
  assumes "plain j" "obj j" "jlook J j k1 = Some s" "obj s" "jlook J s k2 = Some f"
    and "counts_doc J obj f c" and "ascii k1" "ascii k2" "ascii k3"
  obtains j' s' f' where "json_set3 J j k1 k2 k3 (jl_of_int J n) = Inr j'" "plain j'" "obj j'"
    and "jlook J j' = (jlook J j)(k1 \<mapsto> s')" "obj s'" "jlook J s' = (jlook J s)(k2 \<mapsto> f')"
    and "counts_doc J obj f' (c(k3 \<mapsto> n))"
proof -
  have "obj f" using assms(6) by (simp add: counts_doc_def)
  with assms obtain f' s' where 1: "jl_set J f k3 (jl_of_int J n) = Inr f'"
      "json_set2 J s k2 k3 (jl_of_int J n) = Inr s'" "obj s'" "jlook J s' = (jlook J s)(k2 \<mapsto> f')"
      "plain s \<Longrightarrow> plain (jl_of_int J n) \<Longrightarrow> ascii k2 \<Longrightarrow> ascii k3 \<Longrightarrow> plain s'"
    using set2_present [of s k2 f k3 "jl_of_int J n"] by metis
  obtain j' where 2: "jl_set J j k1 s' = Inr j'" "obj j'" "jlook J j' = (jlook J j)(k1 \<mapsto> s')"
    using set_present [OF assms(2)] by blast
  have "plain s'" using 1(5) plain_member [OF assms(1,3)] plain_int assms(8,9) by blast
  with 2(1) assms(1,7) have "plain j'" by (blast intro: plain_set)
  moreover have "json_set3 J j k1 k2 k3 (jl_of_int J n) = Inr j'"
    by (simp add: json_set3_def ref_present [OF assms(3)] 1(2) 2(1))
  moreover have "counts_doc J obj f' (c(k3 \<mapsto> n))" by (rule counts_doc_set [OF assms(6) 1(1)])
  ultimately show thesis using that 1(3,4) 2(2,3) by blast
qed

lemma set_food_doc:
  assumes "summary_doc J obj plain j r" and "ascii k"
  obtains j' where "json_set3 J j ''supplies'' ''food'' k (jl_of_int J n) = Inr j'"
    and "summary_doc J obj plain j' (r\<lparr>food := (food r)(k \<mapsto> n)\<rparr>)"
proof -
  from assms(1) obtain a s f m e where d: "plain j" "obj j"
      "jlook J j = [''alerts'' \<mapsto> a, ''supplies'' \<mapsto> s, ''emergency'' \<mapsto> e]" "counts_doc J obj a (alerts r)"
      "obj s" "jlook J s = [''food'' \<mapsto> f, ''medicine'' \<mapsto> m]"
      "counts_doc J obj f (food r)" "counts_doc J obj m (medicine r)" "obj e"
      "jlook J e = [''last_keepalived'' \<mapsto> jl_of_str J (last_keepalived r),
                   ''last_event'' \<mapsto> jl_of_str J (last_event r)]"
    by (rule summary_docE)
  then obtain j' s' f' where u: "json_set3 J j ''supplies'' ''food'' k (jl_of_int J n) = Inr j'"
      "plain j'" "obj j'" "jlook J j' = (jlook J j)(''supplies'' \<mapsto> s')" "obj s'"
      "jlook J s' = (jlook J s)(''food'' \<mapsto> f')" "counts_doc J obj f' ((food r)(k \<mapsto> n))"
    using set3_counts [of j "''supplies''" s "''food''" f "food r" k n] assms(2) by auto
  have "summary_doc J obj plain j' (r\<lparr>food := (food r)(k \<mapsto> n)\<rparr>)"
    by (rule summary_docI [where a = a and s = s' and e = e and f = f' and m = m])
       (use d u in auto)
  with u(1) show thesis by (rule that)
qed

lemma set_medicine_doc:
  assumes "summary_doc J obj plain j r" and "ascii k"
  obtains j' where "json_set3 J j ''supplies'' ''medicine'' k (jl_of_int J n) = Inr j'"
    and "summary_doc J obj plain j' (r\<lparr>medicine := (medicine r)(k \<mapsto> n)\<rparr>)"
proof -
  from assms(1) obtain a s f m e where d: "plain j" "obj j"
      "jlook J j = [''alerts'' \<mapsto> a, ''supplies'' \<mapsto> s, ''emergency'' \<mapsto> e]" "counts_doc J obj a (alerts r)"
      "obj s" "jlook J s = [''food'' \<mapsto> f, ''medicine'' \<mapsto> m]"
      "counts_doc J obj f (food r)" "counts_doc J obj m (medicine r)" "obj e"
      "jlook J e = [''last_keepalived'' \<mapsto> jl_of_str J (last_keepalived r),
                   ''last_event'' \<mapsto> jl_of_str J (last_event r)]"
    by (rule summary_docE)
  then obtain j' s' m' where u: "json_set3 J j ''supplies'' ''medicine'' k (jl_of_int J n) = Inr j'"
      "plain j'" "obj j'" "jlook J j' = (jlook J j)(''supplies'' \<mapsto> s')" "obj s'"
      "jlook J s' = (jlook J s)(''medicine'' \<mapsto> m')" "counts_doc J obj m' ((medicine r)(k \<mapsto> n))"
    using set3_counts [of j "''supplies''" s "''medicine''" m "medicine r" k n] assms(2) by auto
  have "summary_doc J obj plain j' (r\<lparr>medicine := (medicine r)(k \<mapsto> n)\<rparr>)"
    by (rule summary_docI [where a = a and s = s' and e = e and f = f and m = m'])
       (use d u in auto)
  with u(1) show thesis by (rule that)
qed

text \<open>What the loop over the categories does with a document that is a summary.\<close>

lemma supply_loop_doc:
  assumes "summary_doc J obj plain j r"
  shows "supply_loop J K key val j [''food'', ''medicine''] =
    (if key \<in> dom (food r) then supply_loop J K key val j [''food'']
     else if key \<in> dom (medicine r) then supply_loop J K key val j [''medicine'']
     else ret (Fell False))"
  by (rule ext) (auto simp: has_supply_doc [OF assms] split: sum.splits prod.splits)

lemma contains_supplies: "summary_doc J obj plain j r \<Longrightarrow> jl_contains J j ''supplies''"
  by (erule summary_docE) (simp add: contains_look)

lemma supply_loop_sets:
  assumes "summary_doc J obj plain j r" and "refuge_wf r" and "known_supply r key"
    and "stoi val = Inr v" and "0 \<le> v" and "open_rw (db s)"
  obtains d' where "supply_loop J K key val j [''food'', ''medicine''] s =
      (Inr (Fell True), s\<lparr>db := d', console := console s @ [''[SUPPLIES] State summary updated successfully.'']\<rparr>)"
    and "store_holds J K obj plain d' (set_supply key v r)" and "open_rw d'"
proof -
  have cats: "\<exists>cat j'. has_supply J j cat key = Inr True \<and>
       supply_loop J K key val j [''food'', ''medicine''] s = supply_loop J K key val j [cat] s \<and>
       json_set3 J j ''supplies'' cat key (jl_of_int J v) = Inr j' \<and>
       summary_doc J obj plain j' (set_supply key v r)"
  proof (cases "key \<in> dom (food r)")
    case True
    obtain j' where "json_set3 J j ''supplies'' ''food'' key (jl_of_int J v) = Inr j'"
        "summary_doc J obj plain j' (r\<lparr>food := (food r)(key \<mapsto> v)\<rparr>)"
      by (rule set_food_doc [OF assms(1) wf_ascii(1) [OF assms(2) True]])
    with True show ?thesis
      by (intro exI [of _ "''food''"])
         (simp add: supply_loop_doc [OF assms(1)] set_supply_def has_supply_doc [OF assms(1)] del: supply_loop.simps)
  next
    case False
    with assms(3) have m: "key \<in> dom (medicine r)" by (simp add: known_supply_def)
    obtain j' where "json_set3 J j ''supplies'' ''medicine'' key (jl_of_int J v) = Inr j'"
        "summary_doc J obj plain j' (r\<lparr>medicine := (medicine r)(key \<mapsto> v)\<rparr>)"
      by (rule set_medicine_doc [OF assms(1) wf_ascii(2) [OF assms(2) m]])
    with False m show ?thesis
      by (intro exI [of _ "''medicine''"])
         (simp add: supply_loop_doc [OF assms(1)] set_supply_def has_supply_doc [OF assms(1)] del: supply_loop.simps)
  qed
  then obtain cat j' where c: "has_supply J j cat key = Inr True"
      "supply_loop J K key val j [''food'', ''medicine''] s = supply_loop J K key val j [cat] s"
      "json_set3 J j ''supplies'' cat key (jl_of_int J v) = Inr j'"
      "summary_doc J obj plain j' (set_supply key v r)"
    by blast
  then have "plain j'" by (simp add: summary_doc_def)
  then obtain t d' where w: "store_summary J K j' s = (Inr True, s\<lparr>db := d'\<rparr>)"
      "kv_get K d' summary_key = Inr t" "jl_parse J t = Inr j'" "open_rw d'"
    using assms(6) by (rule store_summary_writes)
  show thesis
  proof (rule that)
    show "supply_loop J K key val j [''food'', ''medicine''] s =
      (Inr (Fell True), s\<lparr>db := d', console := console s @ [''[SUPPLIES] State summary updated successfully.'']\<rparr>)"
      using assms(4,5) unfolding c(2) by (simp add: c(1,3) w(1) say_def)
    show "open_rw d'" by (rule w(4))
    show "store_holds J K obj plain d' (set_supply key v r)"
      by (rule store_holdsI [OF w(2,3) c(4)])
  qed
qed

end

context refuge_env begin

lemma known_category:
  fixes s :: "('d, 'm) store_scheme"
  assumes "summary_doc J obj plain j r" and "known_supply r key"
  obtains cat where "has_supply J j cat key = Inr True"
    and "supply_loop J K key val j [''food'', ''medicine''] s = supply_loop J K key val j [cat] s"
proof (cases "key \<in> dom (food r)")
  case True
  then show thesis
    by (intro that [of "''food''"])
       (simp_all add: supply_loop_doc [OF assms(1)] has_supply_doc [OF assms(1)] del: supply_loop.simps)
next
  case False
  with assms(2) have "key \<in> dom (medicine r)" by (simp add: known_supply_def)
  with False show thesis
    by (intro that [of "''medicine''"])
       (simp_all add: supply_loop_doc [OF assms(1)] has_supply_doc [OF assms(1)] del: supply_loop.simps)
qed

lemma modify_supplies_sets:
  assumes "store_holds J K obj plain (db s) r" and "refuge_wf r" and "known_supply r key"
    and "stoi val = Inr v" and "0 \<le> v" and "open_rw (db s)"
  obtains d' where "modify_supplies J K key val s =
      (Inr (), s\<lparr>db := d', console := console s @ [''[SUPPLIES] State summary updated successfully.'']\<rparr>)"
    and "store_holds J K obj plain d' (set_supply key v r)" and "open_rw d'"
proof -
  obtain j where j: "summary_doc J obj plain j r" "\<forall>body. with_summary J K body s = body j s"
    by (rule with_summary_reads [OF assms(1)])
  obtain d' where d: "supply_loop J K key val j [''food'', ''medicine''] s =
      (Inr (Fell True), s\<lparr>db := d', console := console s @ [''[SUPPLIES] State summary updated successfully.'']\<rparr>)"
      "store_holds J K obj plain d' (set_supply key v r)" "open_rw d'"
    by (rule supply_loop_sets [OF j(1) assms(2-6)])
  have "modify_supplies J K key val s =
      (Inr (), s\<lparr>db := d', console := console s @ [''[SUPPLIES] State summary updated successfully.'']\<rparr>)"
    by (simp add: modify_supplies_def j(2) contains_supplies [OF j(1)] d(1) del: supply_loop.simps)
  then show thesis using d(2,3) by (rule that)
qed

lemma modify_supplies_unknown:
  assumes "store_holds J K obj plain (db s) r" and "\<not> known_supply r key"
  shows "modify_supplies J K key val s = (Inr (), s\<lparr>console := console s @
     [''[ERROR] Supply '' @ [CHR 0x27] @ key @ [CHR 0x27] @ '' not found.'']\<rparr>)"
proof -
  obtain j where j: "summary_doc J obj plain j r" "\<forall>body. with_summary J K body s = body j s"
    by (rule with_summary_reads [OF assms(1)])
  have "supply_loop J K key val j [''food'', ''medicine''] s = (Inr (Fell False), s)"
    using assms(2) by (simp add: supply_loop_doc [OF j(1)] known_supply_def del: supply_loop.simps)
  then show ?thesis
    by (simp add: modify_supplies_def j(2) contains_supplies [OF j(1)] say_def del: supply_loop.simps)
qed

lemma modify_supplies_rejects:
  assumes "store_holds J K obj plain (db s) r" and "known_supply r key"
  shows "stoi val = Inl (Throw InvalidArgument) \<Longrightarrow> modify_supplies J K key val s =
      (Inr (), s\<lparr>console := console s @ [''[ERROR] Invalid value entered for supply: '' @ val]\<rparr>)"
    and "stoi val = Inr v \<Longrightarrow> v < 0 \<Longrightarrow> modify_supplies J K key val s =
      (Inr (), s\<lparr>console := console s @ [''[ERROR] Value must be greater than or equal to 0.'']\<rparr>)"
    and "stoi val = Inl (Throw OutOfRange) \<Longrightarrow> modify_supplies J K key val s = (Inl (Throw OutOfRange), s)"
proof -
  obtain j where j: "summary_doc J obj plain j r" "\<forall>body. with_summary J K body s = body j s"
    by (rule with_summary_reads [OF assms(1)])
  obtain cat where c: "has_supply J j cat key = Inr True"
      "supply_loop J K key val j [''food'', ''medicine''] s = supply_loop J K key val j [cat] s"
    using known_category [OF j(1) assms(2)] .
  have m: "modify_supplies J K key val s =
     bnd (supply_loop J K key val j [cat]) (\<lambda>x. case x of Returned \<Rightarrow> ret () | Fell found \<Rightarrow>
       if found then ret () else say (''[ERROR] Supply '' @ [CHR 0x27] @ key @ [CHR 0x27] @ '' not found.'')) s"
    by (simp add: modify_supplies_def j(2) contains_supplies [OF j(1)] c(2) del: supply_loop.simps)
  show "stoi val = Inl (Throw InvalidArgument) \<Longrightarrow> modify_supplies J K key val s =
      (Inr (), s\<lparr>console := console s @ [''[ERROR] Invalid value entered for supply: '' @ val]\<rparr>)"
    and "stoi val = Inr v \<Longrightarrow> v < 0 \<Longrightarrow> modify_supplies J K key val s =
      (Inr (), s\<lparr>console := console s @ [''[ERROR] Value must be greater than or equal to 0.'']\<rparr>)"
    and "stoi val = Inl (Throw OutOfRange) \<Longrightarrow> modify_supplies J K key val s = (Inl (Throw OutOfRange), s)"
    unfolding m by (simp_all add: c(1) say_def)
qed

end

subsection \<open>modify_alerts and modify_emergencies\<close>

lemma alert_entry_key: "alert_entry a = Some entry \<Longrightarrow> entry \<in> alert_keys \<and> ascii entry"
  by (auto simp: alert_entry_def alert_keys_def split: if_splits)

context refuge_env begin

text \<open>The documents that the two functions build.\<close>

lemma count_alert_doc:
  assumes j: "summary_doc J obj plain j r" and "entry \<in> alert_keys" and "ascii entry" and "alerts r entry = Some n"
  obtains al al' j' where "jlook J j ''alerts'' = Some al" and "jlook J al entry = Some (jl_of_int J n)"
    and "jl_set J al entry (jl_of_int J (n + 1)) = Inr al'" and "jl_set J j ''alerts'' al' = Inr j'"
    and "summary_doc J obj plain j' (count_alert entry r)"
proof -
  from j obtain al su f m e where d: "plain j" "obj j"
      "jlook J j = [''alerts'' \<mapsto> al, ''supplies'' \<mapsto> su, ''emergency'' \<mapsto> e]" "counts_doc J obj al (alerts r)"
      "obj su" "jlook J su = [''food'' \<mapsto> f, ''medicine'' \<mapsto> m]"
      "counts_doc J obj f (food r)" "counts_doc J obj m (medicine r)" "obj e"
      "jlook J e = [''last_keepalived'' \<mapsto> jl_of_str J (last_keepalived r),
                   ''last_event'' \<mapsto> jl_of_str J (last_event r)]"
    by (rule summary_docE)
  have al: "jlook J j ''alerts'' = Some al" by (simp add: d(3))
  have old: "jlook J al entry = Some (jl_of_int J n)" and "obj al"
    using d(4) assms(4) by (simp_all add: counts_doc_def)
  then obtain al' where al': "jl_set J al entry (jl_of_int J (n + 1)) = Inr al'"
    using set_present by blast
  obtain j' where j': "jl_set J j ''alerts'' al' = Inr j'" "obj j'" "jlook J j' = (jlook J j)(''alerts'' \<mapsto> al')"
    using set_present [OF d(2)] by blast
  have "plain al'" using plain_set [OF plain_member [OF d(1) al] _ plain_int al'] assms(3) by blast
  then have p: "plain j'" using plain_set [OF d(1) _ _ j'(1)] by simp
  have "summary_doc J obj plain j' (count_alert entry r)"
    by (rule summary_docI [where a = al' and s = su and e = e and f = f and m = m])
       (use d p j' counts_doc_set [OF d(4) al'] assms(4) in \<open>auto simp: count_alert_def\<close>)
  with al old al' j'(1) show thesis by (rule that)
qed

lemma note_emergency_doc:
  assumes j: "summary_doc J obj plain j r" and "ascii ts" and "ascii msg"
  obtains e e1 e2 j' where "jlook J j ''emergency'' = Some e"
    and "jl_set J e ''last_keepalived'' (jl_of_str J ts) = Inr e1"
    and "jl_set J e1 ''last_event'' (jl_of_str J (erase_char (CHR 0x0A) msg)) = Inr e2"
    and "jl_set J j ''emergency'' e2 = Inr j'" and "summary_doc J obj plain j' (note_emergency ts msg r)"
proof -
  let ?ev = "erase_char (CHR 0x0A) msg"
  from j obtain al su f m e where d: "plain j" "obj j"
      "jlook J j = [''alerts'' \<mapsto> al, ''supplies'' \<mapsto> su, ''emergency'' \<mapsto> e]" "counts_doc J obj al (alerts r)"
      "obj su" "jlook J su = [''food'' \<mapsto> f, ''medicine'' \<mapsto> m]"
      "counts_doc J obj f (food r)" "counts_doc J obj m (medicine r)" "obj e"
      "jlook J e = [''last_keepalived'' \<mapsto> jl_of_str J (last_keepalived r),
                   ''last_event'' \<mapsto> jl_of_str J (last_event r)]"
    by (rule summary_docE)
  have em: "jlook J j ''emergency'' = Some e" by (simp add: d(3))
  obtain e1 where e1: "jl_set J e ''last_keepalived'' (jl_of_str J ts) = Inr e1" "obj e1"
      "jlook J e1 = (jlook J e)(''last_keepalived'' \<mapsto> jl_of_str J ts)"
    using set_present [OF d(9)] by blast
  obtain e2 where e2: "jl_set J e1 ''last_event'' (jl_of_str J ?ev) = Inr e2" "obj e2"
      "jlook J e2 = (jlook J e1)(''last_event'' \<mapsto> jl_of_str J ?ev)"
    using set_present [OF e1(2)] by blast
  obtain j' where j': "jl_set J j ''emergency'' e2 = Inr j'" "obj j'" "jlook J j' = (jlook J j)(''emergency'' \<mapsto> e2)"
    using set_present [OF d(2)] by blast
  have "plain e1" using plain_set [OF plain_member [OF d(1) em] _ plain_str [OF assms(2)] e1(1)] by simp
  then have "plain e2" using plain_set [OF _ _ plain_str [OF ascii_erase_char [OF assms(3)]] e2(1)] by simp
  then have p: "plain j'" using plain_set [OF d(1) _ _ j'(1)] by simp
  have "summary_doc J obj plain j' (note_emergency ts msg r)"
    by (rule summary_docI [where a = al and s = su and e = e2 and f = f and m = m])
       (use d p j' e1 e2 in \<open>auto simp: note_emergency_def\<close>)
  with em e1(1) e2(1) j'(1) show thesis by (rule that)
qed

lemma count_in_summary_counts:
  assumes j: "summary_doc J obj plain j r" and "alert_entry a = Some entry"
    and "alerts r entry = Some n" and "0 \<le> n" and "n < INT_MAX" and "open_rw (db s)"
  obtains d' where "count_in_summary J K a j s = (Inr (), s\<lparr>db := d'\<rparr>)"
    and "store_holds J K obj plain d' (count_alert entry r)" and "open_rw d'"
proof -
  note key = alert_entry_key [OF assms(2)]
  obtain al al' j' where d: "jlook J j ''alerts'' = Some al" "jlook J al entry = Some (jl_of_int J n)"
      "jl_set J al entry (jl_of_int J (n + 1)) = Inr al'" "jl_set J j ''alerts'' al' = Inr j'"
      and doc: "summary_doc J obj plain j' (count_alert entry r)"
    by (rule count_alert_doc [OF j conjunct1 [OF key] conjunct2 [OF key] assms(3)])
  have "in_int n" using assms(4,5) by (simp add: in_int_nonneg)
  then have gi: "rbind (jl_get_int J (jl_of_int J n)) int_succ = Inr (n + 1)"
    using assms(5) by (simp add: get_int_of_int int_succ_def)
  obtain t d' where w: "store_summary J K j' s = (Inr True, s\<lparr>db := d'\<rparr>)"
      "kv_get K d' summary_key = Inr t" "jl_parse J t = Inr j'" "open_rw d'"
    using doc assms(6) by (auto simp: summary_doc_def intro: store_summary_writes)
  show thesis
  proof (rule that)
    show "count_in_summary J K a j s = (Inr (), s\<lparr>db := d'\<rparr>)"
      by (simp add: count_in_summary_def get_json_field_def get_look [OF d(1)] assms(2)
            ref_present [OF d(2)] int_not_null gi d(3,4) w(1))
    show "open_rw d'" by (rule w(4))
    show "store_holds J K obj plain d' (count_alert entry r)"
      by (rule store_holdsI [OF w(2,3) doc])
  qed
qed

lemma modify_alerts_counts:
  assumes "store_holds J K obj plain (db s) r" and "alert_entry a = Some entry"
    and "alerts r entry = Some n" and "0 \<le> n" and "n < INT_MAX" and "open_rw (db s)"
  obtains d' where "modify_alerts J K a s = (Inr (), s\<lparr>db := d'\<rparr>)"
    and "store_holds J K obj plain d' (count_alert entry r)" and "open_rw d'"
proof -
  obtain j where j: "summary_doc J obj plain j r" "\<forall>body. with_summary J K body s = body j s"
    by (rule with_summary_reads [OF assms(1)])
  obtain d' where "count_in_summary J K a j s = (Inr (), s\<lparr>db := d'\<rparr>)"
      "store_holds J K obj plain d' (count_alert entry r)" "open_rw d'"
    by (rule count_in_summary_counts [OF j(1) assms(2-6)])
  then show thesis using j(2) by (intro that [of d']) (simp_all add: modify_alerts_def)
qed

lemma modify_alerts_other:
  assumes "store_holds J K obj plain (db s) r"
  shows "alert_entry a = None \<Longrightarrow> modify_alerts J K a s =
      (Inr (), s\<lparr>console := console s @ [''[ERROR] Unrecognized alert string: '' @ a]\<rparr>)"
    and "alert_entry a = Some entry \<Longrightarrow> alerts r entry = Some INT_MAX \<Longrightarrow>
      modify_alerts J K a s = (Inl Undefined, s)"
proof -
  obtain j where j: "summary_doc J obj plain j r" "\<forall>body. with_summary J K body s = body j s"
    by (rule with_summary_reads [OF assms])
  from j(1) obtain al where d: "jlook J j ''alerts'' = Some al" "counts_doc J obj al (alerts r)"
    by (rule summary_docE) simp
  show "alert_entry a = None \<Longrightarrow> modify_alerts J K a s =
      (Inr (), s\<lparr>console := console s @ [''[ERROR] Unrecognized alert string: '' @ a]\<rparr>)"
    by (simp add: modify_alerts_def count_in_summary_def j(2) get_json_field_def get_look [OF d(1)] say_def)
  show "modify_alerts J K a s = (Inl Undefined, s)"
    if "alert_entry a = Some entry" "alerts r entry = Some INT_MAX"
  proof -
    from d(2) that(2) have old: "jlook J al entry = Some (jl_of_int J INT_MAX)"
      by (simp add: counts_doc_def)
    have "in_int INT_MAX" by (simp add: in_int_def INT_MAX_def INT_MIN_def)
    with that(1) old show ?thesis
      by (simp add: modify_alerts_def count_in_summary_def j(2) get_json_field_def get_look [OF d(1)] ref_present
            int_not_null get_int_of_int int_succ_def)
  qed
qed

lemma modify_emergencies_notes:
  assumes "store_holds J K obj plain (db s) r" and "ascii ts" and "ascii msg" and "open_rw (db s)"
  obtains d' where "modify_emergencies J K ts msg s = (Inr (), s\<lparr>db := d'\<rparr>)"
    and "store_holds J K obj plain d' (note_emergency ts msg r)" and "open_rw d'"
proof -
  obtain j where j: "summary_doc J obj plain j r" "\<forall>body. with_summary J K body s = body j s"
    by (rule with_summary_reads [OF assms(1)])
  obtain e e1 e2 j' where d: "jlook J j ''emergency'' = Some e"
      "jl_set J e ''last_keepalived'' (jl_of_str J ts) = Inr e1"
      "jl_set J e1 ''last_event'' (jl_of_str J (erase_char (CHR 0x0A) msg)) = Inr e2"
      "jl_set J j ''emergency'' e2 = Inr j'" and doc: "summary_doc J obj plain j' (note_emergency ts msg r)"
    by (rule note_emergency_doc [OF j(1) assms(2,3)])
  obtain t d' where w: "store_summary J K j' s = (Inr True, s\<lparr>db := d'\<rparr>)"
      "kv_get K d' summary_key = Inr t" "jl_parse J t = Inr j'" "open_rw d'"
    using doc assms(4) by (auto simp: summary_doc_def intro: store_summary_writes)
  show thesis
  proof (rule that)
    show "modify_emergencies J K ts msg s = (Inr (), s\<lparr>db := d'\<rparr>)"
      by (simp add: modify_emergencies_def j(2) get_json_field_def get_look [OF d(1)] d(2-4) w(1))
    show "open_rw d'" by (rule w(4))
    show "store_holds J K obj plain d' (note_emergency ts msg r)"
      by (rule store_holdsI [OF w(2,3) doc])
  qed
qed

end

end
