(* ===== verification/Supplies_Props.thy ===== *)
theory Supplies_Props
  imports Refuge
begin

text \<open>
  The properties of \<open>supplies.cpp\<close>: each operation implements its counterpart
  on the record \<open>refuge\<close> on every branch, the readers return the section they
  name, and any sequence of calls keeps the summary well formed and in step
  with the abstract state.
\<close>

section \<open>Reading a section\<close>

context refuge_env begin

lemma show_state_summary_reads:
  assumes "store_holds J K obj plain (db s) r"
  obtains t j where "show_state_summary J K None s = (Inr t, s)" and "jl_parse J t = Inr j"
    and "summary_doc J obj plain j r"
proof -
  from assms obtain t0 j where j: "kv_get K (db s) summary_key = Inr t0" "jl_parse J t0 = Inr j"
      "summary_doc J obj plain j r"
    by (auto simp: store_holds_def)
  then have "plain j" by (simp add: summary_doc_def)
  then obtain t where "jl_dump J j = Inr t" "jl_parse J t = Inr j" by (rule dump_ok)
  then show thesis
    using j by (intro that [of t j])
      (simp_all add: show_state_summary_def get_value_def parse_state_summary_def)
qed

lemma get_section_reads:
  assumes "store_holds J K obj plain (db s) r"
  obtains j where "summary_doc J obj plain j r"
    and "\<And>field v. jlook J j field = Some v \<Longrightarrow> \<exists>t. get_section J K field s = (Inr t, s) \<and> jl_parse J t = Inr v"
proof -
  from assms obtain t0 j where j: "kv_get K (db s) summary_key = Inr t0" "jl_parse J t0 = Inr j"
      "summary_doc J obj plain j r"
    by (auto simp: store_holds_def)
  have "\<exists>t. get_section J K field s = (Inr t, s) \<and> jl_parse J t = Inr v" if "jlook J j field = Some v" for field v
  proof -
    from j(3) have "plain j" by (simp add: summary_doc_def)
    then have "plain v" using that by (rule plain_member)
    then obtain t where "jl_dump J v = Inr t" "jl_parse J t = Inr v" by (rule dump_ok)
    with j(1,2) get_look [OF that] show ?thesis
      by (simp add: get_section_def get_value_def parse_state_summary_def get_json_field_def)
  qed
  with j(3) show thesis by (rule that)
qed

lemma sections_read:
  assumes "store_holds J K obj plain (db s) r"
  shows "\<exists>t v f m. get_supplies J K s = (Inr t, s) \<and> jl_parse J t = Inr v \<and>
           jlook J v = [''food'' \<mapsto> f, ''medicine'' \<mapsto> m] \<and>
           counts_doc J obj f (food r) \<and> counts_doc J obj m (medicine r)"
    and "\<exists>t v. get_alerts J K s = (Inr t, s) \<and> jl_parse J t = Inr v \<and> counts_doc J obj v (alerts r)"
    and "\<exists>t v. get_emergencies J K s = (Inr t, s) \<and> jl_parse J t = Inr v \<and>
           jlook J v = [''last_keepalived'' \<mapsto> jl_of_str J (last_keepalived r),
                        ''last_event'' \<mapsto> jl_of_str J (last_event r)]"
proof -
  obtain j where j: "summary_doc J obj plain j r"
    "\<And>field v. jlook J j field = Some v \<Longrightarrow> \<exists>t. get_section J K field s = (Inr t, s) \<and> jl_parse J t = Inr v"
    using get_section_reads [OF assms] by blast
  from j(1) obtain a su f m e where d: "jlook J j = [''alerts'' \<mapsto> a, ''supplies'' \<mapsto> su, ''emergency'' \<mapsto> e]"
      "counts_doc J obj a (alerts r)" "jlook J su = [''food'' \<mapsto> f, ''medicine'' \<mapsto> m]"
      "counts_doc J obj f (food r)" "counts_doc J obj m (medicine r)"
      "jlook J e = [''last_keepalived'' \<mapsto> jl_of_str J (last_keepalived r),
                   ''last_event'' \<mapsto> jl_of_str J (last_event r)]"
    by (rule summary_docE)
  then have l: "jlook J j ''supplies'' = Some su" "jlook J j ''alerts'' = Some a" "jlook J j ''emergency'' = Some e"
    by simp_all
  show "\<exists>t v f m. get_supplies J K s = (Inr t, s) \<and> jl_parse J t = Inr v \<and>
           jlook J v = [''food'' \<mapsto> f, ''medicine'' \<mapsto> m] \<and>
           counts_doc J obj f (food r) \<and> counts_doc J obj m (medicine r)"
    using j(2) [OF l(1)] d(3-5) unfolding get_supplies_def by blast
  show "\<exists>t v. get_alerts J K s = (Inr t, s) \<and> jl_parse J t = Inr v \<and> counts_doc J obj v (alerts r)"
    using j(2) [OF l(2)] d(2) unfolding get_alerts_def by blast
  show "\<exists>t v. get_emergencies J K s = (Inr t, s) \<and> jl_parse J t = Inr v \<and>
           jlook J v = [''last_keepalived'' \<mapsto> jl_of_str J (last_keepalived r),
                        ''last_event'' \<mapsto> jl_of_str J (last_event r)]"
    using j(2) [OF l(3)] d(6) unfolding get_emergencies_def by blast
qed

lemma no_summary:
  assumes "kv_get K (db s) summary_key = Inl e"
  shows "show_state_summary J K None s = (Inl (Throw ParseError),
           s\<lparr>console := console s @ [''Error retrieving value for key state_summary: '' @ e]\<rparr>)"
    and "get_section J K field s = (Inl (Throw ParseError), s\<lparr>console := console s @ [retrieve_error e]\<rparr>)"
    and "with_summary J K body s = (Inr (), s\<lparr>console := console s @ [retrieve_error e]\<rparr>)"
  using assms
  by (simp_all add: show_state_summary_def get_section_def with_summary_def after_read_def get_value_def
        parse_state_summary_def parse_empty say_def)

end

section \<open>Sequences of operations\<close>

datatype summary_op = SetSupply string string | Alert string | Emergency string string

fun run_op :: "'j json_lib \<Rightarrow> 'd kv_lib \<Rightarrow> summary_op \<Rightarrow> (('d, 'm) store_scheme, unit) act" where
  "run_op J K (SetSupply key val) = modify_supplies J K key val"
| "run_op J K (Alert a) = modify_alerts J K a"
| "run_op J K (Emergency ts msg) = modify_emergencies J K ts msg"

fun run_ops :: "'j json_lib \<Rightarrow> 'd kv_lib \<Rightarrow> summary_op list \<Rightarrow> (('d, 'm) store_scheme, unit) act" where
  "run_ops J K [] = ret ()"
| "run_ops J K (x # xs) = thn (run_op J K x) (run_ops J K xs)"

text \<open>The same operations on the abstract state.\<close>

fun apply_op :: "summary_op \<Rightarrow> refuge \<Rightarrow> refuge" where
  "apply_op (SetSupply key val) r =
     (case stoi val of Inl e \<Rightarrow> r | Inr v \<Rightarrow> if v < 0 then r else set_supply key v r)"
| "apply_op (Alert a) r = (case alert_entry a of None \<Rightarrow> r | Some entry \<Rightarrow> count_alert entry r)"
| "apply_op (Emergency ts msg) r = note_emergency ts msg r"

text \<open>
  The calls that return: a number that fits an \<open>int\<close>, or no number at all, and
  seven-bit texts.
\<close>

fun op_ok :: "summary_op \<Rightarrow> bool" where
  "op_ok (SetSupply key val) \<longleftrightarrow> stoi val \<noteq> Inl (Throw OutOfRange)"
| "op_ok (Alert a) \<longleftrightarrow> True"
| "op_ok (Emergency ts msg) \<longleftrightarrow> ascii ts \<and> ascii msg"

text \<open>No alert counter has reached \<open>n\<close> below its limit.\<close>

definition alerts_room :: "nat \<Rightarrow> refuge \<Rightarrow> bool" where
  "alerts_room n r \<longleftrightarrow> (\<forall>k v. alerts r k = Some v \<longrightarrow> v + int n \<le> INT_MAX)"

lemma set_supply_unknown: "\<not> known_supply r key \<Longrightarrow> set_supply key v r = r"
  by (simp add: set_supply_def known_supply_def)

lemma apply_op_wf:
  assumes "refuge_wf r" and "op_ok x" and "alerts_room (Suc n) r"
  shows "refuge_wf (apply_op x r)"
proof (cases x)
  case (SetSupply key val)
  have "0 \<le> v \<Longrightarrow> v \<le> INT_MAX" if "stoi val = Inr v" for v
    using stoi_in_int [OF that] by (simp add: in_int_nonneg)
  then show ?thesis using SetSupply assms(1)
    by (auto split: sum.splits intro!: set_supply_wf)
next
  case (Alert a)
  have "c < INT_MAX" if "alerts r e = Some c" for e c
    using that assms(3) by (force simp: alerts_room_def)
  with Alert assms(1) show ?thesis by (auto split: option.splits intro!: count_alert_wf)
next
  case (Emergency ts msg)
  with assms show ?thesis by (simp add: note_emergency_wf)
qed

lemma wf_alert:
  assumes "refuge_wf r" and "alert_entry a = Some entry"
  obtains c where "alerts r entry = Some c" and "0 \<le> c"
proof -
  from assms have "entry \<in> dom (alerts r)"
    using alert_entry_key by (auto simp: refuge_wf_def counts_ok_def)
  then obtain c where c: "alerts r entry = Some c" by blast
  with assms(1) have "0 \<le> c" unfolding refuge_wf_def counts_ok_def by blast
  with c show thesis by (rule that)
qed

lemma apply_op_room: "alerts_room (Suc n) r \<Longrightarrow> alerts_room n (apply_op x r)"
  by (cases x) (force simp: alerts_room_def set_supply_def count_alert_def note_emergency_def
      split: sum.splits option.splits if_splits)+

context refuge_env begin

lemma run_op_sim:
  assumes "store_holds J K obj plain (db s) r" and "refuge_wf r" and "open_rw (db s)"
    and "op_ok x" and "alerts_room (Suc n) r"
  obtains s' where "run_op J K x s = (Inr (), s')"
    and "store_holds J K obj plain (db s') (apply_op x r)" and "open_rw (db s')"
proof (cases x)
  case (SetSupply key val)
  show thesis
  proof (cases "known_supply r key")
    case False
    with SetSupply assms modify_supplies_unknown [OF assms(1) False, of val] show thesis
      by (intro that [of "snd (run_op J K x s)"]) (auto simp: set_supply_unknown split: sum.splits)
  next
    case known: True
    note rej = modify_supplies_rejects [OF assms(1) known, of val]
    show thesis
    proof (cases "stoi val")
      case (Inl e)
      with SetSupply assms(4) stoi_errors [OF Inl] have "stoi val = Inl (Throw InvalidArgument)" by auto
      with SetSupply Inl rej(1) assms(1,3) show thesis by (intro that [of "snd (run_op J K x s)"]) auto
    next
      case (Inr v)
      show thesis
      proof (cases "v < 0")
        case True
        with SetSupply Inr rej(2) [OF Inr] assms(1,3) show thesis by (intro that [of "snd (run_op J K x s)"]) auto
      next
        case False
        then have "0 \<le> v" by simp
        obtain d' where "modify_supplies J K key val s = (Inr (), s\<lparr>db := d',
              console := console s @ [''[SUPPLIES] State summary updated successfully.'']\<rparr>)"
            "store_holds J K obj plain d' (set_supply key v r)" "open_rw d'"
          by (rule modify_supplies_sets [OF assms(1,2) known Inr \<open>0 \<le> v\<close> assms(3)])
        with SetSupply Inr False show thesis by (intro that [of "snd (run_op J K x s)"]) auto
      qed
    qed
  qed
next
  case (Alert a)
  show thesis
  proof (cases "alert_entry a")
    case None
    with Alert modify_alerts_other(1) [OF assms(1) None] assms(1,3) show thesis by (intro that [of "snd (run_op J K x s)"]) auto
  next
    case (Some entry)
    obtain c where c: "alerts r entry = Some c" "0 \<le> c"
      by (rule wf_alert [OF assms(2) Some])
    with assms(5) have "c < INT_MAX" by (force simp: alerts_room_def)
    obtain d' where "modify_alerts J K a s = (Inr (), s\<lparr>db := d'\<rparr>)"
        "store_holds J K obj plain d' (count_alert entry r)" "open_rw d'"
      by (rule modify_alerts_counts [OF assms(1) Some c \<open>c < INT_MAX\<close> assms(3)])
    with Alert Some show thesis by (intro that [of "snd (run_op J K x s)"]) auto
  qed
next
  case (Emergency ts msg)
  with assms(4) have "ascii ts" "ascii msg" by auto
  obtain d' where "modify_emergencies J K ts msg s = (Inr (), s\<lparr>db := d'\<rparr>)"
      "store_holds J K obj plain d' (note_emergency ts msg r)" "open_rw d'"
    by (rule modify_emergencies_notes [OF assms(1) \<open>ascii ts\<close> \<open>ascii msg\<close> assms(3)])
  with Emergency show thesis by (intro that [of "snd (run_op J K x s)"]) auto
qed

lemma run_ops_sim:
  assumes "store_holds J K obj plain (db s) r" and "refuge_wf r" and "open_rw (db s)"
    and "\<forall>x \<in> set xs. op_ok x" and "alerts_room (length xs) r"
  shows "\<exists>s'. run_ops J K xs s = (Inr (), s') \<and>
    store_holds J K obj plain (db s') (fold apply_op xs r) \<and> refuge_wf (fold apply_op xs r)"
  using assms
proof (induction xs arbitrary: s r)
  case Nil
  then show ?case by simp
next
  case (Cons x xs)
  from Cons.prems(4,5) have x: "op_ok x" "alerts_room (Suc (length xs)) r" by simp_all
  obtain s1 where 1: "run_op J K x s = (Inr (), s1)"
      "store_holds J K obj plain (db s1) (apply_op x r)" "open_rw (db s1)"
    by (rule run_op_sim [OF Cons.prems(1-3) x])
  have "\<exists>s'. run_ops J K xs s1 = (Inr (), s') \<and>
      store_holds J K obj plain (db s') (fold apply_op xs (apply_op x r)) \<and>
      refuge_wf (fold apply_op xs (apply_op x r))"
    using Cons.prems(2,4) x 1 by (intro Cons.IH) (auto intro: apply_op_wf apply_op_room)
  with 1(1) show ?case by simp
qed

end

interpretation ref_refuge: refuge_env ref_json is_obj j_plain ref_kv ref_open
  by unfold_locales

section \<open>A concrete store for the witnesses\<close>

definition demo_start :: "ref_db store" where
  "demo_start = \<lparr>db = empty_db, console = []\<rparr>"

definition demo_store :: "ref_db store" where
  "demo_store = snd (create_state_summary ref_json ref_kv demo_start)"

lemma demo_env: "refuge_env ref_json is_obj j_plain ref_kv ref_open"
  by (rule ref_refuge.refuge_env_axioms)

lemma demo_start_open: "ref_open (db demo_start)"
  by (simp add: demo_start_def ref_open_def empty_db_def)

lemma demo_holds:
  "store_holds ref_json ref_kv is_obj j_plain (db demo_store) initial_refuge"
  "ref_open (db demo_store)" "console demo_store = []"
proof -
  obtain d' where "create_state_summary ref_json ref_kv demo_start = (Inr (), demo_start\<lparr>db := d'\<rparr>)"
      "store_holds ref_json ref_kv is_obj j_plain d' initial_refuge" "ref_open d'"
    by (rule ref_refuge.create_state_summary_holds [OF demo_start_open])
  then show "store_holds ref_json ref_kv is_obj j_plain (db demo_store) initial_refuge"
      "ref_open (db demo_store)" "console demo_store = []"
    by (simp_all add: demo_store_def) (simp add: demo_start_def)
qed

section \<open>The properties\<close>

text \<open>
  \<open>create_state_summary\<close> on a writable store returns without a message and
  leaves a store that holds the initial state of the refuge: every entry counter
  at 0, every supply at 100, no emergency noted.
\<close>

theorem create_state_summary_establishes:
  assumes "refuge_env J obj plain K open_rw" and "open_rw (db s)"
  shows "\<exists>d'. create_state_summary J K s = (Inr (), s\<lparr>db := d'\<rparr>) \<and> open_rw d' \<and>
    store_holds J K obj plain d' initial_refuge \<and> refuge_wf initial_refuge"
  using refuge_env.create_state_summary_holds [OF assms] initial_refuge_wf by metis

theorem create_state_summary_establishes_witness:
  "\<exists>d'. create_state_summary ref_json ref_kv demo_start = (Inr (), demo_start\<lparr>db := d'\<rparr>) \<and>
    store_holds ref_json ref_kv is_obj j_plain d' initial_refuge"
  using create_state_summary_establishes [OF demo_env demo_start_open] by blast

text \<open>
  C13: \<open>modify_supplies\<close> with a supply that the summary lists and a text that
  \<open>std::stoi\<close> reads as a number that is not negative sets exactly that supply to
  exactly that number, reports success, and changes nothing else.
\<close>

theorem modify_supplies_refines:
  assumes "refuge_env J obj plain K open_rw" and "store_holds J K obj plain (db s) r"
    and "refuge_wf r" and "open_rw (db s)"
    and "known_supply r key" and "stoi val = Inr v" and "0 \<le> v"
  shows "\<exists>d'. modify_supplies J K key val s =
      (Inr (), s\<lparr>db := d', console := console s @ [''[SUPPLIES] State summary updated successfully.'']\<rparr>) \<and>
    store_holds J K obj plain d' (set_supply key v r) \<and> refuge_wf (set_supply key v r)"
proof -
  have "v \<le> INT_MAX" using stoi_in_int [OF assms(6)] by (simp add: in_int_def)
  with assms(3,7) have "refuge_wf (set_supply key v r)" by (rule set_supply_wf)
  then show ?thesis
    using refuge_env.modify_supplies_sets [OF assms(1,2,3,5,6,7,4)] by metis
qed

theorem modify_supplies_refines_witness:
  "\<exists>d'. modify_supplies ref_json ref_kv ''water'' ''50'' demo_store =
      (Inr (), demo_store\<lparr>db := d', console := [''[SUPPLIES] State summary updated successfully.'']\<rparr>) \<and>
    store_holds ref_json ref_kv is_obj j_plain d' (set_supply ''water'' 50 initial_refuge)"
proof -
  have k: "known_supply initial_refuge ''water''" by (simp add: known_supply_def initial_refuge_def)
  have n: "stoi ''50'' = Inr 50" by code_simp
  show ?thesis
    using modify_supplies_refines [OF demo_env demo_holds(1) initial_refuge_wf demo_holds(2) k n] demo_holds(3)
    by auto
qed

text \<open>
  C31: every refused update leaves the store as it was and says why: a supply the
  summary does not list, a text without a number, a negative number.
\<close>

theorem modify_supplies_refusals:
  assumes "refuge_env J obj plain K open_rw" and "store_holds J K obj plain (db s) r"
  shows "(\<not> known_supply r key \<longrightarrow> modify_supplies J K key val s = (Inr (), s\<lparr>console := console s @
      [''[ERROR] Supply '' @ [CHR 0x27] @ key @ [CHR 0x27] @ '' not found.'']\<rparr>)) \<and>
    (known_supply r key \<and> stoi val = Inl (Throw InvalidArgument) \<longrightarrow> modify_supplies J K key val s =
      (Inr (), s\<lparr>console := console s @ [''[ERROR] Invalid value entered for supply: '' @ val]\<rparr>)) \<and>
    (known_supply r key \<and> stoi val = Inr v \<and> v < 0 \<longrightarrow> modify_supplies J K key val s =
      (Inr (), s\<lparr>console := console s @ [''[ERROR] Value must be greater than or equal to 0.'']\<rparr>))"
  using refuge_env.modify_supplies_unknown [OF assms] refuge_env.modify_supplies_rejects [OF assms]
  by blast

theorem modify_supplies_refusals_witness:
  "modify_supplies ref_json ref_kv ''gold'' ''1'' demo_store = (Inr (), demo_store\<lparr>console :=
      [''[ERROR] Supply '' @ [CHR 0x27] @ ''gold'' @ [CHR 0x27] @ '' not found.'']\<rparr>) \<and>
   modify_supplies ref_json ref_kv ''meat'' ''lots'' demo_store = (Inr (), demo_store\<lparr>console :=
      [''[ERROR] Invalid value entered for supply: '' @ ''lots'']\<rparr>) \<and>
   modify_supplies ref_json ref_kv ''meat'' ''-5'' demo_store = (Inr (), demo_store\<lparr>console :=
      [''[ERROR] Value must be greater than or equal to 0.'']\<rparr>)"
proof -
  have k: "\<not> known_supply initial_refuge ''gold''" "known_supply initial_refuge ''meat''"
    by (simp_all add: known_supply_def initial_refuge_def)
  have n: "stoi ''lots'' = Inl (Throw InvalidArgument)" "stoi ''-5'' = Inr (- 5)" by code_simp+
  show ?thesis
    using modify_supplies_refusals [OF demo_env demo_holds(1), of "''gold''" "''1''"]
      modify_supplies_refusals [OF demo_env demo_holds(1), of "''meat''" "''lots''"]
      modify_supplies_refusals [OF demo_env demo_holds(1), of "''meat''" "''-5''" "- 5"] k n demo_holds(3)
    by simp
qed

text \<open>
  A number that does not fit an \<open>int\<close> is not refused: \<open>std::out_of_range\<close>
  leaves \<open>modify_supplies\<close>, whose handler catches \<open>std::invalid_argument\<close> only.
  Any decimal numeral above \<open>INT_MAX\<close> does it; the store is left as it was.
\<close>

theorem modify_supplies_overflow_escapes:
  assumes "refuge_env J obj plain K open_rw" and "store_holds J K obj plain (db s) r"
    and "known_supply r key" and "INT_MAX < int n"
  shows "modify_supplies J K key (show_nat n) s = (Inl (Throw OutOfRange), s)"
proof -
  have "\<not> in_int (int n)" using assms(4) by (simp add: in_int_def)
  then have "stoi (show_nat n) = Inl (Throw OutOfRange)"
    using digit_not_space_sign [OF show_nat_hd [of n]]
    by (simp add: stoi_def Let_def takeWhile_show_nat dropWhile_space_show_nat)
  then show ?thesis by (rule refuge_env.modify_supplies_rejects(3) [OF assms(1-3)])
qed

theorem modify_supplies_overflow_escapes_witness:
  "modify_supplies ref_json ref_kv ''meat'' (show_nat 2147483648) demo_store
    = (Inl (Throw OutOfRange), demo_store)"
proof -
  have k: "known_supply initial_refuge ''meat''" by (simp add: known_supply_def initial_refuge_def)
  show ?thesis
    by (rule modify_supplies_overflow_escapes [OF demo_env demo_holds(1) k]) (simp add: INT_MAX_def)
qed

text \<open>
  C14: \<open>modify_alerts\<close> adds exactly one to the counter of the entry it names and
  nothing else; an unknown name is reported and changes nothing; a counter that
  has reached \<open>INT_MAX\<close> is a signed overflow.
\<close>

theorem modify_alerts_refines:
  assumes "refuge_env J obj plain K open_rw" and "store_holds J K obj plain (db s) r"
    and "refuge_wf r" and "open_rw (db s)"
  shows "case alert_entry a of
      None \<Rightarrow> modify_alerts J K a s =
        (Inr (), s\<lparr>console := console s @ [''[ERROR] Unrecognized alert string: '' @ a]\<rparr>)
    | Some entry \<Rightarrow> (\<exists>n. alerts r entry = Some n \<and>
        (if n = INT_MAX then modify_alerts J K a s = (Inl Undefined, s)
         else \<exists>d'. modify_alerts J K a s = (Inr (), s\<lparr>db := d'\<rparr>) \<and>
           store_holds J K obj plain d' (r\<lparr>alerts := (alerts r)(entry \<mapsto> n + 1)\<rparr>)))"
proof (cases "alert_entry a")
  case None
  with refuge_env.modify_alerts_other(1) [OF assms(1,2) None] show ?thesis by simp
next
  case (Some entry)
  obtain n where n: "alerts r entry = Some n" "0 \<le> n" by (rule wf_alert [OF assms(3) Some])
  with assms(3) have le: "n \<le> INT_MAX" unfolding refuge_wf_def counts_ok_def by blast
  show ?thesis
  proof (cases "n = INT_MAX")
    case True
    with n Some refuge_env.modify_alerts_other(2) [OF assms(1,2) Some] show ?thesis by simp
  next
    case False
    with le have "n < INT_MAX" by simp
    obtain d' where "modify_alerts J K a s = (Inr (), s\<lparr>db := d'\<rparr>)"
        "store_holds J K obj plain d' (count_alert entry r)" "open_rw d'"
      by (rule refuge_env.modify_alerts_counts [OF assms(1,2) Some n \<open>n < INT_MAX\<close> assms(4)])
    with n Some False show ?thesis by (auto simp: count_alert_def)
  qed
qed

theorem modify_alerts_refines_witness:
  "\<exists>d'. modify_alerts ref_json ref_kv ''north'' demo_store = (Inr (), demo_store\<lparr>db := d'\<rparr>) \<and>
     store_holds ref_json ref_kv is_obj j_plain d'
       (initial_refuge\<lparr>alerts := (alerts initial_refuge)(''north_entry'' \<mapsto> 1)\<rparr>)"
proof -
  have "alert_entry ''north'' = Some ''north_entry''" "alerts initial_refuge ''north_entry'' = Some 0"
    by (simp_all add: alert_entry_def initial_refuge_def)
  then show ?thesis
    using modify_alerts_refines [OF demo_env demo_holds(1) initial_refuge_wf demo_holds(2), of "''north''"]
    by (simp add: INT_MAX_def)
qed

text \<open>
  \<open>modify_emergencies\<close> records the time stamp and the message without its
  line breaks, and nothing else.
\<close>

theorem modify_emergencies_refines:
  assumes "refuge_env J obj plain K open_rw" and "store_holds J K obj plain (db s) r"
    and "refuge_wf r" and "open_rw (db s)" and "ascii ts" and "ascii msg"
  shows "\<exists>d' ev. modify_emergencies J K ts msg s = (Inr (), s\<lparr>db := d'\<rparr>) \<and>
    CHR 0x0A \<notin> set ev \<and> ev = filter (\<lambda>c. c \<noteq> CHR 0x0A) msg \<and>
    store_holds J K obj plain d' (r\<lparr>last_keepalived := ts, last_event := ev\<rparr>) \<and>
    refuge_wf (r\<lparr>last_keepalived := ts, last_event := ev\<rparr>)"
proof -
  obtain d' where "modify_emergencies J K ts msg s = (Inr (), s\<lparr>db := d'\<rparr>)"
      "store_holds J K obj plain d' (note_emergency ts msg r)" "open_rw d'"
    by (rule refuge_env.modify_emergencies_notes [OF assms(1,2,5,6,4)])
  with note_emergency_wf [OF assms(3,5,6)] show ?thesis
    by (auto simp: note_emergency_def erase_char_def)
qed

theorem modify_emergencies_refines_witness:
  "\<exists>d'. modify_emergencies ref_json ref_kv ''now'' (''Fire'' @ [CHR 0x0A]) demo_store =
      (Inr (), demo_store\<lparr>db := d'\<rparr>) \<and>
    store_holds ref_json ref_kv is_obj j_plain d'
      (initial_refuge\<lparr>last_keepalived := ''now'', last_event := ''Fire''\<rparr>)"
proof -
  have "ascii ''now''" "ascii (''Fire'' @ [CHR 0x0A])" by (simp_all add: ascii_def)
  from modify_emergencies_refines [OF demo_env demo_holds(1) initial_refuge_wf demo_holds(2) this]
  show ?thesis by auto
qed

text \<open>
  The readers return JSON text and leave the state untouched:
  \<open>show_state_summary\<close> a text that parses to the whole summary, the three
  \<open>get_*\<close> functions a text that parses to the section they are named after.
\<close>

theorem summary_readers:
  assumes "refuge_env J obj plain K open_rw" and "store_holds J K obj plain (db s) r"
  shows "(\<exists>t j. show_state_summary J K None s = (Inr t, s) \<and> jl_parse J t = Inr j \<and>
            summary_doc J obj plain j r) \<and>
    (\<exists>t v f m. get_supplies J K s = (Inr t, s) \<and> jl_parse J t = Inr v \<and>
            jlook J v = [''food'' \<mapsto> f, ''medicine'' \<mapsto> m] \<and>
            counts_doc J obj f (food r) \<and> counts_doc J obj m (medicine r)) \<and>
    (\<exists>t v. get_alerts J K s = (Inr t, s) \<and> jl_parse J t = Inr v \<and> counts_doc J obj v (alerts r)) \<and>
    (\<exists>t v. get_emergencies J K s = (Inr t, s) \<and> jl_parse J t = Inr v \<and>
            jlook J v = [''last_keepalived'' \<mapsto> jl_of_str J (last_keepalived r),
                         ''last_event'' \<mapsto> jl_of_str J (last_event r)])"
  using refuge_env.show_state_summary_reads [OF assms] refuge_env.sections_read [OF assms] by metis

theorem summary_readers_witness:
  "\<exists>t v. get_alerts ref_json ref_kv demo_store = (Inr t, demo_store) \<and> ref_parse t = Inr v \<and>
     counts_doc ref_json is_obj v (alerts initial_refuge)"
  using summary_readers [OF demo_env demo_holds(1)] by simp

text \<open>
  Before the summary exists the readers do not answer with an error: after
  the message they go on to parse an empty text, and the parse error leaves the
  function.  The modifying functions return after the message.
\<close>

theorem summary_missing:
  assumes "refuge_env J obj plain K open_rw" and "kv_get K (db s) summary_key = Inl e"
  shows "fst (show_state_summary J K None s) = Inl (Throw ParseError) \<and>
    fst (get_supplies J K s) = Inl (Throw ParseError) \<and>
    fst (get_alerts J K s) = Inl (Throw ParseError) \<and>
    fst (get_emergencies J K s) = Inl (Throw ParseError) \<and>
    modify_supplies J K key val s = (Inr (), s\<lparr>console := console s @ [retrieve_error e]\<rparr>) \<and>
    modify_alerts J K a s = (Inr (), s\<lparr>console := console s @ [retrieve_error e]\<rparr>) \<and>
    modify_emergencies J K ts msg s = (Inr (), s\<lparr>console := console s @ [retrieve_error e]\<rparr>)"
  by (simp add: refuge_env.no_summary [OF assms] get_supplies_def get_alerts_def get_emergencies_def
      modify_supplies_def modify_alerts_def modify_emergencies_def)

theorem summary_missing_witness:
  "fst (show_state_summary ref_json ref_kv None demo_start) = Inl (Throw ParseError) \<and>
   modify_alerts ref_json ref_kv ''north'' demo_start =
     (Inr (), demo_start\<lparr>console := [retrieve_error ''NotFound: '']\<rparr>)"
proof -
  have "kv_get ref_kv (db demo_start) summary_key = Inl ''NotFound: ''"
    by (simp add: demo_start_def empty_db_def ref_get_def)
  from summary_missing [OF demo_env this] show ?thesis by (simp add: demo_start_def)
qed

text \<open>
  C2: any sequence of updates, alerts and emergencies whose numbers fit an
  \<open>int\<close>, whose texts are seven-bit and which is too short to overflow an alert
  counter runs to its end, keeps the summary well formed, and leaves the state
  that the same sequence gives on the abstract record.
\<close>

theorem summary_runs_refine:
  assumes "refuge_env J obj plain K open_rw" and "store_holds J K obj plain (db s) r"
    and "refuge_wf r" and "open_rw (db s)"
    and "\<forall>x \<in> set ops. op_ok x" and "alerts_room (length ops) r"
  shows "\<exists>s'. run_ops J K ops s = (Inr (), s') \<and>
    store_holds J K obj plain (db s') (fold apply_op ops r) \<and> refuge_wf (fold apply_op ops r)"
  by (rule refuge_env.run_ops_sim [OF assms])

theorem summary_runs_refine_witness:
  "\<exists>s'. run_ops ref_json ref_kv [Alert ''east'', SetSupply ''meat'' ''7'', Alert ''east''] demo_store = (Inr (), s') \<and>
    store_holds ref_json ref_kv is_obj j_plain (db s')
      (initial_refuge\<lparr>alerts := (alerts initial_refuge)(''east_entry'' \<mapsto> 2),
                      food := (food initial_refuge)(''meat'' \<mapsto> 7)\<rparr>)"
proof -
  let ?ops = "[Alert ''east'', SetSupply ''meat'' ''7'', Alert ''east'']"
  have n: "stoi ''7'' = Inr 7" by code_simp
  then have "\<forall>x \<in> set ?ops. op_ok x" by simp
  moreover have "alerts_room (length ?ops) initial_refuge"
    by (simp add: alerts_room_def initial_refuge_def INT_MAX_def)
  ultimately have "\<exists>s'. run_ops ref_json ref_kv ?ops demo_store = (Inr (), s') \<and>
    store_holds ref_json ref_kv is_obj j_plain (db s') (fold apply_op ?ops initial_refuge) \<and>
    refuge_wf (fold apply_op ?ops initial_refuge)"
    by (rule summary_runs_refine [OF demo_env demo_holds(1) initial_refuge_wf demo_holds(2)])
  moreover have "fold apply_op ?ops initial_refuge =
      initial_refuge\<lparr>alerts := (alerts initial_refuge)(''east_entry'' \<mapsto> 2),
                     food := (food initial_refuge)(''meat'' \<mapsto> 7)\<rparr>"
    by (simp add: n initial_refuge_def alert_entry_def count_alert_def set_supply_def)
  ultimately show ?thesis by auto
qed

end
