(* ===== verification/Net.thy ===== *)
theory Net
  imports Cxx_Strings
begin

text \<open>
  The byte streams the program reads from: what the kernel will deliver on a
  socket, as a list of events, and one call of \<open>recv\<close> on it.  A call returns at
  most as many bytes as were asked for; the rest of a longer piece stays.
\<close>

datatype recv_event = Data string | Quiet | Failed

text \<open>
  \<open>Quiet\<close> is a moment in which nothing has arrived: a blocking call waits for
  what follows it.  The result of a call is the bytes received and the remaining
  stream.  No bytes stand for a result that is zero (the peer has closed the
  connection) or negative (an error); the callers of the blocking call never
  tell the two apart.
\<close>

fun recv_chunk :: "nat \<Rightarrow> recv_event list \<Rightarrow> string \<times> recv_event list" where
  "recv_chunk lim [] = ([], [])"
| "recv_chunk lim (Quiet # evs) = recv_chunk lim evs"
| "recv_chunk lim (Failed # evs) = ([], evs)"
| "recv_chunk lim (Data bs # evs) =
     (take lim bs, if length bs \<le> lim then evs else Data (drop lim bs) # evs)"

text \<open>
  \<open>recv\<close> with \<open>MSG_DONTWAIT\<close>: a quiet moment is the error \<open>EAGAIN\<close>.  The third
  component is the error number that the call stores, if it fails; the end of
  the stream is not a failure and stores none.
\<close>

datatype errno = NoError | EAGAIN | ECONNRESET

fun recv_nowait :: "nat \<Rightarrow> recv_event list \<Rightarrow> string \<times> recv_event list \<times> errno option" where
  "recv_nowait lim [] = ([], [], None)"
| "recv_nowait lim (Quiet # evs) = ([], evs, Some EAGAIN)"
| "recv_nowait lim (Failed # evs) = ([], evs, Some ECONNRESET)"
| "recv_nowait lim (Data bs # evs) =
     (take lim bs, if length bs \<le> lim then evs else Data (drop lim bs) # evs, None)"

fun pending :: "recv_event list \<Rightarrow> nat" where
  "pending [] = 0"
| "pending (Quiet # evs) = Suc (pending evs)"
| "pending (Failed # evs) = Suc (pending evs)"
| "pending (Data bs # evs) = Suc (length bs) + pending evs"

lemma recv_chunk_length: "recv_chunk lim evs = (bs, evs') \<Longrightarrow> length bs \<le> lim"
  by (induction lim evs rule: recv_chunk.induct) auto

lemma recv_chunk_pending_le: "recv_chunk lim evs = (bs, evs') \<Longrightarrow> pending evs' \<le> pending evs"
  by (induction lim evs rule: recv_chunk.induct) (auto split: if_splits)

lemma recv_chunk_pending_less:
  "recv_chunk lim evs = (bs, evs') \<Longrightarrow> bs \<noteq> [] \<Longrightarrow> pending evs' < pending evs"
  by (induction lim evs rule: recv_chunk.induct) (auto split: if_splits)

lemma recv_chunk_short: "length bs \<le> lim \<Longrightarrow> recv_chunk lim (Data bs # evs) = (bs, evs)"
  by simp

text \<open>A stream whose pieces arrive one call at a time.\<close>

definition pieces :: "string list \<Rightarrow> recv_event list" where
  "pieces ps = map Data ps"

lemma pieces_simps [simp]:
  "pieces [] = []"
  "pieces (p # ps) = Data p # pieces ps"
  by (simp_all add: pieces_def)

end
