(* ===== verification/Server_State.thy ===== *)
theory Server_State
  imports Supplies Net
begin

text \<open>
  The state of \<open>src/server.cpp\<close> and the primitives its handlers share: sockets,
  the log file, the clock, and the globals of \<open>include/server.hpp\<close>.  The state
  extends the state of the supplies library, so that the handlers run its
  operations unchanged.
\<close>

section \<open>The state\<close>

text \<open>
  A peer address: the family, the address as \<open>inet_ntop\<close> prints it, and the
  port in network byte order.
\<close>

datatype family = AF_INET | AF_INET6

record sockaddr =
  ss_family :: family
  addr_text :: string
  net_port :: nat

text \<open>
  \<^item> \<open>inbox\<close>: what each socket will still receive;
  \<^item> \<open>sent\<close>: every transfer to a socket, in order;
  \<^item> \<open>write_results\<close>: what the coming \<open>write\<close> calls return (each writes
    everything once the list is used up);
  \<^item> \<open>closed_fds\<close>: the descriptors given to \<open>close\<close>, in order;
  \<^item> \<open>connected_clients\<close> and \<open>user\<close>: the globals of those names;
  \<^item> \<open>log_opens\<close>, \<open>log_file\<close>: whether \<open>../tmp/server_log.log\<close> can be opened for
    appending, and its contents;
  \<^item> \<open>clock\<close>, \<open>ticks\<close>: the time stamps that successive readings give;
  \<^item> \<open>zip_file\<close>: the contents of \<open>ZIP_FILE\<close>, if it can be opened for reading;
  \<^item> \<open>edge_image\<close>, \<open>zip_creatable\<close>: the contents of \<open>EDGE_IMAGE\<close>, if it can be
    opened, and whether \<open>ZIP_FILE\<close> can be opened for writing.
\<close>

record 'd server = "'d store" +
  inbox :: "int \<Rightarrow> recv_event list"
  sent :: "(int \<times> string) list"
  write_results :: "int list"
  closed_fds :: "int list"
  connected_clients :: "int list"
  user :: bool
  log_opens :: bool
  log_file :: string
  clock :: "nat \<Rightarrow> string"
  ticks :: nat
  zip_file :: "string option"
  edge_image :: "string option"
  zip_creatable :: bool

definition MAX_BUFFER :: nat where
  "MAX_BUFFER = 4096"

lemma MAX_BUFFER_pos [simp]: "0 < MAX_BUFFER" "Suc 0 < MAX_BUFFER"
  by (simp_all add: MAX_BUFFER_def)

section \<open>Sockets\<close>

definition recv :: "int \<Rightarrow> nat \<Rightarrow> (('d, 'm) server_scheme, string) act" where
  "recv sock lim =
     (\<lambda>s. let (bs, evs) = recv_chunk lim (inbox s sock) in (Inr bs, s\<lparr>inbox := (inbox s)(sock := evs)\<rparr>))"

definition send :: "int \<Rightarrow> string \<Rightarrow> (('d, 'm) server_scheme, unit) act" where
  "send sock bs = (\<lambda>s. (Inr (), s\<lparr>sent := sent s @ [(sock, bs)]\<rparr>))"

text \<open>\<open>send(sock, "literal", n, 0)\<close>\<close>

definition send_lit :: "int \<Rightarrow> string \<Rightarrow> nat \<Rightarrow> (('d, 'm) server_scheme, unit) act" where
  "send_lit sock lit n = bnd (of_res (literal_bytes lit n)) (send sock)"

text \<open>\<open>write\<close>: its result, and as many bytes on the wire as the result says.\<close>

definition write_fd :: "int \<Rightarrow> string \<Rightarrow> (('d, 'm) server_scheme, int) act" where
  "write_fd sock bs = (\<lambda>s.
     let num = (case write_results s of [] \<Rightarrow> int (length bs) | n # _ \<Rightarrow> n) in
     (Inr num, s\<lparr>write_results := tl (write_results s),
                 sent := (if num < 0 then sent s else sent s @ [(sock, take (nat num) bs)])\<rparr>))"

definition close_fd :: "int \<Rightarrow> (('d, 'm) server_scheme, unit) act" where
  "close_fd fd = (\<lambda>s. (Inr (), s\<lparr>closed_fds := closed_fds s @ [fd]\<rparr>))"

section \<open>The clock and the log\<close>

definition get_time_stamp :: "(('d, 'm) server_scheme, string) act" where
  "get_time_stamp = (\<lambda>s. (Inr (clock s (ticks s)), s\<lparr>ticks := Suc (ticks s)\<rparr>))"

text \<open>\<open>ntohs\<close> on a little-endian host.\<close>

definition ntohs :: "nat \<Rightarrow> nat" where
  "ntohs p = (p mod 256) * 256 + (p div 256) mod 256"

definition get_port :: "sockaddr \<Rightarrow> int" where
  "get_port addr = (case ss_family addr of
      AF_INET \<Rightarrow> int (ntohs (net_port addr))
    | AF_INET6 \<Rightarrow> int (ntohs (net_port addr)))"

definition get_ip :: "sockaddr \<Rightarrow> string" where
  "get_ip addr = (case ss_family addr of AF_INET \<Rightarrow> addr_text addr | AF_INET6 \<Rightarrow> addr_text addr)"

definition append_log :: "string \<Rightarrow> (('d, 'm) server_scheme, unit) act" where
  "append_log text = (\<lambda>s. (Inr (), s\<lparr>log_file := log_file s @ text\<rparr>))"

definition with_log ::
    "string \<Rightarrow> (('d, 'm) server_scheme, unit) act \<Rightarrow> (('d, 'm) server_scheme, unit) act" where
  "with_log err body = (\<lambda>s. if log_opens s then body s else say err s)"

definition log_event :: "sockaddr \<Rightarrow> string \<Rightarrow> string \<Rightarrow> (('d, 'm) server_scheme, unit) act" where
  "log_event addr eventType eventDescription =
     with_log ''Error opening log file.''
      (bnd get_time_stamp (\<lambda>timestamp.
       append_log (timestamp @ '', '' @ eventType @ '' from client ('' @ get_ip addr @ '':'' @
         show_int (get_port addr) @ '')'' @
         (if eventDescription \<noteq> [] then '' - '' @ eventDescription else []) @ [CHR 0x0A])))"

definition log_alert :: "bool \<Rightarrow> string \<Rightarrow> (('d, 'm) server_scheme, unit) act" where
  "log_alert isAlert message =
     with_log ''[ERROR] Error opening log file.''
      (bnd get_time_stamp (\<lambda>timestamp.
       append_log (timestamp @ '', '' @
         (if isAlert then ''Alert of possible infection in '' @ message @ '' entry.'' @ [CHR 0x0A]
          else ''Emergency notification. '' @ message))))"

section \<open>Running the primitives\<close>

lemma say_run [simp, act_simps]: "say t s = (Inr (), s\<lparr>console := console s @ [t]\<rparr>)"
  by (simp add: say_def)

lemma recv_run [act_simps]:
  "recv_chunk lim (inbox s sock) = (bs, evs) \<Longrightarrow>
     recv sock lim s = (Inr bs, s\<lparr>inbox := (inbox s)(sock := evs)\<rparr>)"
  by (simp add: recv_def)

lemma send_run [simp, act_simps]: "send sock bs s = (Inr (), s\<lparr>sent := sent s @ [(sock, bs)]\<rparr>)"
  by (simp add: send_def)

lemma send_lit_run [act_simps]:
  "n \<le> Suc (length lit) \<Longrightarrow>
     send_lit sock lit n s = (Inr (), s\<lparr>sent := sent s @ [(sock, take n (lit @ [NUL]))]\<rparr>)"
  by (simp add: send_lit_def literal_bytes_def)

lemma close_fd_run [simp, act_simps]: "close_fd fd s = (Inr (), s\<lparr>closed_fds := closed_fds s @ [fd]\<rparr>)"
  by (simp add: close_fd_def)

lemma log_event_run [act_simps]:
  "log_event addr ty desc s = (Inr (),
     if log_opens s then
       s\<lparr>ticks := Suc (ticks s), log_file := log_file s @ clock s (ticks s) @ '', '' @ ty @ '' from client ('' @
         get_ip addr @ '':'' @ show_int (get_port addr) @ '')'' @
         (if desc \<noteq> [] then '' - '' @ desc else []) @ [CHR 0x0A]\<rparr>
     else s\<lparr>console := console s @ [''Error opening log file.'']\<rparr>)"
  by (simp add: log_event_def with_log_def get_time_stamp_def append_log_def)

lemma log_alert_run [act_simps]:
  "log_alert isAlert message s = (Inr (),
     if log_opens s then
       s\<lparr>ticks := Suc (ticks s), log_file := log_file s @ clock s (ticks s) @ '', '' @
         (if isAlert then ''Alert of possible infection in '' @ message @ '' entry.'' @ [CHR 0x0A]
          else ''Emergency notification. '' @ message)\<rparr>
     else s\<lparr>console := console s @ [''[ERROR] Error opening log file.'']\<rparr>)"
  by (simp add: log_alert_def with_log_def get_time_stamp_def append_log_def)

end
