(* ===== verification/Gz_Api.thy ===== *)
theory Gz_Api
  imports Net
begin

text \<open>
  The interface of zlib's file functions (an external library).  A writer
  collects the bytes given to \<open>gzwrite\<close> and turns into the contents of the
  file at \<open>gzclose\<close>; a reader is opened on the contents of a file.
  \<open>gz_write\<close> returns what \<open>gzwrite\<close> returns (zero is an error), \<open>gz_read\<close> the
  bytes of one \<open>gzread\<close>, or \<open>None\<close> for a negative result.
\<close>

record ('w, 'r) gz_lib =
  gz_new :: 'w
  gz_write :: "'w \<Rightarrow> string \<Rightarrow> nat \<times> 'w"
  gz_finish :: "'w \<Rightarrow> string"
  gz_reader :: "string \<Rightarrow> 'r"
  gz_read :: "'r \<Rightarrow> nat \<Rightarrow> string option \<times> 'r"

text \<open>
  The documented behaviour: a write that does not fail appends all of its bytes;
  a file that was written and closed reads back as the bytes written, and a
  read returns as many as were asked for until they run out.
\<close>

locale gz_api =
  fixes G :: "('w, 'r) gz_lib" and collected :: "'w \<Rightarrow> string" and unread :: "'r \<Rightarrow> string option"
  assumes new_empty: "collected (gz_new G) = []"
    and write_appends: "gz_write G w bs = (n, w') \<Longrightarrow> n \<noteq> 0 \<Longrightarrow> collected w' = collected w @ bs"
    and reader_of_file: "unread (gz_reader G (gz_finish G w)) = Some (collected w)"
    and read_next: "unread r = Some bs \<Longrightarrow>
        \<exists>r'. gz_read G r n = (Some (take n bs), r') \<and> unread r' = Some (drop n bs)"

section \<open>A reference library\<close>

text \<open>
  A writer that stores its bytes behind a one-byte header.  It meets the interface and serves the witnesses.
\<close>

definition stored :: "(string, string option) gz_lib" where
  "stored = \<lparr>gz_new = [], gz_write = (\<lambda>w bs. (length bs, w @ bs)), gz_finish = (\<lambda>w. CHR ''S'' # w),
     gz_reader = (\<lambda>f. case f of [] \<Rightarrow> None | c # bs \<Rightarrow> if c = CHR ''S'' then Some bs else None),
     gz_read = (\<lambda>r n. case r of None \<Rightarrow> (None, None) | Some bs \<Rightarrow> (Some (take n bs), Some (drop n bs)))\<rparr>"

lemma stored_simps [simp]:
  "gz_new stored = []"
  "gz_write stored w bs = (length bs, w @ bs)"
  "gz_finish stored w = CHR ''S'' # w"
  "gz_reader stored f = (case f of [] \<Rightarrow> None | c # bs \<Rightarrow> if c = CHR ''S'' then Some bs else None)"
  "gz_read stored r n = (case r of None \<Rightarrow> (None, None) | Some bs \<Rightarrow> (Some (take n bs), Some (drop n bs)))"
  by (simp_all add: stored_def)

interpretation stored_gz: gz_api stored id id
  by unfold_locales auto

end
