(* ===== verification/Image_Transfer.thy ===== *)
theory Image_Transfer
  imports Server_State Gz_Api
begin

text \<open>
  The server's side of the image: \<open>compress_image\<close> turns the edge image into a
  zip file, \<open>send_zip_file\<close> sends that file to a client in pieces of
  \<open>MAX_BUFFER\<close> bytes, followed by the three bytes \<open>EOF\<close>.
\<close>

section \<open>Compressing the edge image\<close>

text \<open>
  The copying loop: \<open>fread\<close> delivers the image in pieces of \<open>MAX_BUFFER\<close> bytes.
  The flag tells whether every \<open>gzwrite\<close> succeeded.
\<close>

function gz_copy :: "('w, 'r) gz_lib \<Rightarrow> 'w \<Rightarrow> string \<Rightarrow> bool \<times> 'w" where
  "gz_copy G w bs =
     (if bs = [] then (True, w)
      else let (n, w') = gz_write G w (take MAX_BUFFER bs) in
        if n = 0 then (False, w') else gz_copy G w' (drop MAX_BUFFER bs))"
  by pat_completeness auto
termination
  by (relation "measure (\<lambda>(G, w, bs). length bs)") auto

declare gz_copy.simps [simp del]

text \<open>
  Opening the zip file for writing empties it; it gets its contents when it is
  closed.  The early return for a missing image does not close it.
\<close>

definition compress_image :: "('w, 'r) gz_lib \<Rightarrow> (('d, 'm) server_scheme, unit) act" where
  "compress_image G =
     thn (say ''[EDGE] Creating zip file.'')
     (\<lambda>s. if \<not> zip_creatable s then say ''[EDGE] Error creating zip file.'' s
          else case edge_image s of
            None \<Rightarrow> say ''[EDGE] Error opening image file.'' (s\<lparr>zip_file := Some []\<rparr>)
          | Some img \<Rightarrow>
              let (ok, w) = gz_copy G (gz_new G) img;
                  s' = s\<lparr>zip_file := Some (gz_finish G w)\<rparr>
              in if ok then say ''[EDGE] Zip file created succesfully.'' s'
                 else say ''[EDGE] Error writing to zip file.'' s')"

section \<open>Sending the zip file\<close>

text \<open>
  The sending loop returns \<open>None\<close> when a write failed, and otherwise the number
  of bytes that the writes reported.  Only a negative result counts as failure:
  a piece that was written in part is not written again.
\<close>

function send_pieces :: "int \<Rightarrow> string \<Rightarrow> int \<Rightarrow> (('d, 'm) server_scheme, int option) act" where
  "send_pieces sock bs bytes_sent =
     (if bs = [] then ret (Some bytes_sent)
      else bnd (write_fd sock (take MAX_BUFFER bs)) (\<lambda>num.
        if num < 0 then ret None
        else send_pieces sock (drop MAX_BUFFER bs) (bytes_sent + num)))"
  by pat_completeness auto
termination
  by (relation "measure (\<lambda>(sock, bs, bytes_sent). length bs)") auto

declare send_pieces.simps [simp del]

definition send_zip_file :: "int \<Rightarrow> (('d, 'm) server_scheme, unit) act" where
  "send_zip_file client_socket = (\<lambda>s.
     case zip_file s of
       None \<Rightarrow> say ''[EDGE] Error opening zip file.'' s
     | Some content \<Rightarrow>
         bnd (send_pieces client_socket content 0) (\<lambda>r. case r of
             None \<Rightarrow> say ''[EDGE] Error sending zip file.''
           | Some bytes_sent \<Rightarrow>
               thn (say (''[EDGE] Zip file sent successfully. '' @ show_int bytes_sent @ '' bytes.''))
               (bnd (write_fd client_socket ''EOF'') (\<lambda>num.
                 if num < 0 then say ''[EDGE] Error sending EOF.'' else ret ()))) s)"

section \<open>What is compressed and sent\<close>

context gz_api begin

lemma gz_copy_collects: "gz_copy G w bs = (True, w') \<Longrightarrow> collected w' = collected w @ bs"
proof (induction bs arbitrary: w rule: length_induct)
  case (1 bs)
  show ?case
  proof (cases "bs = []")
    case True
    with 1 show ?thesis by (simp add: gz_copy.simps [of G w "[]"])
  next
    case False
    obtain n v where nv: "gz_write G w (take MAX_BUFFER bs) = (n, v)" by fastforce
    with 1(2) False have "n \<noteq> 0" and rest: "gz_copy G v (drop MAX_BUFFER bs) = (True, w')"
      by (simp_all add: gz_copy.simps [of G w bs] split: if_splits)
    moreover have "length (drop MAX_BUFFER bs) < length bs" using False by simp
    ultimately have "collected w' = collected v @ drop MAX_BUFFER bs" using 1(1) by blast
    with write_appends [OF nv \<open>n \<noteq> 0\<close>] show ?thesis by simp
  qed
qed

end

text \<open>The bytes that reached one socket, in order.\<close>

definition wire :: "int \<Rightarrow> (int \<times> string) list \<Rightarrow> string" where
  "wire sock xs = concat (map snd (filter (\<lambda>x. fst x = sock) xs))"

lemma wire_Nil [simp]: "wire sock [] = []"
  by (simp add: wire_def)

lemma wire_append [simp]: "wire sock (xs @ ys) = wire sock xs @ wire sock ys"
  by (simp add: wire_def)

lemma wire_single [simp]: "wire sock [(k, bs)] = (if k = sock then bs else [])"
  by (simp add: wire_def)

lemma write_fd_full [act_simps]:
  "write_results s = [] \<Longrightarrow> write_fd sock bs s = (Inr (int (length bs)), s\<lparr>sent := sent s @ [(sock, bs)]\<rparr>)"
  by (simp add: write_fd_def)

lemma send_pieces_full:
  "write_results s = [] \<Longrightarrow>
     \<exists>xs. send_pieces sock bs n s = (Inr (Some (n + int (length bs))), s\<lparr>sent := sent s @ xs\<rparr>) \<and>
       wire sock xs = bs \<and> fst ` set xs \<subseteq> {sock}"
proof (induction sock bs n arbitrary: s rule: send_pieces.induct)
  case (1 sock bs n)
  show ?case
  proof (cases "bs = []")
    case True
    then show ?thesis by (intro exI [of _ "[]"]) (simp add: send_pieces.simps)
  next
    case False
    let ?p = "take MAX_BUFFER bs"
    let ?s = "s\<lparr>sent := sent s @ [(sock, ?p)]\<rparr>"
    have "\<not> int (length ?p) < 0" "write_results ?s = []" using 1(2) by simp_all
    from 1(1) [OF False this] obtain xs where
      "send_pieces sock (drop MAX_BUFFER bs) (n + int (length ?p)) ?s =
         (Inr (Some (n + int (length ?p) + int (length (drop MAX_BUFFER bs)))), ?s\<lparr>sent := sent ?s @ xs\<rparr>)"
      "wire sock xs = drop MAX_BUFFER bs" "fst ` set xs \<subseteq> {sock}"
      by blast
    moreover have "int (length ?p) + int (length (drop MAX_BUFFER bs)) = int (length bs)" by simp
    ultimately show ?thesis using False 1(2)
      by (intro exI [of _ "(sock, ?p) # xs"])
        (simp add: send_pieces.simps [of sock bs n] write_fd_full wire_def)
  qed
qed

text \<open>
  With a peer that takes every byte, sending delivers the file and the three
  bytes \<open>EOF\<close>, and nothing to any other socket.
\<close>

lemma send_zip_file_full:
  assumes "zip_file s = Some content" and "write_results s = []"
  shows "\<exists>xs. send_zip_file sock s =
      (Inr (), s\<lparr>sent := sent s @ xs, console := console s @
        [''[EDGE] Zip file sent successfully. '' @ show_int (int (length content)) @ '' bytes.'']\<rparr>) \<and>
    wire sock xs = content @ ''EOF'' \<and> fst ` set xs \<subseteq> {sock}"
proof -
  from send_pieces_full [OF assms(2), of sock content 0] obtain xs where
    "send_pieces sock content 0 s = (Inr (Some (int (length content))), s\<lparr>sent := sent s @ xs\<rparr>)"
    "wire sock xs = content" "fst ` set xs \<subseteq> {sock}" by auto
  with assms show ?thesis
    by (intro exI [of _ "xs @ [(sock, ''EOF'')]"]) (simp add: send_zip_file_def write_fd_full)
qed

end
