(* ===== verification/Supplies_Frame.thy ===== *)
theory Supplies_Frame
  imports Supplies
begin

text \<open>
  What the supplies library leaves alone: every operation changes the store and
  the console only, whatever the JSON library and the store do, and whichever
  way it ends.  The server's state extends the store's, so everything else in
  it is untouched.
\<close>

definition store_step :: "('d, 'm) store_scheme \<Rightarrow> ('d, 'm) store_scheme \<Rightarrow> bool" where
  "store_step s s' \<longleftrightarrow> store.more s' = store.more s"

lemma store_step_refl: "reflp store_step"
  by (simp add: reflp_def store_step_def)

lemma store_step_trans: "transp store_step"
  by (simp add: transp_def store_step_def)

lemmas store_step_pure = keeps_pure [OF store_step_refl]
lemmas store_step_bnd = keeps_bnd [OF store_step_trans]
lemmas store_step_thn = keeps_thn [OF store_step_trans]

lemma store_step_prims:
  "keeps store_step (say t)"
  "keeps store_step (get_value K k)"
  "keeps store_step (put_value K k v)"
  by (auto simp: keeps_def store_step_def say_def get_value_def put_value_def split: prod.splits)

lemmas store_step_intros =
  store_step_pure store_step_bnd store_step_thn store_step_prims keeps_if

lemma keeps_case_sum:
  "(\<And>e. keeps R (f e)) \<Longrightarrow> (\<And>x. keeps R (g x)) \<Longrightarrow> keeps R (case r of Inl e \<Rightarrow> f e | Inr x \<Rightarrow> g x)"
  by (cases r) simp_all

lemma keeps_case_option:
  "keeps R m \<Longrightarrow> (\<And>x. keeps R (g x)) \<Longrightarrow> keeps R (case r of None \<Rightarrow> m | Some x \<Rightarrow> g x)"
  by (cases r) simp_all

lemma keeps_case_loop_exit:
  "keeps R m \<Longrightarrow> (\<And>x. keeps R (g x)) \<Longrightarrow> keeps R (case r of Returned \<Rightarrow> m | Fell x \<Rightarrow> g x)"
  by (cases r) simp_all

lemma keeps_case_prod: "(\<And>x y. keeps R (g x y)) \<Longrightarrow> keeps R (case r of (x, y) \<Rightarrow> g x y)"
  by (cases r) simp

lemmas keeps_cases = keeps_case_sum keeps_case_option keeps_case_loop_exit keeps_case_prod

lemma store_step_readers:
  "keeps store_step (show_state_summary J K status)"
  "keeps store_step (get_supplies J K)"
  "keeps store_step (get_alerts J K)"
  "keeps store_step (get_emergencies J K)"
  unfolding show_state_summary_def get_supplies_def get_alerts_def get_emergencies_def get_section_def
  by (intro store_step_intros keeps_cases)+

lemma store_step_create: "keeps store_step (create_state_summary J K)"
  unfolding create_state_summary_def by (intro store_step_intros keeps_cases)

lemma store_step_store_summary: "keeps store_step (store_summary J K j)"
  unfolding store_summary_def by (intro store_step_intros keeps_cases)

lemma store_step_with_summary: "(\<And>j. keeps store_step (body j)) \<Longrightarrow> keeps store_step (with_summary J K body)"
  unfolding with_summary_def after_read_def by (intro store_step_intros keeps_cases)

lemma store_step_supply_loop: "keeps store_step (supply_loop J K key val summary cats)"
proof (induction cats)
  case Nil
  show ?case by (simp only: supply_loop.simps) (rule store_step_pure)
next
  case (Cons c cs)
  then show ?case
    by (simp only: supply_loop.simps) (intro store_step_intros keeps_cases store_step_store_summary)
qed

lemma store_step_modify:
  "keeps store_step (modify_supplies J K key val)"
  "keeps store_step (modify_alerts J K a)"
  "keeps store_step (modify_emergencies J K ts msg)"
  unfolding modify_supplies_def modify_alerts_def count_in_summary_def modify_emergencies_def
  by (intro store_step_with_summary store_step_intros keeps_cases store_step_supply_loop store_step_store_summary)+

lemmas store_step_ops = store_step_readers store_step_create store_step_modify

end
