(* ===== verification/Session.thy ===== *)
theory Session
  imports Image_Transfer Supplies_Frame
begin

text \<open>
  The conversation of \<open>src/server.cpp\<close> with one client: \<open>handle_client\<close>, its
  command loop, the login dialogue, and the commands.  The arrays of the C++
  code are uninitialised on entry, so their first contents are an argument
  \<open>junk\<close>.
\<close>

section \<open>Replies\<close>

definition get_refuge_state ::
    "'j json_lib \<Rightarrow> 'd kv_lib \<Rightarrow> int \<Rightarrow> string option \<Rightarrow> (('d, 'm) server_scheme, unit) act" where
  "get_refuge_state J K client_sock status =
     bnd (show_state_summary J K status) (\<lambda>refugeString. send client_sock refugeString)"

text \<open>
  \<open>n = recv(sock, buffer, MAX_BUFFER, 0)\<close>, the exit when nothing was received,
  \<open>buffer[n] = 0\<close>, and the C string in the buffer.
\<close>

definition recv_text :: "string \<Rightarrow> int \<Rightarrow> string \<Rightarrow> (('d, 'm) server_scheme, string) act" where
  "recv_text junk sock err =
     bnd (recv sock MAX_BUFFER) (\<lambda>bs.
     if bs = [] then thn (say err) (halt (Exit 1))
     else of_res (terminated junk bs))"

definition supply_prompt :: string where
  "supply_prompt = ''Enter the new '' @ [CHR 0x27] @ ''key,value'' @ [CHR 0x27] @ '' supply:''"

definition set_supplies ::
    "'j json_lib \<Rightarrow> 'd kv_lib \<Rightarrow> string \<Rightarrow> int \<Rightarrow> string option \<Rightarrow> (('d, 'm) server_scheme, unit) act" where
  "set_supplies J K junk client_sock status =
     thn (send_lit client_sock supply_prompt 32)
     (bnd (recv_text junk client_sock ''Error reading from client'') (\<lambda>supplies.
      bnd (of_res (substr supplies 0 (str_find supplies (CHR '','')))) (\<lambda>supply_key.
      bnd (of_res (substr supplies (size_plus1 (str_find supplies (CHR '',''))) npos)) (\<lambda>new_value.
      thn (modify_supplies J K supply_key new_value)
      (thn (send_lit client_sock ''Supplies updated.'' 17)
           (get_refuge_state J K client_sock status))))))"

section \<open>Login\<close>

definition client_login_with_bool_return ::
    "string \<Rightarrow> int \<Rightarrow> bool \<Rightarrow> (('d, 'm) server_scheme, bool) act" where
  "client_login_with_bool_return junk client_sock ubuntu =
     thn (send_lit client_sock ''Enter username: '' 17)
     (bnd (recv_text junk client_sock ''[ERROR] Error reading from client.'') (\<lambda>username.
      if username = ''ubuntu'' then
        thn (send_lit client_sock ''Enter password: '' 17)
        (bnd (recv_text junk client_sock ''[ERROR] Error reading from client.'') (\<lambda>password.
         if password = ''ubuntu'' then
           thn (say ''[SERVER] Login successful.'')
           (thn (send_lit client_sock ''Login successful.'' 18) (ret True))
         else thn (say ''[SERVER] Login failed.'') (ret ubuntu)))
      else ret ubuntu))"

section \<open>Commands\<close>

definition help_text :: string where
  "help_text =
     ''Commands available:'' @ [CHR 0x0A] @
     '' -> help          - Show this help message.'' @ [CHR 0x0A] @
     '' -> login         - login as root to modify supplies.'' @ [CHR 0x0A] @
     '' -> exit          - Disconnect from the server.'' @ [CHR 0x0A] @
     '' -> get_image     - Get satellite image from canny edge.'' @ [CHR 0x0A] @
     '' -> get_state     - Get summary state of the refuge.'' @ [CHR 0x0A] @
     '' -> set_supplies  - Set supplies for the refuge.''"

text \<open>The body of the loop after the tests for \<open>exit\<close>; the result is the new value of \<open>ubuntu\<close>.\<close>

definition client_command ::
    "'j json_lib \<Rightarrow> 'd kv_lib \<Rightarrow> string \<Rightarrow> sockaddr \<Rightarrow> string option \<Rightarrow> int \<Rightarrow> bool \<Rightarrow> string
     \<Rightarrow> (('d, 'm) server_scheme, bool) act" where
  "client_command J K junk client_addr status client_socket ubuntu cmd =
     (let port = show_int (get_port client_addr) in
      if cmd = ''login'' then
        thn (say (''[SERVER] Client '' @ port @ '' is attempting to login.''))
            (client_login_with_bool_return junk client_socket ubuntu)
      else if cmd = ''set_supplies'' then
        (if ubuntu then
           thn (set_supplies J K junk client_socket status)
          (thn (log_event client_addr ''Update of supplies from client''
                  (if ubuntu then ''Authorized'' else ''Denied invalid hostname''))
           (ret ubuntu))
         else
           thn (say (''[SERVER] Client '' @ port @ '' is not authorized to modify the supplies.''))
          (thn (send_lit client_socket ''You are not authorized to modify the supplies.'' 40)
          (thn (log_event client_addr ''Update of supplies from client''
                  (if ubuntu then ''Authorized'' else ''Denied invalid hostname''))
           (ret ubuntu))))
      else if cmd = ''get_state'' then
        thn (say (''[SERVER] Client '' @ port @ '' requested the state.''))
       (thn (get_refuge_state J K client_socket status)
       (thn (log_event client_addr ''Request of state from client'' []) (ret ubuntu)))
      else if cmd = ''get_image'' then
        thn (say (''[SERVER] Client '' @ port @ '' requested the image.''))
       (thn (log_event client_addr ''Request of image from client'' [])
       (thn (send_zip_file client_socket) (ret ubuntu)))
      else if cmd = ''help'' \<or> cmd = ''h'' then
        thn (say (''[SERVER] Client '' @ port @ '' requested help.''))
       (thn (send client_socket help_text) (ret ubuntu))
      else
        thn (say (''[SERVER] Invalid command '' @ cmd))
       (thn (send_lit client_socket ''Invalid command.'' 16) (ret ubuntu)))"

section \<open>What the commands leave alone\<close>

text \<open>
  A command reads from its own socket only, and changes neither the list of
  clients, nor the web user, nor the closed descriptors.
\<close>

definition short_pieces :: "recv_event list \<Rightarrow> bool" where
  "short_pieces evs \<longleftrightarrow> (\<forall>bs. Data bs \<in> set evs \<longrightarrow> length bs < MAX_BUFFER)"

definition session_step :: "int \<Rightarrow> ('d, 'm) server_scheme \<Rightarrow> ('d, 'm) server_scheme \<Rightarrow> bool" where
  "session_step sock s s' \<longleftrightarrow> pending (inbox s' sock) \<le> pending (inbox s sock) \<and>
     (\<forall>k. k \<noteq> sock \<longrightarrow> inbox s' k = inbox s k) \<and>
     connected_clients s' = connected_clients s \<and> user s' = user s \<and> closed_fds s' = closed_fds s \<and>
     (short_pieces (inbox s sock) \<longrightarrow> set (inbox s' sock) \<subseteq> set (inbox s sock))"

lemma session_step_refl: "reflp (session_step sock)"
  by (simp add: reflp_def session_step_def)

lemma session_step_trans: "transp (session_step sock)"
proof (rule transpI)
  fix x y z :: "('d, 'm) server_scheme"
  assume xy: "session_step sock x y" and yz: "session_step sock y z"
  have "set (inbox z sock) \<subseteq> set (inbox x sock)" if "short_pieces (inbox x sock)"
  proof -
    from xy that have sub: "set (inbox y sock) \<subseteq> set (inbox x sock)" by (simp add: session_step_def)
    with that have "short_pieces (inbox y sock)" by (auto simp: short_pieces_def)
    with yz sub show ?thesis by (auto simp: session_step_def)
  qed
  moreover from xy yz have "pending (inbox z sock) \<le> pending (inbox x sock)"
    unfolding session_step_def by linarith
  ultimately show "session_step sock x z"
    using xy yz unfolding session_step_def by (elim conjE) (intro conjI allI impI; metis)
qed

lemmas session_step_pure = keeps_pure [OF session_step_refl]
lemmas session_step_bnd = keeps_bnd [OF session_step_trans]
lemmas session_step_thn = keeps_thn [OF session_step_trans]

lemma server_more:
  fixes s s' :: "('d, 'm) server_scheme"
  assumes "store.more s' = store.more s"
  shows "inbox s' = inbox s" "sent s' = sent s" "write_results s' = write_results s" "closed_fds s' = closed_fds s"
    "connected_clients s' = connected_clients s" "user s' = user s" "log_opens s' = log_opens s"
    "log_file s' = log_file s" "clock s' = clock s" "ticks s' = ticks s" "zip_file s' = zip_file s"
  using assms by (cases s; cases s'; simp)+

lemma session_step_store:
  fixes m :: "(('d, 'm) server_scheme, 'a) act"
  assumes "keeps store_step m"
  shows "keeps (session_step sock) m"
proof (rule keepsI)
  fix s
  from keepsD [OF assms, of s] have "store.more (snd (m s)) = store.more s" by (simp add: store_step_def)
  from server_more [OF this] show "session_step sock s (snd (m s))" by (simp add: session_step_def)
qed

lemma session_step_send: "keeps (session_step sock) (send k bs)"
  by (simp add: keeps_def session_step_def)

lemma session_step_send_lit: "keeps (session_step sock) (send_lit k lit n)"
  unfolding send_lit_def by (intro session_step_bnd session_step_pure session_step_send)

lemma session_step_write: "keeps (session_step sock) (write_fd k bs)"
  by (simp add: keeps_def session_step_def write_fd_def Let_def)

lemma recv_chunk_short_set:
  "recv_chunk lim evs = (bs, evs') \<Longrightarrow> short_pieces evs \<Longrightarrow> MAX_BUFFER - 1 \<le> lim \<Longrightarrow> set evs' \<subseteq> set evs"
  by (induction lim evs rule: recv_chunk.induct) (fastforce simp: short_pieces_def split: if_splits)+

lemma session_step_recv: "MAX_BUFFER - 1 \<le> lim \<Longrightarrow> keeps (session_step sock) (recv sock lim)"
  unfolding keeps_def session_step_def recv_def
  by (auto split: prod.splits dest: recv_chunk_pending_le recv_chunk_short_set)

lemma session_step_zip_file: "keeps (session_step sock) (send_zip_file sock)"
proof (rule keepsI)
  fix s :: "('a, 'b) server_scheme"
  have pieces: "keeps (session_step sock) (send_pieces sock bs n)" for bs n
  proof (induction bs arbitrary: n rule: length_induct)
    case (1 bs)
    then show ?case
      by (subst send_pieces.simps) (intro keeps_if session_step_bnd session_step_write session_step_pure; simp)
  qed
  show "session_step sock s (snd (send_zip_file sock s))"
  proof (cases "zip_file s")
    case None
    then show ?thesis by (simp add: send_zip_file_def session_step_def)
  next
    case (Some content)
    show ?thesis unfolding send_zip_file_def Some option.simps
      by (rule keepsD) (intro session_step_bnd session_step_thn pieces session_step_write session_step_pure
        session_step_store [OF store_step_prims(1)] keeps_if keeps_cases)
  qed
qed

lemma session_step_log: "keeps (session_step sock) (log_event a ty d)"
  by (simp add: keeps_def log_event_run session_step_def)

lemmas session_step_intros =
  session_step_pure session_step_bnd session_step_thn session_step_send session_step_send_lit
  session_step_zip_file session_step_log session_step_store [OF store_step_prims(1)] keeps_if

lemma session_step_recv_text: "keeps (session_step sock) (recv_text junk sock err)"
  unfolding recv_text_def by (intro session_step_recv session_step_intros) simp_all

lemma session_step_state: "keeps (session_step sock) (get_refuge_state J K k status)"
  unfolding get_refuge_state_def
  by (intro session_step_store [OF store_step_readers(1)] session_step_intros)

lemma session_step_set_supplies: "keeps (session_step sock) (set_supplies J K junk sock status)"
  unfolding set_supplies_def
  by (intro session_step_store [OF store_step_modify(1)] session_step_recv_text session_step_state session_step_intros)

lemma session_step_login: "keeps (session_step sock) (client_login_with_bool_return junk sock u)"
  unfolding client_login_with_bool_return_def by (intro session_step_recv_text session_step_intros)

lemma session_step_command: "keeps (session_step sock) (client_command J K junk a status sock u cmd)"
  unfolding client_command_def Let_def
  by (intro session_step_set_supplies session_step_login session_step_state session_step_intros)

lemma recv_pending:
  "recv sock lim s = (Inr bs, s') \<Longrightarrow> bs \<noteq> [] \<Longrightarrow> pending (inbox s' sock) < pending (inbox s sock)"
  by (auto simp: recv_def split: prod.splits dest: recv_chunk_pending_less)

lemma command_pending:
  "client_command J K junk a status sock u cmd s = (r, s') \<Longrightarrow>
     pending (inbox s' sock) \<le> pending (inbox s sock)"
  using keepsD [OF session_step_command, of sock s J K junk a status u cmd]
  by (simp add: session_step_def)

section \<open>The loop\<close>

text \<open>
  \<open>exit\<close> is compared with the buffer before the terminator is written: the
  buffer is cleared after each command, but holds \<open>junk\<close> in the first round.
\<close>

function client_loop ::
    "'j json_lib \<Rightarrow> 'd kv_lib \<Rightarrow> string \<Rightarrow> sockaddr \<Rightarrow> string option \<Rightarrow> int \<Rightarrow> bool \<Rightarrow> string
     \<Rightarrow> (('d, 'm) server_scheme, unit) act" where
  "client_loop J K junk client_addr status client_socket ubuntu buf s =
     (case recv client_socket (MAX_BUFFER - 1) s of
        (Inl e, s1) \<Rightarrow> (Inl e, s1)
      | (Inr bs, s1) \<Rightarrow>
      if bs = [] then (Inr (), s1)
      else case c_str (buf_fill buf bs) of
        Inl e \<Rightarrow> (Inl e, s1)
      | Inr text \<Rightarrow>
      if text = ''exit'' then (Inr (), s1)
      else case terminated buf bs of
        Inl e \<Rightarrow> (Inl e, s1)
      | Inr cmd \<Rightarrow>
      (case client_command J K junk client_addr status client_socket ubuntu cmd s1 of
        (Inl e, s2) \<Rightarrow> (Inl e, s2)
      | (Inr ubuntu', s2) \<Rightarrow>
          client_loop J K junk client_addr status client_socket ubuntu' (replicate MAX_BUFFER NUL) s2))"
  by pat_completeness auto
termination
  by (relation "measure (\<lambda>(J, K, junk, a, st, sock, u, buf, s). pending (inbox s sock))")
    (auto dest!: recv_pending [OF sym] command_pending [OF sym])

declare client_loop.simps [simp del]

text \<open>
  One round of the loop on its own, for the threads of the system: it stays, with
  the new value of \<open>ubuntu\<close>, or leaves the loop.
\<close>

datatype round_end = Stays bool | Leaves

definition client_round ::
    "'j json_lib \<Rightarrow> 'd kv_lib \<Rightarrow> string \<Rightarrow> sockaddr \<Rightarrow> string option \<Rightarrow> int \<Rightarrow> bool \<Rightarrow> string
     \<Rightarrow> (('d, 'm) server_scheme, round_end) act" where
  "client_round J K junk client_addr status client_socket ubuntu buf =
     bnd (recv client_socket (MAX_BUFFER - 1)) (\<lambda>bs.
     if bs = [] then ret Leaves
     else bnd (of_res (c_str (buf_fill buf bs))) (\<lambda>text.
     if text = ''exit'' then ret Leaves
     else bnd (of_res (terminated buf bs)) (\<lambda>cmd.
     bnd (client_command J K junk client_addr status client_socket ubuntu cmd) (\<lambda>ubuntu'.
     ret (Stays ubuntu')))))"

lemma client_loop_rounds:
  "client_loop J K junk a status sock u buf s =
     (case client_round J K junk a status sock u buf s of
        (Inl e, s') \<Rightarrow> (Inl e, s')
      | (Inr Leaves, s') \<Rightarrow> (Inr (), s')
      | (Inr (Stays u'), s') \<Rightarrow> client_loop J K junk a status sock u' (replicate MAX_BUFFER NUL) s')"
  by (subst client_loop.simps) (simp add: client_round_def split: sum.split prod.split)

section \<open>The whole conversation\<close>

definition add_client :: "int \<Rightarrow> (('d, 'm) server_scheme, unit) act" where
  "add_client sock = (\<lambda>s. (Inr (), s\<lparr>connected_clients := connected_clients s @ [sock]\<rparr>))"

definition remove_client :: "int \<Rightarrow> (('d, 'm) server_scheme, unit) act" where
  "remove_client sock =
     (\<lambda>s. (Inr (), s\<lparr>connected_clients := filter (\<lambda>c. c \<noteq> sock) (connected_clients s)\<rparr>))"

definition client_arrives :: "sockaddr \<Rightarrow> int \<Rightarrow> (('d, 'm) server_scheme, unit) act" where
  "client_arrives client_addr sock =
     thn (add_client sock)
    (thn (log_event client_addr ''Connection from new client'' [])
         (say (''[SERVER] Client connected at port: '' @ show_int (get_port client_addr))))"

definition client_leaves :: "sockaddr \<Rightarrow> int \<Rightarrow> (('d, 'm) server_scheme, unit) act" where
  "client_leaves client_addr sock =
     thn (remove_client sock)
    (thn (say (''[SERVER] Client '' @ show_int (get_port client_addr) @ '' disconnected.''))
    (thn (log_event client_addr ''Connection close from client'' [])
         (close_fd sock)))"

text \<open>\<open>peer\<close> is what \<open>getpeername\<close> tells about a socket; \<open>None\<close> is its failure.\<close>

definition handle_client ::
    "'j json_lib \<Rightarrow> 'd kv_lib \<Rightarrow> (int \<Rightarrow> sockaddr option) \<Rightarrow> string \<Rightarrow> int \<Rightarrow> string option
     \<Rightarrow> (('d, 'm) server_scheme, unit) act" where
  "handle_client J K peer junk client_socket status =
     (case peer client_socket of
        None \<Rightarrow> thn (say ''[ERROR] Error getting client information.'') (close_fd client_socket)
      | Some client_addr \<Rightarrow>
          thn (client_arrives client_addr client_socket)
         (thn (client_loop J K junk client_addr status client_socket False junk)
              (client_leaves client_addr client_socket)))"

lemma client_arrives_run:
  fixes s :: "('d, 'm) server_scheme"
  obtains s' where "client_arrives a sock s = (Inr (), s')"
    and "inbox s' = inbox s" and "db s' = db s" and "sent s' = sent s" and "closed_fds s' = closed_fds s"
    and "connected_clients s' = connected_clients s @ [sock]"
    and "write_results s' = write_results s" and "zip_file s' = zip_file s"
proof (rule that [of "snd (client_arrives a sock s)"])
qed (simp_all add: client_arrives_def add_client_def log_event_run)

lemma client_leaves_run:
  fixes s :: "('d, 'm) server_scheme"
  obtains s' where "client_leaves a sock s = (Inr (), s')"
    and "inbox s' = inbox s" and "db s' = db s" and "sent s' = sent s" and "closed_fds s' = closed_fds s @ [sock]"
    and "connected_clients s' = filter (\<lambda>c. c \<noteq> sock) (connected_clients s)"
proof (rule that [of "snd (client_leaves a sock s)"])
qed (simp_all add: client_leaves_def remove_client_def log_event_run)

text \<open>
  A conversation is its loop, between the arrival and the departure: \<open>around s s0\<close>
  says that \<open>s0\<close> is the state at the start of the loop, and what the end of the
  loop makes of the conversation.
\<close>

definition around ::
    "'j json_lib \<Rightarrow> 'd kv_lib \<Rightarrow> (int \<Rightarrow> sockaddr option) \<Rightarrow> string \<Rightarrow> int \<Rightarrow> string option \<Rightarrow> sockaddr
     \<Rightarrow> ('d, 'm) server_scheme \<Rightarrow> ('d, 'm) server_scheme \<Rightarrow> bool" where
  "around J K peer junk sock status a s s0 \<longleftrightarrow>
     inbox s0 = inbox s \<and> db s0 = db s \<and> sent s0 = sent s \<and> closed_fds s0 = closed_fds s \<and>
     connected_clients s0 = connected_clients s @ [sock] \<and>
     write_results s0 = write_results s \<and> zip_file s0 = zip_file s \<and>
     (\<forall>e s1. client_loop J K junk a status sock False junk s0 = (Inl e, s1) \<longrightarrow>
        handle_client J K peer junk sock status s = (Inl e, s1)) \<and>
     (\<forall>s1. client_loop J K junk a status sock False junk s0 = (Inr (), s1) \<longrightarrow>
        (\<exists>s2. handle_client J K peer junk sock status s = (Inr (), s2) \<and>
          db s2 = db s1 \<and> inbox s2 = inbox s1 \<and> sent s2 = sent s1 \<and> closed_fds s2 = closed_fds s1 @ [sock] \<and>
          connected_clients s2 = filter (\<lambda>c. c \<noteq> sock) (connected_clients s1)))"

lemma handle_client_run:
  fixes s :: "('d, 'm) server_scheme"
  assumes "peer sock = Some a"
  obtains s0 where "around J K peer junk sock status a s s0"
proof -
  obtain s0 where s0: "client_arrives a sock s = (Inr (), s0)"
    "inbox s0 = inbox s" "db s0 = db s" "sent s0 = sent s" "closed_fds s0 = closed_fds s"
    "connected_clients s0 = connected_clients s @ [sock]" "write_results s0 = write_results s" "zip_file s0 = zip_file s"
    by (rule client_arrives_run)
  have "handle_client J K peer junk sock status s = (Inl e, s1)"
    if "client_loop J K junk a status sock False junk s0 = (Inl e, s1)" for e s1
    using that assms s0(1) by (simp add: handle_client_def)
  moreover have "\<exists>s2. handle_client J K peer junk sock status s = (Inr (), s2) \<and>
      db s2 = db s1 \<and> inbox s2 = inbox s1 \<and> sent s2 = sent s1 \<and> closed_fds s2 = closed_fds s1 @ [sock] \<and>
      connected_clients s2 = filter (\<lambda>c. c \<noteq> sock) (connected_clients s1)"
    if l: "client_loop J K junk a status sock False junk s0 = (Inr (), s1)" for s1
  proof -
    obtain s2 where "client_leaves a sock s1 = (Inr (), s2)"
      "inbox s2 = inbox s1" "db s2 = db s1" "sent s2 = sent s1" "closed_fds s2 = closed_fds s1 @ [sock]"
      "connected_clients s2 = filter (\<lambda>c. c \<noteq> sock) (connected_clients s1)"
      by (rule client_leaves_run)
    with assms s0(1) l show ?thesis by (simp add: handle_client_def)
  qed
  ultimately show thesis using s0 by (intro that [of s0]) (simp add: around_def)
qed

lemma aroundD:
  assumes "around J K peer junk sock status a s s0"
  shows "inbox s0 = inbox s" "db s0 = db s" "sent s0 = sent s" "closed_fds s0 = closed_fds s"
    "connected_clients s0 = connected_clients s @ [sock]"
    "write_results s0 = write_results s" "zip_file s0 = zip_file s"
    "client_loop J K junk a status sock False junk s0 = (Inl e, s1) \<Longrightarrow>
       handle_client J K peer junk sock status s = (Inl e, s1)"
    "client_loop J K junk a status sock False junk s0 = (Inr (), s1) \<Longrightarrow>
       \<exists>s2. handle_client J K peer junk sock status s = (Inr (), s2) \<and>
          db s2 = db s1 \<and> inbox s2 = inbox s1 \<and> sent s2 = sent s1 \<and> closed_fds s2 = closed_fds s1 @ [sock] \<and>
          connected_clients s2 = filter (\<lambda>c. c \<noteq> sock) (connected_clients s1)"
  using assms by (simp_all add: around_def)

section \<open>Single steps\<close>

text \<open>An array of the right size that holds a terminator somewhere.\<close>

definition buffer_ok :: "string \<Rightarrow> bool" where
  "buffer_ok buf \<longleftrightarrow> length buf = MAX_BUFFER \<and> last buf = NUL"

lemma buffer_ok_cleared [simp]: "buffer_ok (replicate MAX_BUFFER NUL)"
  by (simp add: buffer_ok_def)

lemma recv_data [act_simps]:
  "inbox s sock = Data bs # evs \<Longrightarrow> length bs \<le> lim \<Longrightarrow>
     recv sock lim s = (Inr bs, s\<lparr>inbox := (inbox s)(sock := evs)\<rparr>)"
  by (simp add: recv_def)

lemma recv_text_data [act_simps]:
  "inbox s sock = Data bs # evs \<Longrightarrow> bs \<noteq> [] \<Longrightarrow> length bs < MAX_BUFFER \<Longrightarrow> length junk = MAX_BUFFER \<Longrightarrow>
     recv_text junk sock err s = (Inr (text_of bs), s\<lparr>inbox := (inbox s)(sock := evs)\<rparr>)"
  by (simp add: recv_text_def recv_data terminated_fits)

lemma recv_text_overrun [act_simps]:
  "inbox s sock = Data bs # evs \<Longrightarrow> length bs = MAX_BUFFER \<Longrightarrow> length junk = MAX_BUFFER \<Longrightarrow>
     recv_text junk sock err s = (Inl Undefined, s\<lparr>inbox := (inbox s)(sock := evs)\<rparr>)"
  by (cases "bs = []") (simp_all add: recv_text_def recv_data terminated_overrun MAX_BUFFER_def)

lemma recv_text_closed [act_simps]:
  "inbox s sock = [] \<Longrightarrow> recv_text junk sock err s =
     (Inl (Exit 1), s\<lparr>inbox := (inbox s)(sock := []), console := console s @ [err]\<rparr>)"
  by (simp add: recv_text_def recv_def say_def)

lemma c_str_fill:
  assumes "buffer_ok buf" and "length bs < MAX_BUFFER"
  shows "c_str (buf_fill buf bs) = Inr (text_of (bs @ drop (length bs) buf))"
proof -
  have "drop (length bs) buf \<noteq> []" "last (drop (length bs) buf) = NUL"
    using assms by (auto simp: buffer_ok_def)
  then have "NUL \<in> set (drop (length bs) buf)" by (metis last_in_set)
  then show ?thesis by (simp add: c_str_def buf_fill_def text_of_def)
qed

text \<open>After the first command the buffer is clear, and the test for \<open>exit\<close> sees the message itself.\<close>

lemma text_of_fill_cleared: "text_of (bs @ drop n (replicate m NUL)) = text_of bs"
  by (induction bs) (auto simp: text_of_def takeWhile_eq_Nil_iff)

lemma client_loop_command:
  assumes "inbox s sock = Data bs # evs" and "bs \<noteq> []" and "length bs < MAX_BUFFER"
    and "buffer_ok buf" and "text_of (bs @ drop (length bs) buf) \<noteq> ''exit''"
  shows "client_loop J K junk a status sock u buf s =
    (case client_command J K junk a status sock u (text_of bs) (s\<lparr>inbox := (inbox s)(sock := evs)\<rparr>) of
       (Inl e, s2) \<Rightarrow> (Inl e, s2)
     | (Inr u', s2) \<Rightarrow> client_loop J K junk a status sock u' (replicate MAX_BUFFER NUL) s2)"
proof -
  have "length bs \<le> MAX_BUFFER - 1" using assms(3) by simp
  with assms show ?thesis
    by (subst client_loop.simps)
      (simp add: recv_data c_str_fill terminated_fits buffer_ok_def)
qed

lemma client_loop_closed:
  "inbox s sock = [] \<Longrightarrow> client_loop J K junk a status sock u buf s = (Inr (), s\<lparr>inbox := (inbox s)(sock := [])\<rparr>)"
  by (subst client_loop.simps) (simp add: recv_def)

lemma client_loop_exit:
  assumes "inbox s sock = Data bs # evs" and "bs \<noteq> []" and "length bs < MAX_BUFFER"
    and "buffer_ok buf" and "text_of (bs @ drop (length bs) buf) = ''exit''"
  shows "client_loop J K junk a status sock u buf s = (Inr (), s\<lparr>inbox := (inbox s)(sock := evs)\<rparr>)"
proof -
  have "length bs \<le> MAX_BUFFER - 1" using assms(3) by simp
  with assms show ?thesis
    by (subst client_loop.simps) (simp add: recv_data c_str_fill)
qed

end
