(* ===== verification/Session_Props.thy ===== *)
theory Session_Props
  imports Session Supplies_Props
begin

text \<open>
  The properties of a conversation: who may change the store, what an
  authorised update does from the login to the reply, what the other commands
  answer, and what a client can do to the server by closing its connection or
  filling a buffer.
\<close>

section \<open>The store without a login\<close>

definition same_db :: "('d, 'm) store_scheme \<Rightarrow> ('d, 'm) store_scheme \<Rightarrow> bool" where
  "same_db s s' \<longleftrightarrow> db s' = db s"

lemma same_db_refl: "reflp same_db"
  by (simp add: reflp_def same_db_def)

lemma same_db_trans: "transp same_db"
  by (simp add: transp_def same_db_def)

lemmas same_db_struct =
  keeps_pure [OF same_db_refl] keeps_bnd [OF same_db_trans] keeps_thn [OF same_db_trans]

lemma same_db_prims:
  "keeps same_db (say t)"
  "keeps same_db (get_value K k)"
  "keeps same_db (recv sock lim)"
  "keeps same_db (send sock bs)"
  "keeps same_db (write_fd sock bs)"
  "keeps same_db (log_event a ty d)"
  "keeps same_db (close_fd fd)"
  "keeps same_db (add_client fd)"
  "keeps same_db (remove_client fd)"
  by (auto simp: keeps_def same_db_def say_def get_value_def recv_def write_fd_def log_event_run
      add_client_def remove_client_def Let_def split: prod.splits)

lemmas same_db_intros = same_db_struct same_db_prims keeps_if keeps_cases

lemma same_db_show: "keeps same_db (show_state_summary J K status)"
  unfolding show_state_summary_def by (intro same_db_intros)

lemma same_db_send_lit: "keeps same_db (send_lit sock lit n)"
  unfolding send_lit_def by (intro same_db_intros)

lemma same_db_zip: "keeps same_db (send_zip_file sock)"
proof (rule keepsI)
  fix s :: "('a, 'b) server_scheme"
  have pieces: "keeps same_db (send_pieces sock bs n)" for bs n
  proof (induction bs arbitrary: n rule: length_induct)
    case (1 bs)
    then show ?case by (subst send_pieces.simps) (intro same_db_intros; simp)
  qed
  show "same_db s (snd (send_zip_file sock s))"
  proof (cases "zip_file s")
    case None
    then show ?thesis by (simp add: send_zip_file_def same_db_def)
  next
    case (Some content)
    show ?thesis unfolding send_zip_file_def Some option.simps
      by (rule keepsD) (intro pieces same_db_intros)
  qed
qed

lemma same_db_login: "keeps same_db (client_login_with_bool_return junk sock u)"
  unfolding client_login_with_bool_return_def recv_text_def
  by (intro same_db_intros same_db_send_lit)

lemma same_db_command: "keeps same_db (client_command J K junk a status sock False cmd)"
  unfolding client_command_def get_refuge_state_def Let_def
  by (simp only: if_False) (intro same_db_intros same_db_login same_db_zip same_db_show same_db_send_lit)

text \<open>A stream in which no message reads \<open>ubuntu\<close>.\<close>

definition no_password :: "recv_event list \<Rightarrow> bool" where
  "no_password evs \<longleftrightarrow> short_pieces evs \<and> (\<forall>bs. Data bs \<in> set evs \<longrightarrow> text_of bs \<noteq> ''ubuntu'')"

lemma no_password_subset: "no_password evs \<Longrightarrow> set evs' \<subseteq> set evs \<Longrightarrow> no_password evs'"
  unfolding no_password_def short_pieces_def by blast

lemma no_password_step:
  "session_step sock s s' \<Longrightarrow> no_password (inbox s sock) \<Longrightarrow> no_password (inbox s' sock)"
  by (rule no_password_subset) (auto simp: session_step_def no_password_def)

lemma recv_text_no_password:
  assumes "no_password (inbox s sock)" and "length junk = MAX_BUFFER" and "recv_text junk sock err s = (Inr t, s')"
  shows "t \<noteq> ''ubuntu''"
proof -
  obtain bs evs where r: "recv_chunk MAX_BUFFER (inbox s sock) = (bs, evs)" by fastforce
  with assms(3) have "bs \<noteq> []" "terminated junk bs = Inr t"
    by (auto simp: recv_text_def recv_def say_def split: if_splits)
  have "Data bs \<in> set (inbox s sock) \<or> bs = []" if "no_password es" "recv_chunk MAX_BUFFER es = (bs, evs)"
    "set es \<subseteq> set (inbox s sock)" for es
    using that
    by (induction MAX_BUFFER es rule: recv_chunk.induct) (auto simp: no_password_def short_pieces_def)
  from this [OF assms(1) r] \<open>bs \<noteq> []\<close> have mem: "Data bs \<in> set (inbox s sock)" by blast
  with assms(1) have "length bs < MAX_BUFFER" by (auto simp: no_password_def short_pieces_def)
  with assms(2) \<open>terminated junk bs = Inr t\<close> have "t = text_of bs" by (simp add: terminated_fits)
  with mem assms(1) show ?thesis by (auto simp: no_password_def)
qed

lemma login_refused:
  assumes "no_password (inbox s sock)" and "length junk = MAX_BUFFER"
    and "client_login_with_bool_return junk sock u s = (Inr u', s')"
  shows "u' = u"
proof -
  obtain r s1 where r: "recv_text junk sock ''[ERROR] Error reading from client.''
      (s\<lparr>sent := sent s @ [(sock, take 17 (''Enter username: '' @ [NUL]))]\<rparr>) = (r, s1)" by fastforce
  have np: "no_password (inbox (s\<lparr>sent := sent s @ [(sock, take 17 (''Enter username: '' @ [NUL]))]\<rparr>) sock)"
    using assms(1) by simp
  show ?thesis
  proof (cases r)
    case (Inl e)
    with r assms(3) show ?thesis by (simp add: client_login_with_bool_return_def send_lit_run)
  next
    case (Inr t)
    with r np assms(2) have "t \<noteq> ''ubuntu''" by (blast dest: recv_text_no_password)
    with r Inr assms(3) show ?thesis by (simp add: client_login_with_bool_return_def send_lit_run)
  qed
qed

lemma command_no_login:
  assumes "no_password (inbox s sock)" and "length junk = MAX_BUFFER"
    and "client_command J K junk a status sock False cmd s = (Inr u', s')"
  shows "\<not> u'"
proof (cases "cmd = ''login''")
  case True
  with assms show ?thesis
    by (auto simp: client_command_def dest!: login_refused [rotated 2])
next
  case False
  with assms(3) show ?thesis
    by (auto simp: client_command_def Let_def log_event_run send_lit_run split: if_splits sum.splits prod.splits)
qed

lemma client_loop_same_db:
  "\<not> u \<Longrightarrow> no_password (inbox s sock) \<Longrightarrow> length junk = MAX_BUFFER \<Longrightarrow>
     db (snd (client_loop J K junk a status sock u buf s)) = db s"
proof (induction J K junk a status sock u buf s rule: client_loop.induct)
  case (1 J K junk a status sock u buf s)
  obtain bs s1 where r: "recv sock (MAX_BUFFER - 1) s = (Inr bs, s1)"
    by (cases "recv_chunk (MAX_BUFFER - 1) (inbox s sock)") (simp add: recv_def)
  have s1: "db s1 = db s" "no_password (inbox s1 sock)"
    using keepsD [OF same_db_prims(3), of s sock "MAX_BUFFER - 1"] r
      no_password_step [of sock s s1] keepsD [OF session_step_recv, of "MAX_BUFFER - 1" sock s] 1(3)
    by (simp_all add: same_db_def)
  show ?case
  proof (cases "bs = [] \<or> (\<exists>e. c_str (buf_fill buf bs) = Inl e) \<or> c_str (buf_fill buf bs) = Inr ''exit'' \<or>
      (\<exists>e. terminated buf bs = Inl e)")
    case True
    with r s1(1) show ?thesis
      by (subst client_loop.simps) (auto split: sum.split)
  next
    case False
    then obtain t cmd where c: "bs \<noteq> []" "c_str (buf_fill buf bs) = Inr t" "t \<noteq> ''exit''"
        "terminated buf bs = Inr cmd"
      by (metis sum.exhaust)
    obtain x s2 where cc: "client_command J K junk a status sock u cmd s1 = (x, s2)" by fastforce
    have s2: "db s2 = db s1" "no_password (inbox s2 sock)"
      using keepsD [OF same_db_command, of s1 J K junk a status sock cmd] cc 1(2)
        keepsD [OF session_step_command, of sock s1 J K junk a status u cmd] no_password_step [of sock s1 s2] s1(2)
      by (simp_all add: same_db_def)
    show ?thesis
    proof (cases x)
      case (Inl e)
      with r c cc s1 s2 show ?thesis by (subst client_loop.simps) simp
    next
      case (Inr u')
      from cc Inr 1(2) have "client_command J K junk a status sock False cmd s1 = (Inr u', s2)" by simp
      then have "\<not> u'" by (rule command_no_login [OF s1(2) 1(4)])
      from "1.IH" [OF r [symmetric] refl c(1) c(2) c(3) c(4) cc [symmetric] Inr this s2(2) 1(4)]
      have "db (snd (client_loop J K junk a status sock u' (replicate MAX_BUFFER NUL) s2)) = db s2" .
      with r c cc Inr s1 s2 show ?thesis by (subst client_loop.simps) simp
    qed
  qed
qed

section \<open>Dialogues\<close>

lemma login_succeeds:
  assumes "inbox s sock = Data ''ubuntu'' # Data ''ubuntu'' # evs" and "length junk = MAX_BUFFER"
  shows "client_login_with_bool_return junk sock u s = (Inr True, s\<lparr>inbox := (inbox s)(sock := evs),
    sent := sent s @ [(sock, ''Enter username: '' @ [NUL]), (sock, ''Enter password: '' @ [NUL]),
                      (sock, ''Login successful.'' @ [NUL])],
    console := console s @ [''[SERVER] Login successful.'']\<rparr>)"
proof -
  have u: "NUL \<notin> set ''ubuntu''" "length ''ubuntu'' < MAX_BUFFER" by (simp_all add: NUL_def MAX_BUFFER_def)
  show ?thesis
    using assms u by (simp add: client_login_with_bool_return_def send_lit_run recv_text_data text_of_plain)
qed

lemma key_value_split:
  assumes "CHR '','' \<notin> set key" and "length key + length val < MAX_BUFFER"
  shows "substr (key @ CHR '','' # val) 0 (str_find (key @ CHR '','' # val) (CHR '','')) = Inr key"
    and "substr (key @ CHR '','' # val) (size_plus1 (str_find (key @ CHR '','' # val) (CHR '',''))) npos = Inr val"
proof -
  have p: "size_plus1 (length key) = Suc (length key)"
    using assms(2) by (simp add: size_plus1_def MAX_BUFFER_def)
  have n: "length val \<le> npos" using assms(2) by (simp add: npos_def MAX_BUFFER_def)
  show "substr (key @ CHR '','' # val) 0 (str_find (key @ CHR '','' # val) (CHR '','')) = Inr key"
    using assms by (simp add: substr_def str_find_here)
  show "substr (key @ CHR '','' # val) (size_plus1 (str_find (key @ CHR '','' # val) (CHR '',''))) npos = Inr val"
    using assms n by (simp add: substr_def str_find_here p)
qed

text \<open>The summary that the server prints after an update.\<close>

definition summary_after :: "'j json_lib \<Rightarrow> 'd kv_lib \<Rightarrow> string \<Rightarrow> string \<Rightarrow> (('d, 'm) server_scheme, string) act" where
  "summary_after J K key val = bnd (modify_supplies J K key val) (\<lambda>_. show_state_summary J K None)"

lemma show_state_summary_cong:
  "show_state_summary J K None s = (Inr t, s) \<Longrightarrow> db s' = db s \<Longrightarrow> show_state_summary J K None s' = (Inr t, s')"
  by (auto simp: show_state_summary_def get_value_def bnd_app split: sum.splits if_splits prod.splits
      dest: arg_cong [of _ _ console])

lemma set_supplies_updates:
  fixes s :: "('d, 'm) server_scheme"
  assumes env: "refuge_env J obj plain K open_rw" and "store_holds J K obj plain (db s) r"
    and "refuge_wf r" and "open_rw (db s)"
    and "known_supply r key" and "stoi val = Inr v" and "0 \<le> v"
    and "inbox s sock = Data (key @ CHR '','' # val) # evs" and "NUL \<notin> set (key @ val)"
    and "CHR '','' \<notin> set key" and "Suc (length key + length val) < MAX_BUFFER" and "length junk = MAX_BUFFER"
  obtains s' t j where "set_supplies J K junk sock None s = (Inr (), s')"
    and "store_holds J K obj plain (db s') (set_supply key v r)" and "open_rw (db s')"
    and "inbox s' = (inbox s)(sock := evs)"
    and "sent s' = sent s @ [(sock, take 32 supply_prompt), (sock, ''Supplies updated.''), (sock, t)]"
    and "connected_clients s' = connected_clients s" and "closed_fds s' = closed_fds s" and "log_opens s' = log_opens s"
    and "jl_parse J t = Inr j" and "summary_doc J obj plain j (set_supply key v r)"
    and "\<exists>s1 :: ('d, 'm) server_scheme. db s1 = db s \<and> fst (summary_after J K key val s1) = Inr t"
proof -
  let ?m = "key @ CHR '','' # val"
  let ?s1 = "s\<lparr>sent := sent s @ [(sock, take 32 supply_prompt)], inbox := (inbox s)(sock := evs)\<rparr>"
  have m: "NUL \<notin> set ?m" using assms(9) by (simp add: NUL_def)
  have prompt: "send_lit sock supply_prompt 32 s = (Inr (), s\<lparr>sent := sent s @ [(sock, take 32 supply_prompt)]\<rparr>)"
    by (simp add: send_lit_run supply_prompt_def)
  have recv: "recv_text junk sock err (s\<lparr>sent := sent s @ [(sock, take 32 supply_prompt)]\<rparr>) = (Inr ?m, ?s1)" for err
    using assms(8,11,12) m by (simp add: recv_text_data text_of_plain)
  have "store_holds J K obj plain (db ?s1) r" "open_rw (db ?s1)" using assms(2,4) by simp_all
  from refuge_env.modify_supplies_sets [OF env this(1) assms(3,5,6,7) this(2)] obtain d' where
    d': "modify_supplies J K key val ?s1 = (Inr (), ?s1\<lparr>db := d', console := console ?s1 @
          [''[SUPPLIES] State summary updated successfully.'']\<rparr>)"
      "store_holds J K obj plain d' (set_supply key v r)" "open_rw d'" by metis
  let ?s2 = "?s1\<lparr>db := d', console := console ?s1 @ [''[SUPPLIES] State summary updated successfully.''],
    sent := sent ?s1 @ [(sock, ''Supplies updated.'')]\<rparr>"
  have lit: "send_lit sock ''Supplies updated.'' 17 (?s1\<lparr>db := d', console := console ?s1 @
      [''[SUPPLIES] State summary updated successfully.'']\<rparr>) = (Inr (), ?s2)"
    by (simp add: send_lit_run)
  have "store_holds J K obj plain (db ?s2) (set_supply key v r)" using d'(2) by simp
  from refuge_env.show_state_summary_reads [OF env this] obtain t j where
    t: "show_state_summary J K None ?s2 = (Inr t, ?s2)" "jl_parse J t = Inr j"
      "summary_doc J obj plain j (set_supply key v r)" by metis
  have len: "length key + length val < MAX_BUFFER" using assms(11) by simp
  have set: "set_supplies J K junk sock None s = (Inr (), ?s2\<lparr>sent := sent ?s2 @ [(sock, t)]\<rparr>)"
    using d'(1) lit t(1)
    by (simp add: set_supplies_def prompt recv key_value_split [OF assms(10) len] get_refuge_state_def)
  have "fst (summary_after J K key val ?s1) = Inr t"
    using d'(1) show_state_summary_cong [OF t(1), of "?s1\<lparr>db := d', console := console ?s1 @
      [''[SUPPLIES] State summary updated successfully.'']\<rparr>"] by (simp add: summary_after_def)
  then have "\<exists>s1 :: ('d, 'm) server_scheme. db s1 = db s \<and> fst (summary_after J K key val s1) = Inr t"
    by (intro exI [of _ ?s1]) simp
  note after = this
  show thesis by (rule that [where t = t and j = j, OF set]) (simp_all add: d' t after)
qed

lemma text_of_other:
  assumes "bs \<noteq> []" and "hd bs \<noteq> CHR ''e''" and "hd bs \<noteq> NUL"
  shows "text_of (bs @ xs) \<noteq> ''exit''"
  using assms by (cases bs) (auto simp: text_of_def)

section \<open>The environment of the witnesses\<close>

definition demo_server :: "ref_db server" where
  "demo_server = \<lparr>db = db demo_store, console = [], inbox = (\<lambda>_. []), sent = [], write_results = [], closed_fds = [],
     connected_clients = [], user = False, log_opens = True, log_file = [], clock = (\<lambda>_. ''now''), ticks = 0,
     zip_file = None, edge_image = None, zip_creatable = True\<rparr>"

definition demo_addr :: sockaddr where
  "demo_addr = \<lparr>ss_family = AF_INET, addr_text = ''127.0.0.1'', net_port = 36895\<rparr>"

definition demo_peer :: "int \<Rightarrow> sockaddr option" where
  "demo_peer sock = Some demo_addr"

lemma demo_server_simps [simp]:
  "db demo_server = db demo_store" "inbox demo_server = (\<lambda>_. [])" "sent demo_server = []"
  "connected_clients demo_server = []" "closed_fds demo_server = []" "log_opens demo_server = True"
  "console demo_server = []" "user demo_server = False"
  by (simp_all add: demo_server_def)

section \<open>Properties\<close>

text \<open>
  C3: a client that never sends the password cannot change the store, whatever
  else it sends, whatever the JSON library and the store do, and whichever way
  the conversation ends.
\<close>

theorem unauthorised_client_keeps_store:
  assumes "no_password (inbox s sock)" and "length junk = MAX_BUFFER"
  shows "db (snd (handle_client J K peer junk sock status s)) = db s"
proof (cases "peer sock")
  case None
  then show ?thesis by (simp add: handle_client_def)
next
  case (Some a)
  obtain s0 where s0: "around J K peer junk sock status a s s0"
    by (rule handle_client_run [where s = s and peer = peer and sock = sock, OF Some])
  obtain x s1 where l: "client_loop J K junk a status sock False junk s0 = (x, s1)" by fastforce
  have "db (snd (client_loop J K junk a status sock False junk s0)) = db s0"
    using aroundD(1) [OF s0] assms by (intro client_loop_same_db) simp_all
  with l aroundD(2) [OF s0] have "db s1 = db s" by simp
  then show ?thesis using l aroundD(8) [OF s0] aroundD(9) [OF s0] by (cases x) fastforce+
qed

theorem unauthorised_client_keeps_store_witness:
  "db (snd (handle_client ref_json ref_kv demo_peer (replicate MAX_BUFFER NUL) 7 None
     (demo_server\<lparr>inbox := (\<lambda>_. pieces [''login'', ''root'', ''set_supplies'', ''meat,0''])\<rparr>))) = db demo_store"
proof -
  have "no_password (inbox (demo_server\<lparr>inbox := (\<lambda>_. pieces [''login'', ''root'', ''set_supplies'', ''meat,0''])\<rparr>) 7)"
    by (simp add: no_password_def short_pieces_def text_of_def NUL_def MAX_BUFFER_def)
  from unauthorised_client_keeps_store [OF this, of "replicate MAX_BUFFER NUL" ref_json ref_kv demo_peer None]
  show ?thesis by simp
qed

lemma login_line:
  fixes s :: "('d, 'm) server_scheme"
  assumes "inbox s sock = Data ''login'' # Data ''ubuntu'' # Data ''ubuntu'' # evs" and "buffer_ok junk"
  obtains s' where "client_loop J K junk a None sock u junk s =
      client_loop J K junk a None sock True (replicate MAX_BUFFER NUL) s'"
    and "inbox s' = (inbox s)(sock := evs)" and "db s' = db s"
    and "sent s' = sent s @ [(sock, ''Enter username: '' @ [NUL]), (sock, ''Enter password: '' @ [NUL]),
      (sock, ''Login successful.'' @ [NUL])]"
    and "connected_clients s' = connected_clients s" and "closed_fds s' = closed_fds s"
proof -
  have junk: "length junk = MAX_BUFFER" using assms(2) by (simp add: buffer_ok_def)
  define s1 where "s1 = s\<lparr>inbox := (inbox s)(sock := Data ''ubuntu'' # Data ''ubuntu'' # evs),
    console := console s @ [''[SERVER] Client '' @ show_int (get_port a) @ '' is attempting to login.'']\<rparr>"
  define s2 where "s2 = s1\<lparr>inbox := (inbox s1)(sock := evs), sent := sent s1 @ [(sock, ''Enter username: '' @ [NUL]),
    (sock, ''Enter password: '' @ [NUL]), (sock, ''Login successful.'' @ [NUL])],
    console := console s1 @ [''[SERVER] Login successful.'']\<rparr>"
  have login: "client_login_with_bool_return junk sock u s1 = (Inr True, s2)"
    unfolding s2_def by (rule login_succeeds) (simp_all add: junk s1_def)
  have "NUL \<notin> set ''login''" by (simp add: NUL_def)
  moreover have "text_of (''login'' @ drop (length ''login'') junk) \<noteq> ''exit''"
    by (rule text_of_other) (simp_all add: NUL_def)
  note client_loop_command [of s sock "''login''" _ junk J K junk a None u, OF _ _ _ assms(2) this]
  ultimately have "client_loop J K junk a None sock u junk s =
      client_loop J K junk a None sock True (replicate MAX_BUFFER NUL) s2"
    using login assms(1) by (simp add: client_command_def MAX_BUFFER_def s1_def)
  then show thesis by (rule that) (simp_all add: s2_def s1_def)
qed

lemma supplies_line:
  fixes s :: "('d, 'm) server_scheme"
  assumes env: "refuge_env J obj plain K open_rw" and "store_holds J K obj plain (db s) r"
    and "refuge_wf r" and "open_rw (db s)"
    and "known_supply r key" and "stoi val = Inr v" and "0 \<le> v"
    and "inbox s sock = Data ''set_supplies'' # Data (key @ CHR '','' # val) # evs" and "NUL \<notin> set (key @ val)"
    and "CHR '','' \<notin> set key" and "Suc (length key + length val) < MAX_BUFFER" and "length junk = MAX_BUFFER"
  obtains s' t j where "client_loop J K junk a None sock True (replicate MAX_BUFFER NUL) s =
      client_loop J K junk a None sock True (replicate MAX_BUFFER NUL) s'"
    and "store_holds J K obj plain (db s') (set_supply key v r)" and "inbox s' sock = evs"
    and "sent s' = sent s @ [(sock, take 32 supply_prompt), (sock, ''Supplies updated.''), (sock, t)]"
    and "connected_clients s' = connected_clients s" and "closed_fds s' = closed_fds s"
    and "jl_parse J t = Inr j" and "summary_doc J obj plain j (set_supply key v r)"
    and "\<exists>s1 :: ('d, 'm) server_scheme. db s1 = db s \<and> fst (summary_after J K key val s1) = Inr t"
proof -
  define s3 where "s3 = s\<lparr>inbox := (inbox s)(sock := Data (key @ CHR '','' # val) # evs)\<rparr>"
  have h3: "store_holds J K obj plain (db s3) r" "open_rw (db s3)"
    "inbox s3 sock = Data (key @ CHR '','' # val) # evs"
    using assms(2,4) by (simp_all add: s3_def)
  obtain s4 t j where 4: "set_supplies J K junk sock None s3 = (Inr (), s4)"
      "store_holds J K obj plain (db s4) (set_supply key v r)" "inbox s4 = (inbox s3)(sock := evs)"
      "sent s4 = sent s3 @ [(sock, take 32 supply_prompt), (sock, ''Supplies updated.''), (sock, t)]"
      "connected_clients s4 = connected_clients s3" "closed_fds s4 = closed_fds s3"
      "jl_parse J t = Inr j" "summary_doc J obj plain j (set_supply key v r)"
      "\<exists>s1 :: ('d, 'm) server_scheme. db s1 = db s3 \<and> fst (summary_after J K key val s1) = Inr t"
    by (rule set_supplies_updates [OF env h3(1) assms(3) h3(2) assms(5-7) h3(3) assms(9-12)])
  define s5 where "s5 = snd (log_event a ''Update of supplies from client'' ''Authorized'' s4)"
  have s5: "log_event a ''Update of supplies from client'' ''Authorized'' s4 = (Inr (), s5)"
    "inbox s5 = inbox s4" "db s5 = db s4" "sent s5 = sent s4" "closed_fds s5 = closed_fds s4"
    "connected_clients s5 = connected_clients s4"
    by (simp_all add: s5_def log_event_run)
  have "NUL \<notin> set ''set_supplies''" by (simp add: NUL_def)
  moreover have "text_of (''set_supplies'' @ drop (length ''set_supplies'') (replicate MAX_BUFFER NUL)) \<noteq> ''exit''"
    by (rule text_of_other) (simp_all add: NUL_def)
  note client_loop_command [of s sock "''set_supplies''" _ "replicate MAX_BUFFER NUL" J K junk a None True,
      OF _ _ _ buffer_ok_cleared this]
  ultimately have "client_loop J K junk a None sock True (replicate MAX_BUFFER NUL) s =
      client_loop J K junk a None sock True (replicate MAX_BUFFER NUL) s5"
    using 4(1) s5(1) assms(8) by (simp add: client_command_def MAX_BUFFER_def s3_def)
  then show thesis by (rule that) (use 4 s5 in \<open>simp_all add: s3_def\<close>)
qed

lemma authorised_session:
  fixes s :: "('d, 'm) server_scheme"
  assumes env: "refuge_env J obj plain K open_rw" and "store_holds J K obj plain (db s) r"
    and "refuge_wf r" and "open_rw (db s)"
    and "known_supply r key" and "stoi val = Inr v" and "0 \<le> v"
    and "inbox s sock = pieces [''login'', ''ubuntu'', ''ubuntu'', ''set_supplies'', key @ CHR '','' # val]"
    and "NUL \<notin> set (key @ val)" and "CHR '','' \<notin> set key"
    and "Suc (length key + length val) < MAX_BUFFER" and "buffer_ok junk" and "peer sock = Some a"
    and "sock \<notin> set (connected_clients s)"
  shows "\<exists>s' t j. handle_client J K peer junk sock None s = (Inr (), s') \<and>
    store_holds J K obj plain (db s') (set_supply key v r) \<and>
    sent s' = sent s @ [(sock, ''Enter username: '' @ [NUL]), (sock, ''Enter password: '' @ [NUL]),
      (sock, ''Login successful.'' @ [NUL]), (sock, take 32 supply_prompt),
      (sock, ''Supplies updated.''), (sock, t)] \<and>
    jl_parse J t = Inr j \<and> summary_doc J obj plain j (set_supply key v r) \<and>
    connected_clients s' = connected_clients s \<and> closed_fds s' = closed_fds s @ [sock] \<and>
    (\<exists>s1 :: ('d, 'm) server_scheme. db s1 = db s \<and> fst (summary_after J K key val s1) = Inr t)"
proof -
  have junk: "length junk = MAX_BUFFER" using assms(12) by (simp add: buffer_ok_def)
  obtain s0 where ar: "around J K peer junk sock None a s s0"
    by (rule handle_client_run [where s = s and peer = peer and sock = sock, OF assms(13)])
  note s0 = aroundD(1,3,2,4,5) [OF ar]
  have "inbox s0 sock = Data ''login'' # Data ''ubuntu'' # Data ''ubuntu'' #
      [Data ''set_supplies'', Data (key @ CHR '','' # val)]"
    using assms(8) s0(1) by simp
  then obtain s2 where 1: "client_loop J K junk a None sock False junk s0 =
      client_loop J K junk a None sock True (replicate MAX_BUFFER NUL) s2"
    "inbox s2 = (inbox s0)(sock := [Data ''set_supplies'', Data (key @ CHR '','' # val)])" "db s2 = db s0"
    "sent s2 = sent s0 @ [(sock, ''Enter username: '' @ [NUL]), (sock, ''Enter password: '' @ [NUL]),
      (sock, ''Login successful.'' @ [NUL])]"
    "connected_clients s2 = connected_clients s0" "closed_fds s2 = closed_fds s0"
    by (rule login_line [OF _ assms(12)])
  have h: "store_holds J K obj plain (db s2) r" "open_rw (db s2)"
    "inbox s2 sock = [Data ''set_supplies'', Data (key @ CHR '','' # val)]"
    using assms(2,4) s0(3) 1(2,3) by simp_all
  obtain s5 t j where 2: "client_loop J K junk a None sock True (replicate MAX_BUFFER NUL) s2 =
      client_loop J K junk a None sock True (replicate MAX_BUFFER NUL) s5"
    "store_holds J K obj plain (db s5) (set_supply key v r)" "inbox s5 sock = []"
    "sent s5 = sent s2 @ [(sock, take 32 supply_prompt), (sock, ''Supplies updated.''), (sock, t)]"
    "connected_clients s5 = connected_clients s2" "closed_fds s5 = closed_fds s2"
    "jl_parse J t = Inr j" "summary_doc J obj plain j (set_supply key v r)"
    "\<exists>s1 :: ('d, 'm) server_scheme. db s1 = db s2 \<and> fst (summary_after J K key val s1) = Inr t"
    by (rule supplies_line [OF env h(1) assms(3) h(2) assms(5-7) h(3) assms(9-11) junk])
  note 3 = client_loop_closed [OF 2(3), of J K junk a None True "replicate MAX_BUFFER NUL"]
  have f: "filter (\<lambda>c. c \<noteq> sock) (connected_clients s @ [sock]) = connected_clients s"
    using assms(14) by (simp add: filter_neq_idem)
  from 1(1) 2(1) 3 have "client_loop J K junk a None sock False junk s0 =
      (Inr (), s5\<lparr>inbox := (inbox s5)(sock := [])\<rparr>)" by simp
  with aroundD(9) [OF ar] obtain s7 where 7: "handle_client J K peer junk sock None s = (Inr (), s7)"
    "db s7 = db s5" "sent s7 = sent s5" "closed_fds s7 = closed_fds s5 @ [sock]"
    "connected_clients s7 = filter (\<lambda>c. c \<noteq> sock) (connected_clients s5)"
    by fastforce
  from 2(9) 1(3) s0(3) have "\<exists>s1 :: ('d, 'm) server_scheme. db s1 = db s \<and> fst (summary_after J K key val s1) = Inr t" by simp
  with 7 2(2,4-8) 1(4-6) s0(2,4,5) f show ?thesis by auto
qed

text \<open>
  C5: a client that logs in and names a listed supply with a number that is not
  negative gets exactly that update: the store holds the new state, the client
  has received the prompts, the confirmation and the new summary, it has been
  taken off the list of clients and its socket has been closed.
\<close>

theorem authorised_update:
  fixes s :: "('d, 'm) server_scheme"
  assumes env: "refuge_env J obj plain K open_rw" and "store_holds J K obj plain (db s) r"
    and "refuge_wf r" and "open_rw (db s)"
    and "known_supply r key" and "stoi val = Inr v" and "0 \<le> v"
    and "inbox s sock = pieces [''login'', ''ubuntu'', ''ubuntu'', ''set_supplies'', key @ CHR '','' # val]"
    and "NUL \<notin> set (key @ val)" and "CHR '','' \<notin> set key"
    and "Suc (length key + length val) < MAX_BUFFER" and "buffer_ok junk" and "peer sock = Some a"
    and "sock \<notin> set (connected_clients s)"
  shows "\<exists>s' t j. handle_client J K peer junk sock None s = (Inr (), s') \<and>
    store_holds J K obj plain (db s') (set_supply key v r) \<and>
    sent s' = sent s @ [(sock, ''Enter username: '' @ [NUL]), (sock, ''Enter password: '' @ [NUL]),
      (sock, ''Login successful.'' @ [NUL]), (sock, take 32 supply_prompt),
      (sock, ''Supplies updated.''), (sock, t)] \<and>
    jl_parse J t = Inr j \<and> summary_doc J obj plain j (set_supply key v r) \<and>
    connected_clients s' = connected_clients s \<and> closed_fds s' = closed_fds s @ [sock]"
  using authorised_session [where open_rw = open_rw and s = s and peer = peer and sock = sock, OF assms] by blast

theorem authorised_update_witness:
  "\<exists>s' t j. handle_client ref_json ref_kv demo_peer (replicate MAX_BUFFER NUL) 7 None
      (demo_server\<lparr>inbox := (\<lambda>_. pieces [''login'', ''ubuntu'', ''ubuntu'', ''set_supplies'', ''water,50''])\<rparr>)
        = (Inr (), s') \<and>
    store_holds ref_json ref_kv is_obj j_plain (db s') (set_supply ''water'' 50 initial_refuge) \<and>
    length (sent s') = 6 \<and> closed_fds s' = [7] \<and>
    ref_parse t = Inr j \<and> summary_doc ref_json is_obj j_plain j (set_supply ''water'' 50 initial_refuge)"
proof -
  let ?s = "demo_server\<lparr>inbox := (\<lambda>_. pieces [''login'', ''ubuntu'', ''ubuntu'', ''set_supplies'', ''water,50''])\<rparr>"
  have n: "stoi ''50'' = Inr 50" by code_simp
  have k: "known_supply initial_refuge ''water''" by (simp add: known_supply_def initial_refuge_def)
  have h: "store_holds ref_json ref_kv is_obj j_plain (db ?s) initial_refuge" "ref_open (db ?s)"
    using demo_holds by simp_all
  have "\<exists>s' t j. handle_client ref_json ref_kv demo_peer (replicate MAX_BUFFER NUL) 7 None ?s = (Inr (), s') \<and>
    store_holds ref_json ref_kv is_obj j_plain (db s') (set_supply ''water'' 50 initial_refuge) \<and>
    sent s' = sent ?s @ [(7, ''Enter username: '' @ [NUL]), (7, ''Enter password: '' @ [NUL]),
      (7, ''Login successful.'' @ [NUL]), (7, take 32 supply_prompt), (7, ''Supplies updated.''), (7, t)] \<and>
    jl_parse ref_json t = Inr j \<and> summary_doc ref_json is_obj j_plain j (set_supply ''water'' 50 initial_refuge) \<and>
    connected_clients s' = connected_clients ?s \<and> closed_fds s' = closed_fds ?s @ [7]"
    by (rule authorised_update [OF demo_env h(1) initial_refuge_wf h(2) k n])
      (simp_all add: demo_peer_def NUL_def [symmetric] buffer_ok_def, simp_all add: NUL_def MAX_BUFFER_def)
  then show ?thesis by fastforce
qed

text \<open>
  C39: a client that closes its connection, or whose connection fails, while it is
  asked for its user name ends the whole server with \<open>exit(EXIT_FAILURE)\<close>, for
  all clients.
\<close>

theorem disconnect_during_login_kills_server:
  assumes "inbox s sock = Data ''login'' # evs" and "evs = [] \<or> hd evs = Failed"
    and "buffer_ok junk" and "peer sock = Some a"
  shows "fst (handle_client J K peer junk sock status s) = Inl (Exit 1)"
proof -
  obtain s0 where ar: "around J K peer junk sock status a s s0"
    by (rule handle_client_run [where s = s and peer = peer and sock = sock, OF assms(4)])
  let ?s1 = "s0\<lparr>inbox := (inbox s0)(sock := evs)\<rparr>"
  have "text_of (''login'' @ drop (length ''login'') junk) \<noteq> ''exit''"
    by (rule text_of_other) (simp_all add: NUL_def)
  from client_loop_command [of s0 sock "''login''" evs junk J K junk a status False, OF _ _ _ assms(3) this]
  have "client_loop J K junk a status sock False junk s0 =
    (case client_command J K junk a status sock False ''login'' ?s1 of (Inl e, s2) \<Rightarrow> (Inl e, s2)
     | (Inr u', s2) \<Rightarrow> client_loop J K junk a status sock u' (replicate MAX_BUFFER NUL) s2)"
    using assms(1) aroundD(1) [OF ar] by (simp add: MAX_BUFFER_def NUL_def)
  moreover have "recv_chunk n evs = ([], tl evs)" for n
    using assms(2) by (cases evs) auto
  then have "\<exists>s2. client_command J K junk a status sock False ''login'' ?s1 = (Inl (Exit 1), s2)"
    by (simp add: client_command_def client_login_with_bool_return_def recv_text_def recv_def send_lit_run)
  ultimately have "\<exists>s2. client_loop J K junk a status sock False junk s0 = (Inl (Exit 1), s2)" by auto
  then show ?thesis using aroundD(8) [OF ar] by force
qed

theorem disconnect_during_login_kills_server_witness:
  "fst (handle_client ref_json ref_kv demo_peer (replicate MAX_BUFFER NUL) 7 None
     (demo_server\<lparr>inbox := (\<lambda>_. pieces [''login''])\<rparr>)) = Inl (Exit 1)"
  by (rule disconnect_during_login_kills_server [where evs = "[]"]) (simp_all add: demo_peer_def)

text \<open>
  An answer to the user name prompt that fills the buffer of \<open>MAX_BUFFER\<close>
  bytes makes the server write its terminator one byte past the array.
\<close>

theorem full_answer_overruns_buffer:
  assumes "inbox s sock = [Data ''login'', Data bs]" and "length bs = MAX_BUFFER"
    and "buffer_ok junk" and "peer sock = Some a"
  shows "fst (handle_client J K peer junk sock status s) = Inl Undefined"
proof -
  obtain s0 where ar: "around J K peer junk sock status a s s0"
    by (rule handle_client_run [where s = s and peer = peer and sock = sock, OF assms(4)])
  let ?s1 = "s0\<lparr>inbox := (inbox s0)(sock := [Data bs])\<rparr>"
  have "text_of (''login'' @ drop (length ''login'') junk) \<noteq> ''exit''"
    by (rule text_of_other) (simp_all add: NUL_def)
  from client_loop_command [of s0 sock "''login''" "[Data bs]" junk J K junk a status False, OF _ _ _ assms(3) this]
  have "client_loop J K junk a status sock False junk s0 =
    (case client_command J K junk a status sock False ''login'' ?s1 of (Inl e, s2) \<Rightarrow> (Inl e, s2)
     | (Inr u', s2) \<Rightarrow> client_loop J K junk a status sock u' (replicate MAX_BUFFER NUL) s2)"
    using assms(1) aroundD(1) [OF ar] by (simp add: MAX_BUFFER_def NUL_def)
  moreover have "\<exists>s2. client_command J K junk a status sock False ''login'' ?s1 = (Inl Undefined, s2)"
    using assms(2,3)
    by (simp add: client_command_def client_login_with_bool_return_def recv_text_overrun send_lit_run buffer_ok_def)
  ultimately have "\<exists>s2. client_loop J K junk a status sock False junk s0 = (Inl Undefined, s2)" by auto
  then show ?thesis using aroundD(8) [OF ar] by force
qed

theorem full_answer_overruns_buffer_witness:
  "fst (handle_client ref_json ref_kv demo_peer (replicate MAX_BUFFER NUL) 7 None
     (demo_server\<lparr>inbox := (\<lambda>_. [Data ''login'', Data (replicate MAX_BUFFER (CHR ''a''))])\<rparr>)) = Inl Undefined"
  by (rule full_answer_overruns_buffer [where bs = "replicate MAX_BUFFER (CHR ''a'')"]) (simp_all add: demo_peer_def)

text \<open>
  Without a login \<open>set_supplies\<close> is refused: the client receives the first 40
  of the 46 bytes of the message, and the store stays as it is.
\<close>

lemma update_denied:
  "\<exists>s'. client_command J K junk a status sock False ''set_supplies'' s = (Inr False, s') \<and>
     sent s' = sent s @ [(sock, ''You are not authorized to modify the sup'')] \<and>
     db s' = db s \<and> inbox s' = inbox s"
  by (simp add: client_command_def send_lit_run log_event_run)

text \<open>
  \<open>exit\<close> ends the loop when the buffer is clear, as it is after every
  command, and leaves the rest of the stream unread.  As the first message it is
  compared together with what the uninitialised buffer holds behind it: unless
  that happens to be a NUL, the server answers that the command is invalid.
\<close>

theorem exit_needs_cleared_buffer:
  assumes "inbox s sock = Data ''exit'' # evs" and "buffer_ok junk" and "junk ! 4 \<noteq> NUL"
  shows "client_loop J K junk a status sock u (replicate MAX_BUFFER NUL) s =
      (Inr (), s\<lparr>inbox := (inbox s)(sock := evs)\<rparr>) \<and>
    client_loop J K junk a status sock u junk s =
      client_loop J K junk a status sock u (replicate MAX_BUFFER NUL) (s\<lparr>inbox := (inbox s)(sock := evs),
        console := console s @ [''[SERVER] Invalid command exit''], sent := sent s @ [(sock, ''Invalid command.'')]\<rparr>)"
proof -
  have l: "length ''exit'' < MAX_BUFFER" by (simp add: MAX_BUFFER_def)
  have e: "text_of ''exit'' = ''exit''" by (rule text_of_plain) (simp add: NUL_def)
  have 1: "text_of (''exit'' @ drop (length ''exit'') (replicate MAX_BUFFER NUL)) = ''exit''"
    by (simp only: text_of_fill_cleared e)
  have d: "drop 4 junk = junk ! 4 # drop 5 junk"
    using assms(2) Cons_nth_drop_Suc [of 4 junk] by (simp add: buffer_ok_def MAX_BUFFER_def)
  then have "take 5 (text_of (''exit'' @ drop 4 junk)) = ''exit'' @ [junk ! 4]"
    using assms(3) by (simp add: text_of_def NUL_def)
  then have 2: "text_of (''exit'' @ drop (length ''exit'') junk) \<noteq> ''exit''" by (auto simp: numeral_eq_Suc)
  show ?thesis
    using client_loop_exit [OF assms(1) _ l buffer_ok_cleared 1, of J K junk a status u]
      client_loop_command [OF assms(1) _ l assms(2) 2, of J K junk a status u] e
    by (simp add: client_command_def send_lit_run)
qed

theorem exit_needs_cleared_buffer_witness:
  "client_loop ref_json ref_kv ((replicate MAX_BUFFER NUL)[4 := CHR ''!'']) demo_addr None 7 False
      ((replicate MAX_BUFFER NUL)[4 := CHR ''!'']) (demo_server\<lparr>inbox := (\<lambda>_. [Data ''exit''])\<rparr>) =
    client_loop ref_json ref_kv ((replicate MAX_BUFFER NUL)[4 := CHR ''!'']) demo_addr None 7 False (replicate MAX_BUFFER NUL)
      (demo_server\<lparr>inbox := (\<lambda>_. [Data ''exit''])(7 := []), console := [''[SERVER] Invalid command exit''],
         sent := [(7, ''Invalid command.'')]\<rparr>)"
proof -
  let ?junk = "(replicate MAX_BUFFER NUL)[4 := CHR ''!'']"
  have "buffer_ok ?junk" "?junk ! 4 \<noteq> NUL"
    by (simp_all add: buffer_ok_def MAX_BUFFER_def last_conv_nth) (simp add: NUL_def)
  from exit_needs_cleared_buffer [OF _ this, of "demo_server\<lparr>inbox := (\<lambda>_. [Data ''exit''])\<rparr>" 7 "[]"
      ref_json ref_kv demo_addr None False]
  show ?thesis by simp
qed

text \<open>
  \<open>get_state\<close> answers with the current summary and \<open>get_image\<close> with the zip
  file followed by \<open>EOF\<close>, to the asking client only; neither needs a login.
\<close>

theorem queries_answered:
  fixes s :: "('d, 'm) server_scheme"
  assumes "refuge_env J obj plain K open_rw" and "store_holds J K obj plain (db s) r"
    and "zip_file s = Some z" and "write_results s = []"
  shows "(\<exists>s' t j. client_command J K junk a None sock u ''get_state'' s = (Inr u, s') \<and>
      sent s' = sent s @ [(sock, t)] \<and> jl_parse J t = Inr j \<and> summary_doc J obj plain j r \<and> db s' = db s) \<and>
    (\<exists>s' xs. client_command J K junk a None sock u ''get_image'' s = (Inr u, s') \<and>
      sent s' = sent s @ xs \<and> wire sock xs = z @ ''EOF'' \<and> fst ` set xs \<subseteq> {sock} \<and> db s' = db s)"
proof
  let ?s = "s\<lparr>console := console s @ [''[SERVER] Client '' @ show_int (get_port a) @ '' requested the state.'']\<rparr>"
  have "store_holds J K obj plain (db ?s) r" using assms(2) by simp
  from refuge_env.show_state_summary_reads [OF assms(1) this] obtain t j where
    "show_state_summary J K None ?s = (Inr t, ?s)" "jl_parse J t = Inr j" "summary_doc J obj plain j r" by metis
  then show "\<exists>s' t j. client_command J K junk a None sock u ''get_state'' s = (Inr u, s') \<and>
      sent s' = sent s @ [(sock, t)] \<and> jl_parse J t = Inr j \<and> summary_doc J obj plain j r \<and> db s' = db s"
    by (simp add: client_command_def get_refuge_state_def log_event_run)
next
  define s1 where "s1 = snd (thn (say (''[SERVER] Client '' @ show_int (get_port a) @ '' requested the image.''))
    (log_event a ''Request of image from client'' []) s)"
  have s1: "zip_file s1 = Some z" "write_results s1 = []" "sent s1 = sent s" "db s1 = db s"
    using assms(3,4) by (simp_all add: s1_def log_event_run)
  from send_zip_file_full [OF s1(1,2), of sock] obtain xs s2 where
    "send_zip_file sock s1 = (Inr (), s2)" "sent s2 = sent s1 @ xs" "db s2 = db s1"
    "wire sock xs = z @ ''EOF''" "fst ` set xs \<subseteq> {sock}" by auto
  moreover have "client_command J K junk a None sock u ''get_image'' s = thn (send_zip_file sock) (ret u) s1"
    by (simp add: client_command_def s1_def log_event_run)
  ultimately show "\<exists>s' xs. client_command J K junk a None sock u ''get_image'' s = (Inr u, s') \<and>
      sent s' = sent s @ xs \<and> wire sock xs = z @ ''EOF'' \<and> fst ` set xs \<subseteq> {sock} \<and> db s' = db s"
    using s1(3,4) by auto
qed

theorem queries_answered_witness:
  "\<exists>s' xs. client_command ref_json ref_kv [] demo_addr None 7 False ''get_image'' (demo_server\<lparr>zip_file := Some ''SPIX''\<rparr>)
      = (Inr False, s') \<and> wire 7 xs = ''SPIXEOF'' \<and> sent s' = xs"
proof -
  let ?s = "demo_server\<lparr>zip_file := Some ''SPIX''\<rparr>"
  have "store_holds ref_json ref_kv is_obj j_plain (db ?s) initial_refuge" using demo_holds by simp
  moreover have "zip_file ?s = Some ''SPIX''" "write_results ?s = []" by (simp_all add: demo_server_def)
  ultimately show ?thesis using queries_answered [OF demo_env, of ?s initial_refuge "''SPIX''" "[]" demo_addr 7 False]
    by fastforce
qed

end
