(* ===== verification/Http.thy ===== *)
theory Http
  imports Server_State Supplies_Frame Supplies_Props
begin

text \<open>
  The web interface of \<open>src/server.cpp\<close>: \<open>http_functions\<close> and the handlers it
  registers.  The HTTP server itself is a library; a handler is a function from
  the request to the calls it makes on the response.  Whether a request may
  modify supplies is decided by the global \<open>user\<close>.
\<close>

section \<open>Requests and responses\<close>

datatype http_method = Get | Post

text \<open>\<open>get_param\<close> is \<open>get_param_value\<close>: the value of a parameter, empty when it is missing.\<close>

record request =
  req_method :: http_method
  req_path :: string
  get_param :: "string \<Rightarrow> string"

datatype res_call = Set_Content string string | Set_Redirect string | Set_Status int

type_synonym response = "res_call list"

definition check_credentials :: "string \<Rightarrow> string \<Rightarrow> (('d, 'm) server_scheme, bool) act" where
  "check_credentials username password =
     (\<lambda>s. let ok = (username = ''ubuntu'' \<and> password = ''ubuntu'') in (Inr ok, s\<lparr>user := ok\<rparr>))"

text \<open>\<open>html\<close> gives the contents of the files that can be opened.\<close>

definition setup_html :: "(string \<rightharpoonup> string) \<Rightarrow> string \<Rightarrow> (('d, 'm) server_scheme, string) act" where
  "setup_html html filename =
     (case html filename of
        Some html_content \<Rightarrow> ret html_content
      | None \<Rightarrow> thn (say (''[ERROR] Cannot open file '' @ filename)) (halt (Exit 1)))"

section \<open>The handlers\<close>

definition page :: "(string \<rightharpoonup> string) \<Rightarrow> string \<Rightarrow> (('d, 'm) server_scheme, response) act" where
  "page html filename = bnd (setup_html html filename) (\<lambda>t. ret [Set_Content t ''text/html''])"

definition plain_text :: "(('d, 'm) server_scheme, string) act \<Rightarrow> (('d, 'm) server_scheme, response) act" where
  "plain_text m = bnd m (\<lambda>t. ret [Set_Content t ''text/plain''])"

definition post_login :: "request \<Rightarrow> (('d, 'm) server_scheme, response) act" where
  "post_login req =
     bnd (check_credentials (get_param req ''username'') (get_param req ''password'')) (\<lambda>ok.
     if ok then ret [Set_Redirect ''/modify_form'']
     else ret [Set_Content ''Invalid username or password'' ''text/plain'', Set_Status 401])"

definition post_modify :: "'j json_lib \<Rightarrow> 'd kv_lib \<Rightarrow> request \<Rightarrow> (('d, 'm) server_scheme, response) act" where
  "post_modify J K req = (\<lambda>s.
     if user s then
       thn (modify_supplies J K (get_param req ''supply_key'') (get_param req ''new_value''))
           (ret [Set_Redirect ''/modify_form'']) s
     else ret [Set_Content ''You are not authorized to modify the supplies.'' ''text/plain'', Set_Status 401] s)"

text \<open>The routes that \<open>http_functions\<close> registers; \<open>None\<close> for a request that matches none.\<close>

definition route ::
    "'j json_lib \<Rightarrow> 'd kv_lib \<Rightarrow> (string \<rightharpoonup> string) \<Rightarrow> request \<Rightarrow> (('d, 'm) server_scheme, response) act option" where
  "route J K html req =
     (case req_method req of
        Get \<Rightarrow>
          if req_path req = ''/root'' then Some (page html ''../html/root.html'')
          else if req_path req = ''/supplies'' then Some (plain_text (get_supplies J K))
          else if req_path req = ''/alerts'' then Some (plain_text (get_alerts J K))
          else if req_path req = ''/emergencies'' then Some (plain_text (get_emergencies J K))
          else if req_path req = ''/modify_supply'' then Some (page html ''../html/login.html'')
          else if req_path req = ''/modify_form'' then Some (page html ''../html/modify.html'')
          else None
      | Post \<Rightarrow>
          if req_path req = ''/login'' then Some (post_login req)
          else if req_path req = ''/modify'' then Some (post_modify J K req)
          else None)"

text \<open>
  The server's work on a sequence of requests, one after the other.  An
  exception that leaves a handler is the library's to answer and does not end
  the run; \<open>exit\<close> and undefined behaviour do.
\<close>

fun serve ::
    "'j json_lib \<Rightarrow> 'd kv_lib \<Rightarrow> (string \<rightharpoonup> string) \<Rightarrow> request list
     \<Rightarrow> (('d, 'm) server_scheme, response res list) act" where
  "serve J K html [] = ret []"
| "serve J K html (req # reqs) = (\<lambda>s.
     case route J K html req of
       None \<Rightarrow> serve J K html reqs s
     | Some h \<Rightarrow>
        (case h s of
           (Inr out, s1) \<Rightarrow> bnd (serve J K html reqs) (\<lambda>outs. ret (Inr out # outs)) s1
         | (Inl (Throw e), s1) \<Rightarrow> bnd (serve J K html reqs) (\<lambda>outs. ret (Inl (Throw e) # outs)) s1
         | (Inl e, s1) \<Rightarrow> (Inl e, s1)))"

definition http_functions ::
    "'j json_lib \<Rightarrow> 'd kv_lib \<Rightarrow> (string \<rightharpoonup> string) \<Rightarrow> request list
     \<Rightarrow> (('d, 'm) server_scheme, response res list) act" where
  "http_functions J K html reqs = thn (create_state_summary J K) (serve J K html reqs)"

section \<open>Who may modify\<close>

text \<open>The outcome of the last login attempt in a sequence of requests.\<close>

definition is_login :: "request \<Rightarrow> bool" where
  "is_login req \<longleftrightarrow> req_method req = Post \<and> req_path req = ''/login''"

definition good_login :: "request \<Rightarrow> bool" where
  "good_login req \<longleftrightarrow> get_param req ''username'' = ''ubuntu'' \<and> get_param req ''password'' = ''ubuntu''"

definition last_login :: "bool \<Rightarrow> request list \<Rightarrow> bool" where
  "last_login u reqs = fold (\<lambda>req u. if is_login req then good_login req else u) reqs u"

definition same_user :: "('d, 'm) server_scheme \<Rightarrow> ('d, 'm) server_scheme \<Rightarrow> bool" where
  "same_user s s' \<longleftrightarrow> user s' = user s"

lemma server_user: "store.more s' = store.more (s :: ('d, 'm) server_scheme) \<Longrightarrow> user s' = user s"
  by (cases s; cases s') simp

lemma same_user_store:
  fixes m :: "(('d, 'm) server_scheme, 'a) act"
  assumes "keeps store_step m"
  shows "user (snd (m s)) = user s"
  using keepsD [OF assms, of s] by (intro server_user) (simp add: store_step_def)

lemma page_store_step: "keeps store_step (page html f)"
  unfolding page_def setup_html_def by (intro store_step_intros keeps_cases)

lemma plain_text_store_step: "keeps store_step m \<Longrightarrow> keeps store_step (plain_text m)"
  unfolding plain_text_def by (intro store_step_intros)

lemma route_get:
  assumes "req_method req = Get" and "route J K html req = Some h"
  shows "keeps store_step h"
  using assms
  by (auto simp: route_def split: if_splits intro: page_store_step plain_text_store_step store_step_readers)

lemma route_user:
  fixes s :: "('d, 'm) server_scheme"
  assumes "route J K html req = Some h"
  shows "user (snd (h s)) = last_login (user s) [req]"
proof (cases "req_method req")
  case Get
  with route_get [OF Get assms] show ?thesis
    by (simp add: last_login_def is_login_def same_user_store)
next
  case Post
  show ?thesis
  proof (cases "req_path req = ''/login''")
    case True
    with Post assms have "h = post_login req" by (simp add: route_def)
    with Post True show ?thesis
      by (simp add: last_login_def is_login_def good_login_def post_login_def check_credentials_def Let_def)
  next
    case False
    with Post assms have h: "h = post_modify J K req" by (simp add: route_def split: if_splits)
    have "keeps store_step (thn (modify_supplies J K (get_param req ''supply_key'') (get_param req ''new_value''))
        (ret [Set_Redirect ''/modify_form'']) :: (('d, 'm) server_scheme, response) act)"
      by (intro store_step_intros store_step_modify)
    from same_user_store [OF this, of s] False h show ?thesis
      by (simp add: last_login_def is_login_def post_modify_def)
  qed
qed

lemma serve_user:
  fixes s :: "('d, 'm) server_scheme"
  shows "serve J K html reqs s = (Inr outs, s') \<Longrightarrow> user s' = last_login (user s) reqs"
proof (induction reqs arbitrary: s outs)
  case Nil
  then show ?case by (simp add: last_login_def)
next
  case (Cons req reqs)
  have fold: "last_login u (req # reqs) = last_login (last_login u [req]) reqs" for u
    by (simp add: last_login_def)
  show ?case
  proof (cases "route J K html req :: (('d, 'm) server_scheme, response) act option")
    case None
    then have "\<not> is_login req" by (auto simp: route_def is_login_def)
    then have "last_login (user s) [req] = user s" by (simp add: last_login_def)
    with Cons None fold show ?thesis by simp
  next
    case (Some h)
    obtain r s1 where r: "h s = (r, s1)" by fastforce
    with route_user [OF Some, of s] have u: "user s1 = last_login (user s) [req]" by simp
    from Cons.prems Some r obtain outs' where "serve J K html reqs s1 = (Inr outs', s')"
      by (auto split: sum.splits stop.splits prod.splits)
    from Cons.IH [OF this] u fold show ?thesis by simp
  qed
qed

end
