(* ===== verification/Http_Props.thy ===== *)
theory Http_Props
  imports Http Session_Props
begin

text \<open>
  The properties of the web interface: whom the global \<open>user\<close> lets modify the
  supplies, what the queries answer, what starting the interface does to the
  stored state, and what a missing page does to the server.
\<close>

definition modify_request :: "string \<Rightarrow> string \<Rightarrow> request" where
  "modify_request key val = \<lparr>req_method = Post, req_path = ''/modify'',
     get_param = (\<lambda>p. if p = ''supply_key'' then key else if p = ''new_value'' then val else [])\<rparr>"

definition get_request :: "string \<Rightarrow> request" where
  "get_request p = \<lparr>req_method = Get, req_path = p, get_param = (\<lambda>_. [])\<rparr>"

definition login_request :: "string \<Rightarrow> string \<Rightarrow> request" where
  "login_request u p = \<lparr>req_method = Post, req_path = ''/login'',
     get_param = (\<lambda>k. if k = ''username'' then u else if k = ''password'' then p else [])\<rparr>"

text \<open>
  C30: who may modify the supplies over the web depends on the last login attempt
  of anybody: after any sequence of requests, a request to modify is carried out
  exactly when the last login in the sequence, from whichever client, had the
  right password; otherwise it is refused with status 401 and changes nothing.
\<close>

theorem web_modify_follows_last_login:
  fixes s s' :: "('d, 'm) server_scheme"
  assumes "refuge_env J obj plain K open_rw" and "serve J K html reqs s = (Inr outs, s')"
    and "store_holds J K obj plain (db s') r" and "refuge_wf r" and "open_rw (db s')"
    and "known_supply r key" and "stoi val = Inr v" and "0 \<le> v"
  shows "\<exists>h. route J K html (modify_request key val) = Some h \<and>
    (if last_login (user s) reqs
     then \<exists>s''. h s' = (Inr [Set_Redirect ''/modify_form''], s'') \<and>
            store_holds J K obj plain (db s'') (set_supply key v r) \<and> user s''
     else h s' = (Inr [Set_Content ''You are not authorized to modify the supplies.'' ''text/plain'',
                       Set_Status 401], s'))"
proof -
  let ?h = "post_modify J K (modify_request key val) :: (('d, 'm) server_scheme, response) act"
  have h: "route J K html (modify_request key val) = Some ?h"
    by (simp add: route_def modify_request_def)
  have u: "user s' = last_login (user s) reqs" using assms(2) by (rule serve_user)
  show ?thesis
  proof (cases "user s'")
    case True
    obtain d' where "modify_supplies J K key val s' = (Inr (), s'\<lparr>db := d',
          console := console s' @ [''[SUPPLIES] State summary updated successfully.'']\<rparr>)"
        "store_holds J K obj plain d' (set_supply key v r)"
      using refuge_env.modify_supplies_sets [OF assms(1,3,4,6,7,8,5)] by metis
    with h u True show ?thesis
      by (intro exI [of _ ?h]) (simp add: post_modify_def modify_request_def)
  next
    case False
    with h u show ?thesis by (intro exI [of _ ?h]) (simp add: post_modify_def)
  qed
qed

theorem web_modify_follows_last_login_witness:
  "\<exists>h s''. route ref_json ref_kv Map.empty (modify_request ''meat'' ''5'') = Some h \<and>
    h (demo_server\<lparr>user := True\<rparr>) = (Inr [Set_Redirect ''/modify_form''], s'') \<and>
    store_holds ref_json ref_kv is_obj j_plain (db s'') (set_supply ''meat'' 5 initial_refuge)"
proof -
  let ?reqs = "[login_request ''ubuntu'' ''ubuntu'']"
  have s: "serve ref_json ref_kv Map.empty ?reqs demo_server =
      (Inr [Inr [Set_Redirect ''/modify_form'']], demo_server\<lparr>user := True\<rparr>)"
    by (simp add: route_def login_request_def post_login_def check_credentials_def)
  have n: "stoi ''5'' = Inr 5" by code_simp
  have k: "known_supply initial_refuge ''meat''" by (simp add: known_supply_def initial_refuge_def)
  have h: "store_holds ref_json ref_kv is_obj j_plain (db (demo_server\<lparr>user := True\<rparr>)) initial_refuge"
    "ref_open (db (demo_server\<lparr>user := True\<rparr>))"
    using demo_holds by simp_all
  have "last_login (user demo_server) ?reqs"
    by (simp add: last_login_def is_login_def good_login_def login_request_def)
  with web_modify_follows_last_login [OF demo_env s h(1) initial_refuge_wf h(2) k n] show ?thesis by auto
qed

text \<open>
  The three queries answer with the JSON text of the section they name, as
  plain text, and change nothing.
\<close>

theorem web_queries:
  fixes s :: "('d, 'm) server_scheme"
  assumes "refuge_env J obj plain K open_rw" and "store_holds J K obj plain (db s) r"
  shows "(\<exists>h t v f m. route J K html (get_request ''/supplies'') = Some h \<and>
        h s = (Inr [Set_Content t ''text/plain''], s) \<and> jl_parse J t = Inr v \<and>
        jlook J v = [''food'' \<mapsto> f, ''medicine'' \<mapsto> m] \<and>
        counts_doc J obj f (food r) \<and> counts_doc J obj m (medicine r)) \<and>
    (\<exists>h t v. route J K html (get_request ''/alerts'') = Some h \<and>
        h s = (Inr [Set_Content t ''text/plain''], s) \<and> jl_parse J t = Inr v \<and> counts_doc J obj v (alerts r)) \<and>
    (\<exists>h t v. route J K html (get_request ''/emergencies'') = Some h \<and>
        h s = (Inr [Set_Content t ''text/plain''], s) \<and> jl_parse J t = Inr v \<and>
        jlook J v = [''last_keepalived'' \<mapsto> jl_of_str J (last_keepalived r),
                     ''last_event'' \<mapsto> jl_of_str J (last_event r)])"
proof (intro conjI)
  have r: "route J K html (get_request ''/supplies'') = Some (plain_text (get_supplies J K))"
    "route J K html (get_request ''/alerts'') = Some (plain_text (get_alerts J K))"
    "route J K html (get_request ''/emergencies'') = Some (plain_text (get_emergencies J K))"
    by (simp_all add: route_def get_request_def)
  have p: "plain_text m s = (Inr [Set_Content t ''text/plain''], s)" if "m s = (Inr t, s)"
    for m :: "(('d, 'm) server_scheme, string) act" and t
    using that by (simp add: plain_text_def)
  show "\<exists>h t v f m. route J K html (get_request ''/supplies'') = Some h \<and>
        h s = (Inr [Set_Content t ''text/plain''], s) \<and> jl_parse J t = Inr v \<and>
        jlook J v = [''food'' \<mapsto> f, ''medicine'' \<mapsto> m] \<and>
        counts_doc J obj f (food r) \<and> counts_doc J obj m (medicine r)"
    using refuge_env.sections_read(1) [OF assms] r(1) p by blast
  show "\<exists>h t v. route J K html (get_request ''/alerts'') = Some h \<and>
        h s = (Inr [Set_Content t ''text/plain''], s) \<and> jl_parse J t = Inr v \<and> counts_doc J obj v (alerts r)"
    using refuge_env.sections_read(2) [OF assms] r(2) p by blast
  show "\<exists>h t v. route J K html (get_request ''/emergencies'') = Some h \<and>
        h s = (Inr [Set_Content t ''text/plain''], s) \<and> jl_parse J t = Inr v \<and>
        jlook J v = [''last_keepalived'' \<mapsto> jl_of_str J (last_keepalived r),
                     ''last_event'' \<mapsto> jl_of_str J (last_event r)]"
    using refuge_env.sections_read(3) [OF assms] r(3) p by blast
qed

theorem web_queries_witness:
  "\<exists>h t v. route ref_json ref_kv Map.empty (get_request ''/alerts'') = Some h \<and>
     h demo_server = (Inr [Set_Content t ''text/plain''], demo_server) \<and>
     jl_parse ref_json t = Inr v \<and> counts_doc ref_json is_obj v (alerts initial_refuge)"
proof -
  have "store_holds ref_json ref_kv is_obj j_plain (db demo_server) initial_refuge" using demo_holds by simp
  from web_queries [OF demo_env this, of Map.empty] show ?thesis by blast
qed

text \<open>
  Starting the web interface writes the initial summary whatever the store
  held before: the quantities and counters of an earlier run are lost.
\<close>

theorem web_start_resets_store:
  fixes s :: "('d, 'm) server_scheme"
  assumes "refuge_env J obj plain K open_rw" and "open_rw (db s)"
  shows "\<exists>s'. http_functions J K html [] s = (Inr [], s') \<and> store_holds J K obj plain (db s') initial_refuge"
proof -
  obtain d' where "create_state_summary J K s = (Inr (), s\<lparr>db := d'\<rparr>)"
      "store_holds J K obj plain d' initial_refuge"
    using refuge_env.create_state_summary_holds [OF assms] by metis
  then show ?thesis by (simp add: http_functions_def)
qed

theorem web_start_resets_store_witness:
  "\<exists>s'. http_functions ref_json ref_kv Map.empty []
      (demo_server\<lparr>db := snd (ref_put (db demo_store) summary_key ''older state'')\<rparr>) = (Inr [], s') \<and>
    store_holds ref_json ref_kv is_obj j_plain (db s') initial_refuge"
proof -
  have "ref_open (db (demo_server\<lparr>db := snd (ref_put (db demo_store) summary_key ''older state'')\<rparr>))"
    using demo_holds(2) by (simp add: ref_open_def ref_put_def)
  from web_start_resets_store [OF demo_env this] show ?thesis by simp
qed

text \<open>
  A page that cannot be read does not answer with an error: it ends the
  server.
\<close>

lemma web_missing_page_kills_server:
  assumes "html ''../html/root.html'' = None"
  shows "fst (serve J K html (get_request ''/root'' # reqs) s) = Inl (Exit 1)"
  using assms by (simp add: route_def get_request_def page_def setup_html_def)

lemma web_missing_page_kills_server_example:
  "fst (serve ref_json ref_kv Map.empty [get_request ''/root''] demo_server) = Inl (Exit 1)"
  by (rule web_missing_page_kills_server) simp

end
