(* ===== verification/Sensors.thy ===== *)
theory Sensors
  imports Complex_Main Cxx_Strings
begin

text \<open>
  The two child processes of the server: \<open>lib/libsta/src/alerts.cpp\<close>, which
  writes infection alerts into one named pipe, and
  \<open>lib/libdyn/src/emergency.cpp\<close>, which writes emergencies into another.  The
  random numbers come from the standard library's engine and distributions,
  an argument here whose range guarantees are the locale \<open>random_source\<close>.  A
  \<open>double\<close> is the rational number it stands for.
\<close>

section \<open>Random numbers\<close>

record 'g rng =
  uniform_int :: "int \<Rightarrow> int \<Rightarrow> 'g \<Rightarrow> int \<times> 'g"
  uniform_real :: "rat \<Rightarrow> rat \<Rightarrow> 'g \<Rightarrow> rat \<times> 'g"

locale random_source =
  fixes R :: "'g rng"
  assumes int_range: "a \<le> b \<Longrightarrow> fst (uniform_int R a b g) \<in> {a..b}"
    and real_range: "x < y \<Longrightarrow> x \<le> fst (uniform_real R x y g) \<and> fst (uniform_real R x y g) < y"

section \<open>Printing a temperature\<close>

text \<open>Rounding to the nearest integer, to the even one of two.\<close>

definition round_half_even :: "rat \<Rightarrow> int" where
  "round_half_even x =
     (let f = \<lfloor>x\<rfloor>; d = x - of_int f in
      if d < 1 / 2 then f else if 1 / 2 < d then f + 1 else if even f then f else f + 1)"

text \<open>\<open>std::fixed << std::setprecision(1) << t\<close>\<close>

definition fixed1 :: "rat \<Rightarrow> string" where
  "fixed1 t =
     (let n = round_half_even (10 * \<bar>t\<bar>) in
      (if t < 0 then ''-'' else []) @ show_int (n div 10) @ ''.'' @ show_int (n mod 10))"

lemma round_half_even_bounds:
  "of_int a \<le> x \<Longrightarrow> a \<le> round_half_even x"
  "x \<le> of_int b \<Longrightarrow> round_half_even x \<le> b"
proof -
  show "a \<le> round_half_even x" if "of_int a \<le> x"
  proof -
    from that have "a \<le> \<lfloor>x\<rfloor>" by (simp add: le_floor_iff)
    then show ?thesis by (auto simp: round_half_even_def Let_def)
  qed
  show "round_half_even x \<le> b" if "x \<le> of_int b"
  proof (cases "x = of_int b")
    case True
    then show ?thesis by (simp add: round_half_even_def Let_def)
  next
    case False
    with that have "x < of_int b" by simp
    then have "\<lfloor>x\<rfloor> < b" by (simp add: floor_less_iff)
    then show ?thesis by (auto simp: round_half_even_def Let_def)
  qed
qed

section \<open>Alerts\<close>

definition generate_entry_point :: "'g rng \<Rightarrow> 'g \<Rightarrow> string \<times> 'g" where
  "generate_entry_point R gen =
     (let (entry_point, gen') = uniform_int R 0 3 gen in
      (if entry_point = 0 then ''north''
       else if entry_point = 1 then ''east''
       else if entry_point = 2 then ''west''
       else if entry_point = 3 then ''south''
       else [], gen'))"

definition generate_temperature :: "'g rng \<Rightarrow> 'g \<Rightarrow> rat \<times> 'g" where
  "generate_temperature R gen = uniform_real R 36 42 gen"

definition generate_sleep_duration :: "'g rng \<Rightarrow> 'g \<Rightarrow> int \<times> 'g" where
  "generate_sleep_duration R gen = uniform_int R 10 30 gen"

text \<open>What one call of \<open>write_alert\<close> puts into the stream; nothing up to 38 degrees.\<close>

definition write_alert :: "string \<Rightarrow> rat \<Rightarrow> string" where
  "write_alert entry temperature =
     (if 38 < temperature then entry @ '','' @ fixed1 temperature @ [CHR 0x0A] else [])"

text \<open>
  The body of \<open>run_invasion_alerts\<close>: the loop has no exit, so the model runs a
  given number of rounds.  The result lists the writes in order, with the time
  slept before each.
\<close>

fun alert_rounds :: "'g rng \<Rightarrow> nat \<Rightarrow> 'g \<Rightarrow> (int \<times> string) list" where
  "alert_rounds R 0 gen = []"
| "alert_rounds R (Suc n) gen =
     (let (time, gen1) = generate_sleep_duration R gen;
          (entry, gen2) = generate_entry_point R gen1;
          (temperature, gen3) = generate_temperature R gen2
      in (time, write_alert entry temperature) # alert_rounds R n gen3)"

definition open_alert_pipe :: "bool \<Rightarrow> bool \<times> string list" where
  "open_alert_pipe opens = (if opens then (True, []) else (False, [''[ERROR] Error opening alert pipe'']))"

text \<open>The messages printed and the writes, for a seed of the generator.\<close>

definition run_invasion_alerts :: "'g rng \<Rightarrow> bool \<Rightarrow> 'g \<Rightarrow> nat \<Rightarrow> string list \<times> (int \<times> string) list" where
  "run_invasion_alerts R opens seed rounds =
     (let (ok, msgs) = open_alert_pipe opens in (msgs, if ok then alert_rounds R rounds seed else []))"

definition entry_names :: "string set" where
  "entry_names = {''north'', ''east'', ''west'', ''south''}"

text \<open>The shape of an alert on the pipe: entry, comma, a temperature with one decimal, line break.\<close>

definition alert_line :: "string \<Rightarrow> string \<Rightarrow> bool" where
  "alert_line entry line \<longleftrightarrow>
     entry \<in> entry_names \<and> (\<exists>tenths. 380 \<le> tenths \<and> tenths \<le> 420 \<and>
       line = entry @ '','' @ show_int (tenths div 10) @ ''.'' @ show_int (tenths mod 10) @ [CHR 0x0A])"

section \<open>Emergencies\<close>

definition generate_emergency_message :: "'g rng \<Rightarrow> 'g \<Rightarrow> string \<times> 'g" where
  "generate_emergency_message R gen =
     (let (emergency_type, gen') = uniform_int R 0 3 gen in
      (if emergency_type = 0 then ''Power Outage''
       else if emergency_type = 1 then ''Server Overload''
       else if emergency_type = 2 then ''Network Disruption''
       else if emergency_type = 3 then ''System Failure''
       else ''Unknown Emergency'', gen'))"

definition write_emergency_message :: "string \<Rightarrow> string" where
  "write_emergency_message emgs_message = emgs_message @ [CHR 0x0A]"

fun emergency_rounds :: "'g rng \<Rightarrow> nat \<Rightarrow> 'g \<Rightarrow> (int \<times> string) list" where
  "emergency_rounds R 0 gen = []"
| "emergency_rounds R (Suc n) gen =
     (let (time, gen1) = uniform_int R 60 90 gen;
          (emgs_message, gen2) = generate_emergency_message R gen1
      in (time, write_emergency_message emgs_message) # emergency_rounds R n gen2)"

definition open_emergency_pipe :: "bool \<Rightarrow> bool \<times> string list" where
  "open_emergency_pipe opens = (if opens then (True, []) else (False, [''[ERROR] Error opening emergency pipe'']))"

definition run_emergencies :: "'g rng \<Rightarrow> bool \<Rightarrow> 'g \<Rightarrow> nat \<Rightarrow> string list \<times> (int \<times> string) list" where
  "run_emergencies R opens seed rounds =
     (let (ok, msgs) = open_emergency_pipe opens in (msgs, if ok then emergency_rounds R rounds seed else []))"

lemma run_invasion_alerts_writes:
  "snd (run_invasion_alerts R opens seed rounds) = (if opens then alert_rounds R rounds seed else [])"
  by (simp add: run_invasion_alerts_def open_alert_pipe_def)

lemma run_emergencies_writes:
  "snd (run_emergencies R opens seed rounds) = (if opens then emergency_rounds R rounds seed else [])"
  by (simp add: run_emergencies_def open_emergency_pipe_def)

definition emergency_names :: "string set" where
  "emergency_names = {''Power Outage'', ''Server Overload'', ''Network Disruption'', ''System Failure''}"

section \<open>What the processes write\<close>

lemma write_alert_line:
  assumes "entry \<in> entry_names" and "t < 42"
  shows "write_alert entry t = [] \<or> alert_line entry (write_alert entry t)"
proof (cases "38 < t")
  case True
  let ?n = "round_half_even (10 * t)"
  have "of_int 380 \<le> 10 * t" and "10 * t \<le> of_int 420" using True assms(2) by simp_all
  then have "380 \<le> ?n" "?n \<le> 420" by (blast intro: round_half_even_bounds)+
  with True assms(1) show ?thesis
    by (auto simp: write_alert_def alert_line_def fixed1_def Let_def intro!: exI [of _ ?n])
qed (simp add: write_alert_def)

context random_source begin

lemma entry_point_named: "fst (generate_entry_point R gen) \<in> entry_names"
  using int_range [of 0 3 gen]
  by (auto simp: generate_entry_point_def entry_names_def Let_def split: prod.splits)

lemma emergency_named: "fst (generate_emergency_message R gen) \<in> emergency_names"
  using int_range [of 0 3 gen]
  by (auto simp: generate_emergency_message_def emergency_names_def Let_def split: prod.splits)

lemma alert_rounds_lines:
  "(time, line) \<in> set (alert_rounds R n gen) \<Longrightarrow>
     10 \<le> time \<and> time \<le> 30 \<and> (line = [] \<or> (\<exists>entry. alert_line entry line))"
proof (induction n arbitrary: gen)
  case 0
  then show ?case by simp
next
  case (Suc n)
  obtain t g1 where 1: "generate_sleep_duration R gen = (t, g1)" by fastforce
  obtain e g2 where 2: "generate_entry_point R g1 = (e, g2)" by fastforce
  obtain d g3 where 3: "generate_temperature R g2 = (d, g3)" by fastforce
  have t: "10 \<le> t \<and> t \<le> 30" using int_range [of 10 30 gen] 1 by (simp add: generate_sleep_duration_def)
  have e: "e \<in> entry_names" using entry_point_named [of g1] 2 by simp
  have d: "d < 42" using real_range [of 36 42 g2] 3 by (simp add: generate_temperature_def)
  from Suc.prems consider "time = t \<and> line = write_alert e d" | "(time, line) \<in> set (alert_rounds R n g3)"
    by (auto simp: 1 2 3)
  then show ?case
    using t write_alert_line [OF e d] Suc.IH by cases blast+
qed

lemma emergency_rounds_lines:
  "(time, line) \<in> set (emergency_rounds R n gen) \<Longrightarrow>
     60 \<le> time \<and> time \<le> 90 \<and> (\<exists>msg \<in> emergency_names. line = msg @ [CHR 0x0A])"
proof (induction n arbitrary: gen)
  case 0
  then show ?case by simp
next
  case (Suc n)
  obtain t g1 where 1: "uniform_int R 60 90 gen = (t, g1)" by fastforce
  obtain m g2 where 2: "generate_emergency_message R g1 = (m, g2)" by fastforce
  have t: "60 \<le> t \<and> t \<le> 90" using int_range [of 60 90 gen] 1 by simp
  have m: "m \<in> emergency_names" using emergency_named [of g1] 2 by simp
  from Suc.prems consider "time = t \<and> line = write_emergency_message m" | "(time, line) \<in> set (emergency_rounds R n g2)"
    by (auto simp: 1 2)
  then show ?case
    using t m Suc.IH by cases (auto simp: write_emergency_message_def)
qed

end

section \<open>A linear congruential source\<close>

definition lcg_next :: "nat \<Rightarrow> nat" where
  "lcg_next g = (1103515245 * g + 12345) mod 2147483648"

definition lcg :: "nat rng" where
  "lcg = \<lparr>uniform_int = (\<lambda>a b g. (a + int g mod (b - a + 1), lcg_next g)),
          uniform_real = (\<lambda>a b g. (a + (b - a) * (of_nat (g mod 65536) / 65536), lcg_next g))\<rparr>"

interpretation lcg_source: random_source lcg
proof
  show "fst (uniform_int lcg a b g) \<in> {a..b}" if "a \<le> b" for a b g
  proof -
    from that have "0 < b - a + 1" by simp
    then have "0 \<le> int g mod (b - a + 1)" "int g mod (b - a + 1) < b - a + 1"
      by (rule pos_mod_sign, rule pos_mod_bound)
    then show ?thesis by (simp add: lcg_def)
  qed
  show "a \<le> fst (uniform_real lcg a b g) \<and> fst (uniform_real lcg a b g) < b" if "a < b" for a b g
  proof -
    let ?u = "of_nat (g mod 65536) / 65536 :: rat"
    have "g mod 65536 < 65536" by simp
    then have "(of_nat (g mod 65536) :: rat) < of_nat 65536" by (simp only: of_nat_less_iff)
    then have u: "0 \<le> ?u" "?u < 1" by simp_all
    from that u have "0 \<le> (b - a) * ?u" by simp
    moreover from that u have "(b - a) * ?u < (b - a) * 1" by (intro mult_strict_left_mono) simp_all
    ultimately show ?thesis by (simp add: lcg_def)
  qed
qed

end
