(* ===== verification/Pipes.thy ===== *)
theory Pipes
  imports Session Sensors
begin

text \<open>
  The part of \<open>src/server.cpp\<close> that reads the two named pipes of the sensor
  processes: \<open>handle_alerts\<close>, \<open>handle_emergency\<close> and \<open>disconnect_all_clients\<close>.
  A read of a pipe is a read of the stream behind its descriptor; it may deliver
  several lines at once.
\<close>

section \<open>Talking to all clients\<close>

fun send_each :: "int list \<Rightarrow> string \<Rightarrow> (('d, 'm) server_scheme, unit) act" where
  "send_each [] msg = ret ()"
| "send_each (c # cs) msg = thn (send c msg) (send_each cs msg)"

fun disconnect_each :: "int list \<Rightarrow> (('d, 'm) server_scheme, unit) act" where
  "disconnect_each [] = ret ()"
| "disconnect_each (c # cs) =
     thn (send c ''exit'')
    (thn (say (''[SERVER] Disconnecting client socket '' @ show_int c))
    (thn (close_fd c) (disconnect_each cs)))"

definition disconnect_all_clients :: "(('d, 'm) server_scheme, unit) act" where
  "disconnect_all_clients = (\<lambda>s.
     thn (disconnect_each (connected_clients s))
         (\<lambda>s1. (Inr (), s1\<lparr>connected_clients := []\<rparr>)) s)"

section \<open>The handlers\<close>

text \<open>A null pointer is neither a string to append nor one to print.\<close>

definition handle_alerts ::
    "'j json_lib \<Rightarrow> 'd kv_lib \<Rightarrow> string \<Rightarrow> int \<Rightarrow> (('d, 'm) server_scheme, unit) act" where
  "handle_alerts J K junk alert_fifo_fd =
     bnd (recv_text junk alert_fifo_fd ''[ERROR] Error reading from alert pipe'') (\<lambda>buf.
     let (entry, rest) = strtok (CHR '','') buf;
         (temperature, _) = strtok (CHR '','') rest
     in case entry of
          None \<Rightarrow> halt Undefined
        | Some entry \<Rightarrow>
            thn (\<lambda>s. send_each (connected_clients s) (''Alert of possible infection in '' @ entry @ '' entry.'') s)
           (case temperature of
              None \<Rightarrow> halt Undefined
            | Some temperature \<Rightarrow>
                thn (say (''[ALERT] Alert of possible infection in '' @ entry @ '' entry, '' @ temperature))
               (thn (log_alert True entry)
                    (modify_alerts J K entry))))"

definition handle_emergency ::
    "'j json_lib \<Rightarrow> 'd kv_lib \<Rightarrow> string \<Rightarrow> int \<Rightarrow> (('d, 'm) server_scheme, unit) act" where
  "handle_emergency J K junk emgs_fifo_fd =
     bnd get_time_stamp (\<lambda>timestamp.
     bnd (recv_text junk emgs_fifo_fd ''[ERROR] Error reading from emergency pipe'') (\<lambda>buf.
     thn (say (''[EMERGENCY] '' @ buf))
    (thn (log_alert False buf)
    (thn (modify_emergencies J K timestamp buf)
         disconnect_all_clients))))"

section \<open>What they do\<close>

lemma send_each_run:
  "send_each cs msg s = (Inr (), s\<lparr>sent := sent s @ map (\<lambda>c. (c, msg)) cs\<rparr>)"
  by (induction cs arbitrary: s) simp_all

lemma disconnect_each_run:
  "disconnect_each cs s = (Inr (), s\<lparr>sent := sent s @ map (\<lambda>c. (c, ''exit'')) cs,
     console := console s @ map (\<lambda>c. ''[SERVER] Disconnecting client socket '' @ show_int c) cs,
     closed_fds := closed_fds s @ cs\<rparr>)"
  by (induction cs arbitrary: s) simp_all

lemma disconnect_all_run:
  "disconnect_all_clients s = (Inr (), s\<lparr>sent := sent s @ map (\<lambda>c. (c, ''exit'')) (connected_clients s),
     console := console s @ map (\<lambda>c. ''[SERVER] Disconnecting client socket '' @ show_int c) (connected_clients s),
     closed_fds := closed_fds s @ connected_clients s, connected_clients := []\<rparr>)"
  by (simp add: disconnect_all_clients_def disconnect_each_run)

lemma NUL_not_digit: "\<not> is_digit NUL"
  by (simp add: is_digit_def NUL_def)

lemma show_int_clean: "c \<in> set (show_int n) \<Longrightarrow> c \<noteq> NUL \<and> c \<noteq> CHR '',''"
  using show_nat_digits [of "nat n"] show_nat_digits [of "nat (- n)"]
  by (auto simp: show_int_def NUL_not_digit NUL_def is_digit_def split: if_splits)

text \<open>An alert line is text without NUL, and its first field is the entry.\<close>

lemma alert_line_fields:
  assumes "alert_line entry line"
  obtains temp where "line = entry @ CHR '','' # temp" and "temp \<noteq> []" and "NUL \<notin> set line"
    and "CHR '','' \<notin> set entry" and "CHR '','' \<notin> set temp" and "entry \<noteq> []" and "ascii entry"
proof -
  from assms obtain t where e: "entry \<in> entry_names"
    and l: "line = entry @ '','' @ show_int (t div 10) @ ''.'' @ show_int (t mod 10) @ [CHR 0x0A]"
    by (auto simp: alert_line_def)
  let ?t = "show_int (t div 10) @ ''.'' @ show_int (t mod 10) @ [CHR 0x0A]"
  have n: "NUL \<notin> set (show_int n)" "CHR '','' \<notin> set (show_int n)" for n
    using show_int_clean by blast+
  have "entry \<noteq> []" "CHR '','' \<notin> set entry" "NUL \<notin> set entry" "ascii entry"
    using e by (auto simp: entry_names_def NUL_def ascii_def)
  moreover have "CHR '','' \<notin> set ?t" "NUL \<notin> set line" using n l calculation by (auto simp: NUL_def)
  ultimately show thesis using l by (intro that [of ?t]) simp_all
qed

lemma alert_entry_named: "entry \<in> entry_names \<Longrightarrow> alert_entry entry = Some (entry @ ''_entry'')"
  by (auto simp: entry_names_def alert_entry_def)

lemma alert_line_named: "alert_line entry line \<Longrightarrow> entry \<in> entry_names"
  by (simp add: alert_line_def)

end
