(* ===== verification/Pipes_Props.thy ===== *)
theory Pipes_Props
  imports Pipes Session_Props
begin

text \<open>
  The properties of the pipe handlers, from the line a sensor process writes to
  the counter in the store and the messages to the clients; what happens to
  lines that arrive together; and how an emergency and the client threads both
  close the same sockets.
\<close>

section \<open>Reading an alert\<close>

lemma length_show_nat_small: "n < 100 \<Longrightarrow> length (show_nat n) \<le> 2"
proof -
  assume "n < 100"
  then have "n div 10 < 10" by simp
  then show ?thesis by (simp add: show_nat.simps [of n] show_nat.simps [of "n div 10"])
qed

lemma alert_line_short:
  assumes "alert_line entry line"
  shows "length line \<le> 12"
proof -
  from assms obtain t where e: "entry \<in> entry_names" and t: "380 \<le> t" "t \<le> 420"
    and l: "line = entry @ '','' @ show_int (t div 10) @ ''.'' @ show_int (t mod 10) @ [CHR 0x0A]"
    by (auto simp: alert_line_def)
  have "\<not> t div 10 < 0" "nat (t div 10) < 100" "\<not> t mod 10 < 0" "nat (t mod 10) < 100" using t by simp_all
  then have "length (show_int (t div 10)) \<le> 2" "length (show_int (t mod 10)) \<le> 2"
    using length_show_nat_small by (simp_all add: show_int_def)
  moreover have "length entry \<le> 5" using e by (auto simp: entry_names_def)
  ultimately show ?thesis using l by simp
qed

text \<open>
  Whatever follows the first line of a read goes into the temperature that is
  printed: the handler acts on the first line only.
\<close>

lemma handle_alerts_first_line:
  fixes s :: "('d, 'm) server_scheme"
  assumes env: "refuge_env J obj plain K open_rw" and "store_holds J K obj plain (db s) r"
    and "open_rw (db s)" and "inbox s fd = Data (line @ extra) # evs" and "alert_line entry line"
    and "NUL \<notin> set extra" and "length (line @ extra) < MAX_BUFFER" and "length junk = MAX_BUFFER"
    and "alerts r (entry @ ''_entry'') = Some c" and "0 \<le> c" and "c < INT_MAX"
  shows "\<exists>s'. handle_alerts J K junk fd s = (Inr (), s') \<and>
    store_holds J K obj plain (db s') (count_alert (entry @ ''_entry'') r) \<and> open_rw (db s') \<and>
    inbox s' = (inbox s)(fd := evs) \<and> connected_clients s' = connected_clients s \<and> clock s' = clock s \<and>
    sent s' = sent s @ map (\<lambda>k. (k, ''Alert of possible infection in '' @ entry @ '' entry.'')) (connected_clients s)"
proof -
  obtain temp where t: "line = entry @ CHR '','' # temp" "temp \<noteq> []" "NUL \<notin> set line"
    "CHR '','' \<notin> set entry" "CHR '','' \<notin> set temp" "entry \<noteq> []" "ascii entry"
    by (rule alert_line_fields [OF assms(5)])
  let ?m = "''Alert of possible infection in '' @ entry @ '' entry.''"
  let ?s1 = "s\<lparr>inbox := (inbox s)(fd := evs)\<rparr>"
  let ?s2 = "?s1\<lparr>sent := sent s @ map (\<lambda>k. (k, ?m)) (connected_clients s)\<rparr>"
  have n: "NUL \<notin> set (line @ extra)" "line @ extra \<noteq> []" using t assms(6) by auto
  have recv: "recv_text junk fd err s = (Inr (line @ extra), ?s1)" for err
    using recv_text_data [OF assms(4) n(2) assms(7,8), of err] text_of_plain [OF n(1)] by simp
  have tok1: "strtok (CHR '','') (line @ extra) = (Some entry, temp @ extra)"
    using strtok_field [OF t(4,6), of "temp @ extra"] t(1) by simp
  obtain temperature rest where tok2: "strtok (CHR '','') (temp @ extra) = (Some temperature, rest)"
    using t(2,5) by (cases temp) (auto simp: strtok_def Let_def)
  define s3 where "s3 = snd (log_alert True entry (?s2\<lparr>console := console ?s2 @
    [''[ALERT] Alert of possible infection in '' @ entry @ '' entry, '' @ temperature]\<rparr>))"
  have s3: "log_alert True entry (?s2\<lparr>console := console ?s2 @
      [''[ALERT] Alert of possible infection in '' @ entry @ '' entry, '' @ temperature]\<rparr>) = (Inr (), s3)"
    "db s3 = db s" "inbox s3 = inbox ?s1" "sent s3 = sent ?s2" "connected_clients s3 = connected_clients s"
    "clock s3 = clock s"
    by (simp_all add: s3_def log_alert_run)
  have h: "store_holds J K obj plain (db s3) r" "open_rw (db s3)" using s3(2) assms(2,3) by simp_all
  note entry = alert_entry_named [OF alert_line_named [OF assms(5)]]
  obtain d' where d': "modify_alerts J K entry s3 = (Inr (), s3\<lparr>db := d'\<rparr>)"
      "store_holds J K obj plain d' (count_alert (entry @ ''_entry'') r)" "open_rw d'"
    using refuge_env.modify_alerts_counts [OF env h(1) entry assms(9-11) h(2)] by metis
  have "handle_alerts J K junk fd s = (Inr (), s3\<lparr>db := d'\<rparr>)"
    using s3(1) d'(1) by (simp add: handle_alerts_def recv tok1 tok2 send_each_run)
  with s3 d' show ?thesis by simp
qed

lemma refuge_entry:
  assumes "refuge_wf r" and "entry \<in> entry_names"
  obtains c where "alerts r (entry @ ''_entry'') = Some c" and "0 \<le> c"
  by (rule wf_alert [OF assms(1) alert_entry_named [OF assms(2)]])

lemma emergency_rounds_length: "length (emergency_rounds R n g) = n"
  by (induction n arbitrary: g) (auto split: prod.split)

lemma alert_rounds_length: "length (alert_rounds R n g) = n"
  by (induction n arbitrary: g) (auto split: prod.split)

section \<open>Properties\<close>

text \<open>
  The alert process sleeps between 10 and 30 seconds before each of its
  rounds, and every round writes nothing or one well-formed line; the emergency
  process sleeps between 60 and 90 seconds and writes one of its four messages.
\<close>

theorem sensor_processes_output:
  assumes "random_source R"
  shows "(\<forall>time line. (time, line) \<in> set (snd (run_invasion_alerts R opens seed n)) \<longrightarrow>
      10 \<le> time \<and> time \<le> 30 \<and> (line = [] \<or> (\<exists>entry. alert_line entry line))) \<and>
    (\<forall>time line. (time, line) \<in> set (snd (run_emergencies R opens seed n)) \<longrightarrow>
      60 \<le> time \<and> time \<le> 90 \<and> (\<exists>msg \<in> emergency_names. line = msg @ [CHR 0x0A]))"
  using random_source.alert_rounds_lines [OF assms] random_source.emergency_rounds_lines [OF assms]
  by (auto simp: run_invasion_alerts_writes run_emergencies_writes split: if_splits)

theorem sensor_processes_output_witness:
  "\<exists>time line. (time, line) \<in> set (snd (run_emergencies lcg True 7 1)) \<and> 60 \<le> time \<and>
     (\<exists>msg \<in> emergency_names. line = msg @ [CHR 0x0A])"
proof -
  have "snd (run_emergencies lcg True 7 1) \<noteq> []"
    using emergency_rounds_length [of lcg 1 7] by (simp only: run_emergencies_writes) force
  then have "set (snd (run_emergencies lcg True 7 1)) \<noteq> {}" by simp
  then obtain time line where m: "(time, line) \<in> set (snd (run_emergencies lcg True 7 1))"
    by (metis all_not_in_conv prod.exhaust)
  from sensor_processes_output [OF lcg_source.random_source_axioms, of True 7 1] m
  show ?thesis by blast
qed

text \<open>What the two processes write.\<close>

lemma alert_written:
  assumes "random_source R" and "(time, line) \<in> set (snd (run_invasion_alerts R opens seed n))" and "line \<noteq> []"
  obtains entry where "alert_line entry line"
proof -
  from assms(2) have "(time, line) \<in> set (alert_rounds R n seed)"
    by (simp add: run_invasion_alerts_writes split: if_splits)
  from random_source.alert_rounds_lines [OF assms(1) this] assms(3) that show thesis by blast
qed

lemma emergency_written:
  assumes "random_source R" and "(time, line) \<in> set (snd (run_emergencies R opens seed n))"
  obtains msg where "msg \<in> emergency_names" and "line = msg @ [CHR 0x0A]"
proof -
  from assms(2) have "(time, line) \<in> set (emergency_rounds R n seed)"
    by (simp add: run_emergencies_writes split: if_splits)
  from random_source.emergency_rounds_lines [OF assms(1) this] that show thesis by blast
qed

text \<open>
  C7: an alert goes from the sensor to the store and to the clients.  Any line
  that the alert process writes, read from the pipe by the server, adds one to
  the counter of the entry it names and to no other quantity, and every
  connected client receives the message that names that entry.
\<close>

theorem alert_end_to_end:
  fixes s :: "('d, 'm) server_scheme"
  assumes "random_source R" and "(time, line) \<in> set (snd (run_invasion_alerts R opens seed n))" and "line \<noteq> []"
    and "refuge_env J obj plain K open_rw" and "store_holds J K obj plain (db s) r"
    and "refuge_wf r" and "open_rw (db s)" and "\<forall>k v. alerts r k = Some v \<longrightarrow> v < INT_MAX"
    and "inbox s fd = Data line # evs" and "length junk = MAX_BUFFER"
  shows "\<exists>entry \<in> entry_names. \<exists>s' c. handle_alerts J K junk fd s = (Inr (), s') \<and>
    alerts r (entry @ ''_entry'') = Some c \<and>
    store_holds J K obj plain (db s') (r\<lparr>alerts := (alerts r)(entry @ ''_entry'' \<mapsto> c + 1)\<rparr>) \<and>
    inbox s' fd = evs \<and>
    sent s' = sent s @ map (\<lambda>k. (k, ''Alert of possible infection in '' @ entry @ '' entry.'')) (connected_clients s)"
proof -
  obtain entry where l: "alert_line entry line" by (rule alert_written [OF assms(1-3)])
  note e = alert_line_named [OF l]
  obtain c where c: "alerts r (entry @ ''_entry'') = Some c" "0 \<le> c" by (rule refuge_entry [OF assms(6) e])
  with assms(8) have "c < INT_MAX" by blast
  have "inbox s fd = Data (line @ []) # evs" "length (line @ []) < MAX_BUFFER"
    using assms(9) alert_line_short [OF l] by (simp_all add: MAX_BUFFER_def)
  from handle_alerts_first_line [OF assms(4,5,7) this(1) l _ this(2) assms(10) c \<open>c < INT_MAX\<close>]
  show ?thesis using e c(1) by (intro bexI [OF _ e]) (auto simp: count_alert_def)
qed

lemma demo_alert_line: "alert_line ''north'' (''north,39.5'' @ [CHR 0x0A])"
proof -
  have "show_int 39 = ''39''" "show_int 5 = ''5''" by code_simp+
  then show ?thesis
    by (auto simp: alert_line_def entry_names_def intro!: exI [of _ 395])
qed

lemma initial_room: "\<forall>k v. alerts initial_refuge k = Some v \<longrightarrow> v < INT_MAX"
  by (simp add: initial_refuge_def INT_MAX_def)

text \<open>A source of random numbers that always draws the north entry and 39.5 degrees.\<close>

definition warm_north :: "unit rng" where
  "warm_north = \<lparr>uniform_int = (\<lambda>a b g. (a, g)), uniform_real = (\<lambda>x y g. (x + 7 / 12 * (y - x), g))\<rparr>"

lemma warm_north_source: "random_source warm_north"
proof
  show "a \<le> b \<Longrightarrow> fst (uniform_int warm_north a b g) \<in> {a..b}" for a b g
    by (simp add: warm_north_def)
  show "x \<le> fst (uniform_real warm_north x y g) \<and> fst (uniform_real warm_north x y g) < y" if "x < y" for x y g
    using that by (simp add: warm_north_def field_simps)
qed

lemma warm_north_round: "snd (run_invasion_alerts warm_north True () 1) = [(10, ''north,39.5'' @ [CHR 0x0A])]"
proof -
  have "show_int 39 = ''39''" "show_int 5 = ''5''" by code_simp+
  then have "fixed1 (79 / 2) = ''39.5''" by (simp add: fixed1_def round_half_even_def Let_def)
  then show ?thesis
    by (simp add: run_invasion_alerts_writes generate_sleep_duration_def generate_entry_point_def
        generate_temperature_def warm_north_def write_alert_def numeral_eq_Suc [of "num.One"])
qed

theorem alert_end_to_end_witness:
  "\<exists>s'. handle_alerts ref_json ref_kv (replicate MAX_BUFFER NUL) 3
      (demo_server\<lparr>inbox := (\<lambda>_. [Data (''north,39.5'' @ [CHR 0x0A])]), connected_clients := [7]\<rparr>) = (Inr (), s') \<and>
    length (sent s') = 1"
proof -
  let ?l = "''north,39.5'' @ [CHR 0x0A]"
  let ?s = "demo_server\<lparr>inbox := (\<lambda>_. [Data ?l]), connected_clients := [7]\<rparr>"
  have h: "store_holds ref_json ref_kv is_obj j_plain (db ?s) initial_refuge" "ref_open (db ?s)"
    using demo_holds by simp_all
  have w: "(10, ?l) \<in> set (snd (run_invasion_alerts warm_north True () 1))" by (simp only: warm_north_round) simp
  have "\<exists>entry \<in> entry_names. \<exists>s' c. handle_alerts ref_json ref_kv (replicate MAX_BUFFER NUL) 3 ?s = (Inr (), s') \<and>
    alerts initial_refuge (entry @ ''_entry'') = Some c \<and>
    store_holds ref_json ref_kv is_obj j_plain (db s')
      (initial_refuge\<lparr>alerts := (alerts initial_refuge)(entry @ ''_entry'' \<mapsto> c + 1)\<rparr>) \<and>
    inbox s' 3 = [] \<and>
    sent s' = sent ?s @ map (\<lambda>k. (k, ''Alert of possible infection in '' @ entry @ '' entry.'')) (connected_clients ?s)"
    by (rule alert_end_to_end [OF warm_north_source w _ demo_env h(1) initial_refuge_wf h(2) initial_room]) simp_all
  then show ?thesis by fastforce
qed

text \<open>
  Alerts that arrive in one read are lost, except the first: the handler
  counts the entry of the first line and drops whatever follows it, although all
  of it has been taken from the pipe.
\<close>

theorem batched_alerts_lost:
  fixes s :: "('d, 'm) server_scheme"
  assumes "refuge_env J obj plain K open_rw" and "store_holds J K obj plain (db s) r"
    and "refuge_wf r" and "open_rw (db s)" and "\<forall>k v. alerts r k = Some v \<longrightarrow> v < INT_MAX"
    and "alert_line entry1 line1" and "alert_line entry2 line2"
    and "inbox s fd = [Data (line1 @ line2)]" and "length junk = MAX_BUFFER"
  shows "\<exists>s'. handle_alerts J K junk fd s = (Inr (), s') \<and> inbox s' fd = [] \<and>
    store_holds J K obj plain (db s') (count_alert (entry1 @ ''_entry'') r) \<and>
    (entry2 \<noteq> entry1 \<longrightarrow> alerts (count_alert (entry1 @ ''_entry'') r) (entry2 @ ''_entry'')
                        = alerts r (entry2 @ ''_entry''))"
proof -
  obtain c where c: "alerts r (entry1 @ ''_entry'') = Some c" "0 \<le> c"
    by (rule refuge_entry [OF assms(3) alert_line_named [OF assms(6)]])
  with assms(5) have lt: "c < INT_MAX" by blast
  have n: "NUL \<notin> set line2" by (rule alert_line_fields [OF assms(7)])
  have len: "length (line1 @ line2) < MAX_BUFFER"
    using alert_line_short [OF assms(6)] alert_line_short [OF assms(7)] by (simp add: MAX_BUFFER_def)
  from handle_alerts_first_line [OF assms(1,2,4,8,6) n len assms(9) c lt]
  show ?thesis using c by (auto simp: count_alert_def)
qed

theorem batched_alerts_lost_witness:
  "\<exists>s'. handle_alerts ref_json ref_kv (replicate MAX_BUFFER NUL) 3
      (demo_server\<lparr>inbox := (\<lambda>_. [Data ((''north,39.5'' @ [CHR 0x0A]) @ ''north,39.5'' @ [CHR 0x0A])])\<rparr>) = (Inr (), s') \<and>
    inbox s' 3 = [] \<and>
    store_holds ref_json ref_kv is_obj j_plain (db s') (count_alert ''north_entry'' initial_refuge)"
proof -
  let ?s = "demo_server\<lparr>inbox := (\<lambda>_. [Data ((''north,39.5'' @ [CHR 0x0A]) @ ''north,39.5'' @ [CHR 0x0A])])\<rparr>"
  have h: "store_holds ref_json ref_kv is_obj j_plain (db ?s) initial_refuge" "ref_open (db ?s)"
    using demo_holds by simp_all
  have i: "inbox ?s 3 = [Data ((''north,39.5'' @ [CHR 0x0A]) @ ''north,39.5'' @ [CHR 0x0A])]" by simp
  show ?thesis
    using batched_alerts_lost [OF demo_env h(1) initial_refuge_wf h(2) initial_room demo_alert_line demo_alert_line i,
      of "replicate MAX_BUFFER NUL"] by simp
qed

text \<open>Any message of the emergency process that the server reads.\<close>

lemma handle_emergency_line:
  fixes s :: "('d, 'm) server_scheme"
  assumes "refuge_env J obj plain K open_rw" and "store_holds J K obj plain (db s) r"
    and "open_rw (db s)" and "ascii (clock s (ticks s))"
    and "inbox s fd = Data (msg @ [CHR 0x0A]) # evs" and "length junk = MAX_BUFFER" and "msg \<in> emergency_names"
  shows "\<exists>s'. handle_emergency J K junk fd s = (Inr (), s') \<and>
    store_holds J K obj plain (db s') (r\<lparr>last_keepalived := clock s (ticks s), last_event := msg\<rparr>) \<and>
    inbox s' = (inbox s)(fd := evs) \<and>
    sent s' = sent s @ map (\<lambda>c. (c, ''exit'')) (connected_clients s) \<and>
    closed_fds s' = closed_fds s @ connected_clients s \<and> connected_clients s' = []"
proof -
  let ?line = "msg @ [CHR 0x0A]"
  have l: "?line \<noteq> []" "NUL \<notin> set ?line" "length ?line < MAX_BUFFER" "ascii ?line" "erase_char (CHR 0x0A) ?line = msg"
    using assms(7) by (auto simp: emergency_names_def NUL_def MAX_BUFFER_def ascii_def erase_char_def)
  let ?t = "clock s (ticks s)"
  let ?s1 = "s\<lparr>ticks := Suc (ticks s), inbox := (inbox s)(fd := evs)\<rparr>"
  have recv: "recv_text junk fd err (s\<lparr>ticks := Suc (ticks s)\<rparr>) = (Inr ?line, ?s1)" for err
    using recv_text_data [of "s\<lparr>ticks := Suc (ticks s)\<rparr>" fd ?line evs junk err] assms(5,6) l(1,3)
      text_of_plain [OF l(2)] by simp
  define s2 where "s2 = snd (log_alert False ?line (?s1\<lparr>console := console ?s1 @ [''[EMERGENCY] '' @ ?line]\<rparr>))"
  have s2: "log_alert False ?line (?s1\<lparr>console := console ?s1 @ [''[EMERGENCY] '' @ ?line]\<rparr>) = (Inr (), s2)"
    "db s2 = db s" "inbox s2 = inbox ?s1" "sent s2 = sent s" "closed_fds s2 = closed_fds s"
    "connected_clients s2 = connected_clients s"
    by (simp_all add: s2_def log_alert_run)
  have h: "store_holds J K obj plain (db s2) r" "open_rw (db s2)" using s2(2) assms(2,3) by simp_all
  obtain d' where d': "modify_emergencies J K ?t ?line s2 = (Inr (), s2\<lparr>db := d'\<rparr>)"
      "store_holds J K obj plain d' (note_emergency ?t ?line r)"
    using refuge_env.modify_emergencies_notes [OF assms(1) h(1) assms(4) l(4) h(2)] by metis
  obtain s3 where s3: "disconnect_all_clients (s2\<lparr>db := d'\<rparr>) = (Inr (), s3)" "db s3 = d'" "inbox s3 = inbox s2"
    "sent s3 = sent s2 @ map (\<lambda>c. (c, ''exit'')) (connected_clients s2)"
    "closed_fds s3 = closed_fds s2 @ connected_clients s2" "connected_clients s3 = []"
    by (simp add: disconnect_all_run)
  have "handle_emergency J K junk fd s = (Inr (), s3)"
    using s2(1) d'(1) s3(1) by (simp add: handle_emergency_def get_time_stamp_def recv)
  with d'(2) s2 s3 l(5) show ?thesis by (intro exI [of _ s3]) (simp add: note_emergency_def)
qed

text \<open>
  C8: an emergency goes from the sensor to the store and the clients.  A line of
  the emergency process, read from the pipe, becomes the last event without its
  line break, with the time it was read; every connected client receives \<open>exit\<close>
  and has its socket closed, and no client is left on the list.
\<close>

theorem emergency_end_to_end:
  fixes s :: "('d, 'm) server_scheme"
  assumes "random_source R" and "(time, line) \<in> set (snd (run_emergencies R opens seed n))"
    and "refuge_env J obj plain K open_rw" and "store_holds J K obj plain (db s) r"
    and "open_rw (db s)" and "ascii (clock s (ticks s))"
    and "inbox s fd = Data line # evs" and "length junk = MAX_BUFFER"
  shows "\<exists>msg \<in> emergency_names. \<exists>s'. handle_emergency J K junk fd s = (Inr (), s') \<and>
    store_holds J K obj plain (db s') (r\<lparr>last_keepalived := clock s (ticks s), last_event := msg\<rparr>) \<and>
    inbox s' = (inbox s)(fd := evs) \<and>
    sent s' = sent s @ map (\<lambda>c. (c, ''exit'')) (connected_clients s) \<and>
    closed_fds s' = closed_fds s @ connected_clients s \<and> connected_clients s' = []"
proof -
  obtain msg where m: "msg \<in> emergency_names" "line = msg @ [CHR 0x0A]" by (rule emergency_written [OF assms(1,2)])
  have "inbox s fd = Data (msg @ [CHR 0x0A]) # evs" using assms(7) m(2) by simp
  from handle_emergency_line [OF assms(3-6) this assms(8) m(1)] m(1) show ?thesis by blast
qed

theorem emergency_end_to_end_witness:
  "\<exists>s'. handle_emergency ref_json ref_kv (replicate MAX_BUFFER NUL) 4
      (demo_server\<lparr>inbox := (\<lambda>_. [Data (''Power Outage'' @ [CHR 0x0A])]), connected_clients := [7, 8]\<rparr>) = (Inr (), s') \<and>
    sent s' = [(7, ''exit''), (8, ''exit'')] \<and> closed_fds s' = [7, 8]"
proof -
  let ?l = "''Power Outage'' @ [CHR 0x0A]"
  let ?s = "demo_server\<lparr>inbox := (\<lambda>_. [Data ?l]), connected_clients := [7, 8]\<rparr>"
  have h: "store_holds ref_json ref_kv is_obj j_plain (db ?s) initial_refuge" "ref_open (db ?s)"
    using demo_holds by simp_all
  have w: "(60, ?l) \<in> set (snd (run_emergencies warm_north True () 1))"
    by (simp add: run_emergencies_writes generate_emergency_message_def write_emergency_message_def warm_north_def)
  have c: "ascii (clock ?s (ticks ?s))" by (simp add: demo_server_def ascii_def)
  have "\<exists>msg \<in> emergency_names. \<exists>s'. handle_emergency ref_json ref_kv (replicate MAX_BUFFER NUL) 4 ?s = (Inr (), s') \<and>
    store_holds ref_json ref_kv is_obj j_plain (db s')
      (initial_refuge\<lparr>last_keepalived := clock ?s (ticks ?s), last_event := msg\<rparr>) \<and>
    inbox s' = (inbox ?s)(4 := []) \<and>
    sent s' = sent ?s @ map (\<lambda>c. (c, ''exit'')) (connected_clients ?s) \<and>
    closed_fds s' = closed_fds ?s @ connected_clients ?s \<and> connected_clients s' = []"
    by (rule emergency_end_to_end [OF warm_north_source w demo_env h c]) simp_all
  then show ?thesis by fastforce
qed

text \<open>
  After an emergency every client socket is closed a second time: the thread
  of a client whose connection ends closes the descriptor that the emergency
  handler has already closed, and by then the number may belong to another
  connection.
\<close>

theorem emergency_closes_twice:
  fixes s :: "('d, 'm) server_scheme"
  assumes "disconnect_all_clients s = (Inr (), s1)" and "sock \<in> set (connected_clients s)"
    and "inbox s1 sock = []"
  shows "\<exists>s2. thn (client_loop J K junk a status sock u buf) (client_leaves a sock) s1 = (Inr (), s2) \<and>
    2 \<le> count_list (closed_fds s2) sock"
proof -
  let ?s2 = "s1\<lparr>inbox := (inbox s1)(sock := [])\<rparr>"
  obtain s3 where s3: "client_leaves a sock ?s2 = (Inr (), s3)" "closed_fds s3 = closed_fds ?s2 @ [sock]"
    by (rule client_leaves_run)
  from assms(1) have c: "closed_fds s1 = closed_fds s @ connected_clients s" by (auto simp: disconnect_all_run)
  from assms(2) have "count_list (connected_clients s) sock \<noteq> 0" by (simp add: count_list_0_iff)
  then have "2 \<le> count_list (closed_fds s3) sock" using s3(2) c by simp
  then show ?thesis using s3(1) client_loop_closed [OF assms(3), of J K junk a status u buf] by (intro exI [of _ s3]) simp
qed

theorem emergency_closes_twice_witness:
  "\<exists>s2. thn (client_loop ref_json ref_kv [] demo_addr None 7 False []) (client_leaves demo_addr 7)
      (snd (disconnect_all_clients (demo_server\<lparr>connected_clients := [7]\<rparr>))) = (Inr (), s2) \<and>
    2 \<le> count_list (closed_fds s2) 7"
  by (rule emergency_closes_twice [where s = "demo_server\<lparr>connected_clients := [7]\<rparr>"])
    (simp_all add: disconnect_all_run)

text \<open>
  When a sensor process ends, so does the server: reading the end of either
  pipe calls \<open>exit(EXIT_FAILURE)\<close>; and a pipe from which \<open>MAX_BUFFER\<close> bytes are
  read at once makes the handler write behind its buffer.
\<close>

theorem pipe_end_kills_server:
  assumes "length junk = MAX_BUFFER"
  shows "(inbox s fd = [] \<longrightarrow> fst (handle_alerts J K junk fd s) = Inl (Exit 1) \<and>
        fst (handle_emergency J K junk fd s) = Inl (Exit 1)) \<and>
    (\<forall>bs evs. inbox s fd = Data bs # evs \<and> length bs = MAX_BUFFER \<longrightarrow>
        fst (handle_alerts J K junk fd s) = Inl Undefined \<and>
        fst (handle_emergency J K junk fd s) = Inl Undefined)"
  using assms
  by (auto simp: handle_alerts_def handle_emergency_def get_time_stamp_def recv_text_closed recv_text_overrun)

theorem pipe_end_kills_server_witness:
  "fst (handle_alerts ref_json ref_kv (replicate MAX_BUFFER NUL) 3 demo_server) = Inl (Exit 1)"
  using pipe_end_kills_server [of "replicate MAX_BUFFER NUL" demo_server 3 ref_json ref_kv] by simp

end
