(* ===== verification/Client.thy ===== *)
theory Client
  imports Gz_Api
begin

text \<open>
  \<open>src/client.cpp\<close>: the terminal client.  Its loop alternates between a read of
  the socket that does not wait and a read of the keyboard that does not wait;
  after \<open>get_image\<close> it reads a file from the socket up to the bytes \<open>EOF\<close> and
  unpacks it.  The functions carry the prefix or the names of the source, and
  \<open>main_step\<close> is one iteration of the loop of \<open>main\<close>.
\<close>

section \<open>The state\<close>

text \<open>
  What the keyboard gives to one \<open>fgets\<close>: a line, or nothing yet, which is the
  error \<open>EAGAIN\<close> on the non-blocking descriptor.  The end of the list is the
  end of the input.
\<close>

datatype key_event = Line string | NoKey

text \<open>
  \<^item> \<open>net\<close>, \<open>keys\<close>: what socket and keyboard will still deliver;
  \<^item> \<open>errno_is\<close>: the error number of the last failed call (successful calls
    leave it alone);
  \<^item> \<open>buffer\<close>: the array of \<open>MAX\<close> (here \<open>CLIENT_MAX\<close>) bytes in \<open>main\<close>;
  \<^item> \<open>out\<close>, \<open>uplink\<close>, \<open>sock_closed\<close>: the lines printed, the messages sent, and
    whether the socket was closed;
  \<^item> \<open>recv_zip\<close>, \<open>recv_img\<close>: the files \<open>ZIP_FILE\<close> and \<open>RECV_IMG\<close>; \<open>zip_opens\<close>,
    \<open>img_opens\<close>: whether they can be opened for writing;
  \<^item> \<open>disk\<close>: whether each of the coming file writes succeeds (all do once the
    list is used up).
\<close>

record client =
  net :: "recv_event list"
  keys :: "key_event list"
  errno_is :: errno
  buffer :: string
  out :: "string list"
  uplink :: "string list"
  sock_closed :: bool
  recv_zip :: "string option"
  recv_img :: "string option"
  zip_opens :: bool
  img_opens :: bool
  disk :: "bool list"

definition CLIENT_MAX :: nat where
  "CLIENT_MAX = 1024"

definition print :: "string \<Rightarrow> (client, unit) act" where
  "print line = (\<lambda>s. (Inr (), s\<lparr>out := out s @ [line]\<rparr>))"

definition close_sock :: "(client, unit) act" where
  "close_sock = (\<lambda>s. (Inr (), s\<lparr>sock_closed := True\<rparr>))"

definition disk_ok :: "client \<Rightarrow> bool" where
  "disk_ok s = (case disk s of [] \<Rightarrow> True | b # _ \<Rightarrow> b)"

section \<open>Unpacking\<close>

text \<open>
  The loop of \<open>decompress_file\<close>: the file written so far, the remaining outcomes
  of writes, and the flag that no write failed.  A negative result of \<open>gzread\<close>
  ends the loop like the end of the file.  Nothing bounds what an arbitrary
  library delivers, so not returning is \<open>None\<close>.
\<close>

partial_function (option) inflate ::
    "('w, 'r) gz_lib \<Rightarrow> 'r \<Rightarrow> string \<Rightarrow> bool list \<Rightarrow> (bool \<times> string \<times> bool list) option" where
  "inflate G r img d =
     (case gz_read G r CLIENT_MAX of
        (None, r') \<Rightarrow> Some (True, img, d)
      | (Some bs, r') \<Rightarrow>
          if bs = [] then Some (True, img, d)
          else if d = [] \<or> hd d then inflate G r' (img @ bs) (tl d)
          else Some (False, img, tl d))"

definition decompress_file :: "('w, 'r) gz_lib \<Rightarrow> client \<Rightarrow> (bool res \<times> client) option" where
  "decompress_file G s =
     (case recv_zip s of
        None \<Rightarrow> Some (bnd (print ''[ERROR] Error opening zip file for reading'') (\<lambda>_. ret False) s)
      | Some z \<Rightarrow>
          if \<not> img_opens s then Some (bnd (print ''[ERROR] Error opening file for writing'') (\<lambda>_. ret False) s)
          else map_option (\<lambda>(ok, img, d).
              let s' = s\<lparr>recv_img := Some img, disk := d\<rparr> in
              if ok then bnd (print ''[SERVER] Decompressed file to ./tmp/received_file.png'') (\<lambda>_. ret True) s'
              else bnd (print ''[ERROR] Error writing to file'') (\<lambda>_. ret False) s')
            (inflate G (gz_reader G z) [] (disk s)))"

section \<open>Receiving the image\<close>

text \<open>\<open>strncmp(&buffer[bytesRead - 3], "EOF", 3) == 0\<close> after a read of at least three bytes\<close>

definition ends_EOF :: "string \<Rightarrow> bool" where
  "ends_EOF bs \<longleftrightarrow> 3 \<le> length bs \<and> drop (length bs - 3) bs = ''EOF''"

text \<open>
  The receiving loop: \<open>None\<close> when a write to the file failed, else the number of
  bytes received.  After a read of fewer than three bytes \<open>&buffer[bytesRead - 3]\<close>
  points before the array.
\<close>

function receive_loop :: "nat \<Rightarrow> (client, nat option) act" where
  "receive_loop received s =
     (case recv_chunk CLIENT_MAX (net s) of (bs, evs) \<Rightarrow>
      let s1 = s\<lparr>net := evs\<rparr> in
      if bs = [] then (Inr (Some received), s1)
      else if length bs < 3 then (Inl Undefined, s1)
      else if ends_EOF bs then
        (Inr (Some (received + length bs)),
         if disk_ok s1 then s1\<lparr>recv_zip := map_option (\<lambda>z. z @ take (length bs - 3) bs) (recv_zip s1), disk := tl (disk s1)\<rparr>
         else s1\<lparr>disk := tl (disk s1)\<rparr>)
      else if disk_ok s1 then
        receive_loop (received + length bs)
          (s1\<lparr>recv_zip := map_option (\<lambda>z. z @ bs) (recv_zip s1), disk := tl (disk s1)\<rparr>)
      else (Inr None, s1\<lparr>disk := tl (disk s1)\<rparr>))"
  by pat_completeness auto
termination
  by (relation "measure (\<lambda>(received, s). pending (net s))")
    (auto dest: recv_chunk_pending_less [OF sym])

declare receive_loop.simps [simp del]

definition receive_compressed_file :: "('w, 'r) gz_lib \<Rightarrow> client \<Rightarrow> (bool res \<times> client) option" where
  "receive_compressed_file G s =
     (if \<not> zip_opens s then
        Some (bnd (print ''[ERROR] Error opening zip file for writing'') (\<lambda>_. ret False) s)
      else case receive_loop 0 (s\<lparr>recv_zip := Some []\<rparr>) of
        (Inl e, s1) \<Rightarrow> Some (Inl e, s1)
      | (Inr None, s1) \<Rightarrow>
          Some (bnd (print ''[ERROR] Error writing to zip file'') (\<lambda>_. bnd close_sock (\<lambda>_. ret False)) s1)
      | (Inr (Some received), s1) \<Rightarrow>
          decompress_file G (s1\<lparr>out := out s1 @ [''[SERVER] Received '' @ show_nat received @ '' bytes'']\<rparr>))"

section \<open>One iteration of the main loop\<close>

text \<open>
  \<open>fgets(input, CLIENT_MAX, stdin)\<close>: it returns at most \<open>CLIENT_MAX - 1\<close> bytes of the line.
\<close>

definition read_key :: "client \<Rightarrow> string option \<times> client" where
  "read_key s = (case keys s of
      [] \<Rightarrow> (None, s)
    | NoKey # ks \<Rightarrow> (None, s\<lparr>keys := ks, errno_is := EAGAIN\<rparr>)
    | Line l # ks \<Rightarrow> if length l < CLIENT_MAX then (Some l, s\<lparr>keys := ks\<rparr>)
                     else (Some (take (CLIENT_MAX - 1) l), s\<lparr>keys := Line (drop (CLIENT_MAX - 1) l) # ks\<rparr>))"

text \<open>\<open>input[strlen(input) - 1] = 0\<close>, then the C string in \<open>input\<close>\<close>

definition chop :: "string \<Rightarrow> string res" where
  "chop l = (if text_of l = [] then Inl Undefined else Inr (butlast (text_of l)))"

text \<open>The part of the iteration that handles a line typed by the user.\<close>

definition handle_key :: "('w, 'r) gz_lib \<Rightarrow> string \<Rightarrow> client \<Rightarrow> (unit res \<times> client) option" where
  "handle_key G l s =
     (case chop l of
        Inl e \<Rightarrow> Some (Inl e, s)
      | Inr input \<Rightarrow>
          let s1 = s\<lparr>uplink := uplink s @ [input]\<rparr> in
          if input = ''get_image'' then
            (case receive_compressed_file G s1 of
               None \<Rightarrow> None
             | Some (Inl e, s2) \<Rightarrow> Some (Inl e, s2)
             | Some (Inr ok, s2) \<Rightarrow>
                 Some (print (if ok then ''[SERVER] Image received.'' else ''[ERROR] Error receiving image.'') s2))
          else Some (Inr (), s1))"

text \<open>The rest of the iteration; the result says whether the loop goes on.\<close>

definition handle_reply :: "nat \<Rightarrow> (client, bool) act" where
  "handle_reply valread s =
     (if valread = 0 then
        if errno_is s = EAGAIN then (Inr True, s)
        else bnd (print ''[ERROR] Connection lost.'') (\<lambda>_. ret False) s
      else if take 4 (buffer s) = ''exit'' then
        bnd (print ''[EMERGENCY] Emergency detected, all clients disconnected.'') (\<lambda>_. ret False) s
      else case rbind (buf_set (buffer s) valread NUL) c_str of
        Inl e \<Rightarrow> (Inl e, s)
      | Inr msg \<Rightarrow> (Inr True, s\<lparr>out := out s @ [''[SERVER] '' @ msg], buffer := replicate CLIENT_MAX NUL\<rparr>))"

definition main_step :: "('w, 'r) gz_lib \<Rightarrow> client \<Rightarrow> (bool res \<times> client) option" where
  "main_step G s =
     (case recv_nowait CLIENT_MAX (net s) of (bs, evs, err) \<Rightarrow>
      let s1 = s\<lparr>net := evs, buffer := buf_fill (buffer s) bs,
                 errno_is := (case err of None \<Rightarrow> errno_is s | Some e \<Rightarrow> e)\<rparr>
      in case read_key s1 of
           (None, s2) \<Rightarrow> Some (handle_reply (length bs) s2)
         | (Some l, s2) \<Rightarrow>
             (case handle_key G l s2 of
                None \<Rightarrow> None
              | Some (Inl e, s3) \<Rightarrow> Some (Inl e, s3)
              | Some (Inr _, s3) \<Rightarrow> Some (handle_reply (length bs) s3)))"

text \<open>
  The loop of \<open>main\<close>, for at most \<open>n\<close> iterations: \<open>Inr True\<close> when it is still
  running after them, \<open>Inr False\<close> when it was left, after the final \<open>close\<close>.
\<close>

fun main_loop :: "('w, 'r) gz_lib \<Rightarrow> nat \<Rightarrow> client \<Rightarrow> (bool res \<times> client) option" where
  "main_loop G 0 s = Some (Inr True, s)"
| "main_loop G (Suc n) s =
     (case main_step G s of
        None \<Rightarrow> None
      | Some (Inl e, s1) \<Rightarrow> Some (Inl e, s1)
      | Some (Inr True, s1) \<Rightarrow> main_loop G n s1
      | Some (Inr False, s1) \<Rightarrow> Some (Inr False, s1\<lparr>sock_closed := True\<rparr>))"

end
