(* ===== verification/Client_Props.thy ===== *)
theory Client_Props
  imports Client Image_Transfer
begin

text \<open>
  The properties of the terminal client: the image the server compresses is the
  image the client unpacks, for the segmentations of the stream that the
  receiving loop understands, and what the loop does with the others; what one
  iteration does with a message, a typed line, and a connection that is lost.
\<close>

section \<open>Unpacking\<close>

context gz_api begin

lemma inflate_reads:
  "unread r = Some bs \<Longrightarrow> inflate G r img [] = Some (True, img @ bs, [])"
proof (induction bs arbitrary: r img rule: length_induct)
  case (1 bs)
  obtain r' where r': "gz_read G r CLIENT_MAX = (Some (take CLIENT_MAX bs), r')"
      "unread r' = Some (drop CLIENT_MAX bs)"
    using read_next [OF 1(2)] by blast
  show ?case
  proof (cases "bs = []")
    case True
    with r'(1) show ?thesis by (simp add: inflate.simps [of G r])
  next
    case False
    then have "length (drop CLIENT_MAX bs) < length bs" by (simp add: CLIENT_MAX_def)
    with 1(1) r'(2) have "inflate G r' (img @ take CLIENT_MAX bs) [] =
        Some (True, (img @ take CLIENT_MAX bs) @ drop CLIENT_MAX bs, [])"
      by blast
    with False r'(1) show ?thesis by (simp add: inflate.simps [of G r] CLIENT_MAX_def)
  qed
qed

lemma decompress_reads:
  assumes "recv_zip s = Some z" and "unread (gz_reader G z) = Some img"
    and "img_opens s" and "disk s = []"
  shows "decompress_file G s = Some (Inr True, s\<lparr>recv_img := Some img,
    out := out s @ [''[SERVER] Decompressed file to ./tmp/received_file.png'']\<rparr>)"
  using assms inflate_reads [OF assms(2), of "[]"] by (simp add: decompress_file_def print_def Let_def)

end

section \<open>Receiving\<close>

text \<open>The pieces that the receiving loop takes for file contents.\<close>

definition data_piece :: "string \<Rightarrow> bool" where
  "data_piece p \<longleftrightarrow> 3 \<le> length p \<and> length p \<le> CLIENT_MAX \<and> \<not> ends_EOF p"

definition last_piece :: "string \<Rightarrow> bool" where
  "last_piece p \<longleftrightarrow> length p \<le> CLIENT_MAX \<and> ends_EOF p"

lemma ends_EOF_split: "ends_EOF p \<Longrightarrow> p = take (length p - 3) p @ ''EOF''"
  unfolding ends_EOF_def by (metis append_take_drop_id)

lemma disk_same: "disk s = [] \<Longrightarrow> s\<lparr>net := evs, recv_zip := z, disk := []\<rparr> = s\<lparr>net := evs, recv_zip := z\<rparr>"
  by (cases s) simp

lemma receive_loop_data:
  assumes "data_piece p" and "net s = Data p # evs" and "disk s = []"
  shows "receive_loop n s = receive_loop (n + length p)
    (s\<lparr>net := evs, recv_zip := map_option (\<lambda>z. z @ p) (recv_zip s)\<rparr>)"
proof -
  from assms(1) have "p \<noteq> []" by (auto simp: data_piece_def)
  with assms show ?thesis
    by (simp add: receive_loop.simps [of n s] data_piece_def disk_ok_def disk_same)
qed

lemma receive_loop_last:
  assumes "last_piece p" and "net s = Data p # evs" and "disk s = []"
  shows "receive_loop n s = (Inr (Some (n + length p)),
    s\<lparr>net := evs, recv_zip := map_option (\<lambda>z. z @ take (length p - 3) p) (recv_zip s)\<rparr>)"
proof -
  from assms(1) have "p \<noteq> []" "3 \<le> length p" by (auto simp: last_piece_def ends_EOF_def)
  with assms show ?thesis
    by (simp add: receive_loop.simps [of n s] last_piece_def disk_ok_def disk_same)
qed

lemma receive_loop_pieces:
  "list_all data_piece ps \<Longrightarrow> last_piece p \<Longrightarrow> net s = pieces (ps @ [p]) @ evs \<Longrightarrow> disk s = [] \<Longrightarrow>
   recv_zip s = Some z \<Longrightarrow>
   receive_loop n s = (Inr (Some (n + length (concat ps @ p))),
     s\<lparr>net := evs, recv_zip := Some (z @ concat ps @ take (length p - 3) p)\<rparr>)"
proof (induction ps arbitrary: n s z)
  case Nil
  then show ?case by (simp add: receive_loop_last)
next
  case (Cons q ps)
  let ?s = "s\<lparr>net := pieces (ps @ [p]) @ evs, recv_zip := Some (z @ q)\<rparr>"
  have "receive_loop n s = receive_loop (n + length q) ?s"
    using Cons.prems by (simp add: receive_loop_data [of q s "pieces (ps @ [p]) @ evs"])
  also have "\<dots> = (Inr (Some (n + length q + length (concat ps @ p))),
      ?s\<lparr>net := evs, recv_zip := Some ((z @ q) @ concat ps @ take (length p - 3) p)\<rparr>)"
    using Cons.prems by (intro Cons.IH) simp_all
  finally show ?case by (simp add: add.assoc)
qed

lemma receive_file:
  assumes "gz_api G collected unread" and "list_all data_piece ps" and "last_piece p"
    and "net s = pieces (ps @ [p]) @ evs" and "concat ps @ p = z @ ''EOF''"
    and "unread (gz_reader G z) = Some img"
    and "zip_opens s" and "img_opens s" and "disk s = []"
  shows "\<exists>lines. receive_compressed_file G s = Some (Inr True,
    s\<lparr>net := evs, recv_zip := Some z, recv_img := Some img, out := out s @ lines\<rparr>)"
proof -
  from assms(3) have "3 \<le> length p" by (simp add: last_piece_def ends_EOF_def)
  have "z @ ''EOF'' = (concat ps @ take (length p - 3) p) @ ''EOF''"
    using assms(5) ends_EOF_split [of p] assms(3) by (simp add: last_piece_def)
  then have z: "concat ps @ take (length p - 3) p = z" by simp
  let ?s = "s\<lparr>recv_zip := Some []\<rparr>"
  have loop: "receive_loop 0 ?s = (Inr (Some (0 + length (concat ps @ p))),
      ?s\<lparr>net := evs, recv_zip := Some ([] @ concat ps @ take (length p - 3) p)\<rparr>)"
    by (rule receive_loop_pieces) (use assms in simp_all)
  let ?t = "s\<lparr>net := evs, recv_zip := Some z,
    out := out s @ [''[SERVER] Received '' @ show_nat (length (concat ps @ p)) @ '' bytes'']\<rparr>"
  have "decompress_file G ?t = Some (Inr True, ?t\<lparr>recv_img := Some img,
      out := out ?t @ [''[SERVER] Decompressed file to ./tmp/received_file.png'']\<rparr>)"
    by (rule gz_api.decompress_reads [OF assms(1)]) (use assms in simp_all)
  with loop z assms(7) show ?thesis
    by (intro exI [of _ "[''[SERVER] Received '' @ show_nat (length (concat ps @ p)) @ '' bytes'',
        ''[SERVER] Decompressed file to ./tmp/received_file.png'']"])
      (simp add: receive_compressed_file_def)
qed

lemma compress_image_done:
  assumes "gz_api G collected unread" and "edge_image s = Some img" and "zip_creatable s"
    and "compress_image G s = (Inr (), s')"
    and "last (console s') = ''[EDGE] Zip file created succesfully.''"
  shows "\<exists>z. zip_file s' = Some z \<and> unread (gz_reader G z) = Some img \<and>
    sent s' = sent s \<and> write_results s' = write_results s"
proof -
  obtain ok w where w: "gz_copy G (gz_new G) img = (ok, w)" by fastforce
  with assms have ok and s': "zip_file s' = Some (gz_finish G w)" "sent s' = sent s" "write_results s' = write_results s"
    by (auto simp: compress_image_def Let_def split: if_splits)
  with w have "collected w = img"
    using gz_api.gz_copy_collects [OF assms(1), of "gz_new G" img w] gz_api.new_empty [OF assms(1)] by simp
  with s' gz_api.reader_of_file [OF assms(1), of w] show ?thesis by simp
qed

lemma transfer_image:
  fixes s :: "('d, 'm) server_scheme"
  assumes "gz_api G collected unread"
    and "edge_image s = Some img" and "zip_creatable s" and "write_results s = []"
    and "compress_image G s = (Inr (), s1)"
    and "last (console s1) = ''[EDGE] Zip file created succesfully.''"
    and "send_zip_file sock s1 = (Inr (), s2)"
    and "wire sock (sent s2) = wire sock (sent s1) @ concat (ps @ [p])"
    and "list_all data_piece ps" and "last_piece p"
    and "net c = pieces (ps @ [p]) @ evs" and "zip_opens c" and "img_opens c" and "disk c = []"
  shows "\<exists>lines. receive_compressed_file G c = Some (Inr True,
    c\<lparr>net := evs, recv_zip := zip_file s1, recv_img := Some img, out := out c @ lines\<rparr>)"
proof -
  obtain z where z: "zip_file s1 = Some z" "unread (gz_reader G z) = Some img" "write_results s1 = []"
    using compress_image_done [OF assms(1,2,3,5,6)] assms(4) by auto
  from send_zip_file_full [OF z(1,3), of sock] assms(7) obtain xs where
    "sent s2 = sent s1 @ xs" "wire sock xs = z @ ''EOF''" by auto
  with assms(8) have "concat ps @ p = z @ ''EOF''" by simp
  from receive_file [OF assms(1,9,10,11) this z(2) assms(12-14)] z(1) show ?thesis by simp
qed

section \<open>Properties\<close>

text \<open>
  C6: the image reaches the client.  When the server has compressed the edge
  image and sends the zip file to a client that takes every byte, and the network
  delivers the bytes in any pieces of three to \<open>MAX\<close> bytes of which only the last
  ends in \<open>EOF\<close>, the client returns success with a file equal to the image, a zip
  file equal to the server's, and whatever follows still unread.
\<close>

theorem image_transfer_round_trip:
  fixes s :: "('d, 'm) server_scheme"
  assumes "gz_api G collected unread"
    and "edge_image s = Some img" and "zip_creatable s" and "write_results s = []"
    and "compress_image G s = (Inr (), s1)"
    and "last (console s1) = ''[EDGE] Zip file created succesfully.''"
    and "send_zip_file sock s1 = (Inr (), s2)"
    and "wire sock (sent s2) = wire sock (sent s1) @ concat (ps @ [p])"
    and "list_all data_piece ps" and "last_piece p"
    and "net c = pieces (ps @ [p]) @ evs" and "zip_opens c" and "img_opens c" and "disk c = []"
  shows "\<exists>lines. receive_compressed_file G c = Some (Inr True,
    c\<lparr>net := evs, recv_zip := zip_file s1, recv_img := Some img, out := out c @ lines\<rparr>)"
  by (rule transfer_image [OF assms])

text \<open>A server with an image of six bytes, and a client waiting for it.\<close>

definition image_server :: "unit server" where
  "image_server = \<lparr>db = (), console = [], inbox = (\<lambda>_. []), sent = [], write_results = [], closed_fds = [],
     connected_clients = [], user = False, log_opens = True, log_file = [], clock = (\<lambda>_. []), ticks = 0,
     zip_file = None, edge_image = Some ''PIXELS'', zip_creatable = True\<rparr>"

definition demo_client :: client where
  "demo_client = \<lparr>net = [], keys = [], errno_is = NoError, buffer = replicate CLIENT_MAX (CHR ''?''),
     out = [], uplink = [], sock_closed = False, recv_zip = None, recv_img = None,
     zip_opens = True, img_opens = True, disk = []\<rparr>"

theorem image_transfer_round_trip_witness:
  "\<exists>lines. receive_compressed_file stored (demo_client\<lparr>net := pieces [''SPIX'', ''ELSEOF'']\<rparr>) =
    Some (Inr True, demo_client\<lparr>net := [], recv_zip := Some ''SPIXELS'', recv_img := Some ''PIXELS'', out := lines\<rparr>)"
proof -
  let ?s = "image_server"
  let ?s1 = "?s\<lparr>zip_file := Some ''SPIXELS'',
    console := [''[EDGE] Creating zip file.'', ''[EDGE] Zip file created succesfully.'']\<rparr>"
  have copy: "gz_copy stored [] ''PIXELS'' = (True, ''PIXELS'')"
    by (simp add: gz_copy.simps [of stored] MAX_BUFFER_def)
  have 1: "compress_image stored ?s = (Inr (), ?s1)"
    using copy by (simp add: compress_image_def image_server_def)
  obtain xs where 2: "send_zip_file 4 ?s1 = (Inr (), ?s1\<lparr>sent := sent ?s1 @ xs, console := console ?s1 @
      [''[EDGE] Zip file sent successfully. '' @ show_int (int (length ''SPIXELS'')) @ '' bytes.'']\<rparr>)"
    and 3: "wire 4 xs = ''SPIXELS'' @ ''EOF''"
    using send_zip_file_full [of ?s1 "''SPIXELS''" 4] by (auto simp: image_server_def)
  have 4: "list_all data_piece [''SPIX'']" "last_piece ''ELSEOF''"
    by (simp_all add: data_piece_def last_piece_def ends_EOF_def CLIENT_MAX_def)
  have "\<exists>lines. receive_compressed_file stored (demo_client\<lparr>net := pieces [''SPIX'', ''ELSEOF'']\<rparr>) =
    Some (Inr True, (demo_client\<lparr>net := pieces [''SPIX'', ''ELSEOF'']\<rparr>)\<lparr>net := [], recv_zip := zip_file ?s1,
      recv_img := Some ''PIXELS'', out := out (demo_client\<lparr>net := pieces [''SPIX'', ''ELSEOF'']\<rparr>) @ lines\<rparr>)"
    by (rule image_transfer_round_trip [OF stored_gz.gz_api_axioms _ _ _ 1 _ 2 _ 4])
      (use 3 in \<open>simp_all add: image_server_def demo_client_def\<close>)
  then show ?thesis by (simp add: demo_client_def)
qed

text \<open>
  A piece of the file that happens to end in the three bytes \<open>EOF\<close> ends the
  transfer: the client keeps what came before them, leaves the rest of the file
  in the socket, and unpacks the truncated file.
\<close>

theorem receive_stops_at_marker:
  assumes "list_all data_piece ps" and "last_piece p" and "net c = pieces (ps @ [p]) @ evs"
    and "zip_opens c" and "disk c = []"
  shows "receive_compressed_file G c = decompress_file G (c\<lparr>net := evs,
    recv_zip := Some (concat ps @ take (length p - 3) p),
    out := out c @ [''[SERVER] Received '' @ show_nat (length (concat ps @ p)) @ '' bytes'']\<rparr>)"
proof -
  let ?s = "c\<lparr>recv_zip := Some []\<rparr>"
  have "receive_loop 0 ?s = (Inr (Some (0 + length (concat ps @ p))),
      ?s\<lparr>net := evs, recv_zip := Some ([] @ concat ps @ take (length p - 3) p)\<rparr>)"
    by (rule receive_loop_pieces) (use assms in simp_all)
  with assms(4) show ?thesis by (simp add: receive_compressed_file_def)
qed

theorem receive_stops_at_marker_witness:
  "receive_compressed_file stored (demo_client\<lparr>net := pieces [''SabEOF'', ''cdEOF'']\<rparr>) =
    Some (Inr True, demo_client\<lparr>net := [Data ''cdEOF''], recv_zip := Some ''Sab'', recv_img := Some ''ab'',
      out := [''[SERVER] Received '' @ show_nat 6 @ '' bytes'',
              ''[SERVER] Decompressed file to ./tmp/received_file.png'']\<rparr>)"
proof -
  let ?c = "demo_client\<lparr>net := pieces [''SabEOF'', ''cdEOF'']\<rparr>"
  have "last_piece ''SabEOF''" by (simp add: last_piece_def ends_EOF_def CLIENT_MAX_def)
  then have "receive_compressed_file stored ?c = decompress_file stored (?c\<lparr>net := [Data ''cdEOF''],
      recv_zip := Some ''Sab'', out := [''[SERVER] Received '' @ show_nat 6 @ '' bytes'']\<rparr>)"
    using receive_stops_at_marker [of "[]" "''SabEOF''" ?c "[Data ''cdEOF'']" stored]
    by (simp add: demo_client_def numeral_eq_Suc)
  moreover have "inflate stored (Some ''ab'') [] [] = Some (True, [] @ ''ab'', [])"
    by (rule stored_gz.inflate_reads) simp
  then have "inflate stored (gz_reader stored ''Sab'') [] [] = Some (True, ''ab'', [])"
    by simp
  ultimately show ?thesis
    by (simp add: decompress_file_def demo_client_def print_def)
qed

text \<open>
  A piece of one or two bytes, such as the end of a split \<open>EOF\<close>, makes the
  loop compare memory in front of its buffer.
\<close>

theorem receive_short_piece_undefined:
  assumes "list_all data_piece ps" and "q \<noteq> []" and "length q < 3"
    and "net c = pieces ps @ Data q # evs" and "zip_opens c" and "disk c = []"
  shows "\<exists>c'. receive_compressed_file G c = Some (Inl Undefined, c')"
proof -
  have "\<exists>s'. receive_loop n s = (Inl Undefined, s')"
    if "list_all data_piece ps" "net s = pieces ps @ Data q # evs" "disk s = []" for n s
    using that
  proof (induction ps arbitrary: n s)
    case Nil
    with assms(2,3) show ?case by (simp add: receive_loop.simps [of n s] CLIENT_MAX_def)
  next
    case (Cons r rs)
    then show ?case by (simp add: receive_loop_data [of r s "pieces rs @ Data q # evs"])
  qed
  from this [of "c\<lparr>recv_zip := Some []\<rparr>" 0] assms show ?thesis
    by (auto simp: receive_compressed_file_def)
qed

theorem receive_short_piece_undefined_witness:
  "\<exists>c'. receive_compressed_file stored (demo_client\<lparr>net := pieces [''SPIXELSE'', ''OF'']\<rparr>) = Some (Inl Undefined, c')"
  by (rule receive_short_piece_undefined [of "[''SPIXELSE'']" "''OF''" _ "[]"])
    (simp_all add: data_piece_def ends_EOF_def CLIENT_MAX_def demo_client_def)

section \<open>The loop of the client\<close>

lemma take4_fill: "4 \<le> length m \<Longrightarrow> take 4 (buf_fill b m) = take 4 m"
  by (simp add: buf_fill_def)

text \<open>What an iteration without a typed line does with a message of the server.\<close>

lemma main_step_message:
  assumes "net c = Data m # evs" and "m \<noteq> []" and "length m \<le> CLIENT_MAX" and "keys c = NoKey # ks"
  shows "main_step G c = Some (handle_reply (length m)
    (c\<lparr>net := evs, buffer := buf_fill (buffer c) m, keys := ks, errno_is := EAGAIN\<rparr>))"
  using assms by (simp add: main_step_def read_key_def)

text \<open>
  A message of the server of at least four and less than \<open>MAX\<close> bytes is
  printed up to its first NUL and the loop goes on with a cleared buffer,
  whatever the buffer held before; a message that starts with \<open>exit\<close> ends the
  loop; a message of exactly \<open>MAX\<close> bytes writes its terminator past the buffer.
\<close>

theorem client_replies:
  assumes "net c = Data m # evs" and "4 \<le> length m" and "length m \<le> CLIENT_MAX"
    and "keys c = NoKey # ks" and "length (buffer c) = CLIENT_MAX"
  shows "map_option fst (main_step G c) = Some (if take 4 m = ''exit'' then Inr False
            else if length m = CLIENT_MAX then Inl Undefined else Inr True) \<and>
    (take 4 m \<noteq> ''exit'' \<and> length m < CLIENT_MAX \<longrightarrow>
      main_step G c = Some (Inr True, c\<lparr>net := evs, keys := ks, errno_is := EAGAIN,
        out := out c @ [''[SERVER] '' @ text_of m], buffer := replicate CLIENT_MAX NUL\<rparr>))"
proof -
  from assms(2) have "m \<noteq> []" by auto
  note step = main_step_message [OF assms(1) this assms(3,4), of G]
  show ?thesis
  proof (cases "length m < CLIENT_MAX")
    case True
    with assms(5) have "rbind (buf_set (buf_fill (buffer c) m) (length m) NUL) c_str = Inr (text_of m)"
      using terminated_fits [of m "buffer c"] by (simp add: terminated_def)
    with step True assms(2) \<open>m \<noteq> []\<close> show ?thesis
      by (simp add: handle_reply_def take4_fill print_def)
  next
    case False
    with assms(3,5) have "rbind (buf_set (buf_fill (buffer c) m) (length m) NUL) c_str = Inl Undefined"
      using terminated_overrun [of m "buffer c"] by (simp add: terminated_def)
    with step False assms(2,3) \<open>m \<noteq> []\<close> show ?thesis
      by (simp add: handle_reply_def take4_fill print_def)
  qed
qed

theorem client_replies_witness:
  "main_step stored (demo_client\<lparr>net := [Data (''Supplies updated.'' @ [NUL])], keys := [NoKey]\<rparr>) =
     Some (Inr True, demo_client\<lparr>errno_is := EAGAIN, out := [''[SERVER] Supplies updated.''],
       buffer := replicate CLIENT_MAX NUL\<rparr>) \<and>
   map_option fst (main_step stored (demo_client\<lparr>net := [Data ''exit''], keys := [NoKey]\<rparr>)) = Some (Inr False)"
proof -
  have t: "text_of (''Supplies updated.'' @ [NUL]) = ''Supplies updated.''" by code_simp
  show ?thesis
    using client_replies [of "demo_client\<lparr>net := [Data (''Supplies updated.'' @ [NUL])], keys := [NoKey]\<rparr>"
        "''Supplies updated.'' @ [NUL]" "[]" "[]" stored] t
      client_replies [of "demo_client\<lparr>net := [Data ''exit''], keys := [NoKey]\<rparr>" "''exit''" "[]" "[]" stored]
    by (simp add: demo_client_def CLIENT_MAX_def)
qed

lemma client_idles:
  assumes "set (net c) \<subseteq> {Quiet, Failed}" and "keys c = replicate n NoKey @ ks"
  shows "\<exists>c'. main_loop G n c = Some (Inr True, c') \<and> out c' = out c \<and>
    sock_closed c' = sock_closed c \<and> keys c' = ks"
  using assms
proof (induction n arbitrary: c)
  case 0
  then show ?case by simp
next
  case (Suc n)
  obtain evs err where r: "recv_nowait CLIENT_MAX (net c) = ([], evs, err)" and evs: "set evs \<subseteq> {Quiet, Failed}"
  proof (cases "net c")
    case (Cons e es)
    with Suc.prems(1) that show thesis by (cases e) auto
  qed (use that in simp)
  define c1 where "c1 = c\<lparr>net := evs, buffer := buf_fill (buffer c) [],
      errno_is := EAGAIN, keys := replicate n NoKey @ ks\<rparr>"
  have "main_step G c = Some (Inr True, c1)"
    using r Suc.prems(2) by (simp add: main_step_def read_key_def handle_reply_def c1_def)
  moreover have "\<exists>c'. main_loop G n c1 = Some (Inr True, c') \<and> out c' = out c1 \<and>
      sock_closed c' = sock_closed c1 \<and> keys c' = ks"
    by (rule Suc.IH) (simp_all add: c1_def evs)
  ultimately show ?case by (simp add: c1_def)
qed

text \<open>
  C40: while the user types nothing, a lost connection goes unnoticed: the
  keyboard read leaves \<open>EAGAIN\<close> behind, which the loop takes for a socket without
  data.  After any number of iterations the client is still running and has
  neither printed anything nor closed the socket.
\<close>

theorem lost_connection_unnoticed:
  assumes "set (net c) \<subseteq> {Quiet, Failed}" and "keys c = replicate n NoKey @ ks"
  shows "\<exists>c'. main_loop G n c = Some (Inr True, c') \<and> out c' = out c \<and>
    sock_closed c' = sock_closed c \<and> keys c' = ks"
  using client_idles [OF assms] .

theorem lost_connection_unnoticed_witness:
  "\<exists>c'. main_loop stored 3 (demo_client\<lparr>net := [Failed], keys := [NoKey, NoKey, NoKey]\<rparr>) = Some (Inr True, c') \<and>
     out c' = [] \<and> \<not> sock_closed c'"
proof -
  have "\<exists>c'. main_loop stored 3 (demo_client\<lparr>net := [Failed], keys := [NoKey, NoKey, NoKey]\<rparr>) = Some (Inr True, c') \<and>
     out c' = out (demo_client\<lparr>net := [Failed], keys := [NoKey, NoKey, NoKey]\<rparr>) \<and>
     sock_closed c' = sock_closed (demo_client\<lparr>net := [Failed], keys := [NoKey, NoKey, NoKey]\<rparr>) \<and> keys c' = []"
    by (rule lost_connection_unnoticed) (simp_all add: numeral_eq_Suc)
  then show ?thesis by (auto simp: demo_client_def)
qed

text \<open>
  A typed line goes to the server without its last byte, which is the line
  break when there is one: a complete line \<open>cmd\<close> sends \<open>cmd\<close>, an input that ends
  without a line break loses its last character.
\<close>

lemma client_sends_line:
  assumes "keys c = Line l # ks" and "l \<noteq> []" and "length l < CLIENT_MAX" and "NUL \<notin> set l"
    and "butlast l \<noteq> ''get_image''" and "net c = Quiet # evs"
  shows "main_step G c = Some (Inr True,
    c\<lparr>net := evs, keys := ks, uplink := uplink c @ [butlast l], errno_is := EAGAIN\<rparr>)"
  using assms
  by (cases c) (simp add: main_step_def read_key_def handle_key_def chop_def handle_reply_def buf_fill_def)

lemma client_sends_line_example:
  "main_step stored (demo_client\<lparr>net := [Quiet], keys := [Line (''login'' @ [CHR 0x0A])]\<rparr>) =
     Some (Inr True, demo_client\<lparr>uplink := [''login''], errno_is := EAGAIN\<rparr>) \<and>
   main_step stored (demo_client\<lparr>net := [Quiet], keys := [Line ''login'']\<rparr>) =
     Some (Inr True, demo_client\<lparr>uplink := [''logi''], errno_is := EAGAIN\<rparr>)"
  using client_sends_line [of "demo_client\<lparr>net := [Quiet], keys := [Line (''login'' @ [CHR 0x0A])]\<rparr>"
      "''login'' @ [CHR 0x0A]" "[]" "[]" stored]
    client_sends_line [of "demo_client\<lparr>net := [Quiet], keys := [Line ''login'']\<rparr>" "''login''" "[]" "[]" stored]
  by (simp add: demo_client_def CLIENT_MAX_def NUL_def)

end
