(* ===== verification/System.thy ===== *)
theory System
  imports Http Pipes
begin

text \<open>
  The running server as a whole: the \<open>select\<close> loop of \<open>main\<close>, the client threads
  it starts, the HTTP server and the two pipes, interleaved.  A step of the
  relation is one delivery by the environment, one accepted connection, one
  round of one client thread, one read of a pipe, or one web request; a command
  of a client runs as one step.  There is no step after an \<open>exit\<close>, undefined
  behaviour, or an exception that leaves a thread: the process has ended.
\<close>

section \<open>States and steps\<close>

text \<open>A client thread inside its loop: its socket, its peer, \<open>ubuntu\<close>, and its buffer.\<close>

record thread =
  th_sock :: int
  th_addr :: sockaddr
  th_ubuntu :: bool
  th_buf :: string

type_synonym 'd system = "'d server \<times> thread list"

record ('j, 'd) config =
  cf_json :: "'j json_lib"
  cf_kv :: "'d kv_lib"
  cf_peer :: "int \<Rightarrow> sockaddr option"
  cf_html :: "string \<rightharpoonup> string"
  cf_junk :: string
  alert_fifo_fd :: int
  emgs_fifo_fd :: int

definition deliver :: "int \<Rightarrow> recv_event list \<Rightarrow> 'd server \<Rightarrow> 'd server" where
  "deliver fd evs s = s\<lparr>inbox := (inbox s)(fd := inbox s fd @ evs)\<rparr>"

text \<open>
  \<open>arrive\<close>: bytes reach a descriptor; what reaches the emergency pipe is
  seven-bit text.  \<open>accept\<close>: \<open>main\<close> accepts a connection and the new thread enters
  its loop; the descriptor may be any, also one that a thread still uses after an
  emergency has closed it.  \<open>reject\<close>: \<open>getpeername\<close> fails in the new thread.
\<close>

definition ascii_stream :: "recv_event list \<Rightarrow> bool" where
  "ascii_stream evs \<longleftrightarrow> (\<forall>bs. Data bs \<in> set evs \<longrightarrow> ascii bs)"

inductive sys_step :: "('j, 'd) config \<Rightarrow> 'd system \<Rightarrow> 'd system \<Rightarrow> bool" for C where
  arrive: "fd = emgs_fifo_fd C \<longrightarrow> ascii_stream evs \<Longrightarrow>
     sys_step C (s, ths) (deliver fd evs s, ths)"
| accept: "cf_peer C sock = Some a \<Longrightarrow> client_arrives a sock s = (Inr (), s') \<Longrightarrow>
     sys_step C (s, ths)
       (s', ths @ [\<lparr>th_sock = sock, th_addr = a, th_ubuntu = False, th_buf = cf_junk C\<rparr>])"
| reject: "cf_peer C sock = None \<Longrightarrow>
     handle_client (cf_json C) (cf_kv C) (cf_peer C) (cf_junk C) sock None s = (Inr (), s') \<Longrightarrow>
     sys_step C (s, ths) (s', ths)"
| serve_client: "i < length ths \<Longrightarrow> t = ths ! i \<Longrightarrow>
     client_round (cf_json C) (cf_kv C) (cf_junk C) (th_addr t) None (th_sock t) (th_ubuntu t) (th_buf t) s
       = (Inr (Stays u), s') \<Longrightarrow>
     sys_step C (s, ths) (s', ths[i := t\<lparr>th_ubuntu := u, th_buf := replicate MAX_BUFFER NUL\<rparr>])"
| leave_client: "i < length ths \<Longrightarrow> t = ths ! i \<Longrightarrow>
     client_round (cf_json C) (cf_kv C) (cf_junk C) (th_addr t) None (th_sock t) (th_ubuntu t) (th_buf t) s
       = (Inr Leaves, s') \<Longrightarrow>
     client_leaves (th_addr t) (th_sock t) s' = (Inr (), s'') \<Longrightarrow>
     sys_step C (s, ths) (s'', take i ths @ drop (Suc i) ths)"
| alert: "handle_alerts (cf_json C) (cf_kv C) (cf_junk C) (alert_fifo_fd C) s = (Inr (), s') \<Longrightarrow>
     sys_step C (s, ths) (s', ths)"
| emergency: "handle_emergency (cf_json C) (cf_kv C) (cf_junk C) (emgs_fifo_fd C) s = (Inr (), s') \<Longrightarrow>
     sys_step C (s, ths) (s', ths)"
| web: "route (cf_json C) (cf_kv C) (cf_html C) req = Some h \<Longrightarrow> h s = (r, s') \<Longrightarrow>
     r = Inr out \<or> r = Inl (Throw e) \<Longrightarrow>
     sys_step C (s, ths) (s', ths)"

inductive_cases sys_stepE: "sys_step C (s, ths) q"

text \<open>The states the server can reach.\<close>

inductive reachable :: "('j, 'd) config \<Rightarrow> 'd system \<Rightarrow> 'd system \<Rightarrow> bool" for C q0 where
  start: "reachable C q0 q0"
| step: "reachable C q0 q \<Longrightarrow> sys_step C q q' \<Longrightarrow> reachable C q0 q'"

lemma reachable_invariant:
  assumes "reachable C q0 q" and "P q0" and "\<And>q q'. P q \<Longrightarrow> sys_step C q q' \<Longrightarrow> P q'"
  shows "P q"
  using assms(1) by (induction rule: reachable.induct) (use assms(2,3) in blast)+

section \<open>The loop of main\<close>

text \<open>
  One round of the loop in \<open>main\<close>: what \<open>select\<close> reports and what the two
  \<open>accept\<close> calls give.  A return from \<open>main\<close> ends the process with that status.
  The result lists the sockets for which threads were started.
\<close>

datatype listener = Not_ready | Accepted int | Accept_failed

definition accept_on :: "string \<Rightarrow> listener \<Rightarrow> ('d server, int list) act" where
  "accept_on name l = (case l of
      Not_ready \<Rightarrow> ret []
    | Accepted sock \<Rightarrow> ret [sock]
    | Accept_failed \<Rightarrow> thn (say (''[ERROR] '' @ name @ '' accept failed.'')) (halt (Exit 1)))"

definition main_round ::
    "('j, 'd) config \<Rightarrow> bool \<Rightarrow> listener \<Rightarrow> listener \<Rightarrow> bool \<Rightarrow> bool \<Rightarrow> ('d server, int list) act" where
  "main_round C select_ok ipv4 ipv6 alerts_ready emgs_ready =
     (if \<not> select_ok then thn (say ''[ERROR] Select failed.'') (halt (Exit 1))
      else
        bnd (accept_on ''IPv4'' ipv4) (\<lambda>a.
        bnd (accept_on ''IPv6'' ipv6) (\<lambda>b.
        thn (if alerts_ready then handle_alerts (cf_json C) (cf_kv C) (cf_junk C) (alert_fifo_fd C) else ret ())
       (thn (if emgs_ready then handle_emergency (cf_json C) (cf_kv C) (cf_junk C) (emgs_fifo_fd C) else ret ())
        (ret (a @ b))))))"

text \<open>
  A round that completes is a sequence of steps of the system; the threads it
  starts make their \<open>accept\<close> steps later.
\<close>

lemma main_round_steps:
  assumes "main_round C select_ok ipv4 ipv6 al em s = (Inr socks, s')"
  shows "reachable C (s, ths) (s', ths)"
proof -
  from assms have "select_ok" by (auto simp: main_round_def split: if_splits)
  with assms obtain a s1 b s2 s3 s4 where
    1: "accept_on ''IPv4'' ipv4 s = (Inr a, s1)" "accept_on ''IPv6'' ipv6 s1 = (Inr b, s2)" and
    2: "(if al then handle_alerts (cf_json C) (cf_kv C) (cf_junk C) (alert_fifo_fd C) else ret ()) s2 = (Inr (), s3)" and
    3: "(if em then handle_emergency (cf_json C) (cf_kv C) (cf_junk C) (emgs_fifo_fd C) else ret ()) s3 = (Inr (), s4)" and
    4: "s' = s4"
    unfolding main_round_def
    by (simp only: if_False simp_thms) (elim bnd_InrE thn_InrE, simp only: ret_app prod.inject)
  have "s2 = s" using 1 by (auto simp: accept_on_def split: listener.splits)
  have 5: "reachable C (s, ths) (s3, ths)"
    using 2 \<open>s2 = s\<close> reachable.step [OF reachable.start sys_step.alert [of C s s3 ths]]
    by (cases al) (auto intro: reachable.start)
  show ?thesis
    using 3 4 5 reachable.step [OF 5 sys_step.emergency [of C s3 s4 ths]] by (cases em) auto
qed

section \<open>The list of clients\<close>

text \<open>Every descriptor on the list of clients belongs to a running thread.\<close>

definition clients_run :: "'d system \<Rightarrow> bool" where
  "clients_run = (\<lambda>(s, ths). set (connected_clients s) \<subseteq> th_sock ` set ths)"

lemma remove_nth_socks:
  "i < length ths \<Longrightarrow> k \<in> th_sock ` set ths \<Longrightarrow> k \<noteq> th_sock (ths ! i) \<Longrightarrow>
     k \<in> th_sock ` set (take i ths @ drop (Suc i) ths)"
  by (subst (asm) id_take_nth_drop [of i ths]) auto

lemma update_nth_socks:
  assumes "i < length ths"
  shows "th_sock ` set (ths[i := (ths ! i)\<lparr>th_ubuntu := u, th_buf := b\<rparr>]) = th_sock ` set ths"
proof -
  have "map th_sock (ths[i := (ths ! i)\<lparr>th_ubuntu := u, th_buf := b\<rparr>]) = map th_sock ths"
    using assms by (simp add: map_update) (metis length_map list_update_id nth_map)
  then show ?thesis by (metis set_map)
qed

definition same_clients :: "('d, 'm) server_scheme \<Rightarrow> ('d, 'm) server_scheme \<Rightarrow> bool" where
  "same_clients s s' \<longleftrightarrow> connected_clients s' = connected_clients s"

lemma client_round_session:
  "keeps (session_step sock) (client_round J K junk a status sock u buf)"
  unfolding client_round_def
  by (intro session_step_bnd session_step_pure session_step_command session_step_recv keeps_if) simp

end
