(* ===== verification/System_Props.thy ===== *)
theory System_Props
  imports System Http_Props Pipes_Props
begin

text \<open>
  Invariants of the running server over all interleavings of its threads: the
  store always holds a well-formed summary, and the list of clients only names
  running threads; and what two overlapping updates do to each other, because
  reading and writing the summary are separate accesses to the store.
\<close>

section \<open>The invariant of the store\<close>

definition store_ok ::
    "'j json_lib \<Rightarrow> 'd kv_lib \<Rightarrow> ('j \<Rightarrow> bool) \<Rightarrow> ('j \<Rightarrow> bool) \<Rightarrow> ('d \<Rightarrow> bool) \<Rightarrow> int \<Rightarrow> ('d, 'm) server_scheme \<Rightarrow> bool" where
  "store_ok J K obj plain open_rw fd s \<longleftrightarrow>
     (\<exists>r. store_holds J K obj plain (db s) r \<and> refuge_wf r) \<and> open_rw (db s) \<and>
     (\<forall>n. ascii (clock s n)) \<and> ascii_stream (inbox s fd)"

definition ok_kept ::
    "'j json_lib \<Rightarrow> 'd kv_lib \<Rightarrow> ('j \<Rightarrow> bool) \<Rightarrow> ('j \<Rightarrow> bool) \<Rightarrow> ('d \<Rightarrow> bool) \<Rightarrow> int
     \<Rightarrow> ('d, 'm) server_scheme \<Rightarrow> ('d, 'm) server_scheme \<Rightarrow> bool" where
  "ok_kept J K obj plain open_rw fd s s' \<longleftrightarrow>
     (store_ok J K obj plain open_rw fd s \<longrightarrow> store_ok J K obj plain open_rw fd s')"

lemma ok_kept_refl: "reflp (ok_kept J K obj plain open_rw fd)"
  by (simp add: reflp_def ok_kept_def)

lemma ok_kept_trans: "transp (ok_kept J K obj plain open_rw fd)"
  by (auto simp: transp_def ok_kept_def)

lemmas ok_kept_struct =
  keeps_pure [OF ok_kept_refl] keeps_bnd [OF ok_kept_trans] keeps_thn [OF ok_kept_trans]

lemma ascii_take_drop: "ascii bs \<Longrightarrow> ascii (take n bs) \<and> ascii (drop n bs)"
  by (auto simp: ascii_def dest: in_set_takeD in_set_dropD)

lemma ascii_recv_chunk:
  "recv_chunk amount evs = (bs, evs') \<Longrightarrow> ascii_stream evs \<Longrightarrow> ascii bs \<and> ascii_stream evs'"
  by (induction amount evs rule: recv_chunk.induct)
    (auto simp: ascii_stream_def ascii_take_drop split: if_splits; simp add: ascii_def)+

lemma ok_kept_prims:
  "keeps (ok_kept J K obj plain open_rw fd) (say t)"
  "keeps (ok_kept J K obj plain open_rw fd) (get_value K' k)"
  "keeps (ok_kept J K obj plain open_rw fd) (recv sock amount)"
  "keeps (ok_kept J K obj plain open_rw fd) (send sock bs)"
  "keeps (ok_kept J K obj plain open_rw fd) (write_fd sock bs)"
  "keeps (ok_kept J K obj plain open_rw fd) (log_event a ty d)"
  "keeps (ok_kept J K obj plain open_rw fd) (log_alert b msg)"
  "keeps (ok_kept J K obj plain open_rw fd) get_time_stamp"
  "keeps (ok_kept J K obj plain open_rw fd) (close_fd n)"
  "keeps (ok_kept J K obj plain open_rw fd) (add_client n)"
  "keeps (ok_kept J K obj plain open_rw fd) (remove_client n)"
  by (auto simp: keeps_def ok_kept_def store_ok_def say_def get_value_def recv_def write_fd_def log_event_run
      log_alert_run get_time_stamp_def add_client_def remove_client_def Let_def
      split: prod.splits dest: ascii_recv_chunk)

lemmas ok_kept_intros = ok_kept_struct ok_kept_prims keeps_if keeps_cases

lemma ok_kept_show: "keeps (ok_kept J K obj plain open_rw fd) (show_state_summary J' K' status)"
  unfolding show_state_summary_def by (intro ok_kept_intros)

lemma ok_kept_send_lit: "keeps (ok_kept J K obj plain open_rw fd) (send_lit sock lit n)"
  unfolding send_lit_def by (intro ok_kept_intros)

lemma ok_kept_zip: "keeps (ok_kept J K obj plain open_rw fd) (send_zip_file sock)"
proof (rule keepsI)
  fix s :: "('a, 'b) server_scheme"
  have pieces: "keeps (ok_kept J K obj plain open_rw fd) (send_pieces sock bs n)" for bs n
  proof (induction bs arbitrary: n rule: length_induct)
    case (1 bs)
    then show ?case by (subst send_pieces.simps) (intro ok_kept_intros; simp)
  qed
  show "ok_kept J K obj plain open_rw fd s (snd (send_zip_file sock s))"
  proof (cases "zip_file s")
    case None
    then show ?thesis by (simp add: send_zip_file_def ok_kept_def store_ok_def)
  next
    case (Some content)
    show ?thesis unfolding send_zip_file_def Some option.simps
      by (rule keepsD) (intro pieces ok_kept_intros)
  qed
qed

lemma ok_kept_login: "keeps (ok_kept J K obj plain open_rw fd) (client_login_with_bool_return junk sock u)"
  unfolding client_login_with_bool_return_def recv_text_def
  by (intro ok_kept_intros ok_kept_send_lit)

subsection \<open>The updates\<close>

context refuge_env begin

lemma store_okI:
  "store_holds J K obj plain (db s) r \<Longrightarrow> refuge_wf r \<Longrightarrow> open_rw (db s) \<Longrightarrow> (\<forall>n. ascii (clock s n)) \<Longrightarrow>
   ascii_stream (inbox s fd) \<Longrightarrow> store_ok J K obj plain open_rw fd s"
  unfolding store_ok_def by blast

lemma ok_kept_supplies:
  "keeps (ok_kept J K obj plain open_rw fd) (modify_supplies J K key val :: (('d, 'm) server_scheme, unit) act)"
proof (rule keepsI)
  fix s :: "('d, 'm) server_scheme"
  show "ok_kept J K obj plain open_rw fd s (snd (modify_supplies J K key val s))"
    unfolding ok_kept_def
  proof
    assume ok: "store_ok J K obj plain open_rw fd s"
    then obtain r where r: "store_holds J K obj plain (db s) r" "refuge_wf r" "open_rw (db s)"
      and rest: "\<forall>n. ascii (clock s n)" "ascii_stream (inbox s fd)" by (auto simp: store_ok_def)
    have same: "store_ok J K obj plain open_rw fd (s\<lparr>console := c\<rparr>)" for c
      using r rest by (intro store_okI [of _ r]) simp_all
    show "store_ok J K obj plain open_rw fd (snd (modify_supplies J K key val s))"
    proof (cases "known_supply r key")
      case False
      then show ?thesis using modify_supplies_unknown [OF r(1) False, of val] same by simp
    next
      case known: True
      note rej = modify_supplies_rejects [OF r(1) known, of val]
      show ?thesis
      proof (cases "stoi val")
        case (Inl e)
        with stoi_errors [OF Inl] rej(1,3) same ok show ?thesis by auto
      next
        case (Inr v)
        show ?thesis
        proof (cases "v < 0")
          case True
          with Inr rej(2) [OF Inr] same show ?thesis by simp
        next
          case False
          then have v: "0 \<le> v" "v \<le> INT_MAX" using stoi_in_int [OF Inr] by (simp_all add: in_int_def)
          obtain d' where "modify_supplies J K key val s = (Inr (), s\<lparr>db := d',
              console := console s @ [''[SUPPLIES] State summary updated successfully.'']\<rparr>)"
            "store_holds J K obj plain d' (set_supply key v r)" "open_rw d'"
            by (rule modify_supplies_sets [OF r(1,2) known Inr v(1) r(3)])
          then show ?thesis using set_supply_wf [OF r(2) v] rest
            by (intro store_okI [of _ "set_supply key v r"]) simp_all
        qed
      qed
    qed
  qed
qed

lemma ok_kept_alerts:
  "keeps (ok_kept J K obj plain open_rw fd) (modify_alerts J K a :: (('d, 'm) server_scheme, unit) act)"
proof (rule keepsI)
  fix s :: "('d, 'm) server_scheme"
  show "ok_kept J K obj plain open_rw fd s (snd (modify_alerts J K a s))"
    unfolding ok_kept_def
  proof
    assume ok: "store_ok J K obj plain open_rw fd s"
    then obtain r where r: "store_holds J K obj plain (db s) r" "refuge_wf r" "open_rw (db s)"
      and rest: "\<forall>n. ascii (clock s n)" "ascii_stream (inbox s fd)" by (auto simp: store_ok_def)
    note oth = modify_alerts_other [OF r(1), of a]
    show "store_ok J K obj plain open_rw fd (snd (modify_alerts J K a s))"
    proof (cases "alert_entry a")
      case None
      with oth(1) r rest show ?thesis by (intro store_okI [of _ r]) simp_all
    next
      case (Some entry)
      obtain n where n: "alerts r entry = Some n" "0 \<le> n" by (rule wf_alert [OF r(2) Some])
      with r(2) have "n \<le> INT_MAX" unfolding refuge_wf_def counts_ok_def by blast
      show ?thesis
      proof (cases "n = INT_MAX")
        case True
        with oth(2) [OF Some] n(1) ok show ?thesis by simp
      next
        case False
        with \<open>n \<le> INT_MAX\<close> have lt: "n < INT_MAX" by simp
        obtain d' where "modify_alerts J K a s = (Inr (), s\<lparr>db := d'\<rparr>)"
            "store_holds J K obj plain d' (count_alert entry r)" "open_rw d'"
          by (rule modify_alerts_counts [OF r(1) Some n lt r(3)])
        moreover have "refuge_wf (count_alert entry r)"
          using r(2) n(1) lt by (intro count_alert_wf) auto
        ultimately show ?thesis using rest by (intro store_okI [of _ "count_alert entry r"]) simp_all
      qed
    qed
  qed
qed

lemma ok_kept_command:
  "keeps (ok_kept J K obj plain open_rw fd)
     (client_command J K junk a status sock u cmd :: (('d, 'm) server_scheme, bool) act)"
  unfolding client_command_def Let_def set_supplies_def get_refuge_state_def recv_text_def
  by (intro ok_kept_intros ok_kept_send_lit ok_kept_zip ok_kept_login ok_kept_show ok_kept_supplies)

lemma ok_kept_round:
  "keeps (ok_kept J K obj plain open_rw fd)
     (client_round J K junk a status sock u buf :: (('d, 'm) server_scheme, round_end) act)"
  unfolding client_round_def by (intro ok_kept_intros ok_kept_command)

lemma ok_kept_arrives: "keeps (ok_kept J K obj plain open_rw fd) (client_arrives a sock)"
  unfolding client_arrives_def by (intro ok_kept_intros)

lemma ok_kept_leaves: "keeps (ok_kept J K obj plain open_rw fd) (client_leaves a sock)"
  unfolding client_leaves_def by (intro ok_kept_intros)

lemma ok_kept_send_each: "keeps (ok_kept J K obj plain open_rw fd) (\<lambda>s. send_each (connected_clients s) msg s)"
  by (auto simp: keeps_def ok_kept_def store_ok_def send_each_run)

lemma ok_kept_handle_alerts:
  "keeps (ok_kept J K obj plain open_rw fd) (handle_alerts J K junk afd :: (('d, 'm) server_scheme, unit) act)"
  unfolding handle_alerts_def recv_text_def Let_def
  by (intro ok_kept_intros ok_kept_send_each ok_kept_alerts)

lemma ok_kept_disconnect:
  "keeps (ok_kept J K obj plain open_rw fd) (disconnect_all_clients :: (('d, 'm) server_scheme, unit) act)"
  by (auto simp: keeps_def ok_kept_def store_ok_def disconnect_all_run)

text \<open>The emergency message is seven-bit because the pipe delivers seven-bit text.\<close>

lemma ok_kept_handle_emergency:
  "keeps (ok_kept J K obj plain open_rw fd) (handle_emergency J K junk fd :: (('d, 'm) server_scheme, unit) act)"
proof (rule keepsI)
  fix s :: "('d, 'm) server_scheme"
  let ?ok = "store_ok J K obj plain open_rw fd :: ('d, 'm) server_scheme \<Rightarrow> bool"
  let ?ts = "clock s (ticks s)"
  let ?s1 = "s\<lparr>ticks := Suc (ticks s)\<rparr>"
  show "ok_kept J K obj plain open_rw fd s (snd (handle_emergency J K junk fd s))"
    unfolding ok_kept_def
  proof
    assume ok: "?ok s"
    then have ts: "ascii ?ts" by (simp add: store_ok_def)
    obtain x s2 where r: "recv_text junk fd ''[ERROR] Error reading from emergency pipe'' ?s1 = (x, s2)" by fastforce
    have "?ok ?s1" using ok by (simp add: store_ok_def)
    moreover have "keeps (ok_kept J K obj plain open_rw fd) (recv_text junk fd e)" for e
      unfolding recv_text_def by (intro ok_kept_intros)
    ultimately have "?ok (snd (recv_text junk fd ''[ERROR] Error reading from emergency pipe'' ?s1))"
      unfolding keeps_def ok_kept_def by blast
    then have ok2: "?ok s2" by (simp add: r)
    show "?ok (snd (handle_emergency J K junk fd s))"
    proof (cases x)
      case (Inl e)
      with r ok2 show ?thesis by (simp add: handle_emergency_def get_time_stamp_def)
    next
      case (Inr msg)
      have msg: "ascii msg"
      proof -
        obtain bs evs where c: "recv_chunk MAX_BUFFER (inbox s fd) = (bs, evs)" by fastforce
        with r Inr have t: "terminated junk bs = Inr msg"
          by (auto simp: recv_text_def recv_def say_def split: if_splits)
        have "ascii bs" using ascii_recv_chunk [OF c] ok by (simp add: store_ok_def)
        moreover have "length bs \<le> MAX_BUFFER" by (rule recv_chunk_length [OF c])
        ultimately show ?thesis using terminated_ascii [OF t] by simp
      qed
      define s3 where "s3 = snd (log_alert False msg (s2\<lparr>console := console s2 @ [''[EMERGENCY] '' @ msg]\<rparr>))"
      have s3: "log_alert False msg (s2\<lparr>console := console s2 @ [''[EMERGENCY] '' @ msg]\<rparr>) = (Inr (), s3)"
        by (simp add: s3_def log_alert_run)
      have ok3: "?ok s3" using ok2 by (auto simp: s3_def log_alert_run store_ok_def)
      then obtain q where q: "store_holds J K obj plain (db s3) q" "refuge_wf q" "open_rw (db s3)"
        and rest: "\<forall>n. ascii (clock s3 n)" "ascii_stream (inbox s3 fd)" by (auto simp: store_ok_def)
      obtain d' where d': "modify_emergencies J K ?ts msg s3 = (Inr (), s3\<lparr>db := d'\<rparr>)"
          "store_holds J K obj plain d' (note_emergency ?ts msg q)" "open_rw d'"
        by (rule modify_emergencies_notes [OF q(1) ts msg q(3)])
      have "?ok (s3\<lparr>db := d'\<rparr>)"
        using d'(2,3) note_emergency_wf [OF q(2) ts msg] rest
        by (intro store_okI [of _ "note_emergency ?ts msg q"]) simp_all
      then show ?thesis
        using r Inr s3 d'(1) by (simp add: handle_emergency_def get_time_stamp_def disconnect_all_run store_ok_def)
    qed
  qed
qed

lemma ok_kept_route:
  assumes "route J K html req = Some (h :: (('d, 'm) server_scheme, response) act)"
  shows "keeps (ok_kept J K obj plain open_rw fd) h"
proof -
  have login: "keeps (ok_kept J K obj plain open_rw fd) (post_login req)"
    by (auto simp: keeps_def ok_kept_def post_login_def check_credentials_def store_ok_def Let_def)
  have modify: "keeps (ok_kept J K obj plain open_rw fd)
      (post_modify J K req :: (('d, 'm) server_scheme, response) act)"
  proof (rule keepsI)
    fix s :: "('d, 'm) server_scheme"
    have "keeps (ok_kept J K obj plain open_rw fd) (thn (modify_supplies J K k v) (ret x))" for k v and x :: response
      by (intro ok_kept_intros ok_kept_supplies)
    then show "ok_kept J K obj plain open_rw fd s (snd (post_modify J K req s))"
      by (auto simp: post_modify_def keeps_def ok_kept_def)
  qed
  have get: "keeps (ok_kept J K obj plain open_rw fd) (plain_text (get_supplies J K))"
    "keeps (ok_kept J K obj plain open_rw fd) (plain_text (get_alerts J K))"
    "keeps (ok_kept J K obj plain open_rw fd) (plain_text (get_emergencies J K))"
    "keeps (ok_kept J K obj plain open_rw fd) (page html f)" for f
    unfolding plain_text_def get_supplies_def get_alerts_def get_emergencies_def get_section_def page_def setup_html_def
    by (intro ok_kept_intros)+
  from assms login modify get show ?thesis
    by (auto simp: route_def split: http_method.splits if_splits)
qed

end

section \<open>Single steps of the system\<close>

lemma ok_step:
  assumes env: "refuge_env (cf_json C) obj plain (cf_kv C) open_rw" and "sys_step C q q'"
    and "store_ok (cf_json C) (cf_kv C) obj plain open_rw (emgs_fifo_fd C) (fst q)"
  shows "store_ok (cf_json C) (cf_kv C) obj plain open_rw (emgs_fifo_fd C) (fst q')"
proof -
  let ?ok = "store_ok (cf_json C) (cf_kv C) obj plain open_rw (emgs_fifo_fd C)"
  have kept: "?ok s'" if "keeps (ok_kept (cf_json C) (cf_kv C) obj plain open_rw (emgs_fifo_fd C)) m" "m s = (x, s')" "?ok s"
    for m :: "(_ server, 'x) act" and s x s'
    using keepsD [OF that(1), of s] that(2,3) by (simp add: ok_kept_def)
  from assms(2,3) show ?thesis
  proof (cases rule: sys_step.cases)
    case (arrive fd evs s ths)
    with assms(3) show ?thesis by (auto simp: store_ok_def deliver_def ascii_stream_def)
  next
    case (accept sock a s s' ths)
    with assms(3) kept [OF refuge_env.ok_kept_arrives [OF env]] show ?thesis by auto
  next
    case (reject sock s s' ths)
    with assms(3) show ?thesis by (auto simp: handle_client_def store_ok_def)
  next
    case (serve_client i ths t s u s')
    with assms(3) kept [OF refuge_env.ok_kept_round [OF env]] show ?thesis by auto
  next
    case (leave_client i ths t s s' s'')
    with assms(3) kept [OF refuge_env.ok_kept_round [OF env]] kept [OF refuge_env.ok_kept_leaves [OF env]]
    show ?thesis by auto
  next
    case (alert s s' ths)
    with assms(3) kept [OF refuge_env.ok_kept_handle_alerts [OF env]] show ?thesis by auto
  next
    case (emergency s s' ths)
    with assms(3) kept [OF refuge_env.ok_kept_handle_emergency [OF env]] show ?thesis by auto
  next
    case (web req h s r s' out e ths)
    with assms(3) kept [OF refuge_env.ok_kept_route [OF env web(3)]] show ?thesis by auto
  qed
qed

lemma route_clients:
  assumes "route J K html req = Some h"
  shows "connected_clients (snd (h s)) = connected_clients (s :: ('d, 'm) server_scheme)"
proof (cases "req_method req")
  case Get
  show ?thesis
    using keepsD [OF route_get [OF Get assms], of s] server_more(5) [of "snd (h s)" s] by (simp add: store_step_def)
next
  case Post
  have "keeps store_step (thn (modify_supplies J K k v) (ret x) :: (('d, 'm) server_scheme, response) act)" for k v x
    by (intro store_step_intros store_step_modify)
  then have "store.more (snd (thn (modify_supplies J K k v) (ret x) s)) = store.more s" for k v and x :: response
    by (simp add: keeps_def store_step_def)
  from server_more(5) [OF this] Post assms show ?thesis
    by (auto simp: route_def post_login_def post_modify_def check_credentials_def Let_def split: if_splits)
qed

lemma same_clients_refl: "reflp same_clients"
  by (simp add: reflp_def same_clients_def)

lemma same_clients_trans: "transp same_clients"
  by (simp add: transp_def same_clients_def)

lemmas same_clients_struct =
  keeps_pure [OF same_clients_refl] keeps_bnd [OF same_clients_trans] keeps_thn [OF same_clients_trans]

lemma same_clients_store:
  fixes m :: "(('d, 'm) server_scheme, 'a) act"
  assumes "keeps store_step m"
  shows "keeps same_clients m"
proof (rule keepsI)
  fix s
  from keepsD [OF assms, of s] have "store.more (snd (m s)) = store.more s" by (simp add: store_step_def)
  from server_more(5) [OF this] show "same_clients s (snd (m s))" by (simp add: same_clients_def)
qed

lemma same_clients_prims:
  "keeps same_clients (recv sock amount)"
  "keeps same_clients (log_alert b msg)"
  "keeps same_clients (\<lambda>s. send_each (connected_clients s) msg s)"
  by (auto simp: keeps_def same_clients_def recv_def log_alert_run send_each_run split: prod.splits)

lemma handle_alerts_clients:
  "keeps same_clients (handle_alerts J K junk fd :: (('d, 'm) server_scheme, unit) act)"
  unfolding handle_alerts_def recv_text_def Let_def
  by (intro same_clients_struct same_clients_prims same_clients_store [OF store_step_prims(1)]
      same_clients_store [OF store_step_modify(2)] keeps_if keeps_cases)

lemma handle_emergency_clients: "handle_emergency J K junk fd s = (Inr (), s') \<Longrightarrow> connected_clients s' = []"
  unfolding handle_emergency_def by (elim bnd_InrE thn_InrE) (auto simp: disconnect_all_run)

lemma clients_step:
  assumes "sys_step C q q'" and "clients_run q"
  shows "clients_run q'"
  using assms
proof (cases rule: sys_step.cases)
  case (arrive fd evs s ths)
  with assms(2) show ?thesis by (simp add: clients_run_def deliver_def)
next
  case (accept sock a s s' ths)
  obtain s1 where "client_arrives a sock s = (Inr (), s1)" "connected_clients s1 = connected_clients s @ [sock]"
    by (rule client_arrives_run)
  with accept assms(2) show ?thesis by (auto simp: clients_run_def)
next
  case (reject sock s s' ths)
  with assms(2) show ?thesis by (auto simp: clients_run_def handle_client_def)
next
  case (serve_client i ths t s u s')
  then have "connected_clients s' = connected_clients s"
    using keepsD [OF client_round_session, of "th_sock t" s "cf_json C" "cf_kv C" "cf_junk C" "th_addr t" None "th_ubuntu t" "th_buf t"]
    by (simp add: session_step_def)
  with serve_client assms(2) update_nth_socks [where u = u and b = "replicate MAX_BUFFER NUL", OF serve_client(3)]
  show ?thesis by (simp add: clients_run_def)
next
  case (leave_client i ths t s s' s'')
  then have c: "connected_clients s' = connected_clients s"
    using keepsD [OF client_round_session, of "th_sock t" s "cf_json C" "cf_kv C" "cf_junk C" "th_addr t" None "th_ubuntu t" "th_buf t"]
    by (simp add: session_step_def)
  obtain s2 where "client_leaves (th_addr t) (th_sock t) s' = (Inr (), s2)"
    "connected_clients s2 = filter (\<lambda>c. c \<noteq> th_sock t) (connected_clients s')"
    by (rule client_leaves_run)
  with leave_client c assms(2) remove_nth_socks [OF leave_client(3)]
  show ?thesis unfolding clients_run_def by auto
next
  case (alert s s' ths)
  with assms(2) keepsD [OF handle_alerts_clients, of s "cf_json C" "cf_kv C" "cf_junk C" "alert_fifo_fd C"]
  show ?thesis by (simp add: clients_run_def same_clients_def)
next
  case (emergency s s' ths)
  with handle_emergency_clients [OF emergency(3)] show ?thesis by (simp add: clients_run_def)
next
  case (web req h s r s' out e ths)
  with assms(2) route_clients [OF web(3), of s] show ?thesis by (simp add: clients_run_def)
qed

section \<open>Properties\<close>

text \<open>
  In every state the server can reach, by any interleaving of clients, web
  requests, alerts and emergencies, the store is open and holds a summary that is
  well formed: every supply and every counter is present, is an \<open>int\<close> and is not
  negative.
\<close>

theorem summary_invariant:
  assumes "refuge_env (cf_json C) obj plain (cf_kv C) open_rw"
    and "store_holds (cf_json C) (cf_kv C) obj plain (db s0) r0" and "refuge_wf r0" and "open_rw (db s0)"
    and "\<forall>n. ascii (clock s0 n)" and "inbox s0 = (\<lambda>_. [])"
    and "reachable C (s0, []) (s, ths)"
  shows "open_rw (db s) \<and> (\<exists>r. store_holds (cf_json C) (cf_kv C) obj plain (db s) r \<and> refuge_wf r)"
proof -
  let ?ok = "store_ok (cf_json C) (cf_kv C) obj plain open_rw (emgs_fifo_fd C)"
  have "?ok (fst (s0, [] :: thread list))"
    unfolding store_ok_def using assms(2-6) by (auto simp: ascii_stream_def)
  with assms(7) have "?ok (fst (s, ths))"
    by (rule reachable_invariant [where P = "\<lambda>q. ?ok (fst q)"]) (rule ok_step [OF assms(1)])
  then show ?thesis by (auto simp: store_ok_def)
qed

definition demo_config :: "(json, ref_db) config" where
  "demo_config = \<lparr>cf_json = ref_json, cf_kv = ref_kv, cf_peer = demo_peer, cf_html = Map.empty,
     cf_junk = replicate MAX_BUFFER NUL, alert_fifo_fd = 3, emgs_fifo_fd = 4\<rparr>"

lemma demo_config_simps [simp]:
  "cf_json demo_config = ref_json" "cf_kv demo_config = ref_kv" "cf_peer demo_config = demo_peer"
  "cf_junk demo_config = replicate MAX_BUFFER NUL" "alert_fifo_fd demo_config = 3" "emgs_fifo_fd demo_config = 4"
  by (simp_all add: demo_config_def)

text \<open>A run in which an alert arrives and is handled, and a client connects.\<close>

lemma demo_run:
  "\<exists>s t. reachable demo_config (demo_server, []) (s, [t]) \<and> th_sock t = 7 \<and> connected_clients s = [7]"
proof -
  let ?s1 = "deliver 3 [Data (''north,39.5'' @ [CHR 0x0A])] demo_server"
  have r1: "reachable demo_config (demo_server, []) (?s1, [])"
    by (rule reachable.step [OF reachable.start]) (rule sys_step.arrive, simp)
  have h: "store_holds ref_json ref_kv is_obj j_plain (db ?s1) initial_refuge" "ref_open (db ?s1)"
    using demo_holds by (simp_all add: deliver_def)
  obtain s2 where s2: "handle_alerts ref_json ref_kv (replicate MAX_BUFFER NUL) 3 ?s1 = (Inr (), s2)"
    "connected_clients s2 = []"
    using handle_alerts_first_line [OF demo_env h, of 3 "''north,39.5'' @ [CHR 0x0A]" "[]" "[]" "''north''"
        "replicate MAX_BUFFER NUL" 0] demo_alert_line
    by (auto simp: deliver_def initial_refuge_def INT_MAX_def MAX_BUFFER_def)
  have r2: "reachable demo_config (demo_server, []) (s2, [])"
    by (rule reachable.step [OF r1]) (rule sys_step.alert, use s2(1) in simp)
  obtain s3 where s3: "client_arrives demo_addr 7 s2 = (Inr (), s3)" "connected_clients s3 = connected_clients s2 @ [7]"
    by (rule client_arrives_run)
  let ?t = "\<lparr>th_sock = 7, th_addr = demo_addr, th_ubuntu = False, th_buf = cf_junk demo_config\<rparr>"
  have "sys_step demo_config (s2, []) (s3, [] @ [?t])"
    by (rule sys_step.accept [OF _ s3(1)]) (simp add: demo_peer_def)
  then have "reachable demo_config (demo_server, []) (s3, [?t])"
    using reachable.step [OF r2] by simp
  with s2(2) s3(2) show ?thesis by (intro exI [of _ s3] exI [of _ ?t]) simp
qed

theorem summary_invariant_witness:
  "\<exists>s t. reachable demo_config (demo_server, []) (s, [t]) \<and>
    (\<exists>r. store_holds ref_json ref_kv is_obj j_plain (db s) r \<and> refuge_wf r)"
proof -
  obtain s t where r: "reachable demo_config (demo_server, []) (s, [t])" using demo_run by blast
  have env: "refuge_env (cf_json demo_config) is_obj j_plain (cf_kv demo_config) ref_open" using demo_env by simp
  have h: "store_holds (cf_json demo_config) (cf_kv demo_config) is_obj j_plain (db demo_server) initial_refuge"
    "ref_open (db demo_server)" "\<forall>n. ascii (clock demo_server n)" "inbox demo_server = (\<lambda>_. [])"
    using demo_holds by (simp_all add: demo_server_def ascii_def)
  from summary_invariant [OF env h(1) initial_refuge_wf h(2-4) r] r show ?thesis by auto
qed

text \<open>
  In every state the server can reach, each descriptor on the list of
  connected clients, to which alerts are sent, belongs to a client thread that is
  still running.
\<close>

theorem clients_are_running:
  assumes "reachable C (s0, []) (s, ths)" and "connected_clients s0 = []"
  shows "\<forall>c \<in> set (connected_clients s). \<exists>t \<in> set ths. th_sock t = c"
proof -
  have "clients_run (s0, [])" using assms(2) by (simp add: clients_run_def)
  with assms(1) have "clients_run (s, ths)"
    by (rule reachable_invariant) (rule clients_step)
  then show ?thesis by (auto simp: clients_run_def)
qed

theorem clients_are_running_witness:
  "\<exists>s t. reachable demo_config (demo_server, []) (s, [t]) \<and> connected_clients s = [7] \<and>
     (\<forall>c \<in> set (connected_clients s). \<exists>t \<in> set [t]. th_sock t = c)"
proof -
  obtain s t where r: "reachable demo_config (demo_server, []) (s, [t])" "connected_clients s = [7]"
    using demo_run by blast
  from clients_are_running [OF r(1)] r show ?thesis by fastforce
qed

text \<open>
  Overlapping updates lose one of them.  An alert reads the summary; before
  it writes, a supply update runs from start to end and its change is in the
  store; then the alert writes what it computed from its earlier reading, and the
  supply update is gone, although both reported success.
\<close>

theorem lost_update:
  fixes s :: "('d, 'm) server_scheme"
  assumes "refuge_env J obj plain K open_rw" and "store_holds J K obj plain (db s) r"
    and "refuge_wf r" and "open_rw (db s)" and "known_supply r key" and "stoi val = Inr v" and "0 \<le> v"
    and "alert_entry a = Some entry" and "alerts r entry = Some n" and "0 \<le> n" and "n < INT_MAX"
  shows "modify_alerts J K a =
      (bnd (get_value K summary_key) (after_read J (count_in_summary J K a)) :: (('d, 'm) server_scheme, unit) act) \<and>
    (\<exists>g s1 s2. get_value K summary_key s = (Inr g, s) \<and>
      modify_supplies J K key val s = (Inr (), s1) \<and>
      store_holds J K obj plain (db s1) (set_supply key v r) \<and>
      after_read J (count_in_summary J K a) g s1 = (Inr (), s2) \<and>
      store_holds J K obj plain (db s2) (count_alert entry r))"
proof
  show "modify_alerts J K a = bnd (get_value K summary_key) (after_read J (count_in_summary J K a))"
    by (simp add: modify_alerts_def with_summary_def)
  from assms(2) obtain t j where j: "kv_get K (db s) summary_key = Inr t" "jl_parse J t = Inr j"
      "summary_doc J obj plain j r" by (auto simp: store_holds_def)
  have g: "get_value K summary_key s = (Inr (Inr t), s)" by (simp add: get_value_def j(1))
  obtain d1 where d1: "modify_supplies J K key val s = (Inr (), s\<lparr>db := d1,
        console := console s @ [''[SUPPLIES] State summary updated successfully.'']\<rparr>)"
      "store_holds J K obj plain d1 (set_supply key v r)" "open_rw d1"
    using refuge_env.modify_supplies_sets [OF assms(1,2,3,5,6,7,4)] by metis
  let ?s1 = "s\<lparr>db := d1, console := console s @ [''[SUPPLIES] State summary updated successfully.'']\<rparr>"
  have "open_rw (db ?s1)" using d1(3) by simp
  then obtain d2 where d2: "count_in_summary J K a j ?s1 = (Inr (), ?s1\<lparr>db := d2\<rparr>)"
      "store_holds J K obj plain d2 (count_alert entry r)"
    using refuge_env.count_in_summary_counts [OF assms(1) j(3) assms(8-11)] by metis
  have "after_read J (count_in_summary J K a) (Inr t) ?s1 = (Inr (), ?s1\<lparr>db := d2\<rparr>)"
    by (simp add: after_read_def parse_state_summary_def j(2) d2(1))
  with g d1 d2(2) show "\<exists>g s1 s2. get_value K summary_key s = (Inr g, s) \<and>
      modify_supplies J K key val s = (Inr (), s1) \<and>
      store_holds J K obj plain (db s1) (set_supply key v r) \<and>
      after_read J (count_in_summary J K a) g s1 = (Inr (), s2) \<and>
      store_holds J K obj plain (db s2) (count_alert entry r)"
    by (intro exI [of _ "Inr t"] exI [of _ ?s1] exI [of _ "?s1\<lparr>db := d2\<rparr>"]) simp
qed

theorem lost_update_witness:
  "\<exists>g s1 s2. get_value ref_kv summary_key demo_server = (Inr g, demo_server) \<and>
    modify_supplies ref_json ref_kv ''water'' ''50'' demo_server = (Inr (), s1) \<and>
    store_holds ref_json ref_kv is_obj j_plain (db s1) (set_supply ''water'' 50 initial_refuge) \<and>
    after_read ref_json (count_in_summary ref_json ref_kv ''north'') g s1 = (Inr (), s2) \<and>
    store_holds ref_json ref_kv is_obj j_plain (db s2) (count_alert ''north_entry'' initial_refuge)"
proof -
  have h: "store_holds ref_json ref_kv is_obj j_plain (db demo_server) initial_refuge" "ref_open (db demo_server)"
    using demo_holds by simp_all
  have n: "stoi ''50'' = Inr 50" by code_simp
  have k: "known_supply initial_refuge ''water''" by (simp add: known_supply_def initial_refuge_def)
  have a: "alert_entry ''north'' = Some ''north_entry''" "alerts initial_refuge ''north_entry'' = Some 0"
    by (simp_all add: alert_entry_def initial_refuge_def)
  show ?thesis
    using lost_update [OF demo_env h(1) initial_refuge_wf h(2) k n _ a] by (simp add: INT_MAX_def)
qed

end
