(* ===== verification/Mat.thy ===== *)
theory Mat
  imports Prelude Complex_Main "HOL-Library.Word"
begin

text \<open>
  Matrices as the image filter uses them (\<open>cv::Mat\<close> with \<open>at<T>(row, col)\<close>), the
  machine types of the pixels, and the rules for the nested loops over a matrix.
  An access outside the matrix is undefined behaviour.
\<close>

section \<open>Matrices\<close>

record 'a mat =
  nrows :: int
  ncols :: int
  px :: "int \<Rightarrow> int \<Rightarrow> 'a"

definition in_mat :: "'a mat \<Rightarrow> int \<Rightarrow> int \<Rightarrow> bool" where
  "in_mat m r c \<longleftrightarrow> 0 \<le> r \<and> r < nrows m \<and> 0 \<le> c \<and> c < ncols m"

definition at_px :: "'a mat \<Rightarrow> int \<Rightarrow> int \<Rightarrow> 'a res" where
  "at_px m r c = (if in_mat m r c then Inr (px m r c) else Inl Undefined)"

definition upd :: "'a mat \<Rightarrow> int \<Rightarrow> int \<Rightarrow> 'a \<Rightarrow> 'a mat" where
  "upd m r c v = m\<lparr>px := (px m)(r := (px m r)(c := v))\<rparr>"

definition put_px :: "'a mat \<Rightarrow> int \<Rightarrow> int \<Rightarrow> 'a \<Rightarrow> 'a mat res" where
  "put_px m r c v =
     (if in_mat m r c then Inr (upd m r c v) else Inl Undefined)"

text \<open>\<open>m.row(r).setTo(v)\<close> and \<open>m.col(c).setTo(v)\<close>, for a row and a column of the matrix.\<close>

definition set_row :: "'a mat \<Rightarrow> int \<Rightarrow> 'a \<Rightarrow> 'a mat res" where
  "set_row m r v =
     (if 0 \<le> r \<and> r < nrows m then Inr (m\<lparr>px := (px m)(r := (\<lambda>_. v))\<rparr>) else Inl Undefined)"

definition set_col :: "'a mat \<Rightarrow> int \<Rightarrow> 'a \<Rightarrow> 'a mat res" where
  "set_col m c v =
     (if 0 \<le> c \<and> c < ncols m then Inr (m\<lparr>px := (\<lambda>r. (px m r)(c := v))\<rparr>) else Inl Undefined)"

lemma at_px_in [simp]: "in_mat m r c \<Longrightarrow> at_px m r c = Inr (px m r c)"
  by (simp add: at_px_def)

lemma at_px_out: "\<not> in_mat m r c \<Longrightarrow> at_px m r c = Inl Undefined"
  by (simp add: at_px_def)

lemma put_px_in [simp]:
  "in_mat m r c \<Longrightarrow> put_px m r c v = Inr (upd m r c v)"
  by (simp add: put_px_def)

lemma upd_simps [simp]:
  "nrows (upd m r c v) = nrows m"
  "ncols (upd m r c v) = ncols m"
  "px (upd m r c v) r' c' = (if r' = r \<and> c' = c then v else px m r' c')"
  "in_mat (upd m r c v) r' c' = in_mat m r' c'"
  by (auto simp: upd_def in_mat_def)

lemma in_mat_cong: "nrows m = nrows m' \<Longrightarrow> ncols m = ncols m' \<Longrightarrow> in_mat m r c = in_mat m' r c"
  by (simp add: in_mat_def)

lemma upd_same: "px m r c = v \<Longrightarrow> upd m r c v = m"
  by (cases m) (auto simp: upd_def fun_eq_iff)

text \<open>The four borders set to one value, as the filter does after its loops over the inner pixels.\<close>

definition set_borders :: "'a mat \<Rightarrow> 'a \<Rightarrow> 'a mat res" where
  "set_borders m v =
     rbind (set_row m 0 v) (\<lambda>m.
     rbind (set_row m (nrows m - 1) v) (\<lambda>m.
     rbind (set_col m 0 v) (\<lambda>m.
     set_col m (ncols m - 1) v)))"

definition inner :: "'a mat \<Rightarrow> int \<Rightarrow> int \<Rightarrow> bool" where
  "inner m r c \<longleftrightarrow> 1 \<le> r \<and> r < nrows m - 1 \<and> 1 \<le> c \<and> c < ncols m - 1"

lemma set_borders_run:
  assumes "0 < nrows m" and "0 < ncols m"
  obtains m' where "set_borders m v = Inr m'" and "nrows m' = nrows m" and "ncols m' = ncols m"
    and "\<forall>r c. in_mat m r c \<longrightarrow> px m' r c = (if inner m r c then px m r c else v)"
proof -
  let ?r = "(((px m)(0 := (\<lambda>_. v)))(nrows m - 1 := (\<lambda>_. v)))"
  let ?m = "m\<lparr>px := (\<lambda>r. ((?r r)(0 := v))(ncols m - 1 := v))\<rparr>"
  have "set_borders m v = Inr ?m"
    using assms by (simp add: set_borders_def set_row_def set_col_def)
  then show thesis by (rule that) (auto simp: inner_def in_mat_def)
qed

section \<open>Bytes\<close>

text \<open>
  \<open>static_cast<uint8_t>\<close> of a floating-point number cuts off the fraction; it is
  undefined when the whole part does not fit.
\<close>

definition to_u8 :: "rat \<Rightarrow> 8 word res" where
  "to_u8 x = (if - 1 < x \<and> x < 256 then Inr (word_of_int (if x < 0 then 0 else \<lfloor>x\<rfloor>)) else Inl Undefined)"

lemma byte_bounds: "0 \<le> uint (w :: 8 word)" "uint (w :: 8 word) \<le> 255"
  using uint_bounded [of w] by simp_all

lemma to_u8_in: "0 \<le> x \<Longrightarrow> x < 256 \<Longrightarrow> to_u8 x = Inr (word_of_int \<lfloor>x\<rfloor>)"
  by (simp add: to_u8_def)

section \<open>Loops over a matrix\<close>

lemma rbind_cong [fundef_cong]:
  "m = n \<Longrightarrow> (\<And>x. n = Inr x \<Longrightarrow> f x = g x) \<Longrightarrow> rbind m f = rbind n g"
  by (cases n) simp_all

lemma for_res_cong [fundef_cong]:
  assumes "lo = lo'" and "hi = hi'" and "s = s'"
    and "\<And>i t. lo' \<le> i \<Longrightarrow> i < hi' \<Longrightarrow> f i t = g i t"
  shows "for_res lo hi f s = for_res lo' hi' g s'"
  unfolding assms(1-3) using assms(4)
proof (induction lo' hi' f s' rule: for_res.induct)
  case (1 lo hi f s)
  show ?case
  proof (cases "lo < hi")
    case True
    have "rbind (f lo s) (for_res (lo + 1) hi f) = rbind (g lo s) (for_res (lo + 1) hi g)"
    proof (rule rbind_cong)
      show "f lo s = g lo s" using "1.prems" [of lo s] True by simp
      show "for_res (lo + 1) hi f x = for_res (lo + 1) hi g x" if "g lo s = Inr x" for x
        using "1.IH" [OF True, of x] "1.prems" by simp
    qed
    with True show ?thesis by (simp add: for_res_step)
  next
    case False
    then show ?thesis by simp
  qed
qed

text \<open>The double loop \<open>for (row = r0; row < r1; ++row) for (col = c0; col < c1; ++col)\<close>.\<close>

definition for_px :: "int \<Rightarrow> int \<Rightarrow> int \<Rightarrow> int \<Rightarrow> (int \<Rightarrow> int \<Rightarrow> 's \<Rightarrow> 's res) \<Rightarrow> 's \<Rightarrow> 's res" where
  "for_px r0 r1 c0 c1 body = for_res r0 r1 (\<lambda>row. for_res c0 c1 (\<lambda>col. body row col))"

text \<open>
  Its invariant rule: \<open>P r c s\<close> holds before the round for row \<open>r\<close> and column
  \<open>c\<close>; the end of one row is the start of the next.
\<close>

lemma for_px_inv:
  assumes "r0 \<le> r1" and "c0 \<le> c1" and "P r0 c0 s"
    and step: "\<And>r c s. r0 \<le> r \<Longrightarrow> r < r1 \<Longrightarrow> c0 \<le> c \<Longrightarrow> c < c1 \<Longrightarrow> P r c s \<Longrightarrow>
            \<exists>s'. body r c s = Inr s' \<and> P r (c + 1) s'"
    and wrap: "\<And>r s. r0 \<le> r \<Longrightarrow> r < r1 \<Longrightarrow> P r c1 s \<Longrightarrow> P (r + 1) c0 s"
  shows "\<exists>s'. for_px r0 r1 c0 c1 body s = Inr s' \<and> P r1 c0 s'"
  unfolding for_px_def
proof (rule for_res_inv [where P = "\<lambda>r s. P r c0 s"])
  fix r s assume r: "r0 \<le> r" "r < r1" and P: "P r c0 s"
  have "\<exists>s'. for_res c0 c1 (\<lambda>col. body r col) s = Inr s' \<and> P r c1 s'"
    by (rule for_res_inv) (use assms(2) P step r in auto)
  then show "\<exists>s'. for_res c0 c1 (\<lambda>col. body r col) s = Inr s' \<and> P (r + 1) c0 s'"
    using wrap [OF r] by blast
qed (use assms in auto)

text \<open>The pixels that a raster scan has passed before row \<open>r\<close> and column \<open>c\<close>.\<close>

definition passed :: "int \<Rightarrow> int \<Rightarrow> int \<Rightarrow> int \<Rightarrow> bool" where
  "passed r c r' c' \<longleftrightarrow> r' < r \<or> r' = r \<and> c' < c"

lemma passed_row_end: "c' < n \<Longrightarrow> passed r n r' c' \<longleftrightarrow> r' \<le> r"
  by (auto simp: passed_def)

lemma passed_row_start: "k \<le> c' \<Longrightarrow> passed (r + 1) k r' c' \<longleftrightarrow> r' \<le> r"
  by (auto simp: passed_def)

lemma passed_all: "in_mat m r c \<Longrightarrow> passed (nrows m) 0 r c"
  by (simp add: passed_def in_mat_def)

lemma passed_none: "in_mat m r c \<Longrightarrow> \<not> passed 0 0 r c"
  by (simp add: passed_def in_mat_def)

lemma passed_step: "passed r (c + 1) r' c' \<longleftrightarrow> passed r c r' c' \<or> r' = r \<and> c' = c"
  by (auto simp: passed_def)

end
