(* ===== verification/Blur.thy ===== *)
theory Blur
  imports Mat
begin

text \<open>
  \<open>lib/cannyEdgeFilter/src/cannyEdgeFilter.cpp\<close>: \<open>applyGaussianBlur\<close>, the first
  stage of the edge detector, with its three parts: the image with a border of
  zeros, the kernel, and the weighted sum at every pixel.  The values of
  \<open>double\<close> variables are the rational numbers they hold; memory that the code
  does not initialise is an argument.
\<close>

section \<open>Double precision\<close>

text \<open>
  \<open>db_round\<close> rounds the exact result of an operation to a \<open>double\<close>; \<open>db_exp\<close> and
  \<open>db_pow\<close> are \<open>exp\<close> and \<open>pow\<close>; \<open>db_scale m a\<close> is \<open>m /= a\<close> for a \<open>cv::Mat\<close>.
\<close>

record dbl_lib =
  db_round :: "rat \<Rightarrow> rat"
  db_exp :: "rat \<Rightarrow> rat"
  db_pow :: "rat \<Rightarrow> rat \<Rightarrow> rat"
  db_scale :: "rat mat \<Rightarrow> rat \<Rightarrow> rat mat"

text \<open>
  What the blur relies on: IEEE rounding to nearest keeps the order, is exact on
  integers and has the usual error; \<open>exp\<close> and \<open>pow\<close> are exact at zero and have
  the right sign; dividing a matrix divides its entries, up to a rounding error.
\<close>

locale dbl_api =
  fixes D :: dbl_lib
  assumes round_mono: "x \<le> y \<Longrightarrow> db_round D x \<le> db_round D y"
    and round_zero: "db_round D 0 = 0"
    and round_err: "\<bar>x\<bar> < 2 ^ 1000 \<Longrightarrow> \<bar>db_round D x - x\<bar> \<le> \<bar>x\<bar> / 2 ^ 53 + 1 / 2 ^ 1074"
    and exp_zero: "db_exp D 0 = 1"
    and exp_range: "x \<le> 0 \<Longrightarrow> 0 \<le> db_exp D x \<and> db_exp D x \<le> 1"
    and pow_square: "db_pow D 0 2 = 0 \<and> 0 \<le> db_pow D x 2"
    and scale_shape: "nrows (db_scale D m a) = nrows m \<and> ncols (db_scale D m a) = ncols m"
    and scale_sign: "in_mat m r c \<Longrightarrow> 0 \<le> px m r c \<Longrightarrow> 0 < a \<Longrightarrow> 0 \<le> px (db_scale D m a) r c"
    and scale_err: "in_mat m r c \<Longrightarrow> \<bar>px m r c\<bar> \<le> 1000 \<Longrightarrow> 1 / 1000 \<le> a \<Longrightarrow> a \<le> 1000 \<Longrightarrow>
      \<bar>px (db_scale D m a) r c - px m r c / a\<bar> \<le> 1 / 2 ^ 30"

section \<open>The three parts\<close>

text \<open>\<open>KERNEL_SIZE\<close> and half of it.\<close>

definition KERNEL_SIZE :: int where
  "KERNEL_SIZE = 3"

definition half_kernel_size :: int where
  "half_kernel_size = KERNEL_SIZE div 2"

text \<open>A new matrix whose contents are not initialised.\<close>

definition new_mat :: "int \<Rightarrow> int \<Rightarrow> (int \<Rightarrow> int \<Rightarrow> 'a) \<Rightarrow> 'a mat" where
  "new_mat rows cols junk = \<lparr>nrows = rows, ncols = cols, px = junk\<rparr>"

text \<open>The temporary image: four loops that fill the border, and one that copies the image.\<close>

definition bordered :: "(int \<Rightarrow> int \<Rightarrow> 8 word) \<Rightarrow> 8 word mat \<Rightarrow> 8 word mat res" where
  "bordered junk original =
     (let h = half_kernel_size;
          rows = nrows original + KERNEL_SIZE - 1;
          cols = ncols original + KERNEL_SIZE - 1
      in rbind (for_px 0 h 0 cols (\<lambda>row col m. put_px m row col 0) (new_mat rows cols junk)) (\<lambda>m.
         rbind (for_px (rows - h) rows 0 cols (\<lambda>row col m. put_px m row col 0) m) (\<lambda>m.
         rbind (for_px 0 h 0 rows (\<lambda>col row m. put_px m row col 0) m) (\<lambda>m.
         rbind (for_px (cols - h) cols 0 rows (\<lambda>col row m. put_px m row col 0) m) (\<lambda>m.
         for_px 0 (nrows original) 0 (ncols original) (\<lambda>row col m.
           rbind (at_px original row col) (\<lambda>v. put_px m (row + h) (col + h) v)) m)))))"

text \<open>One entry of the kernel; \<open>kmean\<close> is the whole number \<open>KERNEL_SIZE / 2\<close>.\<close>

definition M_PI :: "dbl_lib \<Rightarrow> rat" where
  "M_PI D = db_round D (314159265358979323846 / 10 ^ 20)"

definition kernel_entry :: "dbl_lib \<Rightarrow> rat \<Rightarrow> int \<Rightarrow> int \<Rightarrow> rat" where
  "kernel_entry D sigma x y =
     (let kmean = of_int (KERNEL_SIZE div 2);
          dx = db_round D (db_round D (of_int x - kmean) / sigma);
          dy = db_round D (db_round D (of_int y - kmean) / sigma);
          e = db_exp D (db_round D (- 1 / 2 * db_round D (db_pow D dx 2 + db_pow D dy 2)))
      in db_round D (e / db_round D (db_round D (db_round D (2 * M_PI D) * sigma) * sigma)))"

definition blur_kernel :: "dbl_lib \<Rightarrow> rat \<Rightarrow> (int \<Rightarrow> int \<Rightarrow> rat) \<Rightarrow> rat mat res" where
  "blur_kernel D sigma junk =
     rbind (for_px 0 KERNEL_SIZE 0 KERNEL_SIZE (\<lambda>x y (kernel, kaccum).
       rbind (put_px kernel x y (kernel_entry D sigma x y)) (\<lambda>kernel.
       rbind (at_px kernel x y) (\<lambda>k. Inr (kernel, db_round D (kaccum + k)))))
       (new_mat KERNEL_SIZE KERNEL_SIZE junk, 0)) (\<lambda>(kernel, kaccum).
     Inr (db_scale D kernel kaccum))"

text \<open>The weighted sum at one pixel of the temporary image.\<close>

definition blur_accum :: "dbl_lib \<Rightarrow> 8 word mat \<Rightarrow> rat mat \<Rightarrow> int \<Rightarrow> int \<Rightarrow> rat res" where
  "blur_accum D image_tmp ker imrow imcol =
     (let h = half_kernel_size in
      for_px (- h) (h + 1) (- h) (h + 1) (\<lambda>krow kcol accum.
        rbind (at_px image_tmp (imrow + krow) (imcol + kcol)) (\<lambda>v.
        rbind (at_px ker (krow + h) (kcol + h)) (\<lambda>k.
        Inr (db_round D (accum + db_round D (of_int (uint v) * k)))))) 0)"

definition applyGaussianBlur ::
    "dbl_lib \<Rightarrow> rat \<Rightarrow> (int \<Rightarrow> int \<Rightarrow> 8 word) \<Rightarrow> (int \<Rightarrow> int \<Rightarrow> rat) \<Rightarrow> 8 word mat \<Rightarrow> 8 word mat \<Rightarrow> 8 word mat res" where
  "applyGaussianBlur D sigma junk_tmp junk_kernel original edges =
     (let h = half_kernel_size in
      rbind (bordered junk_tmp original) (\<lambda>image_tmp.
      rbind (blur_kernel D sigma junk_kernel) (\<lambda>kernel.
      for_px h (nrows image_tmp - h) h (ncols image_tmp - h) (\<lambda>imrow imcol edges.
        rbind (blur_accum D image_tmp kernel imrow imcol) (\<lambda>accum.
        rbind (to_u8 accum) (\<lambda>v. put_px edges (imrow - h) (imcol - h) v))) edges)))"

section \<open>An instance for examples\<close>

text \<open>
  Arithmetic without rounding errors, and a rational function in the place of
  the exponential one.
\<close>

definition exact_dbl :: dbl_lib where
  "exact_dbl = \<lparr>db_round = id, db_exp = (\<lambda>x. if x \<le> 0 then 1 / (1 - x) else 1 + x), db_pow = (\<lambda>x y. x * x),
     db_scale = (\<lambda>m a. m\<lparr>px := (\<lambda>r c. px m r c / a)\<rparr>)\<rparr>"

interpretation exact_dbl: dbl_api exact_dbl
  by unfold_locales (auto simp: exact_dbl_def divide_simps)

end
