(* ===== verification/Canny.thy ===== *)
theory Canny
  imports Mat
begin

text \<open>
  \<open>lib/cannyEdgeFilter/src/cannyEdgeFilter.cpp\<close>: the stages of the edge
  detector after the blur, \<open>sobelOperator\<close>, \<open>nonMaximumSuppression\<close>,
  \<open>checkContours\<close> and \<open>applyLinkingAndHysteresis\<close>.  Pixels are bytes, the
  values of \<open>float\<close> variables are the rational numbers they hold.  What the
  floating-point unit and OpenCV compute is the record \<open>fp_lib\<close>.
\<close>

section \<open>Floating point\<close>

text \<open>
  \<open>fl_round\<close> rounds a real result to a \<open>float\<close>; \<open>fl_sqrt\<close> is \<open>std::sqrt\<close> of a
  number that is an integer here, \<open>fl_atan2\<close> is \<open>std::atan2\<close>; \<open>fl_normalize\<close> is
  \<open>cv::normalize(m, m, 0, 255, NORM_MINMAX)\<close>.
\<close>

record fp_lib =
  fl_round :: "rat \<Rightarrow> rat"
  fl_sqrt :: "int \<Rightarrow> rat"
  fl_atan2 :: "int \<Rightarrow> int \<Rightarrow> rat"
  fl_normalize :: "rat mat \<Rightarrow> rat mat"

text \<open>
  What the stages rely on: rounding and square root keep the order, the square
  root of a square below \<open>2\<^sup>2\<^sup>4\<close> is exact, and normalising keeps the shape.
\<close>

locale fp_api =
  fixes F :: fp_lib
  assumes round_mono: "x \<le> y \<Longrightarrow> fl_round F x \<le> fl_round F y"
    and sqrt_mono: "0 \<le> m \<Longrightarrow> m \<le> n \<Longrightarrow> fl_sqrt F m \<le> fl_sqrt F n"
    and sqrt_square: "0 \<le> n \<Longrightarrow> n < 4096 \<Longrightarrow> fl_sqrt F (n * n) = of_int n"
    and normalize_shape: "nrows (fl_normalize F d) = nrows d \<and> ncols (fl_normalize F d) = ncols d"
begin

lemma sqrt_nonneg: "0 \<le> n \<Longrightarrow> 0 \<le> fl_sqrt F n"
  using sqrt_mono [of 0 n] sqrt_square [of 0] by simp

lemma sqrt_le: "0 \<le> n \<Longrightarrow> 0 \<le> k \<Longrightarrow> k < 4096 \<Longrightarrow> n \<le> k * k \<Longrightarrow> fl_sqrt F n \<le> of_int k"
  using sqrt_mono [of n "k * k"] sqrt_square [of k] by simp

end

section \<open>Sobel operator\<close>

definition table :: "int list list \<Rightarrow> int \<Rightarrow> int \<Rightarrow> int" where
  "table t i j = t ! nat i ! nat j"

definition sobelX :: "int list list" where
  "sobelX = [[-1, 0, 1], [-2, 0, 2], [-1, 0, 1]]"

definition sobelY :: "int list list" where
  "sobelY = [[1, 2, 1], [0, 0, 0], [-1, -2, -1]]"

text \<open>
  The gradients at one pixel.  All sums are integers below \<open>2\<^sup>2\<^sup>4\<close> in absolute
  value, so the \<open>float\<close> variables of the code hold them exactly.
\<close>

definition sobel_pixel :: "8 word mat \<Rightarrow> int \<Rightarrow> int \<Rightarrow> (int \<times> int) res" where
  "sobel_pixel edges rowIndex colIndex =
     for_px (-1) 2 (-1) 2 (\<lambda>kr kc (gx, gy).
       rbind (at_px edges (rowIndex + kr) (colIndex + kc)) (\<lambda>pixelValue.
       Inr (gx + uint pixelValue * table sobelX (kr + 1) (kc + 1),
            gy + uint pixelValue * table sobelY (kr + 1) (kc + 1)))) (0, 0)"

text \<open>
  The matrices of gradients are local to the function and never read, so the
  model leaves them out.  The result is the magnitude and the direction.
\<close>

definition sobelOperator ::
    "fp_lib \<Rightarrow> 8 word mat \<Rightarrow> rat mat \<Rightarrow> rat mat \<Rightarrow> (rat mat \<times> rat mat) res" where
  "sobelOperator F edges magnitude direction =
     rbind (for_px 1 (nrows edges - 1) 1 (ncols edges - 1) (\<lambda>rowIndex colIndex (magnitude, direction).
       rbind (sobel_pixel edges rowIndex colIndex) (\<lambda>(gx, gy).
       rbind (put_px magnitude rowIndex colIndex (fl_sqrt F (gx * gx + gy * gy))) (\<lambda>magnitude.
       rbind (put_px direction rowIndex colIndex (fl_atan2 F gy gx)) (\<lambda>direction.
       Inr (magnitude, direction))))) (magnitude, direction)) (\<lambda>(magnitude, direction).
     rbind (set_borders magnitude 0) (\<lambda>magnitude.
     rbind (set_borders direction 0) (\<lambda>direction.
     Inr (magnitude, fl_normalize F direction))))"

section \<open>Non-maximum suppression\<close>

definition nms_angle :: "fp_lib \<Rightarrow> rat \<Rightarrow> rat" where
  "nms_angle F d =
     (let angle = fl_round F (fl_round F (d - 128) * 180 / 128)
      in if angle < 0 then fl_round F (angle + 180) else angle)"

text \<open>The two pixels to compare with, as offsets; \<open>None\<close> when no branch applies.\<close>

definition nms_neighbors :: "rat \<Rightarrow> ((int \<times> int) \<times> (int \<times> int)) option" where
  "nms_neighbors angle =
     (if 0 \<le> angle \<and> angle < 45 / 2 \<or> 315 / 2 \<le> angle \<and> angle \<le> 180 then Some ((0, 1), (0, -1))
      else if 45 / 2 \<le> angle \<and> angle < 135 / 2 then Some ((1, -1), (-1, 1))
      else if 135 / 2 \<le> angle \<and> angle < 225 / 2 then Some ((1, 0), (-1, 0))
      else if 225 / 2 \<le> angle \<and> angle < 315 / 2 then Some ((-1, -1), (1, 1))
      else None)"

definition nms_pixel :: "fp_lib \<Rightarrow> rat mat \<Rightarrow> rat mat \<Rightarrow> int \<Rightarrow> int \<Rightarrow> 8 word res" where
  "nms_pixel F magnitude direction i j =
     rbind (at_px direction i j) (\<lambda>d.
     rbind (case nms_neighbors (nms_angle F d) of
         None \<Rightarrow> Inr (255, 255)
       | Some ((qi, qj), (ri, rj)) \<Rightarrow>
           rbind (at_px magnitude (i + qi) (j + qj)) (\<lambda>q.
           rbind (at_px magnitude (i + ri) (j + rj)) (\<lambda>r. Inr (q, r)))) (\<lambda>(neighbor_q, neighbor_r).
     rbind (at_px magnitude i j) (\<lambda>central.
     if neighbor_q \<le> central \<and> neighbor_r \<le> central then to_u8 central else Inr 0)))"

definition nonMaximumSuppression ::
    "fp_lib \<Rightarrow> rat mat \<Rightarrow> rat mat \<Rightarrow> 8 word mat \<Rightarrow> 8 word mat res" where
  "nonMaximumSuppression F magnitude direction edges =
     rbind (for_px 1 (nrows magnitude - 1) 1 (ncols magnitude - 1) (\<lambda>i j edges.
       rbind (nms_pixel F magnitude direction i j) (\<lambda>v. put_px edges i j v)) edges) (\<lambda>edges.
     set_borders edges 0)"

section \<open>Linking and hysteresis\<close>

text \<open>
  The recursion follows the contour.  The loops run over \<open>row - 1 \<le> side_row < row + 1\<close>
  and \<open>col - 1 \<le> side_col < col + 1\<close>.
\<close>

function checkContours ::
    "bool mat \<Rightarrow> int \<Rightarrow> int \<Rightarrow> int \<Rightarrow> int \<Rightarrow> bool mat \<times> 8 word mat \<Rightarrow> (bool mat \<times> 8 word mat) res" where
  "checkContours weakEdges row col prevRow prevCol (strongEdges, cannyEdges) =
     rbind (at_px strongEdges row col) (\<lambda>strong.
     if strong then Inr (strongEdges, cannyEdges)
     else rbind (at_px weakEdges row col) (\<lambda>weak.
     rbind (put_px strongEdges row col weak) (\<lambda>strongEdges.
     if \<not> weak then rbind (put_px cannyEdges row col 0) (\<lambda>cannyEdges. Inr (strongEdges, cannyEdges))
     else for_res (row - 1) (row + 1) (\<lambda>side_row. for_res (col - 1) (col + 1) (\<lambda>side_col st.
       if (side_col \<noteq> prevCol \<and> side_row \<noteq> prevRow) \<and> (side_col \<noteq> col \<and> side_row \<noteq> row)
       then checkContours weakEdges side_row side_col row col st
       else Inr st)) (strongEdges, cannyEdges))))"
  by pat_completeness auto
termination
  by (relation "measure (\<lambda>(w, row, col, pr, pc, st). nat (row + 1))")
    (auto simp: at_px_def in_mat_def split: if_splits)

declare checkContours.simps [simp del]

definition zeros :: "int \<Rightarrow> int \<Rightarrow> bool mat" where
  "zeros rows cols = \<lparr>nrows = rows, ncols = cols, px = (\<lambda>_ _. False)\<rparr>"

definition mark_edges :: "rat \<Rightarrow> rat \<Rightarrow> 8 word mat \<Rightarrow> (bool mat \<times> bool mat) res" where
  "mark_edges lowThreshold highThreshold cannyEdges =
     for_px 0 (nrows cannyEdges) 0 (ncols cannyEdges) (\<lambda>row col (strongEdges, weakEdges).
       rbind (at_px cannyEdges row col) (\<lambda>v.
       let pixelValue = of_int (uint v) in
       rbind (put_px strongEdges row col (highThreshold \<le> pixelValue)) (\<lambda>strongEdges.
       rbind (put_px weakEdges row col (lowThreshold \<le> pixelValue)) (\<lambda>weakEdges.
       Inr (strongEdges, weakEdges)))))
       (zeros (nrows cannyEdges) (ncols cannyEdges), zeros (nrows cannyEdges) (ncols cannyEdges))"

definition applyLinkingAndHysteresis :: "rat \<Rightarrow> rat \<Rightarrow> 8 word mat \<Rightarrow> 8 word mat res" where
  "applyLinkingAndHysteresis lowThreshold highThreshold cannyEdges =
     rbind (mark_edges lowThreshold highThreshold cannyEdges) (\<lambda>(strongEdges, weakEdges).
     rbind (for_px 0 (nrows cannyEdges) 0 (ncols cannyEdges) (\<lambda>row col (strongEdges, cannyEdges).
       rbind (at_px strongEdges row col) (\<lambda>strong.
       if strong then Inr (strongEdges, cannyEdges)
       else checkContours weakEdges row col row col (strongEdges, cannyEdges)))
       (strongEdges, cannyEdges)) (\<lambda>(strongEdges, cannyEdges).
     Inr cannyEdges))"

section \<open>A floating-point library for examples\<close>

text \<open>
  A coarse instance of the interface: numbers are kept exactly, roots are cut to
  whole numbers, and normalising scales nothing.
\<close>

definition coarse :: fp_lib where
  "coarse = \<lparr>fl_round = id, fl_sqrt = (\<lambda>n. of_int \<lfloor>sqrt (of_int n)\<rfloor>),
     fl_atan2 = (\<lambda>y x. if x = 0 then 90 else 0), fl_normalize = id\<rparr>"

interpretation coarse_fp: fp_api coarse
proof
  show "fl_sqrt coarse m \<le> fl_sqrt coarse n" if "0 \<le> m" "m \<le> n" for m n
    using that by (auto simp: coarse_def intro!: floor_mono)
  show "fl_sqrt coarse (n * n) = of_int n" if "0 \<le> n" "n < 4096" for n
    using that by (simp add: coarse_def)
qed (simp_all add: coarse_def)

end
