(* ===== verification/Edge.thy ===== *)
theory Edge
  imports Image_Transfer Blur Canny
begin

text \<open>
  The whole edge detection: \<open>cannyEdgeDetection\<close> of
  \<open>lib/cannyEdgeFilter/src/cannyEdgeFilter.cpp\<close>, which loads the image, runs the
  four stages and saves the result, and \<open>start_canny_edge_detection\<close> of
  \<open>src/server.cpp\<close>, which runs it on the satellite image before the server
  accepts clients and compresses the result.
\<close>

text \<open>
  The calls of OpenCV: \<open>io_load\<close> is \<open>imread\<close> in grey scale, where \<open>None\<close> stands for the
  empty image; \<open>io_encode\<close> is the file that \<open>imwrite\<close> writes, or \<open>None\<close> when it fails.
  \<open>io_load\<close> never gives a matrix without rows or columns.
\<close>

record image_io =
  io_load :: "string \<Rightarrow> 8 word mat option"
  io_encode :: "8 word mat \<Rightarrow> string option"

text \<open>
  \<open>imageFileOperations.cpp\<close>.  The one file that the server saves is \<open>EDGE_IMAGE\<close>, the
  field \<open>edge_image\<close> of its state.
\<close>

definition loadImage :: "image_io \<Rightarrow> string \<Rightarrow> 8 word mat option" where
  "loadImage IO filename = io_load IO filename"

definition saveImage :: "image_io \<Rightarrow> 8 word mat \<Rightarrow> (('d, 'm) server_scheme, bool) act" where
  "saveImage IO pic = (\<lambda>s. case io_encode IO pic of
      None \<Rightarrow> (Inr False, s)
    | Some file \<Rightarrow> (Inr True, s\<lparr>edge_image := Some file\<rparr>))"

text \<open>What the memory of the matrices holds before the code writes it.\<close>

record junk_memory =
  junk_bytes :: "int \<Rightarrow> int \<Rightarrow> 8 word"
  junk_edges :: "int \<Rightarrow> int \<Rightarrow> 8 word"
  junk_kernel :: "int \<Rightarrow> int \<Rightarrow> rat"
  junk_floats :: "int \<Rightarrow> int \<Rightarrow> rat"

text \<open>
  The three thresholds and the deviation are the members of an \<open>EdgeDetection\<close>
  object.  The stages print their line first, then work.  Nobody tests whether the
  result could be saved.
\<close>

definition cannyEdgeDetection ::
    "fp_lib \<Rightarrow> dbl_lib \<Rightarrow> image_io \<Rightarrow> junk_memory \<Rightarrow> rat \<Rightarrow> rat \<Rightarrow> rat \<Rightarrow> string
     \<Rightarrow> (('d, 'm) server_scheme, unit) act" where
  "cannyEdgeDetection F D IO U lowThreshold highThreshold sigma inputImage =
     (case loadImage IO inputImage of
        None \<Rightarrow> halt (Throw RuntimeError)
      | Some original \<Rightarrow>
          let rows = nrows original; cols = ncols original in
          thn (say '' Process started with 4 threads.'')
         (thn (say '' 1/4: Applying Gaussian Blur'')
         (bnd (of_res (applyGaussianBlur D sigma (junk_bytes U) (junk_kernel U) original
                 (new_mat rows cols (junk_edges U)))) (\<lambda>edges.
          thn (say '' 2/4: Sobel operator.'')
         (bnd (of_res (sobelOperator F edges (new_mat rows cols (junk_floats U)) (new_mat rows cols (junk_floats U))))
           (\<lambda>(magnitude, direction).
          thn (say ''3/4: Non maximum suppression.'')
         (bnd (of_res (nonMaximumSuppression F magnitude direction edges)) (\<lambda>edges.
          thn (say '' 4/4: Applying linking and hysteresis.'')
         (bnd (of_res (applyLinkingAndHysteresis lowThreshold highThreshold edges)) (\<lambda>edges.
          bnd (saveImage IO edges) (\<lambda>_. ret ())))))))))))"

definition start_canny_edge_detection ::
    "fp_lib \<Rightarrow> dbl_lib \<Rightarrow> image_io \<Rightarrow> junk_memory \<Rightarrow> ('w, 'r) gz_lib \<Rightarrow> (('d, 'm) server_scheme, unit) act" where
  "start_canny_edge_detection F D IO U G =
     thn (say ''[EDGE] Canny edge detection started.'')
    (thn (cannyEdgeDetection F D IO U 50 150 1 ''../canny_imgs/Satellite2.tif'')
    (thn (say ''[EDGE] Canny edge detection applied successfully.'')
         (compress_image G)))"

text \<open>
  \<open>main\<close> of \<open>lib/cannyEdgeFilter/src/main.cpp\<close>, with its exit status.  Here \<open>edge_image\<close>
  stands for the one file that this program saves, \<open>output.jpg\<close>; the rest of the state is
  not used.
\<close>

definition edge_main :: "fp_lib \<Rightarrow> dbl_lib \<Rightarrow> image_io \<Rightarrow> junk_memory \<Rightarrow> (('d, 'm) server_scheme, int) act" where
  "edge_main F D IO U = bnd (cannyEdgeDetection F D IO U 40 80 1 ''../img/canny.png'') (\<lambda>_. ret 0)"

end
