(* ===== verification/Canny_Props.thy ===== *)
theory Canny_Props
  imports Canny
begin

text \<open>
  The properties of the edge detector: the bounds of the Sobel gradients and the
  shape of its result, what non-maximum suppression keeps, and that the linking
  step is a single threshold.
\<close>

section \<open>Marking\<close>

definition level :: "8 word mat \<Rightarrow> int \<Rightarrow> int \<Rightarrow> rat" where
  "level m r c = of_int (uint (px m r c))"

lemma mark_edges_run:
  assumes "0 \<le> nrows m" and "0 \<le> ncols m"
  obtains strong weak where "mark_edges lo hi m = Inr (strong, weak)"
    and "nrows strong = nrows m" and "ncols strong = ncols m"
    and "nrows weak = nrows m" and "ncols weak = ncols m"
    and "\<forall>r c. in_mat m r c \<longrightarrow> px strong r c = (hi \<le> level m r c)"
    and "\<forall>r c. in_mat m r c \<longrightarrow> px weak r c = (lo \<le> level m r c)"
proof -
  define P where "P r c = (\<lambda>(strong :: bool mat, weak :: bool mat).
    nrows strong = nrows m \<and> ncols strong = ncols m \<and> nrows weak = nrows m \<and> ncols weak = ncols m \<and>
    (\<forall>r' c'. in_mat m r' c' \<longrightarrow> passed r c r' c' \<longrightarrow>
       px strong r' c' = (hi \<le> level m r' c') \<and> px weak r' c' = (lo \<le> level m r' c')))" for r c
  have "\<exists>s'. mark_edges lo hi m = Inr s' \<and> P (nrows m) 0 s'"
    unfolding mark_edges_def
  proof (rule for_px_inv)
    show "P 0 0 (zeros (nrows m) (ncols m), zeros (nrows m) (ncols m))"
      by (auto simp: P_def zeros_def passed_def in_mat_def)
  next
    fix r c and s :: "bool mat \<times> bool mat"
    assume rc: "0 \<le> r" "r < nrows m" "0 \<le> c" "c < ncols m" and "P r c s"
    moreover obtain strong weak where s: "s = (strong, weak)" by fastforce
    ultimately show "\<exists>s'. (case s of (strongEdges, weakEdges) \<Rightarrow>
        rbind (at_px m r c) (\<lambda>v. let pixelValue = of_int (uint v) in
        rbind (put_px strongEdges r c (hi \<le> pixelValue)) (\<lambda>strongEdges.
        rbind (put_px weakEdges r c (lo \<le> pixelValue)) (\<lambda>weakEdges.
        Inr (strongEdges, weakEdges))))) = Inr s' \<and> P r (c + 1) s'"
      by (auto simp: P_def in_mat_def put_px_def at_px_def level_def passed_step Let_def)
  next
    fix r and s :: "bool mat \<times> bool mat" assume "0 \<le> r" "r < nrows m" "P r (ncols m) s"
    then show "P (r + 1) 0 s" by (auto simp: P_def passed_row_end passed_row_start in_mat_def)
  qed (use assms in auto)
  then obtain strong weak where e: "mark_edges lo hi m = Inr (strong, weak)" and P: "P (nrows m) 0 (strong, weak)"
    by fastforce
  from P have "\<forall>r c. in_mat m r c \<longrightarrow> px strong r c = (hi \<le> level m r c)"
    "\<forall>r c. in_mat m r c \<longrightarrow> px weak r c = (lo \<le> level m r c)"
    by (auto simp: P_def passed_def in_mat_def)
  with e P show thesis by (intro that) (simp_all add: P_def)
qed

section \<open>Following a contour\<close>

lemma checkContours_strong:
  "in_mat strong r c \<Longrightarrow> px strong r c \<Longrightarrow> checkContours weak r c pr pc (strong, canny) = Inr (strong, canny)"
  by (simp add: checkContours.simps)

lemma checkContours_clear:
  assumes "in_mat strong r c" and "in_mat weak r c" and "in_mat canny r c"
    and "\<not> px strong r c" and "\<not> px weak r c"
  shows "checkContours weak r c pr pc (strong, canny) = Inr (strong, upd canny r c 0)"
  using assms upd_same [of strong r c False] by (simp add: checkContours.simps)

text \<open>
  On a weak pixel the nested loops come to one recursive call, on the pixel above
  and to the left: the bounds exclude the row below and the column to the right,
  and the condition excludes the pixel's own row and column.
\<close>

lemma checkContours_weak:
  assumes "in_mat strong r c" and "in_mat weak r c" and "\<not> px strong r c" and "px weak r c"
  shows "checkContours weak r c r c (strong, canny) =
    checkContours weak (r - 1) (c - 1) r c (upd strong r c True, canny)"
  using assms
  by (subst checkContours.simps) (simp add: for_res_step rbind_def split: sum.split)

text \<open>The state of the second loop before the round for row \<open>r\<close> and column \<open>c\<close>.\<close>

definition linked :: "rat \<Rightarrow> rat \<Rightarrow> 8 word mat \<Rightarrow> int \<Rightarrow> int \<Rightarrow> bool mat \<times> 8 word mat \<Rightarrow> bool" where
  "linked lo hi m r c = (\<lambda>(strong, canny).
     nrows strong = nrows m \<and> ncols strong = ncols m \<and> nrows canny = nrows m \<and> ncols canny = ncols m \<and>
     (\<forall>r' c'. in_mat m r' c' \<longrightarrow>
        px strong r' c' = (hi \<le> level m r' c' \<or> passed r c r' c' \<and> lo \<le> level m r' c') \<and>
        px canny r' c' = (if passed r c r' c' \<and> \<not> hi \<le> level m r' c' \<and> \<not> lo \<le> level m r' c' then 0 else px m r' c')))"

definition zero_border :: "8 word mat \<Rightarrow> bool" where
  "zero_border m \<longleftrightarrow> (\<forall>r c. in_mat m r c \<and> \<not> inner m r c \<longrightarrow> px m r c = 0)"

lemma level_border: "zero_border m \<Longrightarrow> in_mat m r c \<Longrightarrow> 0 < level m r c \<Longrightarrow> inner m r c"
  by (rule ccontr) (simp add: zero_border_def level_def)

lemma linked_step:
  assumes "linked lo hi m r c (strong, canny)" and "in_mat m r c" and "zero_border m" and "0 < lo"
    and "nrows weak = nrows m" and "ncols weak = ncols m"
    and "\<forall>r c. in_mat m r c \<longrightarrow> px weak r c = (lo \<le> level m r c)"
  shows "\<exists>st. rbind (at_px strong r c) (\<lambda>b. if b then Inr (strong, canny)
       else checkContours weak r c r c (strong, canny)) = Inr st \<and> linked lo hi m r (c + 1) st"
proof -
  from assms(1,5,6) have dims: "in_mat strong r' c' = in_mat m r' c'" "in_mat weak r' c' = in_mat m r' c'"
    "in_mat canny r' c' = in_mat m r' c'" for r' c'
    by (auto simp: linked_def in_mat_def)
  have here: "px strong r c = (hi \<le> level m r c)" "px weak r c = (lo \<le> level m r c)"
    using assms(1,2,7) by (auto simp: linked_def passed_def)
  consider "px strong r c" | "\<not> px strong r c" "\<not> px weak r c" | "\<not> px strong r c" "px weak r c" by blast
  then show ?thesis
  proof cases
    case 1
    with here assms(1,2) have "linked lo hi m r (c + 1) (strong, canny)"
      by (auto simp: linked_def passed_step)
    with 1 assms(2) show ?thesis by (simp add: dims)
  next
    case 2
    with here assms(1,2) have "linked lo hi m r (c + 1) (strong, upd canny r c 0)"
      by (auto simp: linked_def passed_step)
    with 2 assms(2) show ?thesis by (simp add: dims checkContours_clear)
  next
    case 3
    from here 3 assms(2-4) have "inner m r c" by (intro level_border) auto
    then have diag: "in_mat m (r - 1) (c - 1)" "passed r c (r - 1) (c - 1)"
      by (auto simp: inner_def in_mat_def passed_def)
    let ?strong = "upd strong r c True"
    have upd: "linked lo hi m r (c + 1) (?strong, canny)"
      using here 3 assms(1,2) by (auto simp: linked_def passed_step)
    have d: "px ?strong (r - 1) (c - 1) = (hi \<le> level m (r - 1) (c - 1) \<or> lo \<le> level m (r - 1) (c - 1))"
      "\<not> px ?strong (r - 1) (c - 1) \<Longrightarrow> px canny (r - 1) (c - 1) = 0"
      using assms(1) diag by (auto simp: linked_def)
    have "checkContours weak (r - 1) (c - 1) r c (?strong, canny) = Inr (?strong, canny)"
    proof (cases "px ?strong (r - 1) (c - 1)")
      case True
      then show ?thesis using diag(1) by (intro checkContours_strong) (simp_all add: dims)
    next
      case False
      with d(1) assms(7) diag(1) have "\<not> px weak (r - 1) (c - 1)" by blast
      with False diag(1) have "checkContours weak (r - 1) (c - 1) r c (?strong, canny) =
          Inr (?strong, upd canny (r - 1) (c - 1) 0)"
        by (intro checkContours_clear) (simp_all add: dims)
      with d(2) [OF False] show ?thesis by (simp add: upd_same)
    qed
    with upd 3 assms(2) show ?thesis by (simp add: dims checkContours_weak)
  qed
qed

section \<open>Gradients\<close>

definition grad_x :: "8 word mat \<Rightarrow> int \<Rightarrow> int \<Rightarrow> int" where
  "grad_x m r c =
     (uint (px m (r - 1) (c + 1)) + 2 * uint (px m r (c + 1)) + uint (px m (r + 1) (c + 1))) -
     (uint (px m (r - 1) (c - 1)) + 2 * uint (px m r (c - 1)) + uint (px m (r + 1) (c - 1)))"

definition grad_y :: "8 word mat \<Rightarrow> int \<Rightarrow> int \<Rightarrow> int" where
  "grad_y m r c =
     (uint (px m (r - 1) (c - 1)) + 2 * uint (px m (r - 1) c) + uint (px m (r - 1) (c + 1))) -
     (uint (px m (r + 1) (c - 1)) + 2 * uint (px m (r + 1) c) + uint (px m (r + 1) (c + 1)))"

lemma grad_bounds: "\<bar>grad_x m r c\<bar> \<le> 1020" "\<bar>grad_y m r c\<bar> \<le> 1020"
  using byte_bounds [of "px m (r - 1) (c + 1)"] byte_bounds [of "px m r (c + 1)"]
    byte_bounds [of "px m (r + 1) (c + 1)"] byte_bounds [of "px m (r - 1) (c - 1)"]
    byte_bounds [of "px m r (c - 1)"] byte_bounds [of "px m (r + 1) (c - 1)"]
    byte_bounds [of "px m (r - 1) c"] byte_bounds [of "px m (r + 1) c"]
  unfolding grad_x_def grad_y_def by linarith+

lemma grad_squares: "grad_x m r c * grad_x m r c + grad_y m r c * grad_y m r c \<le> 1443 * 1443"
proof -
  have "x * x \<le> 1020 * 1020" if "\<bar>x\<bar> \<le> 1020" for x :: int
    using mult_mono [OF that that] by (simp add: abs_mult_self_eq)
  from this [OF grad_bounds(1) [of m r c]] this [OF grad_bounds(2) [of m r c]] show ?thesis by linarith
qed

text \<open>On dark pixels the gradient is small.\<close>

lemma grad_small:
  assumes "\<forall>i \<in> {- 1, 0, 1}. \<forall>j \<in> {- 1, 0, 1}. uint (px m (r + i) (c + j)) \<le> h"
  shows "grad_x m r c * grad_x m r c + grad_y m r c * grad_y m r c \<le> 32 * (h * h)"
proof -
  have le: "uint (px m (r - 1) (c - 1)) \<le> h" "uint (px m (r - 1) c) \<le> h" "uint (px m (r - 1) (c + 1)) \<le> h"
    "uint (px m r (c - 1)) \<le> h" "uint (px m r (c + 1)) \<le> h"
    "uint (px m (r + 1) (c - 1)) \<le> h" "uint (px m (r + 1) c) \<le> h" "uint (px m (r + 1) (c + 1)) \<le> h"
    using assms by simp_all
  have n: "\<bar>grad_x m r c\<bar> \<le> 4 * h" "\<bar>grad_y m r c\<bar> \<le> 4 * h"
    using le byte_bounds(1) [of "px m (r - 1) (c + 1)"] byte_bounds(1) [of "px m r (c + 1)"]
      byte_bounds(1) [of "px m (r + 1) (c + 1)"] byte_bounds(1) [of "px m (r - 1) (c - 1)"]
      byte_bounds(1) [of "px m r (c - 1)"] byte_bounds(1) [of "px m (r + 1) (c - 1)"]
      byte_bounds(1) [of "px m (r - 1) c"] byte_bounds(1) [of "px m (r + 1) c"]
    unfolding grad_x_def grad_y_def by linarith+
  have "x * x \<le> (4 * h) * (4 * h)" if "\<bar>x\<bar> \<le> 4 * h" for x :: int
    using mult_mono [OF that that] that by (simp add: abs_mult_self_eq)
  from this [OF n(1)] this [OF n(2)] show ?thesis by (simp add: algebra_simps)
qed

lemma sobel_pixel_run:
  assumes "inner edges r c"
  shows "sobel_pixel edges r c = Inr (grad_x edges r c, grad_y edges r c)"
proof -
  have "in_mat edges (r - 1) (c - 1)" "in_mat edges (r - 1) c" "in_mat edges (r - 1) (c + 1)"
    "in_mat edges r (c - 1)" "in_mat edges r c" "in_mat edges r (c + 1)"
    "in_mat edges (r + 1) (c - 1)" "in_mat edges (r + 1) c" "in_mat edges (r + 1) (c + 1)"
    using assms by (auto simp: inner_def in_mat_def)
  then show ?thesis
    unfolding sobel_pixel_def for_px_def
    by (simp add: for_res_step table_def sobelX_def sobelY_def grad_x_def grad_y_def)
qed

lemma sobel_loop:
  assumes "2 \<le> nrows edges" and "2 \<le> ncols edges"
    and "nrows mag = nrows edges" and "ncols mag = ncols edges"
    and "nrows dir = nrows edges" and "ncols dir = ncols edges"
  obtains mag' dir' where
    "sobelOperator F edges mag dir = Inr (mag', fl_normalize F dir')"
    and "nrows mag' = nrows edges" and "ncols mag' = ncols edges"
    and "nrows dir' = nrows edges" and "ncols dir' = ncols edges"
    and "\<forall>r c. in_mat edges r c \<longrightarrow> px mag' r c = (if inner edges r c
       then fl_sqrt F (grad_x edges r c * grad_x edges r c + grad_y edges r c * grad_y edges r c) else 0) \<and>
       px dir' r c = (if inner edges r c then fl_atan2 F (grad_y edges r c) (grad_x edges r c) else 0)"
proof -
  define M where "M r c = fl_sqrt F (grad_x edges r c * grad_x edges r c + grad_y edges r c * grad_y edges r c)" for r c
  define D where "D r c = fl_atan2 F (grad_y edges r c) (grad_x edges r c)" for r c
  define P where "P r c = (\<lambda>(mag :: rat mat, dir :: rat mat).
    nrows mag = nrows edges \<and> ncols mag = ncols edges \<and> nrows dir = nrows edges \<and> ncols dir = ncols edges \<and>
    (\<forall>r' c'. inner edges r' c' \<longrightarrow> passed r c r' c' \<longrightarrow> px mag r' c' = M r' c' \<and> px dir r' c' = D r' c'))" for r c
  let ?body = "\<lambda>rowIndex colIndex (magnitude, direction).
       rbind (sobel_pixel edges rowIndex colIndex) (\<lambda>(gx, gy).
       rbind (put_px magnitude rowIndex colIndex (fl_sqrt F (gx * gx + gy * gy))) (\<lambda>magnitude.
       rbind (put_px direction rowIndex colIndex (fl_atan2 F gy gx)) (\<lambda>direction.
       Inr (magnitude, direction))))"
  have "\<exists>s. for_px 1 (nrows edges - 1) 1 (ncols edges - 1) ?body (mag, dir) = Inr s \<and> P (nrows edges - 1) 1 s"
  proof (rule for_px_inv)
    show "P 1 1 (mag, dir)" using assms by (auto simp: P_def passed_def inner_def)
  next
    fix r c s assume rc: "1 \<le> r" "r < nrows edges - 1" "1 \<le> c" "c < ncols edges - 1" and P: "P r c s"
    obtain a b where s: "s = (a, b)" by fastforce
    have i: "inner edges r c" using rc by (simp add: inner_def)
    with P s have m: "in_mat a r c" "in_mat b r c" by (auto simp: P_def inner_def in_mat_def)
    show "\<exists>s'. ?body r c s = Inr s' \<and> P r (c + 1) s'"
      using P s by (auto simp: sobel_pixel_run [OF i] m P_def passed_step M_def D_def)
  next
    fix r s assume "1 \<le> r" "r < nrows edges - 1" "P r (ncols edges - 1) s"
    then show "P (r + 1) 1 s" by (auto simp: P_def passed_row_end passed_row_start inner_def)
  qed (use assms in auto)
  then obtain mag1 dir1 where l: "for_px 1 (nrows edges - 1) 1 (ncols edges - 1) ?body (mag, dir) = Inr (mag1, dir1)"
    "P (nrows edges - 1) 1 (mag1, dir1)" by fastforce
  from l(2) assms have dims: "nrows mag1 = nrows edges" "ncols mag1 = ncols edges"
    "nrows dir1 = nrows edges" "ncols dir1 = ncols edges" by (auto simp: P_def)
  obtain mag2 where m2: "set_borders mag1 0 = Inr mag2" "nrows mag2 = nrows mag1" "ncols mag2 = ncols mag1"
    "\<forall>r c. in_mat mag1 r c \<longrightarrow> px mag2 r c = (if inner mag1 r c then px mag1 r c else 0)"
    using assms dims by (rule_tac m = mag1 and v = 0 in set_borders_run) auto
  obtain dir2 where d2: "set_borders dir1 0 = Inr dir2" "nrows dir2 = nrows dir1" "ncols dir2 = ncols dir1"
    "\<forall>r c. in_mat dir1 r c \<longrightarrow> px dir2 r c = (if inner dir1 r c then px dir1 r c else 0)"
    using assms dims by (rule_tac m = dir1 and v = 0 in set_borders_run) auto
  have "sobelOperator F edges mag dir = Inr (mag2, fl_normalize F dir2)"
    using l(1) m2(1) d2(1) by (simp add: sobelOperator_def)
  moreover have "\<forall>r c. in_mat edges r c \<longrightarrow> px mag2 r c = (if inner edges r c then M r c else 0) \<and>
      px dir2 r c = (if inner edges r c then D r c else 0)"
    using m2(4) d2(4) l(2) dims by (auto simp: P_def in_mat_def inner_def passed_def)
  ultimately show thesis using m2(2,3) d2(2,3) dims by (intro that [of mag2 dir2]) (simp_all add: M_def D_def)
qed

section \<open>Suppression\<close>

text \<open>The two neighbours lie opposite each other, next to the pixel.\<close>

lemma nms_neighbors_opposite:
  "nms_neighbors a = Some ((qi, qj), (ri, rj)) \<Longrightarrow>
     ri = - qi \<and> rj = - qj \<and> qi \<in> {- 1, 0, 1} \<and> qj \<in> {- 1, 0, 1} \<and> (qi, qj) \<noteq> (0, 0)"
  by (auto simp: nms_neighbors_def split: if_splits)

lemma for_res_only_undefined:
  "\<forall>i s e. body i s = Inl e \<longrightarrow> e = Undefined \<Longrightarrow> for_res lo hi body s = Inl e \<Longrightarrow> e = Undefined"
proof (induction lo hi body s rule: for_res.induct)
  case (1 lo hi body s)
  show ?case
  proof (cases "lo < hi")
    case True
    with 1 show ?thesis by (cases "body lo s") (auto simp: for_res_step)
  next
    case False
    with 1 show ?thesis by simp
  qed
qed

lemma for_res_hits_undefined:
  "\<forall>i s e. body i s = Inl e \<longrightarrow> e = Undefined \<Longrightarrow> lo \<le> k \<Longrightarrow> k < hi \<Longrightarrow> \<forall>s. body k s = Inl Undefined \<Longrightarrow>
   for_res lo hi body s = Inl Undefined"
proof (induction lo hi body s rule: for_res.induct)
  case (1 lo hi body s)
  from "1.prems"(2,3) have lt: "lo < hi" by simp
  show ?case
  proof (cases "body lo s")
    case (Inl e)
    with "1.prems"(1) lt show ?thesis by (auto simp: for_res_step)
  next
    case (Inr t)
    with "1.prems"(4) have "k \<noteq> lo" by auto
    with "1.prems"(2) have "lo + 1 \<le> k" by simp
    from "1.IH" [OF lt "1.prems"(1) this "1.prems"(3,4), of t] Inr lt show ?thesis
      by (simp add: for_res_step)
  qed
qed

lemma nms_pixel_errors: "nms_pixel F mag dir i j = Inl e \<Longrightarrow> e = Undefined"
  by (auto simp: nms_pixel_def at_px_def to_u8_def rbind_def split: sum.splits if_splits option.splits prod.splits)

definition nms_keeps :: "fp_lib \<Rightarrow> rat mat \<Rightarrow> rat mat \<Rightarrow> int \<Rightarrow> int \<Rightarrow> bool" where
  "nms_keeps F mag dir r c \<longleftrightarrow>
     (case nms_neighbors (nms_angle F (px dir r c)) of
        None \<Rightarrow> 255 \<le> px mag r c
      | Some ((qi, qj), (ri, rj)) \<Rightarrow>
          px mag (r + qi) (c + qj) \<le> px mag r c \<and> px mag (r + ri) (c + rj) \<le> px mag r c)"

lemma nms_pixel_run:
  assumes "inner mag r c" and "nrows dir = nrows mag" and "ncols dir = ncols mag"
  shows "nms_pixel F mag dir r c = (if nms_keeps F mag dir r c then to_u8 (px mag r c) else Inr 0)"
proof -
  have m: "in_mat mag r c" "in_mat dir r c" using assms by (auto simp: inner_def in_mat_def)
  show ?thesis
  proof (cases "nms_neighbors (nms_angle F (px dir r c))")
    case None
    with m show ?thesis by (simp add: nms_pixel_def nms_keeps_def)
  next
    case (Some n)
    obtain qi qj ri rj where n: "n = ((qi, qj), (ri, rj))" by (metis prod.exhaust)
    from nms_neighbors_opposite [OF Some [unfolded n]] assms(1)
    have "in_mat mag (r + qi) (c + qj)" "in_mat mag (r + ri) (c + rj)"
      by (auto simp: inner_def in_mat_def)
    with m Some n show ?thesis by (simp add: nms_pixel_def nms_keeps_def)
  qed
qed

definition nms_value :: "fp_lib \<Rightarrow> rat mat \<Rightarrow> rat mat \<Rightarrow> int \<Rightarrow> int \<Rightarrow> 8 word" where
  "nms_value F mag dir r c = (if nms_keeps F mag dir r c then word_of_int \<lfloor>px mag r c\<rfloor> else 0)"

lemma nms_pixel_value:
  assumes "inner mag r c" and "nrows dir = nrows mag" and "ncols dir = ncols mag" and "0 \<le> px mag r c" and "px mag r c < 256"
  shows "nms_pixel F mag dir r c = Inr (nms_value F mag dir r c)"
  using assms by (simp add: nms_pixel_run nms_value_def to_u8_in)

text \<open>The whole matrix after the loop.\<close>

definition nms_filled :: "fp_lib \<Rightarrow> rat mat \<Rightarrow> rat mat \<Rightarrow> (int \<Rightarrow> int \<Rightarrow> bool) \<Rightarrow> 8 word mat \<Rightarrow> 8 word mat" where
  "nms_filled F mag dir D edges = edges\<lparr>px := (\<lambda>r c. if D r c then nms_value F mag dir r c else px edges r c)\<rparr>"

lemma nms_loop:
  assumes "2 \<le> nrows mag" and "2 \<le> ncols mag" and "nrows dir = nrows mag" and "ncols dir = ncols mag"
    and "nrows edges = nrows mag" and "ncols edges = ncols mag"
    and "\<forall>r c. inner mag r c \<longrightarrow> 0 \<le> px mag r c \<and> px mag r c < 256"
  shows "for_px 1 (nrows mag - 1) 1 (ncols mag - 1)
    (\<lambda>i j edges. rbind (nms_pixel F mag dir i j) (\<lambda>v. put_px edges i j v)) edges = Inr (nms_filled F mag dir (inner mag) edges)"
proof -
  define P where "P r c e \<longleftrightarrow> e = nms_filled F mag dir (\<lambda>r' c'. inner mag r' c' \<and> passed r c r' c') edges" for r c e
  let ?body = "\<lambda>i j edges. rbind (nms_pixel F mag dir i j) (\<lambda>v. put_px edges i j v)"
  have "\<exists>e. for_px 1 (nrows mag - 1) 1 (ncols mag - 1) ?body edges = Inr e \<and> P (nrows mag - 1) 1 e"
  proof (rule for_px_inv)
    have "(\<lambda>r' c'. inner mag r' c' \<and> passed 1 1 r' c') = (\<lambda>_ _. False)" by (auto simp: passed_def inner_def fun_eq_iff)
    then show "P 1 1 edges" by (simp add: P_def nms_filled_def)
  next
    fix r c e assume rc: "1 \<le> r" "r < nrows mag - 1" "1 \<le> c" "c < ncols mag - 1" and P: "P r c e"
    have i: "inner mag r c" using rc by (simp add: inner_def)
    have m: "in_mat e r c" using i P assms(5,6) by (simp add: P_def nms_filled_def inner_def in_mat_def)
    have "upd e r c (nms_value F mag dir r c) = nms_filled F mag dir (\<lambda>r' c'. inner mag r' c' \<and> passed r (c + 1) r' c') edges"
      using P i by (auto simp: P_def upd_def nms_filled_def passed_step fun_eq_iff)
    with m show "\<exists>e'. ?body r c e = Inr e' \<and> P r (c + 1) e'"
      using assms(7) i by (simp add: nms_pixel_value [OF i assms(3,4)] P_def)
  next
    fix r e assume "1 \<le> r" "r < nrows mag - 1" "P r (ncols mag - 1) e"
    moreover have "(\<lambda>r' c'. inner mag r' c' \<and> passed r (ncols mag - 1) r' c') =
        (\<lambda>r' c'. inner mag r' c' \<and> passed (r + 1) 1 r' c')"
      by (auto simp: passed_row_end passed_row_start inner_def fun_eq_iff)
    ultimately show "P (r + 1) 1 e" by (simp add: P_def)
  qed (use assms in auto)
  moreover have "(\<lambda>r' c'. inner mag r' c' \<and> passed (nrows mag - 1) 1 r' c') = inner mag"
    by (auto simp: inner_def passed_def fun_eq_iff)
  ultimately show ?thesis by (simp add: P_def)
qed

lemma nms_run:
  assumes "2 \<le> nrows mag" and "2 \<le> ncols mag" and "nrows dir = nrows mag" and "ncols dir = ncols mag"
    and "nrows edges = nrows mag" and "ncols edges = ncols mag"
    and "\<forall>r c. inner mag r c \<longrightarrow> 0 \<le> px mag r c \<and> px mag r c < 256"
  obtains out where "nonMaximumSuppression F mag dir edges = Inr out"
    and "nrows out = nrows mag" and "ncols out = ncols mag" and "zero_border out"
    and "\<forall>r c. inner mag r c \<longrightarrow>
       px out r c = (if nms_keeps F mag dir r c then word_of_int \<lfloor>px mag r c\<rfloor> else 0)"
proof -
  let ?e = "nms_filled F mag dir (inner mag) edges"
  have dims: "nrows ?e = nrows mag" "ncols ?e = ncols mag" using assms(5,6) by (simp_all add: nms_filled_def)
  obtain out where o: "set_borders ?e 0 = Inr out" "nrows out = nrows ?e" "ncols out = ncols ?e"
    "\<forall>r c. in_mat ?e r c \<longrightarrow> px out r c = (if inner ?e r c then px ?e r c else 0)"
    using assms(1,2) dims by (rule_tac m = ?e and v = 0 in set_borders_run) auto
  have "nonMaximumSuppression F mag dir edges = Inr out"
    using nms_loop [OF assms, of F] o(1) by (simp add: nonMaximumSuppression_def)
  moreover have "zero_border out" using o dims by (auto simp: zero_border_def in_mat_def inner_def)
  moreover have "\<forall>r c. inner mag r c \<longrightarrow> px out r c = nms_value F mag dir r c"
    using o(4) dims by (auto simp: inner_def in_mat_def nms_filled_def)
  ultimately show thesis using o(2,3) dims by (intro that [of out]) (simp_all add: nms_value_def)
qed

lemma hysteresis_threshold:
  assumes "0 \<le> nrows m" and "0 \<le> ncols m" and "zero_border m" and "0 < lo"
  shows "\<exists>out. applyLinkingAndHysteresis lo hi m = Inr out \<and> nrows out = nrows m \<and> ncols out = ncols m \<and>
    (\<forall>r c. in_mat m r c \<longrightarrow>
       px out r c = (if lo \<le> level m r c \<or> hi \<le> level m r c then px m r c else 0))"
proof -
  obtain strong weak where mk: "mark_edges lo hi m = Inr (strong, weak)"
    "nrows strong = nrows m" "ncols strong = ncols m" "nrows weak = nrows m" "ncols weak = ncols m"
    "\<forall>r c. in_mat m r c \<longrightarrow> px strong r c = (hi \<le> level m r c)"
    "\<forall>r c. in_mat m r c \<longrightarrow> px weak r c = (lo \<le> level m r c)"
    by (rule mark_edges_run [OF assms(1,2)])
  let ?body = "\<lambda>row col (strong, canny). rbind (at_px strong row col) (\<lambda>b.
      if b then Inr (strong, canny) else checkContours weak row col row col (strong, canny))"
  have "\<exists>st. for_px 0 (nrows m) 0 (ncols m) ?body (strong, m) = Inr st \<and> linked lo hi m (nrows m) 0 st"
  proof (rule for_px_inv)
    show "linked lo hi m 0 0 (strong, m)" using mk by (auto simp: linked_def passed_none)
  next
    fix r c st assume rc: "0 \<le> r" "r < nrows m" "0 \<le> c" "c < ncols m" "linked lo hi m r c st"
    obtain a b where st: "st = (a, b)" by fastforce
    have "in_mat m r c" using rc by (simp add: in_mat_def)
    with linked_step [of lo hi m r c a b weak] assms(3,4) mk(4,5,7) rc(5) st
    show "\<exists>st'. ?body r c st = Inr st' \<and> linked lo hi m r (c + 1) st'" by simp
  next
    fix r st assume "0 \<le> r" "r < nrows m" "linked lo hi m r (ncols m) st"
    then show "linked lo hi m (r + 1) 0 st"
      by (cases st) (auto simp: linked_def passed_row_end passed_row_start in_mat_def)
  qed (use assms in auto)
  then obtain strong' out where l: "for_px 0 (nrows m) 0 (ncols m) ?body (strong, m) = Inr (strong', out)"
    "linked lo hi m (nrows m) 0 (strong', out)" by fastforce
  then have "applyLinkingAndHysteresis lo hi m = Inr out"
    using mk(1) by (simp add: applyLinkingAndHysteresis_def)
  with l(2) show ?thesis by (auto simp: linked_def passed_all)
qed

section \<open>Properties\<close>

text \<open>
  C11: the linking step is a single threshold.  On an image whose border is zero,
  as non-maximum suppression leaves it, and for a positive lower threshold, the
  step ends, stays inside the image, and keeps exactly the pixels that reach one
  of the two thresholds: whether a weak pixel is connected to a strong one makes
  no difference.
\<close>

theorem hysteresis_is_threshold:
  assumes "0 \<le> nrows m" and "0 \<le> ncols m" and "zero_border m" and "0 < lo"
  shows "\<exists>out. applyLinkingAndHysteresis lo hi m = Inr out \<and> nrows out = nrows m \<and> ncols out = ncols m \<and>
    (\<forall>r c. in_mat m r c \<longrightarrow>
       px out r c = (if lo \<le> of_int (uint (px m r c)) \<or> hi \<le> of_int (uint (px m r c)) then px m r c else 0))"
  using hysteresis_threshold [OF assms, of hi] by (simp add: level_def)

text \<open>A five by five image with one isolated pixel of level 100 in the middle.\<close>

definition lone_pixel :: "8 word mat" where
  "lone_pixel = \<lparr>nrows = 5, ncols = 5, px = (\<lambda>r c. if r = 2 \<and> c = 2 then 100 else 0)\<rparr>"

theorem hysteresis_is_threshold_witness:
  "\<exists>out. applyLinkingAndHysteresis 50 150 lone_pixel = Inr out \<and> px out 2 2 = 100 \<and> px out 3 3 = 0"
proof -
  have "zero_border lone_pixel" by (auto simp: zero_border_def lone_pixel_def in_mat_def inner_def)
  from hysteresis_is_threshold [OF _ _ this, of 50 150] obtain out where
    o: "applyLinkingAndHysteresis 50 150 lone_pixel = Inr out"
      "\<forall>r c. in_mat lone_pixel r c \<longrightarrow> px out r c =
         (if (50 :: rat) \<le> of_int (uint (px lone_pixel r c)) \<or> 150 \<le> (of_int (uint (px lone_pixel r c)) :: rat)
          then px lone_pixel r c else 0)"
    by (auto simp: lone_pixel_def)
  have "in_mat lone_pixel 2 2" "in_mat lone_pixel 3 3" by (simp_all add: in_mat_def lone_pixel_def)
  with o(2) have "px out 2 2 = 100" "px out 3 3 = 0" by (simp_all add: lone_pixel_def)
  with o(1) show ?thesis by blast
qed

text \<open>A four by four image with a sharp vertical edge in the middle.\<close>

definition step_image :: "8 word mat" where
  "step_image = \<lparr>nrows = 4, ncols = 4, px = (\<lambda>r c. if c < 2 then 0 else 255)\<rparr>"

definition flat :: "rat \<Rightarrow> rat mat" where
  "flat v = \<lparr>nrows = 4, ncols = 4, px = (\<lambda>_ _. v)\<rparr>"

text \<open>
  C35: the Sobel stage ends on every image of at least two rows and columns and
  stays inside it; every inner pixel gets the magnitude and direction of its
  gradient, the border is zero, the gradients are at most 1020 in absolute value
  (so the single-precision sums of the code are exact) and the magnitudes at
  most 1443.
\<close>

theorem sobel_gradients:
  assumes "fp_api F" and "2 \<le> nrows edges" and "2 \<le> ncols edges"
    and "nrows mag = nrows edges" and "ncols mag = ncols edges"
    and "nrows dir = nrows edges" and "ncols dir = ncols edges"
  shows "\<exists>mag' dir'. sobelOperator F edges mag dir = Inr (mag', fl_normalize F dir') \<and>
    nrows mag' = nrows edges \<and> ncols mag' = ncols edges \<and>
    (\<forall>r c. in_mat edges r c \<longrightarrow> 0 \<le> px mag' r c \<and> px mag' r c \<le> 1443 \<and>
      (if inner edges r c then
         \<bar>grad_x edges r c\<bar> \<le> 1020 \<and> \<bar>grad_y edges r c\<bar> \<le> 1020 \<and>
         px mag' r c = fl_sqrt F (grad_x edges r c * grad_x edges r c + grad_y edges r c * grad_y edges r c) \<and>
         px dir' r c = fl_atan2 F (grad_y edges r c) (grad_x edges r c)
       else px mag' r c = 0 \<and> px dir' r c = 0))"
proof -
  obtain mag' dir' where s: "sobelOperator F edges mag dir = Inr (mag', fl_normalize F dir')"
    "nrows mag' = nrows edges" "ncols mag' = ncols edges"
    "\<forall>r c. in_mat edges r c \<longrightarrow> px mag' r c = (if inner edges r c
       then fl_sqrt F (grad_x edges r c * grad_x edges r c + grad_y edges r c * grad_y edges r c) else 0) \<and>
       px dir' r c = (if inner edges r c then fl_atan2 F (grad_y edges r c) (grad_x edges r c) else 0)"
    by (rule sobel_loop [OF assms(2-7)])
  have "0 \<le> fl_sqrt F (grad_x edges r c * grad_x edges r c + grad_y edges r c * grad_y edges r c) \<and>
    fl_sqrt F (grad_x edges r c * grad_x edges r c + grad_y edges r c * grad_y edges r c) \<le> 1443" for r c
    using fp_api.sqrt_nonneg [OF assms(1)] fp_api.sqrt_le [OF assms(1) _ _ _ grad_squares [of edges r c]]
    by simp
  with s grad_bounds show ?thesis by (intro exI [of _ mag'] exI [of _ dir']) simp
qed

theorem sobel_gradients_witness:
  "\<exists>mag' dir'. sobelOperator coarse step_image (flat 0) (flat 0) = Inr (mag', dir') \<and> px mag' 1 1 = 1020"
proof -
  have in11: "in_mat step_image 1 1" "inner step_image 1 1" by (simp_all add: step_image_def in_mat_def inner_def)
  have g: "grad_x step_image 1 1 = 1020" "grad_y step_image 1 1 = 0"
    by (simp_all add: grad_x_def grad_y_def step_image_def)
  have "fl_sqrt coarse (1020 * 1020) = 1020" using coarse_fp.sqrt_square [of 1020] by simp
  with sobel_gradients [OF coarse_fp.fp_api_axioms, of step_image "flat 0" "flat 0"] in11 g
  show ?thesis by (auto simp: step_image_def flat_def coarse_def)
qed

text \<open>
  C36: non-maximum suppression ends for magnitudes below 256, leaves a zero border,
  and keeps an inner pixel, cut to a byte, exactly when it is not smaller than
  its two neighbours across the edge; the neighbours lie next to the pixel on
  opposite sides.
\<close>

theorem nms_keeps_local_maxima:
  assumes "2 \<le> nrows mag" and "2 \<le> ncols mag" and "nrows dir = nrows mag" and "ncols dir = ncols mag"
    and "nrows edges = nrows mag" and "ncols edges = ncols mag"
    and "\<forall>r c. inner mag r c \<longrightarrow> 0 \<le> px mag r c \<and> px mag r c < 256"
  shows "\<exists>out. nonMaximumSuppression F mag dir edges = Inr out \<and> zero_border out \<and>
    (\<forall>r c qi qj. inner mag r c \<and> nms_neighbors (nms_angle F (px dir r c)) = Some ((qi, qj), (- qi, - qj)) \<longrightarrow>
      px out r c = (if px mag (r + qi) (c + qj) \<le> px mag r c \<and> px mag (r - qi) (c - qj) \<le> px mag r c
                    then word_of_int \<lfloor>px mag r c\<rfloor> else 0)) \<and>
    (\<forall>a. 0 \<le> a \<and> a \<le> 180 \<longrightarrow> (\<exists>qi qj. nms_neighbors a = Some ((qi, qj), (- qi, - qj)) \<and>
      qi \<in> {- 1, 0, 1} \<and> qj \<in> {- 1, 0, 1} \<and> (qi, qj) \<noteq> (0, 0)))"
proof -
  obtain out where o: "nonMaximumSuppression F mag dir edges = Inr out" "zero_border out"
    "\<forall>r c. inner mag r c \<longrightarrow> px out r c = (if nms_keeps F mag dir r c then word_of_int \<lfloor>px mag r c\<rfloor> else 0)"
    by (rule nms_run [OF assms, of F])
  have "\<exists>qi qj. nms_neighbors a = Some ((qi, qj), (- qi, - qj)) \<and>
      qi \<in> {- 1, 0, 1} \<and> qj \<in> {- 1, 0, 1} \<and> (qi, qj) \<noteq> (0, 0)" if "0 \<le> a" "a \<le> 180" for a
    using that by (auto simp: nms_neighbors_def)
  with o show ?thesis by (intro exI [of _ out]) (simp add: nms_keeps_def)
qed

theorem nms_keeps_local_maxima_witness:
  "\<exists>out. nonMaximumSuppression coarse (flat 200) (flat 128) step_image = Inr out \<and> px out 1 1 = 200 \<and> px out 0 0 = 0"
proof -
  have a: "nms_neighbors (nms_angle coarse 128) = Some ((0, 1), (- 0, - 1))"
    by (simp add: nms_angle_def coarse_def nms_neighbors_def)
  have i: "inner (flat 200) 1 1" "in_mat step_image 0 0" by (simp_all add: inner_def in_mat_def flat_def step_image_def)
  obtain out where o: "nonMaximumSuppression coarse (flat 200) (flat 128) step_image = Inr out" "zero_border out"
    "\<forall>r c qi qj. inner (flat 200) r c \<and> nms_neighbors (nms_angle coarse (px (flat 128) r c)) = Some ((qi, qj), (- qi, - qj)) \<longrightarrow>
      px out r c = (if px (flat 200) (r + qi) (c + qj) \<le> px (flat 200) r c \<and> px (flat 200) (r - qi) (c - qj) \<le> px (flat 200) r c
                    then word_of_int \<lfloor>px (flat 200) r c\<rfloor> else 0)"
    using nms_keeps_local_maxima [of "flat 200" "flat 128" step_image coarse]
    by (auto simp: flat_def step_image_def)
  have "px out 1 1 = 200" using o(3) i(1) a by (auto simp: flat_def)
  moreover have "px out 0 0 = 0"
  proof -
    obtain out' where "nonMaximumSuppression coarse (flat 200) (flat 128) step_image = Inr out'"
      "nrows out' = nrows (flat 200)" "ncols out' = ncols (flat 200)"
      by (rule nms_run [of "flat 200" "flat 128" step_image coarse]) (auto simp: flat_def step_image_def)
    with o(1,2) show ?thesis by (auto simp: zero_border_def in_mat_def inner_def flat_def)
  qed
  ultimately show ?thesis using o(1) by blast
qed

text \<open>
  A local maximum of 256 or more, which a sharp edge gives (the Sobel
  magnitude of a black-to-white step is 1020), is converted to a byte it does not
  fit: the conversion is undefined.
\<close>

theorem nms_overflow:
  assumes "inner mag r c" and "nrows dir = nrows mag" and "ncols dir = ncols mag" and "256 \<le> px mag r c"
    and "\<forall>i \<in> {- 1, 0, 1}. \<forall>j \<in> {- 1, 0, 1}. px mag (r + i) (c + j) \<le> px mag r c"
  shows "nonMaximumSuppression F mag dir edges = Inl Undefined"
proof -
  have "nms_keeps F mag dir r c"
  proof (cases "nms_neighbors (nms_angle F (px dir r c))")
    case None
    with assms(4) show ?thesis by (simp add: nms_keeps_def)
  next
    case (Some n)
    obtain qi qj ri rj where n: "n = ((qi, qj), (ri, rj))" by (metis prod.exhaust)
    from nms_neighbors_opposite [OF Some [unfolded n]] have "qi \<in> {- 1, 0, 1}" "qj \<in> {- 1, 0, 1}"
      "ri \<in> {- 1, 0, 1}" "rj \<in> {- 1, 0, 1}" by auto
    with assms(5) have "px mag (r + qi) (c + qj) \<le> px mag r c" "px mag (r + ri) (c + rj) \<le> px mag r c"
      by blast+
    with Some n show ?thesis by (simp add: nms_keeps_def)
  qed
  with assms(4) have u: "nms_pixel F mag dir r c = Inl Undefined"
    by (simp add: nms_pixel_run [OF assms(1-3)] to_u8_def)
  let ?row = "\<lambda>i. for_res 1 (ncols mag - 1) (\<lambda>j edges. rbind (nms_pixel F mag dir i j) (\<lambda>v. put_px edges i j v))"
  have body: "\<forall>j (e :: 8 word mat) x. rbind (nms_pixel F mag dir i j) (\<lambda>v. put_px e i j v) = Inl x \<longrightarrow> x = Undefined" for i
    by (auto simp: rbind_def put_px_def split: sum.splits if_splits dest: nms_pixel_errors)
  have row: "\<forall>e. ?row r e = Inl Undefined"
    using assms(1) u by (intro allI for_res_hits_undefined [OF body, where k = c]) (auto simp: inner_def)
  have rows: "\<forall>i e x. ?row i e = Inl x \<longrightarrow> x = Undefined"
    using for_res_only_undefined [OF body] by blast
  have "for_res 1 (nrows mag - 1) ?row edges = Inl Undefined"
    by (rule for_res_hits_undefined [OF rows _ _ row]) (use assms(1) in \<open>auto simp: inner_def\<close>)
  then show ?thesis by (simp add: nonMaximumSuppression_def for_px_def)
qed

theorem nms_overflow_witness:
  "nonMaximumSuppression coarse (flat 1020) (flat 128) step_image = Inl Undefined"
  by (rule nms_overflow [where r = 1 and c = 1]) (simp_all add: flat_def inner_def)

text \<open>
  The three stages run to the end, one after the other, on every image whose
  gradients stay below 256.
\<close>

lemma detector_stages:
  assumes "fp_api F" and "2 \<le> nrows edges" and "2 \<le> ncols edges"
    and "nrows mag = nrows edges" and "ncols mag = ncols edges"
    and "nrows dir = nrows edges" and "ncols dir = ncols edges" and "0 < lo"
    and "\<forall>r c. inner edges r c \<longrightarrow>
      grad_x edges r c * grad_x edges r c + grad_y edges r c * grad_y edges r c \<le> 255 * 255"
  shows "\<exists>mag' dir' sup out. sobelOperator F edges mag dir = Inr (mag', dir') \<and>
    nonMaximumSuppression F mag' dir' edges = Inr sup \<and> applyLinkingAndHysteresis lo hi sup = Inr out \<and>
    (\<forall>r c. in_mat edges r c \<and> px out r c \<noteq> 0 \<longrightarrow> inner edges r c \<and>
       px out r c = word_of_int \<lfloor>fl_sqrt F (grad_x edges r c * grad_x edges r c + grad_y edges r c * grad_y edges r c)\<rfloor> \<and>
       (lo \<le> of_int (uint (px out r c)) \<or> hi \<le> of_int (uint (px out r c))))"
proof -
  let ?M = "\<lambda>r c. fl_sqrt F (grad_x edges r c * grad_x edges r c + grad_y edges r c * grad_y edges r c)"
  obtain mag' dir' where s: "sobelOperator F edges mag dir = Inr (mag', fl_normalize F dir')"
    "nrows mag' = nrows edges" "ncols mag' = ncols edges" "nrows dir' = nrows edges" "ncols dir' = ncols edges"
    "\<forall>r c. in_mat edges r c \<longrightarrow> px mag' r c = (if inner edges r c then ?M r c else 0) \<and>
       px dir' r c = (if inner edges r c then fl_atan2 F (grad_y edges r c) (grad_x edges r c) else 0)"
    by (rule sobel_loop [OF assms(2-7)])
  have nd: "nrows (fl_normalize F dir') = nrows mag'" "ncols (fl_normalize F dir') = ncols mag'"
    using fp_api.normalize_shape [OF assms(1)] s(2-5) by simp_all
  have mag: "px mag' r c = ?M r c \<and> 0 \<le> px mag' r c \<and> px mag' r c < 256" if i: "inner mag' r c" for r c
  proof -
    from i s(2,3) have "inner edges r c" "in_mat edges r c" by (auto simp: inner_def in_mat_def)
    moreover from this assms(9) have "?M r c \<le> of_int 255"
      by (intro fp_api.sqrt_le [OF assms(1)]) auto
    moreover have "0 \<le> ?M r c" by (rule fp_api.sqrt_nonneg [OF assms(1)]) simp
    ultimately show ?thesis using s(6) by auto
  qed
  obtain sup where n: "nonMaximumSuppression F mag' (fl_normalize F dir') edges = Inr sup"
    "nrows sup = nrows mag'" "ncols sup = ncols mag'" "zero_border sup"
    "\<forall>r c. inner mag' r c \<longrightarrow>
       px sup r c = (if nms_keeps F mag' (fl_normalize F dir') r c then word_of_int \<lfloor>px mag' r c\<rfloor> else 0)"
  proof (rule nms_run [of mag' "fl_normalize F dir'" edges F])
    show "\<forall>r c. inner mag' r c \<longrightarrow> 0 \<le> px mag' r c \<and> px mag' r c < 256" using mag by blast
  qed (use assms s(2,3) nd in simp_all)
  obtain out where h: "applyLinkingAndHysteresis lo hi sup = Inr out"
    "\<forall>r c. in_mat sup r c \<longrightarrow>
       px out r c = (if lo \<le> level sup r c \<or> hi \<le> level sup r c then px sup r c else 0)"
    using hysteresis_threshold [of sup lo hi] assms(2,3,8) s(2,3) n(2-4) by auto
  have "inner edges r c \<and> px out r c = word_of_int \<lfloor>?M r c\<rfloor> \<and>
      (lo \<le> of_int (uint (px out r c)) \<or> hi \<le> of_int (uint (px out r c)))"
    if i: "in_mat edges r c" and nz: "px out r c \<noteq> 0" for r c
  proof -
    from i n(2,3) s(2,3) have m: "in_mat sup r c" by (simp add: in_mat_def)
    with h(2) nz have o: "px out r c = px sup r c" "lo \<le> level sup r c \<or> hi \<le> level sup r c" "px sup r c \<noteq> 0"
      by (auto split: if_splits)
    with n(4) m have "inner sup r c" by (auto simp: zero_border_def)
    then have "inner mag' r c" "inner edges r c" using n(2,3) s(2,3) by (auto simp: inner_def)
    with n(5) o mag show ?thesis by (auto simp: level_def split: if_splits)
  qed
  with s(1) n(1) h(1) show ?thesis by blast
qed

end
