(* ===== verification/Blur_Props.thy ===== *)
theory Blur_Props
  imports Blur Canny_Props
begin

text \<open>
  The properties of the blur: it never leaves its matrices or the range of a byte,
  and every pixel of it lies between the darkest level of its neighbourhood, less
  one, and the brightest.  The rounding errors of the kernel and of the sums are
  bounded with the interface of the double-precision operations.
\<close>

section \<open>Filling loops\<close>

text \<open>A double loop that writes one pixel in every round, at an offset.\<close>

lemma fill_run:
  fixes m :: "'a mat"
  assumes "r0 \<le> r1" and "c0 \<le> c1"
    and in_m: "\<And>r c. r0 \<le> r \<Longrightarrow> r < r1 \<Longrightarrow> c0 \<le> c \<Longrightarrow> c < c1 \<Longrightarrow> in_mat m (r + d) (c + d)"
    and body: "\<And>r c t. r0 \<le> r \<Longrightarrow> r < r1 \<Longrightarrow> c0 \<le> c \<Longrightarrow> c < c1 \<Longrightarrow>
      body r c t = put_px t (r + d) (c + d) (g r c)"
  obtains m' where "for_px r0 r1 c0 c1 body m = Inr m'" and "nrows m' = nrows m" and "ncols m' = ncols m"
    and "\<And>r c. px m' r c = (if r0 \<le> r - d \<and> r - d < r1 \<and> c0 \<le> c - d \<and> c - d < c1
      then g (r - d) (c - d) else px m r c)"
proof -
  define P where "P r c = (\<lambda>t :: 'a mat. nrows t = nrows m \<and> ncols t = ncols m \<and>
    (\<forall>r' c'. px t r' c' = (if r0 \<le> r' - d \<and> c0 \<le> c' - d \<and> c' - d < c1 \<and> passed r c (r' - d) (c' - d)
      then g (r' - d) (c' - d) else px m r' c')))" for r c
  have "\<exists>t. for_px r0 r1 c0 c1 body m = Inr t \<and> P r1 c0 t"
  proof (rule for_px_inv [OF assms(1,2)])
    show "P r0 c0 m" by (auto simp: P_def passed_def)
  next
    fix r c t assume rc: "r0 \<le> r" "r < r1" "c0 \<le> c" "c < c1" and P: "P r c t"
    from in_m [OF rc] P have "in_mat t (r + d) (c + d)" by (simp add: P_def in_mat_def)
    with body [OF rc, of t] have "body r c t = Inr (upd t (r + d) (c + d) (g r c))" by simp
    moreover have "P r (c + 1) (upd t (r + d) (c + d) (g r c))"
      using P rc by (auto simp: P_def passed_step)
    ultimately show "\<exists>t'. body r c t = Inr t' \<and> P r (c + 1) t'" by blast
  next
    fix r t assume "r0 \<le> r" "r < r1" "P r c1 t"
    then show "P (r + 1) c0 t" by (auto simp: P_def passed_def)
  qed
  then obtain t where "for_px r0 r1 c0 c1 body m = Inr t" "P r1 c0 t" by blast
  then show thesis by (intro that [of t]) (auto simp: P_def passed_def)
qed

text \<open>The same with the loop over the columns outside.\<close>

lemma fill_columns_run:
  fixes m :: "'a mat"
  assumes "r0 \<le> r1" and "c0 \<le> c1"
    and in_m: "\<And>r c. r0 \<le> r \<Longrightarrow> r < r1 \<Longrightarrow> c0 \<le> c \<Longrightarrow> c < c1 \<Longrightarrow> in_mat m r c"
  obtains m' where "for_px c0 c1 r0 r1 (\<lambda>c r t. put_px t r c v) m = Inr m'"
    and "nrows m' = nrows m" and "ncols m' = ncols m"
    and "\<And>r c. px m' r c = (if r0 \<le> r \<and> r < r1 \<and> c0 \<le> c \<and> c < c1 then v else px m r c)"
proof -
  define P where "P c r = (\<lambda>t :: 'a mat. nrows t = nrows m \<and> ncols t = ncols m \<and>
    (\<forall>r' c'. px t r' c' = (if c0 \<le> c' \<and> r0 \<le> r' \<and> r' < r1 \<and> passed c r c' r' then v else px m r' c')))" for r c
  have "\<exists>t. for_px c0 c1 r0 r1 (\<lambda>c r t. put_px t r c v) m = Inr t \<and> P c1 r0 t"
  proof (rule for_px_inv [OF assms(2,1)])
    show "P c0 r0 m" by (auto simp: P_def passed_def)
  next
    fix c r t assume rc: "c0 \<le> c" "c < c1" "r0 \<le> r" "r < r1" and P: "P c r t"
    from in_m [of r c] rc P have "in_mat t r c" by (simp add: P_def in_mat_def)
    moreover have "P c (r + 1) (upd t r c v)" using P rc by (auto simp: P_def passed_step)
    ultimately show "\<exists>t'. put_px t r c v = Inr t' \<and> P c (r + 1) t'" by simp
  next
    fix c t assume "c0 \<le> c" "c < c1" "P c r1 t"
    then show "P (c + 1) r0 t" by (auto simp: P_def passed_def)
  qed
  then obtain t where "for_px c0 c1 r0 r1 (\<lambda>c r t. put_px t r c v) m = Inr t" "P c1 r0 t" by blast
  then show thesis by (intro that [of t]) (auto simp: P_def passed_def)
qed

section \<open>The image with its border\<close>

text \<open>A pixel of the image, or zero outside it.\<close>

definition padded :: "8 word mat \<Rightarrow> int \<Rightarrow> int \<Rightarrow> 8 word" where
  "padded m r c = (if in_mat m r c then px m r c else 0)"

lemma bordered_run:
  assumes "0 \<le> nrows m" and "0 \<le> ncols m"
  obtains t where "bordered junk m = Inr t" and "nrows t = nrows m + 2" and "ncols t = ncols m + 2"
    and "\<forall>r c. in_mat t r c \<longrightarrow> px t r c = padded m (r - 1) (c - 1)"
proof -
  let ?R = "nrows m + 2" and ?C = "ncols m + 2"
  let ?fill = "\<lambda>row col t. put_px t row col (0 :: 8 word)"
  have h: "half_kernel_size = 1" by (simp add: half_kernel_size_def KERNEL_SIZE_def)
  obtain t1 where 1: "for_px 0 1 0 ?C ?fill (new_mat ?R ?C junk) = Inr t1" "nrows t1 = ?R" "ncols t1 = ?C"
    "\<And>r c. px t1 r c = (if 0 \<le> r \<and> r < 1 \<and> 0 \<le> c \<and> c < ?C then 0 else junk r c)"
    by (rule fill_run [of 0 1 0 ?C "new_mat ?R ?C junk" 0 ?fill "\<lambda>_ _. 0"])
      (use assms in \<open>auto simp: new_mat_def in_mat_def\<close>)
  obtain t2 where 2: "for_px (?R - 1) ?R 0 ?C ?fill t1 = Inr t2" "nrows t2 = ?R" "ncols t2 = ?C"
    "\<And>r c. px t2 r c = (if ?R - 1 \<le> r \<and> r < ?R \<and> 0 \<le> c \<and> c < ?C then 0 else px t1 r c)"
    by (rule fill_run [of "?R - 1" ?R 0 ?C t1 0 ?fill "\<lambda>_ _. 0"])
      (use assms 1(2,3) in \<open>auto simp: in_mat_def\<close>)
  obtain t3 where 3: "for_px 0 1 0 ?R (\<lambda>col row t. put_px t row col 0) t2 = Inr t3" "nrows t3 = ?R" "ncols t3 = ?C"
    "\<And>r c. px t3 r c = (if 0 \<le> r \<and> r < ?R \<and> 0 \<le> c \<and> c < 1 then 0 else px t2 r c)"
    by (rule fill_columns_run [of 0 ?R 0 1 t2 0]) (use assms 2(2,3) in \<open>auto simp: in_mat_def\<close>)
  obtain t4 where 4: "for_px (?C - 1) ?C 0 ?R (\<lambda>col row t. put_px t row col 0) t3 = Inr t4" "nrows t4 = ?R" "ncols t4 = ?C"
    "\<And>r c. px t4 r c = (if 0 \<le> r \<and> r < ?R \<and> ?C - 1 \<le> c \<and> c < ?C then 0 else px t3 r c)"
    by (rule fill_columns_run [of 0 ?R "?C - 1" ?C t3 0]) (use assms 3(2,3) in \<open>auto simp: in_mat_def\<close>)
  let ?copy = "\<lambda>row col t. rbind (at_px m row col) (\<lambda>v. put_px t (row + 1) (col + 1) v)"
  obtain t5 where 5: "for_px 0 (nrows m) 0 (ncols m) ?copy t4 = Inr t5" "nrows t5 = ?R" "ncols t5 = ?C"
    "\<And>r c. px t5 r c = (if 0 \<le> r - 1 \<and> r - 1 < nrows m \<and> 0 \<le> c - 1 \<and> c - 1 < ncols m
      then px m (r - 1) (c - 1) else px t4 r c)"
    by (rule fill_run [of 0 "nrows m" 0 "ncols m" t4 1 ?copy "px m"])
      (use assms 4(2,3) in \<open>auto simp: in_mat_def at_px_def\<close>)
  have "px t5 r c = padded m (r - 1) (c - 1)" if "in_mat t5 r c" for r c
    using that 5(2,3) by (auto simp: 5(4) 4(4) 3(4) 2(4) 1(4) padded_def in_mat_def)
  moreover have "bordered junk m = Inr t5"
    using 1(1) 2(1) 3(1) 4(1) 5(1)
    by (simp add: bordered_def Let_def h KERNEL_SIZE_def algebra_simps)
  ultimately show thesis using 5(2,3) by (intro that) auto
qed

section \<open>The loops over the kernel\<close>

definition cells :: "(int \<times> int) list" where
  "cells = [(0, 0), (0, 1), (0, 2), (1, 0), (1, 1), (1, 2), (2, 0), (2, 1), (2, 2)]"

lemma cells_range: "(x, y) \<in> set cells \<Longrightarrow> 0 \<le> x \<and> x \<le> 2 \<and> 0 \<le> y \<and> y \<le> 2"
  by (auto simp: cells_def)

lemma length_cells: "length cells = 9"
  by (simp add: cells_def)

lemma blur_kernel_run:
  obtains k where "blur_kernel D sigma junk =
      Inr (db_scale D k (foldl (\<lambda>a z. db_round D (a + (case z of (x, y) \<Rightarrow> kernel_entry D sigma x y))) 0 cells))"
    and "nrows k = 3" and "ncols k = 3"
    and "\<And>x y. (x, y) \<in> set cells \<Longrightarrow> px k x y = kernel_entry D sigma x y"
proof -
  let ?e = "kernel_entry D sigma"
  define k where "k = upd (upd (upd (upd (upd (upd (upd (upd (upd (new_mat 3 3 junk) 0 0 (?e 0 0)) 0 1 (?e 0 1)) 0 2 (?e 0 2))
    1 0 (?e 1 0)) 1 1 (?e 1 1)) 1 2 (?e 1 2)) 2 0 (?e 2 0)) 2 1 (?e 2 1)) 2 2 (?e 2 2)"
  have n: "in_mat (new_mat 3 3 junk) x y \<longleftrightarrow> 0 \<le> x \<and> x < 3 \<and> 0 \<le> y \<and> y < 3" for x y :: int
    by (auto simp: new_mat_def in_mat_def)
  have "blur_kernel D sigma junk =
      Inr (db_scale D k (foldl (\<lambda>a z. db_round D (a + (case z of (x, y) \<Rightarrow> ?e x y))) 0 cells))"
    unfolding blur_kernel_def for_px_def KERNEL_SIZE_def k_def
    by (simp add: for_res_step n cells_def)
  moreover have "nrows k = 3" "ncols k = 3" by (simp_all add: k_def new_mat_def)
  moreover have "\<forall>z \<in> set cells. px k (fst z) (snd z) = ?e (fst z) (snd z)"
    unfolding cells_def k_def by simp
  ultimately show thesis by (intro that) fastforce+
qed

lemma blur_accum_run:
  assumes "1 \<le> r" and "r < nrows t - 1" and "1 \<le> c" and "c < ncols t - 1" and "nrows k = 3" and "ncols k = 3"
  shows "blur_accum D t k r c = Inr (foldl (\<lambda>a z. db_round D (a + (case z of (x, y) \<Rightarrow>
    db_round D (of_int (uint (px t (r + x - 1) (c + y - 1))) * px k x y)))) 0 cells)"
proof -
  have "in_mat t (r - 1) (c - 1)" "in_mat t (r - 1) c" "in_mat t (r - 1) (c + 1)"
    "in_mat t r (c - 1)" "in_mat t r c" "in_mat t r (c + 1)"
    "in_mat t (r + 1) (c - 1)" "in_mat t (r + 1) c" "in_mat t (r + 1) (c + 1)"
    using assms by (auto simp: in_mat_def)
  moreover have "in_mat k x y \<longleftrightarrow> 0 \<le> x \<and> x < 3 \<and> 0 \<le> y \<and> y < 3" for x y
    using assms by (auto simp: in_mat_def)
  ultimately show ?thesis
    unfolding blur_accum_def for_px_def half_kernel_size_def KERNEL_SIZE_def
    by (simp add: for_res_step cells_def add.commute [of 1 r] add.commute [of 1 c])
qed

section \<open>Rounding\<close>

lemma sum_list_near:
  fixes f :: "'a \<Rightarrow> rat"
  shows "\<forall>z \<in> set zs. \<bar>f z - h z\<bar> \<le> d \<Longrightarrow>
    \<bar>sum_list (map f zs) - sum_list (map h zs)\<bar> \<le> of_nat (length zs) * d"
proof (induction zs)
  case (Cons z zs)
  then have "\<bar>sum_list (map f zs) - sum_list (map h zs)\<bar> \<le> of_nat (length zs) * d" "\<bar>f z - h z\<bar> \<le> d" by simp_all
  then show ?case by (simp add: distrib_right)
qed simp

lemma sum_list_quotient: "sum_list (map (\<lambda>z. g z / (a :: rat)) zs) = sum_list (map g zs) / a"
  by (induction zs) (simp_all add: add_divide_distrib)

lemma sum_list_product: "sum_list (map (\<lambda>z. (b :: rat) * g z) zs) = b * sum_list (map g zs)"
  by (induction zs) (simp_all add: distrib_left)

context dbl_api begin

lemma round_near: "\<bar>x\<bar> \<le> 2000 \<Longrightarrow> \<bar>db_round D x - x\<bar> \<le> 1 / 2 ^ 40"
proof -
  assume x: "\<bar>x\<bar> \<le> 2000"
  have "(2000 :: rat) < 2 ^ 11" by simp
  also have "(2 :: rat) ^ 11 \<le> 2 ^ 1000" by (rule power_increasing) simp_all
  finally have "\<bar>x\<bar> < 2 ^ 1000" using x by linarith
  from round_err [OF this] have "\<bar>db_round D x - x\<bar> \<le> \<bar>x\<bar> / 2 ^ 53 + 1 / 2 ^ 1074" .
  moreover have "\<bar>x\<bar> / 2 ^ 53 \<le> 1 / 2 ^ 41" using x by simp
  moreover have "(1 :: rat) / 2 ^ 1074 \<le> 1 / 2 ^ 41"
    by (rule divide_left_mono) (simp_all add: power_increasing)
  moreover have "(1 :: rat) / 2 ^ 41 + 1 / 2 ^ 41 = 1 / 2 ^ 40" by simp
  ultimately show ?thesis by linarith
qed

lemma round_nonneg: "0 \<le> x \<Longrightarrow> 0 \<le> db_round D x"
  using round_mono [of 0 x] round_zero by simp

lemma round_nonpos: "x \<le> 0 \<Longrightarrow> db_round D x \<le> 0"
  using round_mono [of x 0] round_zero by simp

lemma foldl_nonneg: "0 \<le> acc \<Longrightarrow> \<forall>z \<in> set zs. 0 \<le> f z \<Longrightarrow> 0 \<le> foldl (\<lambda>a z. db_round D (a + f z)) acc zs"
  by (induction zs arbitrary: acc) (simp_all add: round_nonneg)

text \<open>A sum that is rounded after every step stays near the exact one.\<close>

lemma foldl_near:
  assumes "\<forall>z \<in> set zs. \<bar>f z - g z\<bar> \<le> d \<and> 0 \<le> g z" and "\<bar>acc - A\<bar> \<le> e" and "0 \<le> A" and "0 \<le> d" and "0 \<le> e"
    and "A + sum_list (map g zs) \<le> 1000" and "e + of_nat (length zs) * (d + 1 / 2 ^ 40) \<le> 1"
  shows "\<bar>foldl (\<lambda>a z. db_round D (a + f z)) acc zs - (A + sum_list (map g zs))\<bar>
    \<le> e + of_nat (length zs) * (d + 1 / 2 ^ 40)"
  using assms
proof (induction zs arbitrary: acc A e)
  case Nil
  then show ?case by simp
next
  case (Cons z zs)
  define q where "q = d + 1 / 2 ^ 40"
  have q: "\<bar>db_round D x - x\<bar> \<le> q - d" if "\<bar>x\<bar> \<le> 2000" for x
    using round_near [OF that] by (simp add: q_def)
  have q0: "0 \<le> q" "d \<le> q" using Cons.prems(4) by (simp_all add: q_def)
  have z: "\<bar>f z - g z\<bar> \<le> d" "0 \<le> g z" using Cons.prems(1) by simp_all
  have s: "0 \<le> sum_list (map g zs)" using Cons.prems(1) by (intro sum_list_nonneg) auto
  have len: "of_nat (length (z # zs)) * q = q + of_nat (length zs) * q" by (simp add: distrib_right)
  with Cons.prems(7) have l: "(e + q) + of_nat (length zs) * q \<le> 1" by (simp only: q_def [symmetric])
  have n0: "0 \<le> of_nat (length zs) * q" using q0 by simp
  have a: "A + g z + sum_list (map g zs) \<le> 1000" using Cons.prems(6) by (simp add: add.assoc)
  have "e + d \<le> 1" using l n0 q0 by linarith
  with z Cons.prems(2,3) s a have "\<bar>acc + f z\<bar> \<le> 2000" by linarith
  from q [OF this] have 1: "\<bar>db_round D (acc + f z) - (A + g z)\<bar> \<le> e + q"
    using z Cons.prems(2) by linarith
  have "\<bar>foldl (\<lambda>a z. db_round D (a + f z)) (db_round D (acc + f z)) zs - (A + g z + sum_list (map g zs))\<bar>
      \<le> e + q + of_nat (length zs) * q"
    unfolding q_def
  proof (rule Cons.IH [OF _ 1 [unfolded q_def]])
    show "\<forall>z \<in> set zs. \<bar>f z - g z\<bar> \<le> d \<and> 0 \<le> g z" using Cons.prems(1) by simp
    show "A + g z + sum_list (map g zs) \<le> 1000" using Cons.prems(6) by simp
    show "e + (d + 1 / 2 ^ 40) + of_nat (length zs) * (d + 1 / 2 ^ 40) \<le> 1" using l by (simp only: q_def)
    show "0 \<le> A + g z" using Cons.prems(3) z(2) by simp
    show "0 \<le> e + (d + 1 / 2 ^ 40)" using Cons.prems(5) q0 by (simp add: q_def)
  qed (rule Cons.prems(4))
  moreover have "A + g z + sum_list (map g zs) = A + sum_list (map g (z # zs))" by simp
  ultimately show ?case
    unfolding q_def [symmetric] len by (simp only: foldl.simps)
qed

section \<open>The kernel for a standard deviation of one\<close>

lemma kernel_divisor:
  "6 \<le> db_round D (db_round D (db_round D (2 * M_PI D) * 1) * 1) \<and>
   db_round D (db_round D (db_round D (2 * M_PI D) * 1) * 1) \<le> 7"
proof -
  define p :: rat where "p = 314159265358979323846 / 10 ^ 20"
  define e :: rat where "e = 1 / 2 ^ 40"
  have p: "31 / 10 \<le> p" "p \<le> 32 / 10" by (simp_all add: p_def)
  have e: "e \<le> 1 / 100" by (simp add: e_def)
  have near: "\<bar>db_round D x - x\<bar> \<le> 1 / 100" if "\<bar>x\<bar> \<le> 2000" for x
    using round_near [OF that] e unfolding e_def by linarith
  have 1: "\<bar>M_PI D - p\<bar> \<le> 1 / 100" unfolding M_PI_def p_def [symmetric] using p by (intro near) simp
  have 2: "\<bar>db_round D (2 * M_PI D) - 2 * M_PI D\<bar> \<le> 1 / 100" using 1 p by (intro near) linarith
  define a where "a = db_round D (2 * M_PI D)"
  have a: "618 / 100 - 3 / 100 \<le> a" "a \<le> 645 / 100" using 1 2 p unfolding a_def [symmetric] by linarith+
  have 3: "\<bar>db_round D a - a\<bar> \<le> 1 / 100" using a by (intro near) linarith
  then have "\<bar>db_round D (db_round D a) - db_round D a\<bar> \<le> 1 / 100" using a by (intro near) linarith
  with 3 a show ?thesis unfolding a_def [symmetric] by (simp only: mult_1_right) linarith
qed

lemma kernel_entry_bounds:
  "0 \<le> kernel_entry D 1 x y \<and> kernel_entry D 1 x y \<le> 1 / 5" "1 / 8 \<le> kernel_entry D 1 1 1"
proof -
  define b where "b = db_round D (db_round D (db_round D (2 * M_PI D) * 1) * 1)"
  have b: "6 \<le> b" "b \<le> 7" using kernel_divisor unfolding b_def [symmetric] by simp_all
  have near: "\<bar>db_round D v - v\<bar> \<le> 1 / 100" if "\<bar>v\<bar> \<le> 2000" for v
  proof -
    have "(1 :: rat) / 2 ^ 40 \<le> 1 / 100" by simp
    with round_near [OF that] show ?thesis by linarith
  qed
  have quot: "0 \<le> e / b \<and> e / b \<le> 1 / 6" if "0 \<le> e" "e \<le> 1" for e
    using that b by (simp add: divide_simps)
  define s where "s = db_round D (db_pow D (db_round D (db_round D (of_int x - 1) / 1)) 2 +
    db_pow D (db_round D (db_round D (of_int y - 1) / 1)) 2)"
  define e where "e = db_exp D (db_round D (- 1 / 2 * s))"
  have "0 \<le> s" unfolding s_def using pow_square by (intro round_nonneg add_nonneg_nonneg) auto
  then have "0 \<le> e \<and> e \<le> 1" unfolding e_def by (intro exp_range round_nonpos) simp
  with quot have q: "0 \<le> e / b" "e / b \<le> 1 / 6" by auto
  then have "\<bar>db_round D (e / b) - e / b\<bar> \<le> 1 / 100" by (intro near) linarith
  with q round_nonneg [OF q(1)] have "0 \<le> db_round D (e / b) \<and> db_round D (e / b) \<le> 1 / 5" by linarith
  then show "0 \<le> kernel_entry D 1 x y \<and> kernel_entry D 1 x y \<le> 1 / 5"
    unfolding kernel_entry_def KERNEL_SIZE_def Let_def b_def e_def s_def by simp
  have "kernel_entry D 1 1 1 = db_round D (1 / b)"
    using pow_square unfolding b_def by (simp add: kernel_entry_def KERNEL_SIZE_def round_zero exp_zero)
  moreover have "1 / 7 \<le> 1 / b" "1 / b \<le> 1 / 6" using b by (simp_all add: divide_simps)
  moreover from this have "\<bar>db_round D (1 / b) - 1 / b\<bar> \<le> 1 / 100" by (intro near) linarith
  ultimately show "1 / 8 \<le> kernel_entry D 1 1 1" by linarith
qed

lemma kernel_sum:
  defines "g \<equiv> \<lambda>z. case z of (x, y) \<Rightarrow> kernel_entry D 1 x y"
  shows "1 / 8 \<le> sum_list (map g cells)" and "sum_list (map g cells) \<le> 9 / 5"
    and "\<bar>foldl (\<lambda>a z. db_round D (a + g z)) 0 cells - sum_list (map g cells)\<bar> \<le> 9 / 2 ^ 40"
proof -
  have g: "0 \<le> g z" "g z \<le> 1 / 5" for z
    using kernel_entry_bounds(1) by (simp_all add: g_def split: prod.split)
  have "g (1, 1) \<le> sum_list (map g cells)"
    by (rule member_le_sum_list) (use g in \<open>auto simp: cells_def\<close>)
  with kernel_entry_bounds(2) show "1 / 8 \<le> sum_list (map g cells)" by (simp add: g_def)
  have "sum_list (map g cells) \<le> sum_list (map (\<lambda>_. 1 / 5) cells)"
    by (rule sum_list_mono) (rule g)
  also have "\<dots> = 9 / 5" by (simp add: cells_def)
  finally show s: "sum_list (map g cells) \<le> 9 / 5" .
  from foldl_near [of cells g g 0 0 0 0] g s
  show "\<bar>foldl (\<lambda>a z. db_round D (a + g z)) 0 cells - sum_list (map g cells)\<bar> \<le> 9 / 2 ^ 40"
    by (simp add: length_cells)
qed

text \<open>The weights are not negative and add up to one, nearly.\<close>

lemma kernel_weights:
  obtains w where "blur_kernel D 1 junk = Inr w" and "nrows w = 3" and "ncols w = 3"
    and "\<forall>z \<in> set cells. 0 \<le> px w (fst z) (snd z)"
    and "\<bar>sum_list (map (\<lambda>z. px w (fst z) (snd z)) cells) - 1\<bar> \<le> 1 / 2 ^ 20"
proof -
  define g where "g = (\<lambda>z. case z of (x, y) \<Rightarrow> kernel_entry D 1 x y)"
  define S where "S = sum_list (map g cells)"
  define a where "a = foldl (\<lambda>a z. db_round D (a + g z)) 0 cells"
  have S: "1 / 8 \<le> S" "S \<le> 9 / 5" "\<bar>a - S\<bar> \<le> 9 / 2 ^ 40"
    using kernel_sum unfolding S_def a_def g_def by simp_all
  have "(9 :: rat) / 2 ^ 40 \<le> 1 / 100" by simp
  with S have a: "1 / 9 \<le> a" "a \<le> 2" by linarith+
  obtain k where k: "blur_kernel D 1 junk = Inr (db_scale D k a)" "nrows k = 3" "ncols k = 3"
    "\<And>x y. (x, y) \<in> set cells \<Longrightarrow> px k x y = kernel_entry D 1 x y"
    using blur_kernel_run [of D 1 junk] unfolding a_def g_def by blast
  define w where "w = db_scale D k a"
  have z: "in_mat k (fst z) (snd z) \<and> px k (fst z) (snd z) = g z \<and> 0 \<le> g z \<and> g z \<le> 1 / 5" if "z \<in> set cells" for z
  proof -
    obtain x y where xy: "z = (x, y)" by fastforce
    from that cells_range [of x y] k(2-4) kernel_entry_bounds(1) show ?thesis
      unfolding xy by (simp add: in_mat_def g_def)
  qed
  have "\<forall>z \<in> set cells. 0 \<le> px w (fst z) (snd z)"
    using z a unfolding w_def by (auto intro!: scale_sign)
  moreover have "\<bar>sum_list (map (\<lambda>z. px w (fst z) (snd z)) cells) - 1\<bar> \<le> 1 / 2 ^ 20"
  proof -
    have "\<bar>px w (fst z) (snd z) - g z / a\<bar> \<le> 1 / 2 ^ 30" if "z \<in> set cells" for z
      using scale_err [of k "fst z" "snd z" a] z [OF that] a unfolding w_def by simp
    then have "\<bar>sum_list (map (\<lambda>z. px w (fst z) (snd z)) cells) - sum_list (map (\<lambda>z. g z / a) cells)\<bar>
        \<le> of_nat (length cells) * (1 / 2 ^ 30)"
      by (intro sum_list_near) blast
    then have "\<bar>sum_list (map (\<lambda>z. px w (fst z) (snd z)) cells) - S / a\<bar> \<le> 9 / 2 ^ 30"
      by (simp add: sum_list_quotient S_def length_cells)
    moreover have "\<bar>S / a - 1\<bar> \<le> 81 / 2 ^ 40"
    proof -
      have "\<bar>S / a - 1\<bar> = \<bar>a - S\<bar> / a" using a by (simp add: divide_simps abs_if)
      also have "\<dots> \<le> (9 / 2 ^ 40) / (1 / 9)" using S(3) a by (intro frac_le) simp_all
      finally show ?thesis by simp
    qed
    moreover have "(9 :: rat) / 2 ^ 30 + 81 / 2 ^ 40 \<le> 1 / 2 ^ 20" by simp
    ultimately show ?thesis by linarith
  qed
  ultimately show thesis
    using k scale_shape [of k a] unfolding w_def [symmetric] by (intro that [of w]) simp_all
qed

text \<open>
  The weighted sum of levels between \<open>lo\<close> and \<open>hi\<close> stays within one of them.
\<close>

lemma accum_range:
  assumes "\<forall>z \<in> set cells. 0 \<le> w z" and "\<bar>sum_list (map w cells) - 1\<bar> \<le> 1 / 2 ^ 20"
    and "\<forall>z \<in> set cells. lo \<le> p z \<and> p z \<le> hi" and "0 \<le> lo" and "hi \<le> 255"
  defines "v \<equiv> foldl (\<lambda>a z. db_round D (a + db_round D (p z * w z))) 0 cells"
  shows "0 \<le> v" and "lo - 1 \<le> v" and "v < hi + 1"
proof -
  define W where "W = sum_list (map w cells)"
  define g where "g = (\<lambda>z. p z * w z)"
  have W: "W \<le> 1 + 1 / 2 ^ 20" "1 - 1 / 2 ^ 20 \<le> W" using assms(2) unfolding W_def by linarith+
  have lh: "lo \<le> hi" using assms(3) by (force simp: cells_def)
  have wz: "w z \<le> 2" if "z \<in> set cells" for z
  proof -
    have "w z \<le> W" unfolding W_def by (rule member_le_sum_list) (use that assms(1) in auto)
    moreover have "(1 :: rat) + 1 / 2 ^ 20 \<le> 2" by simp
    ultimately show ?thesis using W by linarith
  qed
  have g: "0 \<le> g z \<and> g z \<le> 510 \<and> lo * w z \<le> g z \<and> g z \<le> hi * w z" if "z \<in> set cells" for z
  proof -
    have "lo \<le> p z" "p z \<le> hi" "0 \<le> w z" "w z \<le> 2" using that assms(1,3) wz by blast+
    moreover from this assms(4,5) have "0 \<le> p z" "p z \<le> 255" by linarith+
    moreover from calculation have "p z * w z \<le> 255 * 2" by (intro mult_mono) auto
    ultimately show ?thesis by (simp add: g_def mult_right_mono)
  qed
  have f: "\<bar>db_round D (g z) - g z\<bar> \<le> 1 / 2 ^ 40 \<and> 0 \<le> g z" if "z \<in> set cells" for z
    using g [OF that] by (intro conjI round_near) auto
  have "sum_list (map g cells) \<le> sum_list (map (\<lambda>z. hi * w z) cells)" by (rule sum_list_mono) (use g in auto)
  moreover have "sum_list (map (\<lambda>z. lo * w z) cells) \<le> sum_list (map g cells)" by (rule sum_list_mono) (use g in auto)
  ultimately have G: "lo * W \<le> sum_list (map g cells)" "sum_list (map g cells) \<le> hi * W"
    unfolding W_def by (simp_all add: sum_list_product)
  have hiW: "hi * W \<le> hi + 255 / 2 ^ 20" "lo - 255 / 2 ^ 20 \<le> lo * W"
  proof -
    have "hi * W \<le> hi * (1 + 1 / 2 ^ 20)" using W lh assms(4) by (intro mult_left_mono) auto
    then show "hi * W \<le> hi + 255 / 2 ^ 20" using assms(5) by (simp add: distrib_left)
    have "lo * (1 - 1 / 2 ^ 20) \<le> lo * W" using W assms(4) by (intro mult_left_mono) auto
    then show "lo - 255 / 2 ^ 20 \<le> lo * W" using assms(5) lh by (simp add: right_diff_distrib)
  qed
  have small: "(255 :: rat) / 2 ^ 20 \<le> 1 / 2" "(18 :: rat) / 2 ^ 40 < 1 / 2" by simp_all
  have "sum_list (map g cells) \<le> 1000" using G(2) hiW(1) assms(5) small by linarith
  with foldl_near [of cells "\<lambda>z. db_round D (g z)" g "1 / 2 ^ 40" 0 0 0] f
  have "\<bar>v - sum_list (map g cells)\<bar> \<le> 18 / 2 ^ 40" by (simp add: length_cells v_def g_def)
  with G hiW small show "lo - 1 \<le> v" "v < hi + 1" by linarith+
  show "0 \<le> v" unfolding v_def g_def [symmetric] by (rule foldl_nonneg) (use g in \<open>auto intro: round_nonneg simp: g_def\<close>)
qed

end

text \<open>The pixel and its eight neighbours have levels from \<open>lo\<close> to \<open>hi\<close>; outside the image is black.\<close>

definition near_levels :: "8 word mat \<Rightarrow> int \<Rightarrow> int \<Rightarrow> int \<Rightarrow> int \<Rightarrow> bool" where
  "near_levels m r c lo hi \<longleftrightarrow> (\<forall>i \<in> {- 1, 0, 1}. \<forall>j \<in> {- 1, 0, 1}.
     lo \<le> uint (padded m (r + i) (c + j)) \<and> uint (padded m (r + i) (c + j)) \<le> hi)"

context dbl_api begin

text \<open>What the whole stage gives at every pixel.\<close>

lemma blur_run:
  assumes "0 \<le> nrows m" and "0 \<le> ncols m" and "nrows edges = nrows m" and "ncols edges = ncols m"
  obtains out where "applyGaussianBlur D 1 junk kjunk m edges = Inr out"
    and "nrows out = nrows m" and "ncols out = ncols m"
    and "\<forall>r c lo hi. in_mat m r c \<and> near_levels m r c lo hi \<longrightarrow>
      lo - 1 \<le> uint (px out r c) \<and> uint (px out r c) \<le> hi"
proof -
  obtain t where t: "bordered junk m = Inr t" "nrows t = nrows m + 2" "ncols t = ncols m + 2"
    "\<forall>r c. in_mat t r c \<longrightarrow> px t r c = padded m (r - 1) (c - 1)"
    by (rule bordered_run [OF assms(1,2), of junk])
  obtain w where w: "blur_kernel D 1 kjunk = Inr w" "nrows w = 3" "ncols w = 3"
    "\<forall>z \<in> set cells. 0 \<le> px w (fst z) (snd z)"
    "\<bar>sum_list (map (\<lambda>z. px w (fst z) (snd z)) cells) - 1\<bar> \<le> 1 / 2 ^ 20"
    by (rule kernel_weights [of kjunk])
  define p where "p r c z = rat_of_int (uint (px t (r + fst z - 1) (c + snd z - 1)))" for r c z
  define v where "v r c = foldl (\<lambda>a z. db_round D (a + db_round D (p r c z * px w (fst z) (snd z)))) 0 cells" for r c
  have vr: "0 \<le> v r c \<and> of_int lo - 1 \<le> v r c \<and> v r c < of_int hi + 1"
    if "\<forall>z \<in> set cells. of_int lo \<le> p r c z \<and> p r c z \<le> of_int hi" "0 \<le> lo" "hi \<le> 255" for r c lo hi
    using accum_range [OF w(4,5) that(1)] that(2,3) unfolding v_def by simp
  have byte: "\<forall>z \<in> set cells. of_int 0 \<le> p r c z \<and> p r c z \<le> of_int 255" for r c
    unfolding p_def by (simp only: of_int_le_iff byte_bounds simp_thms) simp
  have v8: "to_u8 (v r c) = Inr (word_of_int \<lfloor>v r c\<rfloor>)" for r c
    using vr [OF byte, of r c] by (intro to_u8_in) auto
  let ?body = "\<lambda>imrow imcol edges. rbind (blur_accum D t w imrow imcol) (\<lambda>accum.
      rbind (to_u8 accum) (\<lambda>v. put_px edges (imrow - 1) (imcol - 1) v))"
  have acc: "blur_accum D t w r c = Inr (v r c)" if "1 \<le> r" "r < nrows t - 1" "1 \<le> c" "c < ncols t - 1" for r c
    using blur_accum_run [OF that w(2,3)] by (simp add: v_def p_def case_prod_beta)
  obtain out where o: "for_px 1 (nrows t - 1) 1 (ncols t - 1) ?body edges = Inr out"
    "nrows out = nrows edges" "ncols out = ncols edges"
    "\<And>r c. px out r c = (if 1 \<le> r - (- 1) \<and> r - (- 1) < nrows t - 1 \<and> 1 \<le> c - (- 1) \<and> c - (- 1) < ncols t - 1
      then word_of_int \<lfloor>v (r - (- 1)) (c - (- 1))\<rfloor> else px edges r c)"
    by (rule fill_run [of 1 "nrows t - 1" 1 "ncols t - 1" edges "- 1" ?body "\<lambda>r c. word_of_int \<lfloor>v r c\<rfloor>"])
      (use assms t(2,3) in \<open>auto simp: acc v8 in_mat_def\<close>)
  have "lo - 1 \<le> uint (px out r c) \<and> uint (px out r c) \<le> hi" if i: "in_mat m r c" and n: "near_levels m r c lo hi"
    for r c lo hi
  proof -
    let ?lo = "max lo 0" and ?hi = "min hi 255"
    have pz: "of_int ?lo \<le> p (r + 1) (c + 1) z \<and> p (r + 1) (c + 1) z \<le> of_int ?hi" if "z \<in> set cells" for z
    proof -
      obtain x y where z: "z = (x, y)" by fastforce
      from that cells_range [of x y] z have xy: "x - 1 \<in> {- 1, 0, 1}" "y - 1 \<in> {- 1, 0, 1}" by auto
      from xy i t(2,3) have "in_mat t (r + x) (c + y)" by (auto simp: in_mat_def)
      with t(4) have "p (r + 1) (c + 1) z = of_int (uint (padded m (r + (x - 1)) (c + (y - 1))))"
        by (simp only: p_def z fst_conv snd_conv) (simp add: algebra_simps)
      moreover have "lo \<le> uint (padded m (r + (x - 1)) (c + (y - 1)))" "uint (padded m (r + (x - 1)) (c + (y - 1))) \<le> hi"
        using n xy unfolding near_levels_def by blast+
      ultimately show ?thesis using byte_bounds [of "padded m (r + (x - 1)) (c + (y - 1))"]
        by (simp only: of_int_le_iff max.bounded_iff min.bounded_iff simp_thms)
    qed
    have "?lo - 1 \<le> \<lfloor>v (r + 1) (c + 1)\<rfloor> \<and> \<lfloor>v (r + 1) (c + 1)\<rfloor> < ?hi + 1 \<and> 0 \<le> \<lfloor>v (r + 1) (c + 1)\<rfloor>"
      unfolding le_floor_iff floor_less_iff of_int_diff of_int_add of_int_1 of_int_0
      using vr [OF ballI [OF pz]] by fastforce
    moreover have "px out r c = word_of_int \<lfloor>v (r + 1) (c + 1)\<rfloor>"
      using o(4) [of r c] i t(2,3) by (simp add: in_mat_def)
    ultimately have "uint (px out r c) = \<lfloor>v (r + 1) (c + 1)\<rfloor>" "lo - 1 \<le> \<lfloor>v (r + 1) (c + 1)\<rfloor>"
      "\<lfloor>v (r + 1) (c + 1)\<rfloor> \<le> hi"
      by (simp_all add: uint_word_of_int_eq take_bit_int_eq_self) linarith
    then show ?thesis by simp
  qed
  moreover have "applyGaussianBlur D 1 junk kjunk m edges = Inr out"
    using t(1) w(1) o(1) by (simp add: applyGaussianBlur_def half_kernel_size_def KERNEL_SIZE_def)
  ultimately show thesis using o(2,3) assms(3,4) by (intro that [of out]) auto
qed

end

end
