(* ===== verification/Edge_Props.thy ===== *)
theory Edge_Props
  imports Edge Blur_Props Canny_Props Client_Props
begin

text \<open>
  The properties of the whole edge detection: what the blur does to the levels of
  an image, that the detection ends without undefined behaviour on dark images
  and what it shows, and that this picture is what a client receives.
\<close>

section \<open>Dark images\<close>

text \<open>The brightest level for which no gradient of the blurred image exceeds a byte.\<close>

definition DARK :: int where
  "DARK = 45"

definition dark :: "8 word mat \<Rightarrow> bool" where
  "dark m \<longleftrightarrow> 2 \<le> nrows m \<and> 2 \<le> ncols m \<and> (\<forall>r c. in_mat m r c \<longrightarrow> uint (px m r c) \<le> DARK)"

lemma dark_near: "dark m \<Longrightarrow> near_levels m r c 0 DARK"
  by (auto simp: near_levels_def padded_def dark_def DARK_def byte_bounds)

text \<open>A pixel of the result is an inner one that shows its gradient and reaches a threshold.\<close>

definition shows_gradient :: "fp_lib \<Rightarrow> rat \<Rightarrow> rat \<Rightarrow> 8 word mat \<Rightarrow> 8 word mat \<Rightarrow> bool" where
  "shows_gradient F lo hi blurred pic \<longleftrightarrow> (\<forall>r c. in_mat blurred r c \<and> px pic r c \<noteq> 0 \<longrightarrow> inner blurred r c \<and>
     px pic r c = word_of_int \<lfloor>fl_sqrt F (grad_x blurred r c * grad_x blurred r c + grad_y blurred r c * grad_y blurred r c)\<rfloor> \<and>
     (lo \<le> of_int (uint (px pic r c)) \<or> hi \<le> of_int (uint (px pic r c))))"

definition saved :: "string option \<Rightarrow> ('d, 'm) server_scheme \<Rightarrow> ('d, 'm) server_scheme" where
  "saved file s = (case file of None \<Rightarrow> s | Some f \<Rightarrow> s\<lparr>edge_image := Some f\<rparr>)"

lemma detection_run:
  fixes s :: "('d, 'm) server_scheme"
  assumes "dbl_api D" and "fp_api F" and "io_load IO file = Some img" and "dark img" and "0 < lo"
  obtains blurred pic where
    "applyGaussianBlur D 1 (junk_bytes U) (junk_kernel U) img (new_mat (nrows img) (ncols img) (junk_edges U)) = Inr blurred"
    and "\<forall>r c. in_mat img r c \<longrightarrow> uint (px blurred r c) \<le> DARK"
    and "nrows blurred = nrows img" and "ncols blurred = ncols img"
    and "shows_gradient F lo hi blurred pic"
    and "cannyEdgeDetection F D IO U lo hi 1 file s = (Inr (), saved (io_encode IO pic) (s\<lparr>console := console s @
      ['' Process started with 4 threads.'', '' 1/4: Applying Gaussian Blur'', '' 2/4: Sobel operator.'',
       ''3/4: Non maximum suppression.'', '' 4/4: Applying linking and hysteresis.'']\<rparr>))"
proof -
  let ?new = "new_mat (nrows img) (ncols img) (junk_edges U)"
  let ?f = "new_mat (nrows img) (ncols img) (junk_floats U)"
  have d: "2 \<le> nrows img" "2 \<le> ncols img" using assms(4) by (simp_all add: dark_def)
  obtain blurred where b: "applyGaussianBlur D 1 (junk_bytes U) (junk_kernel U) img ?new = Inr blurred"
    "nrows blurred = nrows img" "ncols blurred = ncols img"
    "\<forall>r c lo hi. in_mat img r c \<and> near_levels img r c lo hi \<longrightarrow>
      lo - 1 \<le> uint (px blurred r c) \<and> uint (px blurred r c) \<le> hi"
    by (rule dbl_api.blur_run [OF assms(1), of img ?new "junk_bytes U" "junk_kernel U"])
      (use d in \<open>auto simp: new_mat_def\<close>)
  have le: "\<forall>r c. in_mat img r c \<longrightarrow> uint (px blurred r c) \<le> DARK"
    using b(4) dark_near [OF assms(4)] by blast
  have g: "\<forall>r c. inner blurred r c \<longrightarrow>
      grad_x blurred r c * grad_x blurred r c + grad_y blurred r c * grad_y blurred r c \<le> 255 * 255"
  proof (intro allI impI)
    fix r c assume "inner blurred r c"
    then have "in_mat img (r + i) (c + j)" if "i \<in> {- 1, 0, 1}" "j \<in> {- 1, 0, 1}" for i j
      using that b(2,3) by (auto simp: inner_def in_mat_def)
    with le have "\<forall>i \<in> {- 1, 0, 1}. \<forall>j \<in> {- 1, 0, 1}. uint (px blurred (r + i) (c + j)) \<le> DARK" by blast
    from grad_small [OF this]
    show "grad_x blurred r c * grad_x blurred r c + grad_y blurred r c * grad_y blurred r c \<le> 255 * 255"
      by (simp add: DARK_def)
  qed
  have "\<exists>mag' dir' sup pic. sobelOperator F blurred ?f ?f = Inr (mag', dir') \<and>
    nonMaximumSuppression F mag' dir' blurred = Inr sup \<and> applyLinkingAndHysteresis lo hi sup = Inr pic \<and>
    shows_gradient F lo hi blurred pic"
    unfolding shows_gradient_def
    by (rule detector_stages [OF assms(2) _ _ _ _ _ _ assms(5) g]) (use d b(2,3) in \<open>simp_all add: new_mat_def\<close>)
  then obtain mag' dir' sup pic where st: "sobelOperator F blurred ?f ?f = Inr (mag', dir')"
    "nonMaximumSuppression F mag' dir' blurred = Inr sup" "applyLinkingAndHysteresis lo hi sup = Inr pic"
    "shows_gradient F lo hi blurred pic" by blast
  have "cannyEdgeDetection F D IO U lo hi 1 file s = (Inr (), saved (io_encode IO pic) (s\<lparr>console := console s @
      ['' Process started with 4 threads.'', '' 1/4: Applying Gaussian Blur'', '' 2/4: Sobel operator.'',
       ''3/4: Non maximum suppression.'', '' 4/4: Applying linking and hysteresis.'']\<rparr>))"
    using assms(3) b(1) st(1-3) by (cases "io_encode IO pic") (simp_all add: cannyEdgeDetection_def loadImage_def saveImage_def Let_def saved_def)
  with b(1-3) le st(4) show thesis by (intro that [of blurred pic]) simp_all
qed

section \<open>Properties\<close>

text \<open>
  C32: the blur, for the deviation of one that the program uses, ends on every
  image, stays inside its matrices, and never leaves the range of a byte: each
  pixel of the result lies between the darkest level of its neighbourhood, less
  one because the sum is cut off, and the brightest, where outside the image is
  black.
\<close>

theorem blur_range:
  assumes "dbl_api D" and "0 \<le> nrows m" and "0 \<le> ncols m" and "nrows edges = nrows m" and "ncols edges = ncols m"
  shows "\<exists>pic. applyGaussianBlur D 1 junk kjunk m edges = Inr pic \<and> nrows pic = nrows m \<and> ncols pic = ncols m \<and>
    (\<forall>r c lo hi. in_mat m r c \<and> near_levels m r c lo hi \<longrightarrow>
       lo - 1 \<le> uint (px pic r c) \<and> uint (px pic r c) \<le> hi)"
  by (rule dbl_api.blur_run [OF assms, of junk kjunk]) blast

text \<open>A five by five image of one level.\<close>

definition grey :: "8 word \<Rightarrow> 8 word mat" where
  "grey v = \<lparr>nrows = 5, ncols = 5, px = (\<lambda>_ _. v)\<rparr>"

theorem blur_range_witness:
  "\<exists>pic. applyGaussianBlur exact_dbl 1 (\<lambda>_ _. 7) (\<lambda>_ _. 3) (grey 200) (grey 0) = Inr pic \<and>
    uint (px pic 2 2) \<in> {199, 200} \<and> uint (px pic 0 0) \<le> 200"
proof -
  have n: "near_levels (grey 200) 2 2 200 200" "near_levels (grey 200) 0 0 0 200"
    by (auto simp: near_levels_def padded_def in_mat_def grey_def)
  have i: "in_mat (grey 200) 2 2" "in_mat (grey 200) 0 0" by (simp_all add: in_mat_def grey_def)
  obtain pic where p: "applyGaussianBlur exact_dbl 1 (\<lambda>_ _. 7) (\<lambda>_ _. 3) (grey 200) (grey 0) = Inr pic"
    "\<forall>r c lo hi. in_mat (grey 200) r c \<and> near_levels (grey 200) r c lo hi \<longrightarrow>
       lo - 1 \<le> uint (px pic r c) \<and> uint (px pic r c) \<le> hi"
    using blur_range [OF exact_dbl.dbl_api_axioms, of "grey 200" "grey 0" "\<lambda>_ _. 7" "\<lambda>_ _. 3"]
    by (auto simp: grey_def)
  from p(2) i n have "200 - 1 \<le> uint (px pic 2 2)" "uint (px pic 2 2) \<le> 200" "uint (px pic 0 0) \<le> 200"
    by blast+
  then have "uint (px pic 2 2) \<in> {199, 200} \<and> uint (px pic 0 0) \<le> 200" by auto
  with p(1) show ?thesis by blast
qed

text \<open>
  C12: the detection ends without undefined behaviour on every image of at least
  two rows and columns whose levels are at most 45, where the gradients of the
  blurred image stay below 256: it saves a picture in which every pixel that is
  not black is an inner one, shows its gradient magnitude cut to a whole number,
  and reaches one of the thresholds.  Without an image it throws.
\<close>

theorem detection_on_dark_images:
  fixes s :: "('d, 'm) server_scheme"
  assumes "dbl_api D" and "fp_api F" and "dark img" and "0 < lo"
  shows "(io_load IO file = Some img \<longrightarrow> (\<exists>blurred pic s'.
      cannyEdgeDetection F D IO U lo hi 1 file s = (Inr (), s') \<and>
      applyGaussianBlur D 1 (junk_bytes U) (junk_kernel U) img
        (new_mat (nrows img) (ncols img) (junk_edges U)) = Inr blurred \<and>
      shows_gradient F lo hi blurred pic \<and>
      edge_image s' = (case io_encode IO pic of None \<Rightarrow> edge_image s | Some f \<Rightarrow> Some f))) \<and>
    (io_load IO file = None \<longrightarrow> cannyEdgeDetection F D IO U lo hi 1 file s = (Inl (Throw RuntimeError), s))"
proof (intro conjI impI)
  assume l: "io_load IO file = Some img"
  show "\<exists>blurred pic s'. cannyEdgeDetection F D IO U lo hi 1 file s = (Inr (), s') \<and>
      applyGaussianBlur D 1 (junk_bytes U) (junk_kernel U) img
        (new_mat (nrows img) (ncols img) (junk_edges U)) = Inr blurred \<and>
      shows_gradient F lo hi blurred pic \<and>
      edge_image s' = (case io_encode IO pic of None \<Rightarrow> edge_image s | Some f \<Rightarrow> Some f)"
    by (rule detection_run [OF assms(1,2) l assms(3,4), of U hi s])
      (force simp: saved_def split: option.split)
qed (simp add: cannyEdgeDetection_def loadImage_def)

text \<open>
  The stand-alone program ends with status 0 on a dark image, having saved what shows its
  gradients from level 40 on, and with an uncaught exception when there is no image.
\<close>

lemma edge_main_run:
  fixes s :: "('d, 'm) server_scheme"
  assumes "dbl_api D" and "fp_api F" and "dark img"
  shows "(io_load IO ''../img/canny.png'' = Some img \<longrightarrow> (\<exists>blurred pic s'. edge_main F D IO U s = (Inr 0, s') \<and>
      applyGaussianBlur D 1 (junk_bytes U) (junk_kernel U) img
        (new_mat (nrows img) (ncols img) (junk_edges U)) = Inr blurred \<and>
      shows_gradient F 40 80 blurred pic \<and>
      edge_image s' = (case io_encode IO pic of None \<Rightarrow> edge_image s | Some f \<Rightarrow> Some f))) \<and>
    (io_load IO ''../img/canny.png'' = None \<longrightarrow> edge_main F D IO U s = (Inl (Throw RuntimeError), s))"
proof (intro conjI impI)
  assume l: "io_load IO ''../img/canny.png'' = Some img"
  show "\<exists>blurred pic s'. edge_main F D IO U s = (Inr 0, s') \<and>
      applyGaussianBlur D 1 (junk_bytes U) (junk_kernel U) img
        (new_mat (nrows img) (ncols img) (junk_edges U)) = Inr blurred \<and>
      shows_gradient F 40 80 blurred pic \<and>
      edge_image s' = (case io_encode IO pic of None \<Rightarrow> edge_image s | Some f \<Rightarrow> Some f)"
    by (rule detection_run [OF assms(1,2) l assms(3), of 40 U 80 s])
      (force simp: edge_main_def saved_def split: option.split)+
qed (simp add: edge_main_def cannyEdgeDetection_def loadImage_def)

text \<open>A file system with one dark image, a step from black to level 40, and a trivial file format.\<close>

definition soft_step :: "8 word mat" where
  "soft_step = \<lparr>nrows = 4, ncols = 4, px = (\<lambda>r c. if c < 2 then 0 else 40)\<rparr>"

definition demo_io :: image_io where
  "demo_io = \<lparr>io_load = (\<lambda>f. if f = ''../canny_imgs/Satellite2.tif'' then Some soft_step else None),
     io_encode = (\<lambda>m. Some ''PNG'')\<rparr>"

definition demo_junk :: junk_memory where
  "demo_junk = \<lparr>junk_bytes = (\<lambda>_ _. 9), junk_edges = (\<lambda>_ _. 9), junk_kernel = (\<lambda>_ _. 9), junk_floats = (\<lambda>_ _. 9)\<rparr>"

lemma soft_step_dark: "dark soft_step"
  by (simp add: dark_def soft_step_def DARK_def)

theorem detection_on_dark_images_witness:
  "(\<exists>s'. cannyEdgeDetection coarse exact_dbl demo_io demo_junk 50 150 1 ''../canny_imgs/Satellite2.tif'' image_server = (Inr (), s') \<and>
     edge_image s' = Some ''PNG'') \<and>
   cannyEdgeDetection coarse exact_dbl demo_io demo_junk 50 150 1 ''none.tif'' image_server = (Inl (Throw RuntimeError), image_server)"
proof -
  note d = detection_on_dark_images [OF exact_dbl.dbl_api_axioms coarse_fp.fp_api_axioms soft_step_dark,
      of 50 demo_io _ demo_junk 150 image_server]
  from d [of "''../canny_imgs/Satellite2.tif''"] d [of "''none.tif''"] show ?thesis
    by (auto simp: demo_io_def)
qed

text \<open>
  From the satellite image to the client.  When the server has run its edge
  detection on a dark image, of levels up to 45, and compressed the result, and then sends it to a
  client that takes every byte, the file that the client unpacks is the saved
  picture, and every pixel of that picture that is not black shows the gradient
  of the blurred satellite image.
\<close>

theorem edges_reach_client:
  fixes s :: "('d, 'm) server_scheme"
  assumes "dbl_api D" and "fp_api F" and "gz_api G collected unread"
    and "io_load IO ''../canny_imgs/Satellite2.tif'' = Some img" and "dark img" and "\<forall>m. io_encode IO m \<noteq> None"
    and "zip_creatable s" and "write_results s = []"
    and "start_canny_edge_detection F D IO U G s = (Inr (), s1)"
    and "last (console s1) = ''[EDGE] Zip file created succesfully.''"
    and "send_zip_file sock s1 = (Inr (), s2)"
    and "wire sock (sent s2) = wire sock (sent s1) @ concat (ps @ [p])"
    and "list_all data_piece ps" and "last_piece p"
    and "net c = pieces (ps @ [p]) @ evs" and "zip_opens c" and "img_opens c" and "disk c = []"
  shows "\<exists>blurred pic file lines. applyGaussianBlur D 1 (junk_bytes U) (junk_kernel U) img
      (new_mat (nrows img) (ncols img) (junk_edges U)) = Inr blurred \<and>
    shows_gradient F 50 150 blurred pic \<and> io_encode IO pic = Some file \<and>
    receive_compressed_file G c = Some (Inr True,
      c\<lparr>net := evs, recv_zip := zip_file s1, recv_img := Some file, out := out c @ lines\<rparr>)"
proof -
  let ?s = "s\<lparr>console := console s @ [''[EDGE] Canny edge detection started.'']\<rparr>"
  have lo: "(0 :: rat) < 50" by simp
  obtain blurred pic where b: "applyGaussianBlur D 1 (junk_bytes U) (junk_kernel U) img
      (new_mat (nrows img) (ncols img) (junk_edges U)) = Inr blurred" "shows_gradient F 50 150 blurred pic"
    and run: "cannyEdgeDetection F D IO U 50 150 1 ''../canny_imgs/Satellite2.tif'' ?s =
      (Inr (), saved (io_encode IO pic) (?s\<lparr>console := console ?s @
      ['' Process started with 4 threads.'', '' 1/4: Applying Gaussian Blur'', '' 2/4: Sobel operator.'',
       ''3/4: Non maximum suppression.'', '' 4/4: Applying linking and hysteresis.'']\<rparr>))"
    by (rule detection_run [OF assms(1,2,4,5) lo, of U 150 ?s])
  from assms(6) obtain png where enc: "io_encode IO pic = Some png" by blast
  obtain t where t: "compress_image G t = (Inr (), s1)" "edge_image t = Some png" "zip_creatable t" "write_results t = []"
    using assms(7-9) run enc by (simp add: start_canny_edge_detection_def saved_def)
  from transfer_image [OF assms(3) t(2-4,1) assms(10-18)] b enc show ?thesis by blast
qed

theorem edges_reach_client_witness:
  "\<exists>lines. receive_compressed_file stored (demo_client\<lparr>net := pieces [''SPN'', ''GEOF'']\<rparr>) =
    Some (Inr True, demo_client\<lparr>net := [], recv_zip := Some ''SPNG'', recv_img := Some ''PNG'', out := lines\<rparr>)"
proof -
  let ?file = "''../canny_imgs/Satellite2.tif''"
  have l: "io_load demo_io ?file = Some soft_step" "\<forall>m. io_encode demo_io m = Some ''PNG''"
    by (simp_all add: demo_io_def)
  have lo: "(0 :: rat) < 50" by simp
  let ?s = "image_server\<lparr>console := console image_server @ [''[EDGE] Canny edge detection started.'']\<rparr>"
  obtain pic where run: "cannyEdgeDetection coarse exact_dbl demo_io demo_junk 50 150 1 ?file ?s =
      (Inr (), saved (io_encode demo_io pic) (?s\<lparr>console := console ?s @
      ['' Process started with 4 threads.'', '' 1/4: Applying Gaussian Blur'', '' 2/4: Sobel operator.'',
       ''3/4: Non maximum suppression.'', '' 4/4: Applying linking and hysteresis.'']\<rparr>))"
    by (rule detection_run [OF exact_dbl.dbl_api_axioms coarse_fp.fp_api_axioms l(1) soft_step_dark lo, of demo_junk 150 ?s])
  have copy: "gz_copy stored [] ''PNG'' = (True, ''PNG'')"
    by (simp add: gz_copy.simps [of stored] MAX_BUFFER_def)
  obtain s1 where 1: "start_canny_edge_detection coarse exact_dbl demo_io demo_junk stored image_server = (Inr (), s1)"
    "last (console s1) = ''[EDGE] Zip file created succesfully.''" "zip_file s1 = Some ''SPNG''"
    "write_results s1 = []" "sent s1 = []"
    using run l(2) copy by (simp add: start_canny_edge_detection_def saved_def compress_image_def image_server_def)
  from send_zip_file_full [OF 1(3,4), of 4] obtain s2 xs where 2: "send_zip_file 4 s1 = (Inr (), s2)"
    "sent s2 = xs" "wire 4 xs = ''SPNG'' @ ''EOF''" by (auto simp: 1(5))
  have 3: "list_all data_piece [''SPN'']" "last_piece ''GEOF''"
    by (simp_all add: data_piece_def last_piece_def ends_EOF_def CLIENT_MAX_def)
  have "\<exists>blurred pic file lines. applyGaussianBlur exact_dbl 1 (junk_bytes demo_junk) (junk_kernel demo_junk) soft_step
      (new_mat (nrows soft_step) (ncols soft_step) (junk_edges demo_junk)) = Inr blurred \<and>
    shows_gradient coarse 50 150 blurred pic \<and> io_encode demo_io pic = Some file \<and>
    receive_compressed_file stored (demo_client\<lparr>net := pieces [''SPN'', ''GEOF'']\<rparr>) = Some (Inr True,
      (demo_client\<lparr>net := pieces [''SPN'', ''GEOF'']\<rparr>)\<lparr>net := [], recv_zip := zip_file s1, recv_img := Some file,
        out := out (demo_client\<lparr>net := pieces [''SPN'', ''GEOF'']\<rparr>) @ lines\<rparr>)"
    by (rule edges_reach_client [OF exact_dbl.dbl_api_axioms coarse_fp.fp_api_axioms stored_gz.gz_api_axioms
          l(1) soft_step_dark _ _ _ 1(1,2) 2(1) _ 3])
      (use l(2) 1(5) 2(2,3) in \<open>simp_all add: image_server_def demo_client_def\<close>)
  then show ?thesis using l(2) 1(3) by (auto simp: demo_client_def)
qed

end
