(* ===== verification/Setup.thy ===== *)
theory Setup
  imports Edge Sensors Client
begin

text \<open>
  What the two programs do before their loops: the set-up functions of
  \<open>src/server.cpp\<close> and the first part of its \<open>main\<close>, and the first part of
  \<open>main\<close> in \<open>src/client.cpp\<close>.  The answers of the operating system and of the
  store are the fields of a record.
\<close>

section \<open>The server\<close>

datatype fork_result = Fork_failed | Child | Parent

text \<open>
  \<open>db_error\<close> is the text of a status that is not OK; \<open>socket4\<close> to \<open>listen6\<close> are
  the results of \<open>socket\<close>, \<open>bind\<close> and \<open>listen\<close> for the two protocols; \<open>alert_open\<close>
  and \<open>emgs_open\<close> what \<open>open\<close> gives for the two pipes.  The result of \<open>mkfifo\<close> is
  never looked at.
\<close>

record host =
  db_error :: "string option"
  socket4 :: int
  bind4 :: int
  listen4 :: int
  socket6 :: int
  bind6 :: int
  listen6 :: int
  alert_open :: int
  alert_fork :: fork_result
  emgs_open :: int
  emgs_fork :: fork_result

text \<open>An error line and \<open>exit(EXIT_FAILURE)\<close>.\<close>

definition fail_if :: "bool \<Rightarrow> string \<Rightarrow> (('d, 'm) server_scheme, unit) act" where
  "fail_if b msg = (if b then thn (say msg) (halt (Exit 1)) else ret ())"

definition setup_server :: "host \<Rightarrow> (('d, 'm) server_scheme, int \<times> int) act" where
  "setup_server H =
     thn (fail_if (socket4 H < 0) ''[ERROR] Cannot create IPv4 socket.'')
    (thn (fail_if (bind4 H < 0) ''[ERROR] IPv4 bind failed.'')
    (thn (fail_if (listen4 H < 0) ''[ERROR] IPv4 listen failed.'')
    (thn (fail_if (socket6 H < 0) ''[ERROR] Cannot create IPv6 socket.'')
    (thn (fail_if (bind6 H < 0) ''[ERROR] IPv6 bind failed.'')
    (thn (fail_if (listen6 H < 0) ''[ERROR] IPv6 listen failed.'')
    (ret (socket4 H, socket6 H)))))))"

definition setup_rocksdb :: "host \<Rightarrow> (('d, 'm) server_scheme, unit) act" where
  "setup_rocksdb H =
     (case db_error H of
        None \<Rightarrow> ret ()
      | Some status \<Rightarrow> thn (say (''[ERROR] Error opening database: '' @ status)) (halt (Exit 1)))"

text \<open>The child runs the sensor, whose messages go to the same terminal, and then exits.\<close>

fun say_all :: "string list \<Rightarrow> (('d, 'm) server_scheme, unit) act" where
  "say_all [] = ret ()"
| "say_all (m # ms) = thn (say m) (say_all ms)"

definition setup_alerts_fifo ::
    "host \<Rightarrow> string list \<times> (int \<times> string) list \<Rightarrow> (('d, 'm) server_scheme, int) act" where
  "setup_alerts_fifo H sensor =
     (case alert_fork H of
        Fork_failed \<Rightarrow> thn (say ''Error forking alert child process'') (halt (Exit 1))
      | Child \<Rightarrow> thn (say_all (fst sensor)) (halt (Exit 0))
      | Parent \<Rightarrow> ret (alert_open H))"

definition setup_emgs_fifo ::
    "host \<Rightarrow> string list \<times> (int \<times> string) list \<Rightarrow> (('d, 'm) server_scheme, int) act" where
  "setup_emgs_fifo H sensor =
     (case emgs_fork H of
        Fork_failed \<Rightarrow> thn (say ''Error forking emergency child process'') (halt (Exit 1))
      | Child \<Rightarrow> thn (say_all (fst sensor)) (halt (Exit 0))
      | Parent \<Rightarrow> ret (emgs_open H))"

definition banner :: "string list" where
  "banner =
     [CHR 0x0A # replicate 66 (CHR ''=''),
      replicate 25 (CHR ''='') @ '' SERVER RUNNING '' @ replicate 25 (CHR ''=''),
      replicate 66 (CHR ''='')]"

text \<open>
  \<open>main\<close> up to its loop; the result are the four descriptors it watches.  The web
  server runs in its own thread from the second step on and is modelled in \<open>Http\<close>.
\<close>

definition main_start ::
    "host \<Rightarrow> string list \<times> (int \<times> string) list \<Rightarrow> string list \<times> (int \<times> string) list
     \<Rightarrow> (('d, 'm) server_scheme, unit) act \<Rightarrow> (('d, 'm) server_scheme, int list) act" where
  "main_start H alerts emgs process_images =
     thn (setup_rocksdb H)
    (bnd (setup_server H) (\<lambda>(server_socket_ipv4, server_socket_ipv6).
     bnd (setup_alerts_fifo H alerts) (\<lambda>alert_fifo_fd.
     bnd (setup_emgs_fifo H emgs) (\<lambda>emgs_fifo_fd.
     thn (say_all banner)
    (thn process_images
    (ret [server_socket_ipv4, server_socket_ipv6, alert_fifo_fd, emgs_fifo_fd]))))))"

text \<open>
  \<open>FD_ZERO\<close>, the four \<open>FD_SET\<close> and the computation of \<open>max_fd\<close>: \<open>FD_SET\<close> writes
  outside the set for a descriptor that is negative or not below \<open>FD_SETSIZE\<close>.
\<close>

definition FD_SETSIZE :: int where
  "FD_SETSIZE = 1024"

definition watch :: "int list \<Rightarrow> int res" where
  "watch fds = (if \<forall>fd \<in> set fds. 0 \<le> fd \<and> fd < FD_SETSIZE then Inr (fold max fds 0 + 1) else Inl Undefined)"

section \<open>The client\<close>

text \<open>Without a program name in \<open>argv\<close> the usage message prints a null pointer.\<close>

text \<open>
  The results of \<open>socket\<close>, \<open>inet_pton\<close> and \<open>connect\<close>, the last two depending on the
  address, and on the address and the port in host byte order.
\<close>

record client_host =
  cl_socket :: int
  cl_pton :: "string \<Rightarrow> int"
  cl_connect :: "string \<Rightarrow> int \<Rightarrow> int"

text \<open>\<open>htons\<close> takes a 16-bit number: the port is cut to its low bits.\<close>

definition port16 :: "int \<Rightarrow> int" where
  "port16 port = port mod 2 ^ 16"

definition client_fail :: "string \<Rightarrow> (client, 'a) act" where
  "client_fail msg = bnd (print msg) (\<lambda>_. halt (Exit 1))"

definition client_start :: "client_host \<Rightarrow> string list \<Rightarrow> (client, unit) act" where
  "client_start H argv =
     (case argv of
        [prog, port, addr] \<Rightarrow>
          bnd (of_res (stoi port)) (\<lambda>PORT.
          if cl_socket H < 0 then client_fail ''[ERROR] Socket creation failed.''
          else if cl_pton H addr \<le> 0 then client_fail ''[ERROR] Invalid address/Address not supported.''
          else if cl_connect H addr (port16 PORT) \<noteq> 0 then client_fail ''[ERROR] Connection with the server failed.''
          else print (''[CLIENT] Connected at '' @ addr @ '':'' @ show_int PORT))
      | prog # args \<Rightarrow> client_fail (''Usage: '' @ prog @ '' <PORT> <IP>'')
      | [] \<Rightarrow> halt Undefined)"

end
