(* ===== verification/Setup_Props.thy ===== *)
theory Setup_Props
  imports Setup Session_Props
begin

text \<open>
  The properties of the start: which failures end the server before its loop,
  with what message, and which one it does not notice; and the port to which the
  client connects.
\<close>

section \<open>The checks of the server\<close>

text \<open>The checks of \<open>main\<close> in their order, each with its message.\<close>

definition start_checks :: "host \<Rightarrow> (bool \<times> string) list" where
  "start_checks H =
     [(db_error H \<noteq> None, ''[ERROR] Error opening database: '' @ (case db_error H of None \<Rightarrow> [] | Some e \<Rightarrow> e)),
      (socket4 H < 0, ''[ERROR] Cannot create IPv4 socket.''),
      (bind4 H < 0, ''[ERROR] IPv4 bind failed.''),
      (listen4 H < 0, ''[ERROR] IPv4 listen failed.''),
      (socket6 H < 0, ''[ERROR] Cannot create IPv6 socket.''),
      (bind6 H < 0, ''[ERROR] IPv6 bind failed.''),
      (listen6 H < 0, ''[ERROR] IPv6 listen failed.''),
      (alert_fork H = Fork_failed, ''Error forking alert child process''),
      (emgs_fork H = Fork_failed, ''Error forking emergency child process'')]"

definition first_failure :: "host \<Rightarrow> string option" where
  "first_failure H = map_option snd (find fst (start_checks H))"

definition fds_of :: "host \<Rightarrow> int list" where
  "fds_of H = [socket4 H, socket6 H, alert_open H, emgs_open H]"

definition announced :: "('d, 'm) server_scheme \<Rightarrow> ('d, 'm) server_scheme" where
  "announced s = s\<lparr>console := console s @ banner\<rparr>"

lemma say_all_run [act_simps]: "say_all ms s = (Inr (), s\<lparr>console := console s @ ms\<rparr>)"
  by (induction ms arbitrary: s) simp_all

lemma fail_if_simps [simp]:
  "fail_if True msg = thn (say msg) (halt (Exit 1))"
  "fail_if False msg = ret ()"
  by (simp_all add: fail_if_def)

lemma main_start_run:
  assumes "alert_fork H \<noteq> Child" and "emgs_fork H \<noteq> Child"
  shows "main_start H al em images s = (case first_failure H of
      Some msg \<Rightarrow> (Inl (Exit 1), s\<lparr>console := console s @ [msg]\<rparr>)
    | None \<Rightarrow> thn images (ret (fds_of H)) (announced s))"
proof (cases "db_error H")
  case (Some e)
  then show ?thesis by (simp add: main_start_def setup_rocksdb_def first_failure_def start_checks_def)
next
  case None
  with assms show ?thesis
    by (cases "socket4 H < 0"; cases "bind4 H < 0"; cases "listen4 H < 0"; cases "socket6 H < 0";
        cases "bind6 H < 0"; cases "listen6 H < 0"; cases "alert_fork H"; cases "emgs_fork H")
      (simp_all add: main_start_def setup_rocksdb_def setup_server_def setup_alerts_fifo_def setup_emgs_fifo_def
        first_failure_def start_checks_def say_all_run announced_def fds_of_def)
qed

section \<open>Properties\<close>

text \<open>
  C34: the server reaches its loop exactly when no check fails, after its banner and
  the images; the first check that fails ends it with its message and status
  one.  The results of opening the pipes are not among the checks: when one of
  them is negative, the server starts all the same, and the first \<open>FD_SET\<close> of the
  loop writes outside the set.
\<close>

theorem server_start:
  fixes s :: "('d, 'm) server_scheme"
  assumes "alert_fork H \<noteq> Child" and "emgs_fork H \<noteq> Child" and "images (announced s) = (Inr (), s')"
  shows "main_start H al em images s = (case first_failure H of
        Some msg \<Rightarrow> (Inl (Exit 1), s\<lparr>console := console s @ [msg]\<rparr>)
      | None \<Rightarrow> (Inr (fds_of H), s')) \<and>
    first_failure (H\<lparr>alert_open := a, emgs_open := e\<rparr>) = first_failure H \<and>
    (a < 0 \<or> e < 0 \<longrightarrow> watch (fds_of (H\<lparr>alert_open := a, emgs_open := e\<rparr>)) = Inl Undefined)"
proof (intro conjI impI)
  show "main_start H al em images s = (case first_failure H of
        Some msg \<Rightarrow> (Inl (Exit 1), s\<lparr>console := console s @ [msg]\<rparr>)
      | None \<Rightarrow> (Inr (fds_of H), s'))"
    using assms(3) by (simp add: main_start_run [OF assms(1,2)] split: option.split)
  show "first_failure (H\<lparr>alert_open := a, emgs_open := e\<rparr>) = first_failure H"
    by (simp add: first_failure_def start_checks_def)
  show "watch (fds_of (H\<lparr>alert_open := a, emgs_open := e\<rparr>)) = Inl Undefined" if "a < 0 \<or> e < 0"
    using that by (auto simp: watch_def fds_of_def)
qed

text \<open>A machine on which every call succeeds.\<close>

definition good_host :: host where
  "good_host = \<lparr>db_error = None, socket4 = 3, bind4 = 0, listen4 = 0, socket6 = 4, bind6 = 0, listen6 = 0,
     alert_open = 5, alert_fork = Parent, emgs_open = 6, emgs_fork = Parent\<rparr>"

theorem server_start_witness:
  "main_start good_host ([], []) ([], []) (ret ()) demo_server = (Inr [3, 4, 5, 6], announced demo_server) \<and>
   main_start (good_host\<lparr>bind4 := -1\<rparr>) ([], []) ([], []) (ret ()) demo_server =
     (Inl (Exit 1), demo_server\<lparr>console := [''[ERROR] IPv4 bind failed.'']\<rparr>) \<and>
   watch [3, 4, 5, 6] = Inr 7 \<and> watch (fds_of (good_host\<lparr>alert_open := -1, emgs_open := 6\<rparr>)) = Inl Undefined"
proof -
  have f: "first_failure good_host = None"
    "first_failure (good_host\<lparr>bind4 := -1\<rparr>) = Some ''[ERROR] IPv4 bind failed.''"
    by (simp_all add: first_failure_def start_checks_def good_host_def)
  have p: "alert_fork good_host \<noteq> Child" "emgs_fork good_host \<noteq> Child"
    "alert_fork (good_host\<lparr>bind4 := -1\<rparr>) \<noteq> Child" "emgs_fork (good_host\<lparr>bind4 := -1\<rparr>) \<noteq> Child"
    by (simp_all add: good_host_def)
  have i: "ret () (announced demo_server) = (Inr (), announced demo_server)" by simp
  have w: "watch [3, 4, 5, 6] = Inr 7" by (simp add: watch_def FD_SETSIZE_def)
  have "console demo_server = []" by (simp add: demo_server_def)
  with server_start [where images = "ret ()" and al = "([], [])" and em = "([], [])" and a = "-1" and e = 6, OF p(1,2) i]
    server_start [where images = "ret ()" and al = "([], [])" and em = "([], [])" and a = 5 and e = 6, OF p(3,4) i] f w
  show ?thesis by (simp add: fds_of_def good_host_def)
qed

section \<open>The port of the client\<close>

text \<open>
  The client connects to the port modulo \<open>2\<^sup>1\<^sup>6\<close> but names the port that was typed;
  an argument that is no number ends it with an exception, a wrong number of
  arguments with the usage message.
\<close>

lemma client_start_port:
  assumes "stoi port = Inr n" and "0 \<le> cl_socket H" and "0 < cl_pton H addr" and "cl_connect H addr (n mod 65536) = 0"
  shows "client_start H [prog, port, addr] c =
    (Inr (), c\<lparr>out := out c @ [''[CLIENT] Connected at '' @ addr @ '':'' @ show_int n]\<rparr>)"
  using assms by (simp add: client_start_def port16_def print_def)

end
