(* ===== verification/Stdio.thy ===== *)
theory Stdio
  imports Cxx_Strings Net
begin

text \<open>
  The part of the C library that the first laboratory (\<open>lab1_-manugcr\<close>) uses: the
  conversions of \<open>sscanf\<close> in its three formats, \<open>strcat\<close> with a line break,
  \<open>snprintf\<close>, and one call of \<open>read\<close> on a descriptor.
\<close>

section \<open>sscanf\<close>

text \<open>
  \<open>%99s\<close>: white space is skipped, then at most \<open>n\<close> other characters are taken; it fails
  only at the end of the text.  The result is the word and the rest.
\<close>

definition scan_word :: "nat \<Rightarrow> string \<Rightarrow> (string \<times> string) option" where
  "scan_word n s =
     (let t = dropWhile is_space s; w = take n (takeWhile (\<lambda>c. \<not> is_space c) t)
      in if w = [] then None else Some (w, drop (length w) t))"

text \<open>
  \<open>%d\<close> reads what \<open>strtol\<close> reads; without a digit the conversion fails, and a number
  that is not an \<open>int\<close> is undefined behaviour.
\<close>

definition scan_int :: "string \<Rightarrow> int option res" where
  "scan_int s = (case stoi s of
      Inr v \<Rightarrow> Inr (Some v)
    | Inl e \<Rightarrow> if e = Throw InvalidArgument then Inr None else Inl Undefined)"

text \<open>\<open>%99[^,]\<close>: at most \<open>n\<close> characters other than the comma, without skipping anything.\<close>

definition scan_until :: "char \<Rightarrow> nat \<Rightarrow> string \<Rightarrow> (string \<times> string) option" where
  "scan_until d n s =
     (let w = take n (takeWhile (\<lambda>c. c \<noteq> d) s) in if w = [] then None else Some (w, drop (length w) s))"

text \<open>
  Ordinary characters of the format: white space in it matches any amount of white
  space, every other character itself.
\<close>

fun scan_literal :: "string \<Rightarrow> string \<Rightarrow> string option" where
  "scan_literal [] s = Some s"
| "scan_literal (c # fmt) s =
     (if is_space c then scan_literal fmt (dropWhile is_space s)
      else case s of [] \<Rightarrow> None | x # xs \<Rightarrow> if x = c then scan_literal fmt xs else None)"

text \<open>
  \<open>%f\<close>, of which the program uses the success only: an optional sign, then a decimal
  or hexadecimal number, \<open>inf\<close>, \<open>infinity\<close> or \<open>nan\<close>.  The longest beginning of such a
  number is read, and it has to be complete.
\<close>

definition lower :: "char \<Rightarrow> char" where
  "lower c = (if (65 :: nat) \<le> of_char c \<and> of_char c \<le> (90 :: nat) then char_of (of_char c + (32 :: nat)) else c)"

definition is_hex :: "char \<Rightarrow> bool" where
  "is_hex c \<longleftrightarrow> is_digit c \<or> ((97 :: nat) \<le> of_char (lower c) \<and> of_char (lower c) \<le> (102 :: nat))"

definition skip_sign :: "string \<Rightarrow> string" where
  "skip_sign s = (case s of c # r \<Rightarrow> if c = CHR ''-'' \<or> c = CHR ''+'' then r else s | [] \<Rightarrow> s)"

text \<open>
  Digits with an optional point between them, at least one digit, and an exponent that is
  complete if it begins.
\<close>

definition mantissa_ok :: "(char \<Rightarrow> bool) \<Rightarrow> char \<Rightarrow> string \<Rightarrow> bool" where
  "mantissa_ok dig ex s =
     (let w = takeWhile dig s; r = dropWhile dig s;
          f = (case r of c # q \<Rightarrow> if c = CHR ''.'' then takeWhile dig q else [] | [] \<Rightarrow> []);
          r' = (case r of c # q \<Rightarrow> if c = CHR ''.'' then dropWhile dig q else r | [] \<Rightarrow> r)
      in w @ f \<noteq> [] \<and>
         (case r' of c # q \<Rightarrow> lower c = ex \<longrightarrow> takeWhile is_digit (skip_sign q) \<noteq> [] | [] \<Rightarrow> True))"

definition scan_float_ok :: "string \<Rightarrow> bool" where
  "scan_float_ok s =
     (let u = map lower (skip_sign (dropWhile is_space s)) in
      if take 3 u = ''inf'' then (drop 3 u = [] \<or> hd (drop 3 u) \<noteq> CHR ''i'' \<or> take 8 u = ''infinity'')
      else if take 3 u = ''nan'' then True
      else if take 2 u = ''0x'' then mantissa_ok is_hex (CHR ''p'') (drop 2 u)
      else mantissa_ok is_digit (CHR ''e'') u)"

section \<open>Building strings\<close>

definition LF :: char where
  "LF = CHR 0x0A"

text \<open>\<open>snprintf(buf, n, ...)\<close> of a text, as the C string it leaves in the buffer.\<close>

definition snprintf :: "nat \<Rightarrow> string \<Rightarrow> string" where
  "snprintf n text = take (n - 1) text"

text \<open>\<open>strcat(buf, "\n")\<close> for a C string in an array of \<open>n\<close> bytes.\<close>

definition strcat_lf :: "nat \<Rightarrow> string \<Rightarrow> string res" where
  "strcat_lf n text = (if length text + 2 \<le> n then Inr (text @ [LF]) else Inl Undefined)"

section \<open>read\<close>

text \<open>
  The result of a \<open>read\<close>: some bytes, the end of the stream (zero), or an error (-1).
  A blocking call waits through quiet moments; on a non-blocking descriptor they are
  the error \<open>EAGAIN\<close>.
\<close>

datatype read_result = Bytes string | At_end | Error

fun read_blocking :: "nat \<Rightarrow> recv_event list \<Rightarrow> read_result \<times> recv_event list" where
  "read_blocking lim [] = (At_end, [])"
| "read_blocking lim (Quiet # evs) = read_blocking lim evs"
| "read_blocking lim (Failed # evs) = (Error, evs)"
| "read_blocking lim (Data bs # evs) =
     (if bs = [] then read_blocking lim evs
      else (Bytes (take lim bs), if length bs \<le> lim then evs else Data (drop lim bs) # evs))"

fun read_nonblocking :: "nat \<Rightarrow> recv_event list \<Rightarrow> read_result \<times> recv_event list" where
  "read_nonblocking lim [] = (At_end, [])"
| "read_nonblocking lim (Quiet # evs) = (Error, evs)"
| "read_nonblocking lim (Failed # evs) = (Error, evs)"
| "read_nonblocking lim (Data bs # evs) =
     (if bs = [] then read_nonblocking lim evs
      else (Bytes (take lim bs), if length bs \<le> lim then evs else Data (drop lim bs) # evs))"

lemma read_nonblocking_pending:
  "read_nonblocking lim evs = (Bytes bs, evs') \<Longrightarrow> 0 < lim \<Longrightarrow> pending evs' < pending evs"
  by (induction lim evs rule: read_nonblocking.induct) (auto split: if_splits)

lemma read_blocking_bytes: "read_blocking lim evs = (Bytes bs, evs') \<Longrightarrow> length bs \<le> lim \<and> (0 < lim \<longrightarrow> bs \<noteq> [])"
  by (induction lim evs rule: read_blocking.induct) (auto split: if_splits)

lemma read_nonblocking_bytes: "read_nonblocking lim evs = (Bytes bs, evs') \<Longrightarrow> length bs \<le> lim \<and> (0 < lim \<longrightarrow> bs \<noteq> [])"
  by (induction lim evs rule: read_nonblocking.induct) (auto split: if_splits)

section \<open>What the conversions read\<close>

definition word :: "string \<Rightarrow> bool" where
  "word w \<longleftrightarrow> w \<noteq> [] \<and> (\<forall>c \<in> set w. \<not> is_space c) \<and> length w \<le> 99"

lemma scan_word_word:
  assumes "word w" and "rest = [] \<or> is_space (hd rest)"
  shows "scan_word 99 (w @ rest) = Some (w, rest)"
proof -
  have 1: "dropWhile is_space (w @ rest) = w @ rest"
    using assms(1) by (cases w) (auto simp: word_def)
  have 2: "takeWhile (\<lambda>c. \<not> is_space c) (w @ rest) = w"
    using assms by (cases rest) (auto simp: word_def takeWhile_append)
  show ?thesis unfolding scan_word_def Let_def 1 2 using assms(1) by (simp add: word_def)
qed

lemma scan_word_spaces:
  assumes "dropWhile is_space s = []"
  shows "scan_word n s = None"
  unfolding scan_word_def Let_def assms by simp

lemma scan_word_skips: "is_space c \<Longrightarrow> scan_word n (c # s) = scan_word n s"
  by (simp add: scan_word_def)

lemma space_chars [simp]: "is_space (CHR '' '')" "is_space LF"
  by (simp_all add: is_space_def LF_def)

lemma scan_int_show_int: "in_int v \<Longrightarrow> scan_int (CHR '' '' # show_int v) = Inr (Some v)"
proof -
  assume v: "in_int v"
  have "stoi (CHR '' '' # show_int v) = stoi (show_int v)" by (simp add: stoi_def)
  with stoi_show_int [OF v] show ?thesis by (simp add: scan_int_def)
qed

lemma scan_literal_append:
  "\<forall>c \<in> set fmt. \<not> is_space c \<Longrightarrow> scan_literal (fmt @ rest) (fmt @ s) = scan_literal rest s"
  by (induction fmt) auto

section \<open>Cleared buffers\<close>

lemma buf_fill_cleared: "length bs \<le> n \<Longrightarrow> buf_fill (replicate n NUL) bs = bs @ replicate (n - length bs) NUL"
  by (simp add: buf_fill_def)

lemma c_str_padded: "NUL \<notin> set bs \<Longrightarrow> 0 < n \<Longrightarrow> c_str (bs @ replicate n NUL) = Inr bs"
  by (cases n) (auto simp: c_str_terminated)

lemma text_of_terminated [simp]: "text_of (x @ NUL # y) = text_of x"
  by (induction x) (simp_all add: text_of_def)

lemma show_nat_length: "n < 10 ^ k \<Longrightarrow> 0 < k \<Longrightarrow> length (show_nat n) \<le> k"
proof (induction k arbitrary: n)
  case (Suc k)
  show ?case
  proof (cases "n < 10")
    case True
    then show ?thesis by (simp add: show_nat.simps)
  next
    case False
    with Suc.prems have "0 < k" by (cases k) auto
    moreover have "n div 10 < 10 ^ k" using Suc.prems by (simp add: less_mult_imp_div_less mult.commute)
    ultimately have "length (show_nat (n div 10)) \<le> k" by (intro Suc.IH)
    with False show ?thesis by (subst show_nat.simps) simp
  qed
qed simp

lemma show_int_length: "0 \<le> v \<Longrightarrow> v \<le> INT_MAX \<Longrightarrow> length (show_int v) \<le> 10"
  using show_nat_length [of "nat v" 10] by (simp add: show_int_def INT_MAX_def)

lemma show_int_no_NUL: "NUL \<notin> set (show_int v)"
proof -
  have "NUL \<notin> set (show_nat n)" for n
    using show_nat_digits [of n] by (auto simp: is_digit_def NUL_def)
  then show ?thesis by (auto simp: show_int_def NUL_def)
qed

end
