(* ===== verification/Cjson_Api.thy ===== *)
theory Cjson_Api
  imports Stdio
begin

text \<open>
  The interface of cJSON (an external library): a document is a tree of nodes in
  memory, and the program holds pointers to nodes.  \<open>'h\<close> is the memory of the
  library, \<open>'n\<close> the pointers that are not null; \<open>None\<close> is the null pointer.
\<close>

record ('h, 'n) cjson_lib =
  cj_create_object :: "'h \<Rightarrow> 'n option \<times> 'h"
  cj_add_item :: "'h \<Rightarrow> 'n option \<Rightarrow> string \<Rightarrow> 'n option \<Rightarrow> 'h"
  cj_add_number :: "'h \<Rightarrow> 'n option \<Rightarrow> string \<Rightarrow> int \<Rightarrow> 'h"
  cj_add_string :: "'h \<Rightarrow> 'n option \<Rightarrow> string \<Rightarrow> string \<Rightarrow> 'h"
  cj_get_item :: "'h \<Rightarrow> 'n option \<Rightarrow> string \<Rightarrow> 'n option"
  cj_get_number :: "'h \<Rightarrow> 'n \<Rightarrow> int option"
  cj_set_number :: "'h \<Rightarrow> 'n \<Rightarrow> int \<Rightarrow> 'h"
  cj_set_string :: "'h \<Rightarrow> 'n \<Rightarrow> string \<Rightarrow> 'h"
  cj_print :: "'h \<Rightarrow> 'n option \<Rightarrow> string option"

text \<open>
  What a node holds, and the tree below a node, to a given depth.  Numbers are
  whole: the program never puts another one into a document.
\<close>

datatype 'n cell = Obj_cell "(string \<times> 'n) list" | Num_cell int | Str_cell string

datatype ctree = CObj "(string \<times> ctree) list" | CNum int | CStr string

fun all_some :: "(string \<times> 'a option) list \<Rightarrow> (string \<times> 'a) list option" where
  "all_some [] = Some []"
| "all_some ((k, x) # xs) =
     (case x of None \<Rightarrow> None | Some y \<Rightarrow> map_option (\<lambda>ys. (k, y) # ys) (all_some xs))"

fun tree_at :: "nat \<Rightarrow> ('n \<Rightarrow> 'n cell option) \<Rightarrow> 'n \<Rightarrow> ctree option" where
  "tree_at 0 h n = None"
| "tree_at (Suc d) h n = (case h n of
      None \<Rightarrow> None
    | Some (Num_cell v) \<Rightarrow> Some (CNum v)
    | Some (Str_cell s) \<Rightarrow> Some (CStr s)
    | Some (Obj_cell ms) \<Rightarrow> map_option CObj (all_some (map (\<lambda>(k, c). (k, tree_at d h c)) ms)))"

definition same_key :: "string \<Rightarrow> string \<Rightarrow> bool" where
  "same_key k k' \<longleftrightarrow> map lower k = map lower k'"

text \<open>
  The documented behaviour.  \<open>cells\<close> is the contents of the memory; \<open>room\<close> says that
  no allocation of the program will fail.  Adding to an object appends a member;
  looking one up compares names without regard to case and takes the first; setting
  a value changes that node only; the printed text depends on the tree only, and
  eight levels are far from the library's limit.
\<close>

locale cjson_api =
  fixes L :: "('h, 'n) cjson_lib" and cells :: "'h \<Rightarrow> 'n \<Rightarrow> 'n cell option"
    and room :: "'h \<Rightarrow> bool" and render :: "ctree \<Rightarrow> string"
  assumes create: "room h \<Longrightarrow> \<exists>n h'. cj_create_object L h = (Some n, h') \<and> cells h n = None \<and>
      cells h' = (cells h)(n := Some (Obj_cell [])) \<and> room h'"
    and add_item: "room h \<Longrightarrow> cells h p = Some (Obj_cell ms) \<Longrightarrow> cells h c \<noteq> None \<Longrightarrow> c \<noteq> p \<Longrightarrow>
      cells (cj_add_item L h (Some p) k (Some c)) = (cells h)(p := Some (Obj_cell (ms @ [(k, c)]))) \<and>
      room (cj_add_item L h (Some p) k (Some c))"
    and add_number: "room h \<Longrightarrow> cells h p = Some (Obj_cell ms) \<Longrightarrow> \<exists>c. cells h c = None \<and>
      cells (cj_add_number L h (Some p) k v) =
        (cells h)(c := Some (Num_cell v), p := Some (Obj_cell (ms @ [(k, c)]))) \<and>
      room (cj_add_number L h (Some p) k v)"
    and add_string: "room h \<Longrightarrow> cells h p = Some (Obj_cell ms) \<Longrightarrow> \<exists>c. cells h c = None \<and>
      cells (cj_add_string L h (Some p) k t) =
        (cells h)(c := Some (Str_cell t), p := Some (Obj_cell (ms @ [(k, c)]))) \<and>
      room (cj_add_string L h (Some p) k t)"
    and get_item: "cells h p = Some (Obj_cell ms) \<Longrightarrow>
      cj_get_item L h (Some p) k = map_option snd (find (\<lambda>m. same_key (fst m) k) ms)"
    and get_number: "cells h n = Some (Num_cell v) \<Longrightarrow> cj_get_number L h n = Some v"
    and set_number: "cells h n = Some (Num_cell w) \<Longrightarrow>
      cells (cj_set_number L h n v) = (cells h)(n := Some (Num_cell v)) \<and> (room h \<longrightarrow> room (cj_set_number L h n v))"
    and set_string: "room h \<Longrightarrow> cells h n = Some (Str_cell u) \<Longrightarrow>
      cells (cj_set_string L h n t) = (cells h)(n := Some (Str_cell t)) \<and> room (cj_set_string L h n t)"
    and print: "room h \<Longrightarrow> tree_at 8 (cells h) n = Some d \<Longrightarrow> cj_print L h (Some n) = Some (render d)"

section \<open>A reference library\<close>

text \<open>
  A memory of numbered nodes.  Its printer writes the tree on one line, with strings
  between quotation marks as they are.
\<close>

record ref_heap =
  rh_next :: nat
  rh_cells :: "nat \<Rightarrow> nat cell option"

definition rh_new :: "nat cell \<Rightarrow> ref_heap \<Rightarrow> ref_heap" where
  "rh_new x h = h\<lparr>rh_next := Suc (rh_next h), rh_cells := (rh_cells h)(rh_next h := Some x)\<rparr>"

definition rh_append :: "nat option \<Rightarrow> string \<Rightarrow> nat option \<Rightarrow> ref_heap \<Rightarrow> ref_heap" where
  "rh_append p k c h = (case (p, c) of
      (Some p, Some c) \<Rightarrow> (case rh_cells h p of
          Some (Obj_cell ms) \<Rightarrow> h\<lparr>rh_cells := (rh_cells h)(p := Some (Obj_cell (ms @ [(k, c)])))\<rparr>
        | _ \<Rightarrow> h)
    | _ \<Rightarrow> h)"

fun commas :: "string list \<Rightarrow> string" where
  "commas [] = []"
| "commas [x] = x"
| "commas (x # xs) = x @ '', '' @ commas xs"

definition quoted :: "string \<Rightarrow> string" where
  "quoted s = CHR 0x22 # s @ [CHR 0x22]"

fun show_tree :: "ctree \<Rightarrow> string" where
  "show_tree (CNum v) = show_int v"
| "show_tree (CStr s) = quoted s"
| "show_tree (CObj ms) = ''{'' @ commas (map (\<lambda>(k, t). quoted k @ '': '' @ show_tree t) ms) @ ''}''"

definition ref_cjson :: "(ref_heap, nat) cjson_lib" where
  "ref_cjson = \<lparr>
     cj_create_object = (\<lambda>h. (Some (rh_next h), rh_new (Obj_cell []) h)),
     cj_add_item = (\<lambda>h p k c. rh_append p k c h),
     cj_add_number = (\<lambda>h p k v. rh_append p k (Some (rh_next h)) (rh_new (Num_cell v) h)),
     cj_add_string = (\<lambda>h p k s. rh_append p k (Some (rh_next h)) (rh_new (Str_cell s) h)),
     cj_get_item = (\<lambda>h p k. case p of None \<Rightarrow> None | Some p \<Rightarrow> (case rh_cells h p of
         Some (Obj_cell ms) \<Rightarrow> map_option snd (find (\<lambda>m. same_key (fst m) k) ms) | _ \<Rightarrow> None)),
     cj_get_number = (\<lambda>h n. case rh_cells h n of Some (Num_cell v) \<Rightarrow> Some v | _ \<Rightarrow> None),
     cj_set_number = (\<lambda>h n v. h\<lparr>rh_cells := (rh_cells h)(n := Some (Num_cell v))\<rparr>),
     cj_set_string = (\<lambda>h n s. h\<lparr>rh_cells := (rh_cells h)(n := Some (Str_cell s))\<rparr>),
     cj_print = (\<lambda>h n. case n of None \<Rightarrow> None | Some n \<Rightarrow> map_option show_tree (tree_at 8 (rh_cells h) n))\<rparr>"

lemma ref_cjson_simps [simp]:
  "cj_create_object ref_cjson h = (Some (rh_next h), rh_new (Obj_cell []) h)"
  "cj_add_item ref_cjson h p k c = rh_append p k c h"
  "cj_add_number ref_cjson h p k v = rh_append p k (Some (rh_next h)) (rh_new (Num_cell v) h)"
  "cj_add_string ref_cjson h p k s = rh_append p k (Some (rh_next h)) (rh_new (Str_cell s) h)"
  "cj_get_item ref_cjson h (Some q) k = (case rh_cells h q of
     Some (Obj_cell ms) \<Rightarrow> map_option snd (find (\<lambda>m. same_key (fst m) k) ms) | _ \<Rightarrow> None)"
  "cj_get_number ref_cjson h n = (case rh_cells h n of Some (Num_cell v) \<Rightarrow> Some v | _ \<Rightarrow> None)"
  "cj_set_number ref_cjson h n v = h\<lparr>rh_cells := (rh_cells h)(n := Some (Num_cell v))\<rparr>"
  "cj_set_string ref_cjson h n s = h\<lparr>rh_cells := (rh_cells h)(n := Some (Str_cell s))\<rparr>"
  "cj_print ref_cjson h (Some n) = map_option show_tree (tree_at 8 (rh_cells h) n)"
  by (simp_all add: ref_cjson_def)

text \<open>Nodes from \<open>rh_next\<close> on are unused.\<close>

definition rh_room :: "ref_heap \<Rightarrow> bool" where
  "rh_room h \<longleftrightarrow> (\<forall>n. rh_next h \<le> n \<longrightarrow> rh_cells h n = None)"

definition empty_heap :: ref_heap where
  "empty_heap = \<lparr>rh_next = 0, rh_cells = (\<lambda>_. None)\<rparr>"

lemma rh_used: "rh_room h \<Longrightarrow> rh_cells h p = Some x \<Longrightarrow> p < rh_next h"
  by (rule ccontr) (simp add: rh_room_def)

interpretation ref_cj: cjson_api ref_cjson rh_cells rh_room show_tree
  by unfold_locales
    (auto simp: rh_new_def rh_append_def rh_room_def fun_eq_iff dest: rh_used [unfolded rh_room_def, rotated]
       intro!: exI [of _ "rh_next _"])

end
