(* ===== verification/Lab1_State.thy ===== *)
theory Lab1_State
  imports Cjson_Api
begin

text \<open>
  The first laboratory (\<open>lab1_-manugcr\<close>, in C): the state of its server, a single
  thread that serves all clients and both pipes through \<open>select\<close>, and the
  primitives that its functions share.  Functions that have the same name in the
  later program carry the suffix 1.
\<close>

section \<open>Constants\<close>

definition MAX_CLIENTS :: nat where
  "MAX_CLIENTS = 100"

definition MAX_BUFFER1 :: nat where
  "MAX_BUFFER1 = 1024"

definition INET_ADDRSTRLEN :: nat where
  "INET_ADDRSTRLEN = 16"

section \<open>The state\<close>

text \<open>\<open>ClientInfo\<close>: a slot of the table of clients; socket 0 is a free one.\<close>

record client_info =
  socket :: int
  role :: int

definition no_client :: client_info where
  "no_client = \<lparr>socket = 0, role = 0\<rparr>"

text \<open>
  \<^item> \<open>heap\<close>, \<open>state_summary\<close>: the memory of cJSON and the global pointer to the document;
  \<^item> \<open>terminal\<close>: the lines printed; \<open>log_text\<close>: the contents of \<open>server.log\<close>;
  \<^item> \<open>ticks1\<close>: how many times the clock has been read;
  \<^item> \<open>streams\<close>: what each descriptor will still deliver; \<open>sent1\<close>: what was handed to \<open>send\<close> for each;
  \<^item> \<open>closed1\<close>: the descriptors given to \<open>close\<close>, in order;
  \<^item> \<open>clients\<close>, \<open>num_clients\<close>: the globals \<open>connected_clients\<close> and
    \<open>num_connected_clients\<close>; \<open>cur\<close>: the variable \<open>client_socket\<close> of \<open>main\<close>.
\<close>

record ('h, 'n) lab1 =
  heap :: 'h
  state_summary :: "'n option"
  terminal :: "string list"
  log_text :: string
  ticks1 :: nat
  streams :: "int \<Rightarrow> recv_event list"
  sent1 :: "(int \<times> string) list"
  closed1 :: "int list"
  clients :: "client_info list"
  num_clients :: int
  cur :: int

text \<open>
  The surroundings: the library, the clock as the log and as \<open>strftime("%c")\<close> print
  it (\<open>Inl\<close> the message of a failure), whether \<open>server.log\<close> can be opened, what
  \<open>getpeername\<close> tells of an open socket (\<open>None\<close> is its failure), whether a \<open>send\<close> fails (told
  from all that was handed to \<open>send\<close> so far), the three descriptors of \<open>main\<close>, and the contents of three arrays that are not initialised.
\<close>

record ('h, 'n) lab1_env =
  cj :: "('h, 'n) cjson_lib"
  stamp_log :: "nat \<Rightarrow> string"
  stamp_c :: "nat \<Rightarrow> string + string"
  log_opens1 :: bool
  peer1 :: "int \<Rightarrow> string option"
  send_fails1 :: "(int \<times> string) list \<Rightarrow> bool"
  server_fd :: int
  alert_fd1 :: int
  emergency_fd1 :: int
  junk_command :: string
  junk_username :: string
  junk_password :: string

section \<open>Primitives\<close>

type_synonym ('h, 'n, 'a) act1 = "(('h, 'n) lab1, 'a) act"

definition gets :: "('s \<Rightarrow> 'a) \<Rightarrow> ('s, 'a) act" where
  "gets f = (\<lambda>s. (Inr (f s), s))"

definition tell :: "string \<Rightarrow> ('h, 'n, unit) act1" where
  "tell line = (\<lambda>s. (Inr (), s\<lparr>terminal := terminal s @ [line]\<rparr>))"

definition send1 :: "int \<Rightarrow> string \<Rightarrow> ('h, 'n, unit) act1" where
  "send1 sock bs = (\<lambda>s. (Inr (), s\<lparr>sent1 := sent1 s @ [(sock, bs)]\<rparr>))"

definition close1 :: "int \<Rightarrow> ('h, 'n, unit) act1" where
  "close1 fd = (\<lambda>s. (Inr (), s\<lparr>closed1 := closed1 s @ [fd]\<rparr>))"

definition read1 :: "int \<Rightarrow> ('h, 'n, read_result) act1" where
  "read1 fd = (\<lambda>s. let (r, evs) = read_blocking MAX_BUFFER1 (streams s fd)
     in (Inr r, s\<lparr>streams := (streams s)(fd := evs)\<rparr>))"

definition read_pipe1 :: "int \<Rightarrow> ('h, 'n, read_result) act1" where
  "read_pipe1 fd = (\<lambda>s. let (r, evs) = read_nonblocking MAX_BUFFER1 (streams s fd)
     in (Inr r, s\<lparr>streams := (streams s)(fd := evs)\<rparr>))"

text \<open>\<open>connected_clients[i]\<close>, undefined outside the array.\<close>

definition get_slot :: "int \<Rightarrow> ('h, 'n, client_info) act1" where
  "get_slot i = (\<lambda>s. (if 0 \<le> i \<and> i < int (length (clients s)) then Inr (clients s ! nat i) else Inl Undefined, s))"

definition set_slot :: "int \<Rightarrow> client_info \<Rightarrow> ('h, 'n, unit) act1" where
  "set_slot i c = (\<lambda>s. if 0 \<le> i \<and> i < int (length (clients s))
     then (Inr (), s\<lparr>clients := (clients s)[nat i := c]\<rparr>) else (Inl Undefined, s))"

definition set_num :: "(int \<Rightarrow> int) \<Rightarrow> ('h, 'n, unit) act1" where
  "set_num f = (\<lambda>s. (Inr (), s\<lparr>num_clients := f (num_clients s)\<rparr>))"

text \<open>\<open>for (int i = lo; i < hi; ++i) body\<close>, for a body that does not change \<open>hi\<close>.\<close>

function for_act :: "int \<Rightarrow> int \<Rightarrow> (int \<Rightarrow> ('s, unit) act) \<Rightarrow> ('s, unit) act" where
  "for_act lo hi body = (if lo < hi then thn (body lo) (for_act (lo + 1) hi body) else ret ())"
  by pat_completeness auto
termination
  by (relation "measure (\<lambda>(lo, hi, body). nat (hi - lo))") auto

declare for_act.simps [simp del]

section \<open>Shared functions of the server\<close>

text \<open>\<open>check\<close>: exits for -1 only.\<close>

definition check1 :: "int \<Rightarrow> string \<Rightarrow> ('h, 'n, int) act1" where
  "check1 exp msg = (if exp = -1 then thn (tell msg) (halt (Exit 1)) else ret exp)"

text \<open>
  \<open>log_activity\<close> hands the results of comparisons to \<open>check\<close>, which are 0 or 1; so
  a log that cannot be opened is not noticed, and \<open>fprintf\<close> gets a null pointer.
  \<open>time(NULL)\<close> and \<open>localtime\<close> do not fail.
\<close>

definition log_activity1 :: "('h, 'n) lab1_env \<Rightarrow> string \<Rightarrow> ('h, 'n, unit) act1" where
  "log_activity1 E activity =
     bnd (check1 1 ''Error getting current time'') (\<lambda>_.
     bnd (check1 1 ''Error converting time to local time'') (\<lambda>_.
     bnd (check1 (of_bool (log_opens1 E)) ''Error opening log file'') (\<lambda>_ s.
       if log_opens1 E
       then (Inr (), s\<lparr>ticks1 := Suc (ticks1 s),
              log_text := log_text s @ stamp_log E (ticks1 s) @ '', '' @ activity @ [LF]\<rparr>)
       else (Inl Undefined, s\<lparr>ticks1 := Suc (ticks1 s)\<rparr>))))"

definition get_client_address1 :: "('h, 'n) lab1_env \<Rightarrow> int \<Rightarrow> nat \<Rightarrow> ('h, 'n, string) act1" where
  "get_client_address1 E client_socket buffer_size = (case peer1 E client_socket of
      Some addr \<Rightarrow> ret (snprintf buffer_size addr)
    | None \<Rightarrow> thn (tell ''Error getting client address'') (halt (Exit 1)))"

section \<open>Running the primitives\<close>

lemma for_act_done [simp]: "hi \<le> lo \<Longrightarrow> for_act lo hi body = ret ()"
  by (subst for_act.simps) simp

lemma for_act_step: "lo < hi \<Longrightarrow> for_act lo hi body = thn (body lo) (for_act (lo + 1) hi body)"
  by (subst for_act.simps) simp

lemma keeps_for_act:
  assumes "reflp R" "transp R" "\<And>i. keeps R (body i)"
  shows "keeps R (for_act lo hi body)"
  using assms(3)
proof (induction lo hi body rule: for_act.induct)
  case (1 lo hi body)
  then show ?case
    by (subst for_act.simps) (auto intro!: keeps_thn [OF assms(2)] keeps_pure [OF assms(1)])
qed

text \<open>The rule for a loop whose rounds all return.\<close>

lemma for_act_inv:
  assumes "lo \<le> hi" and "P lo s"
    and "\<And>i s. lo \<le> i \<Longrightarrow> i < hi \<Longrightarrow> P i s \<Longrightarrow> \<exists>s'. body i s = (Inr (), s') \<and> P (i + 1) s'"
  shows "\<exists>s'. for_act lo hi body s = (Inr (), s') \<and> P hi s'"
  using assms
proof (induction lo hi body arbitrary: s rule: for_act.induct)
  case (1 lo hi body)
  show ?case
  proof (cases "lo < hi")
    case False
    with "1.prems" show ?thesis by (intro exI [of _ s]) auto
  next
    case True
    from "1.prems"(3) [of lo s] True "1.prems"(2) obtain s' where
      s': "body lo s = (Inr (), s')" "P (lo + 1) s'" by auto
    have "\<exists>t. for_act (lo + 1) hi body s' = (Inr (), t) \<and> P hi t"
    proof (rule "1.IH" [OF True])
      show "lo + 1 \<le> hi" using True by simp
      show "P (lo + 1) s'" by (rule s')
      show "\<exists>u. body i t = (Inr (), u) \<and> P (i + 1) u" if "lo + 1 \<le> i" "i < hi" "P i t" for i t
        using that by (intro "1.prems"(3)) auto
    qed
    with True s' show ?thesis by (simp add: for_act_step)
  qed
qed

text \<open>The same without the claim that the loop returns.\<close>

lemma for_act_keeps_inv:
  assumes "P lo s" and "for_act lo hi body s = (Inr (), s')" and "lo \<le> hi"
    and "\<And>i s t. lo \<le> i \<Longrightarrow> i < hi \<Longrightarrow> P i s \<Longrightarrow> body i s = (Inr (), t) \<Longrightarrow> P (i + 1) t"
  shows "P hi s'"
  using assms
proof (induction lo hi body arbitrary: s rule: for_act.induct)
  case (1 lo hi body)
  show ?case
  proof (cases "lo < hi")
    case False
    with "1.prems" show ?thesis by auto
  next
    case True
    from "1.prems"(2) obtain t where t: "body lo s = (Inr (), t)" "for_act (lo + 1) hi body t = (Inr (), s')"
      unfolding for_act_step [OF True] by (rule thn_InrE)
    show ?thesis
    proof (rule "1.IH" [OF True _ t(2)])
      show "P (lo + 1) t" using "1.prems"(4) [of lo s t] "1.prems"(1) True t(1) by simp
      show "lo + 1 \<le> hi" using True by simp
      show "P (i + 1) u" if "lo + 1 \<le> i" "i < hi" "P i s" "body i s = (Inr (), u)" for i s u
        using that by (intro "1.prems"(4)) auto
    qed
  qed
qed

lemma gets_run [simp, act_simps]: "gets f s = (Inr (f s), s)"
  by (simp add: gets_def)

lemma tell_run [simp, act_simps]: "tell t s = (Inr (), s\<lparr>terminal := terminal s @ [t]\<rparr>)"
  by (simp add: tell_def)

lemma send1_run [simp, act_simps]: "send1 sock bs s = (Inr (), s\<lparr>sent1 := sent1 s @ [(sock, bs)]\<rparr>)"
  by (simp add: send1_def)

lemma close1_run [simp, act_simps]: "close1 fd s = (Inr (), s\<lparr>closed1 := closed1 s @ [fd]\<rparr>)"
  by (simp add: close1_def)

lemma set_num_run [simp, act_simps]: "set_num f s = (Inr (), s\<lparr>num_clients := f (num_clients s)\<rparr>)"
  by (simp add: set_num_def)

lemma check1_ok [simp, act_simps]: "exp \<noteq> -1 \<Longrightarrow> check1 exp msg = ret exp"
  by (simp add: check1_def)

lemma check1_fails [simp, act_simps]: "check1 (-1) msg = thn (tell msg) (halt (Exit 1))"
  by (simp add: check1_def)

lemma log_activity1_run [act_simps]:
  "log_activity1 E t s = (if log_opens1 E
     then (Inr (), s\<lparr>ticks1 := Suc (ticks1 s), log_text := log_text s @ stamp_log E (ticks1 s) @ '', '' @ t @ [LF]\<rparr>)
     else (Inl Undefined, s\<lparr>ticks1 := Suc (ticks1 s)\<rparr>))"
  by (simp add: log_activity1_def)

lemma get_client_address1_run [act_simps]:
  "get_client_address1 E sock n s = (case peer1 E sock of
      Some a \<Rightarrow> (Inr (snprintf n a), s)
    | None \<Rightarrow> (Inl (Exit 1), s\<lparr>terminal := terminal s @ [''Error getting client address'']\<rparr>))"
  by (simp add: get_client_address1_def split: option.split)

end
