(* ===== verification/Lab1_Supplies.thy ===== *)
theory Lab1_Supplies
  imports Lab1_State
begin

text \<open>
  \<open>lab1_-manugcr/lib/libdyn/src/supplies.c\<close>: the summary of the shelter as a cJSON
  document in memory, and the functions that change and send it.
\<close>

section \<open>Creating the document\<close>

definition heap_do :: "('h \<Rightarrow> 'h) \<Rightarrow> ('h, 'n, unit) act1" where
  "heap_do f = (\<lambda>s. (Inr (), s\<lparr>heap := f (heap s)\<rparr>))"

definition create_object1 :: "('h, 'n) lab1_env \<Rightarrow> ('h, 'n, 'n option) act1" where
  "create_object1 E = (\<lambda>s. let (n, h) = cj_create_object (cj E) (heap s) in (Inr n, s\<lparr>heap := h\<rparr>))"

text \<open>\<open>x = cJSON_CreateObject(); cJSON_AddItemToObject(parent, key, x);\<close>\<close>

definition add_object :: "('h, 'n) lab1_env \<Rightarrow> 'n option \<Rightarrow> string \<Rightarrow> ('h, 'n, 'n option) act1" where
  "add_object E parent key =
     bnd (create_object1 E) (\<lambda>x. thn (heap_do (\<lambda>h. cj_add_item (cj E) h parent key x)) (ret x))"

fun add_zeros :: "('h, 'n) lab1_env \<Rightarrow> 'n option \<Rightarrow> string list \<Rightarrow> ('h, 'n, unit) act1" where
  "add_zeros E p [] = ret ()"
| "add_zeros E p (k # ks) = thn (heap_do (\<lambda>h. cj_add_number (cj E) h p k 0)) (add_zeros E p ks)"

definition create_state_summary1 :: "('h, 'n) lab1_env \<Rightarrow> ('h, 'n, unit) act1" where
  "create_state_summary1 E =
     bnd (create_object1 E) (\<lambda>root.
     thn (\<lambda>s. (Inr (), s\<lparr>state_summary := root\<rparr>))
    (if root = None then thn (tell ''[ERROR] Error creating JSON object'') (halt (Exit 1))
     else
       bnd (add_object E root ''alerts'') (\<lambda>alerts.
       thn (add_zeros E alerts [''north_entry'', ''east_entry'', ''west_entry'', ''south_entry''])
      (bnd (add_object E root ''supplies'') (\<lambda>supplies.
       bnd (add_object E supplies ''food'') (\<lambda>food.
       thn (add_zeros E food [''meat'', ''vegetables'', ''fruits'', ''water''])
      (bnd (add_object E supplies ''medicine'') (\<lambda>medicine.
       thn (add_zeros E medicine [''antibiotics'', ''analgesics'', ''bandages''])
      (bnd (add_object E root ''emergency'') (\<lambda>emergency.
       thn (heap_do (\<lambda>h. cj_add_string (cj E) h emergency ''last_keepalived'' ''NULL''))
           (heap_do (\<lambda>h. cj_add_string (cj E) h emergency ''last_event'' ''NULL''))))))))))))"

section \<open>Changing it\<close>

text \<open>\<open>cJSON_GetObjectItem\<close>\<close>

definition item1 :: "('h, 'n) lab1_env \<Rightarrow> 'n option \<Rightarrow> string \<Rightarrow> ('h, 'n, 'n option) act1" where
  "item1 E p key = (\<lambda>s. (Inr (cj_get_item (cj E) (heap s) p key), s))"

text \<open>\<open>sscanf(message, "%99s %d", field, &value)\<close>, when both are assigned.\<close>

definition scan_supply :: "string \<Rightarrow> (string \<times> int) option res" where
  "scan_supply message = (case scan_word 99 message of
      None \<Rightarrow> Inr None
    | Some (field, rest) \<Rightarrow> rbind (scan_int rest) (\<lambda>v. Inr (map_option (\<lambda>v. (field, v)) v)))"

definition food_names :: "string list" where
  "food_names = [''meat'', ''vegetables'', ''fruits'', ''water'']"

definition medicine_names :: "string list" where
  "medicine_names = [''antibiotics'', ''analgesics'', ''bandages'']"

definition modify_supplies1 :: "('h, 'n) lab1_env \<Rightarrow> string \<Rightarrow> ('h, 'n, unit) act1" where
  "modify_supplies1 E message =
     bnd (of_res (scan_supply message)) (\<lambda>scanned. case scanned of
       None \<Rightarrow> tell ''[ERROR] Invalid message format''
     | Some (field, value) \<Rightarrow>
         bnd (gets state_summary) (\<lambda>root. bnd (item1 E root ''supplies'') (\<lambda>supplies.
         if value < 0 then tell (''[ERROR] Invalid value: '' @ show_int value)
         else
           bnd (if field \<in> set food_names then
                  bnd (item1 E supplies ''food'') (\<lambda>food. bnd (item1 E food field) (\<lambda>x. ret (Some x)))
                else if field \<in> set medicine_names then
                  bnd (item1 E supplies ''medicine'') (\<lambda>medicine. bnd (item1 E medicine field) (\<lambda>x. ret (Some x)))
                else thn (tell (''[ERROR] Unknown field: '' @ field)) (ret None)) (\<lambda>found. case found of
             None \<Rightarrow> ret ()
           | Some None \<Rightarrow> tell (''[ERROR] Field not found: '' @ field)
           | Some (Some element) \<Rightarrow> heap_do (\<lambda>h. cj_set_number (cj E) h element value)))))"

text \<open>
  \<open>sscanf(message, "Alert of possible infection in %99[^,], %f", area, &temperature)\<close>,
  when both are assigned; the temperature is not used.
\<close>

definition scan_alert :: "string \<Rightarrow> string option" where
  "scan_alert message = (case scan_literal ''Alert of possible infection in '' message of
      None \<Rightarrow> None
    | Some r1 \<Rightarrow> (case scan_until (CHR '','') 99 r1 of
        None \<Rightarrow> None
      | Some (area, r2) \<Rightarrow> (case scan_literal '', '' r2 of
          None \<Rightarrow> None
        | Some r3 \<Rightarrow> if scan_float_ok r3 then Some area else None)))"

text \<open>The cast of a number that is not one to \<open>int\<close>, and an overflow, are undefined.\<close>

definition modify_alerts1 :: "('h, 'n) lab1_env \<Rightarrow> string \<Rightarrow> ('h, 'n, unit) act1" where
  "modify_alerts1 E alert_message = (case scan_alert alert_message of
      None \<Rightarrow> tell ''[ERROR] Invalid alert message format''
    | Some area \<Rightarrow>
        bnd (gets state_summary) (\<lambda>root. bnd (item1 E root ''alerts'') (\<lambda>alerts.
        if alerts = None then tell ''[ERROR] Error accessing alerts object''
        else bnd (item1 E alerts area) (\<lambda>entry. case entry of
            None \<Rightarrow> tell (''[ERROR] Alert entry not found for area: '' @ area)
          | Some entry \<Rightarrow>
              bnd (\<lambda>s. (case cj_get_number (cj E) (heap s) entry of
                  Some v \<Rightarrow> if v < INT_MAX then Inr (v + 1) else Inl Undefined
                | None \<Rightarrow> Inl Undefined, s)) (\<lambda>v.
              heap_do (\<lambda>h. cj_set_number (cj E) h entry v))))))"

definition modify_emergencies1 :: "('h, 'n) lab1_env \<Rightarrow> string \<Rightarrow> ('h, 'n, unit) act1" where
  "modify_emergencies1 E emergency_message = (\<lambda>s.
     (case stamp_c E (ticks1 s) of
        Inl msg \<Rightarrow> tell msg
      | Inr timestamp \<Rightarrow>
          bnd (gets state_summary) (\<lambda>root. bnd (item1 E root ''emergency'') (\<lambda>emergency.
          if emergency = None then tell ''[ERROR] Error accessing emergency object''
          else bnd (item1 E emergency ''last_keepalived'') (\<lambda>keepalived. case keepalived of
              None \<Rightarrow> tell ''[ERROR] Error accessing last_keepalived field''
            | Some keepalived \<Rightarrow>
                thn (heap_do (\<lambda>h. cj_set_string (cj E) h keepalived timestamp))
               (bnd (item1 E emergency ''last_event'') (\<lambda>last_event. case last_event of
                    None \<Rightarrow> tell ''[ERROR] Error accessing last_event field''
                  | Some last_event \<Rightarrow> heap_do (\<lambda>h. cj_set_string (cj E) h last_event emergency_message)))))))
     (s\<lparr>ticks1 := Suc (ticks1 s)\<rparr>))"

section \<open>Sending it\<close>

definition send_state_summary1 :: "('h, 'n) lab1_env \<Rightarrow> int \<Rightarrow> ('h, 'n, unit) act1" where
  "send_state_summary1 E client_socket = (\<lambda>s.
     (case cj_print (cj E) (heap s) (state_summary s) of
        None \<Rightarrow> tell ''[ERROR] Error printing JSON object''
      | Some formatted_json \<Rightarrow>
          thn (send1 client_socket formatted_json)
         (bnd (gets (\<lambda>s. send_fails1 E (sent1 s))) (\<lambda>failed.
          if failed then tell ''[ERROR] Error sending JSON data'' else ret ()))) s)"

end
