(* ===== verification/Lab1_Server.thy ===== *)
theory Lab1_Server
  imports Lab1_Supplies
begin

text \<open>
  \<open>lab1_-manugcr/src/server.c\<close>: logging in, the table of clients, the two pipes,
  and the loop of \<open>main\<close>.
\<close>

section \<open>Accepting a client\<close>

text \<open>
  \<open>auth_client\<close>: \<open>buffer[valread]\<close> lies behind the array for a full read and before
  it for a failed one.  At the end of the stream the function goes on with an empty
  buffer, and words that \<open>sscanf\<close> does not assign keep their uninitialised contents.
\<close>

definition auth_client1 :: "('h, 'n) lab1_env \<Rightarrow> int \<Rightarrow> ('h, 'n, int) act1" where
  "auth_client1 E client_socket =
     bnd (read1 client_socket) (\<lambda>r.
     thn (case r of
            Bytes bs \<Rightarrow> ret ()
          | _ \<Rightarrow> thn (tell ''[SERVER] Error reading credentials from client'') (close1 client_socket))
    (bnd (of_res (case r of
            Bytes bs \<Rightarrow> if length bs < MAX_BUFFER1 then Inr (text_of bs) else Inl Undefined
          | At_end \<Rightarrow> Inr []
          | Error \<Rightarrow> Inl Undefined)) (\<lambda>credentials.
     let (username, password) = (case scan_word 99 credentials of
            None \<Rightarrow> (junk_username E, junk_password E)
          | Some (u, rest) \<Rightarrow> (case scan_word 99 rest of
                None \<Rightarrow> (u, junk_password E)
              | Some (p, _) \<Rightarrow> (u, p)))
     in if username = ''ubuntu'' \<and> password = ''ubuntu'' then
          thn (send1 client_socket ''Authenticated'') (ret 1)
        else if username = ''hostname'' \<and> password = ''hostname'' then
          thn (send1 client_socket ''Authenticated'') (ret 0)
        else thn (send1 client_socket ''Denied'') (thn (close1 client_socket) (ret (-1))))))"

text \<open>
  \<open>get_client_address\<close> for a client that has just logged in: \<open>getpeername\<close> fails if the
  descriptor has been closed since \<open>accept\<close>, when \<open>before\<close> descriptors had been closed.
\<close>

definition new_client_address1 :: "('h, 'n) lab1_env \<Rightarrow> nat \<Rightarrow> int \<Rightarrow> nat \<Rightarrow> ('h, 'n, string) act1" where
  "new_client_address1 E before client_socket buffer_size =
     bnd (gets closed1) (\<lambda>closed.
     if client_socket \<in> set (drop before closed)
     then thn (tell ''Error getting client address'') (halt (Exit 1))
     else get_client_address1 E client_socket buffer_size)"

lemma new_client_address1_run [act_simps]:
  "new_client_address1 E before fd n s = (if fd \<in> set (drop before (closed1 s))
     then (Inl (Exit 1), s\<lparr>terminal := terminal s @ [''Error getting client address'']\<rparr>) else get_client_address1 E fd n s)"
  by (simp add: new_client_address1_def)

text \<open>\<open>accepted\<close> is the result of \<open>accept\<close> and the address that it reports.\<close>

definition accept_new_connection1 :: "('h, 'n) lab1_env \<Rightarrow> int \<times> string \<Rightarrow> ('h, 'n, int) act1" where
  "accept_new_connection1 E accepted =
     bnd (check1 (fst accepted) ''Accept failed'') (\<lambda>client_socket.
     bnd (gets (\<lambda>s. length (closed1 s))) (\<lambda>before.
     bnd (auth_client1 E client_socket) (\<lambda>client_role.
     if client_role = -1 then
       thn (close1 client_socket)
      (thn (tell ''[SERVER] Client could not be authenticated'') (ret (-1)))
     else
       thn (bnd (gets num_clients) (\<lambda>n. set_slot n \<lparr>socket = client_socket, role = client_role\<rparr>))
      (thn (set_num (\<lambda>n. n + 1))
      (thn (tell (''[SERVER] New connection at '' @ snd accepted))
      (bnd (new_client_address1 E before client_socket MAX_BUFFER1) (\<lambda>client_address.
       thn (log_activity1 E (''Connection from new client '' @ client_address))
      (ret client_socket))))))))"

section \<open>Disconnecting clients\<close>

definition disconnect_client1 :: "('h, 'n) lab1_env \<Rightarrow> int \<Rightarrow> int \<Rightarrow> ('h, 'n, unit) act1" where
  "disconnect_client1 E client_socket client_index =
     bnd (get_client_address1 E client_socket INET_ADDRSTRLEN) (\<lambda>client_address.
     thn (tell (''[SERVER] Client disconnected at '' @ client_address))
    (thn (log_activity1 E (''Connection close from client '' @ client_address))
    (thn (close1 client_socket)
    (bnd (gets num_clients) (\<lambda>num.
     thn (for_act client_index (num - 1) (\<lambda>j. bnd (get_slot (j + 1)) (set_slot j)))
    (thn (set_slot (num - 1) no_client)
         (set_num (\<lambda>n. n - 1))))))))"

definition disconnect_all_clients1 :: "('h, 'n) lab1_env \<Rightarrow> ('h, 'n, unit) act1" where
  "disconnect_all_clients1 E =
     thn (bnd (gets num_clients) (\<lambda>num. for_act 0 num (\<lambda>i.
            bnd (get_slot i) (\<lambda>c. let client_socket = socket c in
            if client_socket > 0 then
              bnd (get_client_address1 E client_socket INET_ADDRSTRLEN) (\<lambda>client_address.
              thn (tell (''[SERVER] Client disconnected at '' @ client_address))
             (thn (log_activity1 E (''Connection close from client '' @ client_address))
             (thn (close1 client_socket) (set_slot i no_client))))
            else ret ()))))
         (set_num (\<lambda>_. 0))"

section \<open>The pipes\<close>

text \<open>The loop that sends a text to all clients of the table.\<close>

definition notify_all :: "string \<Rightarrow> ('h, 'n, unit) act1" where
  "notify_all text = bnd (gets num_clients) (\<lambda>num. for_act 0 num (\<lambda>i.
     bnd (get_slot i) (\<lambda>c. if socket c > 0 then send1 (socket c) text else ret ())))"

text \<open>One round of \<open>handle_alerts\<close>, for the bytes read; the last one is overwritten.\<close>

definition alert_message1 :: "('h, 'n) lab1_env \<Rightarrow> string \<Rightarrow> ('h, 'n, unit) act1" where
  "alert_message1 E bs =
     (let buffer = text_of (butlast bs) in
      thn (modify_alerts1 E buffer)
     (thn (tell (''[ALERT] '' @ buffer))
     (thn (log_activity1 E buffer)
     (bnd (of_res (strcat_lf MAX_BUFFER1 buffer)) notify_all))))"

definition same_streams :: "('h, 'n) lab1 \<Rightarrow> ('h, 'n) lab1 \<Rightarrow> bool" where
  "same_streams s t \<longleftrightarrow> streams t = streams s"

lemma same_streams_order: "reflp same_streams" "transp same_streams"
  by (auto simp: reflp_def transp_def same_streams_def)

lemma keeps_same_streams:
  "keeps same_streams (gets g)" "keeps same_streams (tell t)" "keeps same_streams (send1 c t)" "keeps same_streams (get_slot i)"
  "keeps same_streams (set_slot i x)" "keeps same_streams (log_activity1 E t)" "keeps same_streams (heap_do f)"
  by (auto simp: keeps_def same_streams_def get_slot_def set_slot_def log_activity1_run heap_do_def)

lemma notify_all_streams: "keeps same_streams (notify_all t)"
  unfolding notify_all_def
  by (intro keeps_bnd keeps_for_act same_streams_order keeps_if keeps_same_streams keeps_pure)

lemma modify_alerts1_streams: "keeps same_streams (modify_alerts1 E t)"
  by (auto simp: keeps_def same_streams_def modify_alerts1_def item1_def heap_do_def split: option.split)

lemma alert_message1_streams [simp]: "streams (snd (alert_message1 E bs s)) = streams s"
proof -
  have "keeps same_streams (alert_message1 E bs)"
    unfolding alert_message1_def Let_def
    by (intro keeps_thn keeps_bnd same_streams_order keeps_pure keeps_same_streams modify_alerts1_streams notify_all_streams)
  then show ?thesis by (auto dest!: keepsD [of _ _ s] simp: same_streams_def)
qed

text \<open>The loop reads until nothing is there; each round uses up some of the stream.\<close>

function handle_alerts1 :: "('h, 'n) lab1_env \<Rightarrow> int \<Rightarrow> ('h, 'n, unit) act1" where
  "handle_alerts1 E alert_pipe s =
     (case read_nonblocking MAX_BUFFER1 (streams s alert_pipe) of (r, evs) \<Rightarrow>
      let s1 = s\<lparr>streams := (streams s)(alert_pipe := evs)\<rparr> in
      (case r of
         Bytes bs \<Rightarrow>
           (case alert_message1 E bs s1 of (q, s2) \<Rightarrow>
             (case q of Inl e \<Rightarrow> (Inl e, s2) | Inr u \<Rightarrow> handle_alerts1 E alert_pipe s2))
       | At_end \<Rightarrow> tell ''[ALERT] Alert pipe closed'' s1
       | Error \<Rightarrow> (Inr (), s1)))"
  by pat_completeness auto
termination
proof (relation "measure (\<lambda>(E, fd, s). pending (streams s fd))", goal_cases)
  case 1
  show ?case by simp
next
  case (2 E fd s r evs s1 bs q s2 u)
  from 2 have "(Inr u, s2) = alert_message1 E bs s1" by simp
  then have "streams s2 = streams s1" by (metis alert_message1_streams snd_conv)
  moreover have "pending evs < pending (streams s fd)"
    using 2 read_nonblocking_pending [of MAX_BUFFER1 "streams s fd" bs evs] by (simp add: MAX_BUFFER1_def)
  ultimately show ?case using 2 by simp
qed

declare handle_alerts1.simps [simp del]

definition handle_emergencies1 :: "('h, 'n) lab1_env \<Rightarrow> int \<Rightarrow> ('h, 'n, unit) act1" where
  "handle_emergencies1 E emergency_pipe =
     bnd (read_pipe1 emergency_pipe) (\<lambda>r. case r of
         Bytes bs \<Rightarrow>
           (let buffer = text_of (butlast bs) in
            thn (modify_emergencies1 E buffer)
           (thn (tell (''[EMERGENCY] '' @ buffer))
           (thn (log_activity1 E buffer)
           (thn (bnd (of_res (strcat_lf MAX_BUFFER1 buffer)) notify_all)
                (disconnect_all_clients1 E)))))
       | _ \<Rightarrow> ret ())"

end
