(* ===== verification/Lab1_Main.thy ===== *)
theory Lab1_Main
  imports Lab1_Server
begin

text \<open>
  \<open>main\<close> of \<open>lab1_-manugcr/src/server.c\<close>: its set-up, one round of its loop, and the
  states that the server can reach.
\<close>

section \<open>Setting up\<close>

text \<open>
  What the system answers.  \<open>Child\<close> carries what the sensor process prints and how it
  ends (it ends only in \<open>exit\<close>); \<open>server_fd\<close>, \<open>alert_fd1\<close> and \<open>emergency_fd1\<close> of the
  surroundings are the results of \<open>socket\<close> and of the two calls of \<open>open\<close>.
\<close>

datatype fork1 = No_fork | In_child "string list" stop | In_parent

record lab1_os =
  os_setsockopt :: int
  os_bind :: int
  os_listen :: int
  os_alert_fork :: fork1
  os_emergency_fork :: fork1
  os_shm_open :: int
  os_ftruncate :: int
  os_mmap_fails :: bool

fun tell_lines :: "string list \<Rightarrow> ('h, 'n, unit) act1" where
  "tell_lines [] = ret ()"
| "tell_lines (t # ts) = thn (tell t) (tell_lines ts)"

definition start_sensor :: "fork1 \<Rightarrow> string \<Rightarrow> ('h, 'n, unit) act1" where
  "start_sensor f msg = (case f of
      No_fork \<Rightarrow> bnd (check1 (-1) msg) (\<lambda>_. ret ())
    | In_child ts e \<Rightarrow> thn (tell_lines ts) (halt e)
    | In_parent \<Rightarrow> ret ())"

text \<open>\<open>mkfifo\<close> and \<open>open\<close> are not checked.\<close>

definition setup_server1 :: "('h, 'n) lab1_env \<Rightarrow> lab1_os \<Rightarrow> int \<Rightarrow> ('h, 'n, int) act1" where
  "setup_server1 E S PORT =
     bnd (check1 (server_fd E) ''[SERVER] Socket creation failed'') (\<lambda>server_socket.
     bnd (check1 (os_setsockopt S) ''[SERVER] Setsockopt failed'') (\<lambda>_.
     bnd (check1 (os_bind S) ''[SERVER] Bind failed'') (\<lambda>_.
     bnd (check1 (os_listen S) ''[SERVER] Listen failed'') (\<lambda>_.
     thn (tell (''[SERVER] Listening on 0.0.0.0:'' @ show_int (PORT mod 2 ^ 16)))
    (thn (start_sensor (os_alert_fork S) ''[ERROR] Failed to fork for alerts'')
    (thn (start_sensor (os_emergency_fork S) ''[ERROR] Failed to fork for emergencies'')
    (ret server_socket)))))))"

definition setup_shared_memory1 :: "('h, 'n) lab1_env \<Rightarrow> lab1_os \<Rightarrow> ('h, 'n, unit) act1" where
  "setup_shared_memory1 E S =
     bnd (check1 (os_shm_open S) ''[ERROR] shm_open failed'') (\<lambda>_.
     bnd (check1 (os_ftruncate S) ''[ERROR] ftruncate failed'') (\<lambda>_.
     if os_mmap_fails S then thn (tell ''mmap'') (halt (Exit 1)) else create_state_summary1 E))"

text \<open>\<open>atoi\<close>: zero without a number, undefined for one that is not an \<open>int\<close>.\<close>

definition atoi :: "string \<Rightarrow> int res" where
  "atoi s = (case scan_int s of Inl e \<Rightarrow> Inl e | Inr None \<Rightarrow> Inr 0 | Inr (Some v) \<Rightarrow> Inr v)"

definition main_start1 :: "('h, 'n) lab1_env \<Rightarrow> lab1_os \<Rightarrow> string list \<Rightarrow> ('h, 'n, int) act1" where
  "main_start1 E S argv = (case argv of
      [prog, port] \<Rightarrow>
        bnd (of_res (atoi port)) (\<lambda>PORT.
        bnd (setup_server1 E S PORT) (\<lambda>server_socket.
        thn (setup_shared_memory1 E S) (ret server_socket)))
    | prog # args \<Rightarrow> thn (tell (''Usage: '' @ prog @ '' <PORT>'')) (halt (Exit 1))
    | [] \<Rightarrow> halt Undefined)"

section \<open>Watching the descriptors\<close>

text \<open>\<open>FD_SET\<close> writes outside the set for a descriptor that is negative or not below 1024.\<close>

definition fd_set1 :: "int \<Rightarrow> int list \<Rightarrow> int list res" where
  "fd_set1 fd fds = (if 0 \<le> fd \<and> fd < 1024 then Inr (List.insert fd fds) else Inl Undefined)"

text \<open>The first loop of a round: its bound grows with the descriptors it meets.\<close>

function scan_clients :: "int \<Rightarrow> int \<Rightarrow> int list \<Rightarrow> ('h, 'n, int \<times> int list) act1" where
  "scan_clients i max_socket_fd read_fds s =
     (if i < max_socket_fd then
        if 0 \<le> i \<and> i < int (length (clients s)) then
          let client_socket = socket (clients s ! nat i);
              s1 = s\<lparr>cur := client_socket\<rparr> in
          (case (if client_socket > 0 then fd_set1 client_socket read_fds else Inr read_fds) of
             Inl e \<Rightarrow> (Inl e, s1)
           | Inr fds \<Rightarrow> scan_clients (i + 1) (if client_socket > max_socket_fd then client_socket else max_socket_fd) fds s1)
        else (Inl Undefined, s)
      else (Inr (max_socket_fd, read_fds), s))"
  by pat_completeness auto
termination
  by (relation "measure (\<lambda>(i, m, fds, s). nat (int (length (clients s)) - i))") auto

declare scan_clients.simps [simp del]

definition watch1 :: "('h, 'n) lab1_env \<Rightarrow> ('h, 'n, int \<times> int list) act1" where
  "watch1 E =
     bnd (of_res (rbind (fd_set1 (server_fd E) []) (\<lambda>fds.
                  rbind (fd_set1 (alert_fd1 E) fds) (fd_set1 (emergency_fd1 E))))) (\<lambda>fds.
     let m = (if server_fd E > alert_fd1 E then server_fd E else alert_fd1 E) in
     scan_clients 0 (if m > emergency_fd1 E then m else emergency_fd1 E) fds)"

text \<open>
  \<open>select\<close>: the descriptors that are ready, an interruption, which leaves the set as it
  was so that every descriptor counts as ready, or another failure.
\<close>

datatype select_result = Ready "int list" | Interrupted | Select_failed

definition select1 :: "select_result \<Rightarrow> int list \<Rightarrow> ('h, 'n, int list) act1" where
  "select1 r read_fds = (case r of
      Ready fds \<Rightarrow> ret (filter (\<lambda>fd. fd \<in> set fds) read_fds)
    | Interrupted \<Rightarrow> ret read_fds
    | Select_failed \<Rightarrow> thn (tell ''[ERROR] Select failed'') (halt (Exit 1)))"

section \<open>A message of a client\<close>

text \<open>
  The buffer is cleared, filled, and read as C strings from its start and from behind
  the command.  Without a word in it the command keeps its uninitialised contents.
\<close>

definition client_message1 :: "('h, 'n) lab1_env \<Rightarrow> int \<Rightarrow> int \<Rightarrow> string \<Rightarrow> ('h, 'n, unit) act1" where
  "client_message1 E client_socket i bs =
     (let buffer = buf_fill (replicate MAX_BUFFER1 NUL) bs in
      bnd (of_res (c_str buffer)) (\<lambda>text.
      bnd (case scan_word 99 text of
             None \<Rightarrow> thn (tell ''Error reading command from client'') (ret (junk_command E))
           | Some (w, _) \<Rightarrow> ret w) (\<lambda>command.
      bnd (get_slot i) (\<lambda>c.
      thn (if role c = 1 \<and> command = ''modify'' then
             bnd (of_res (c_str (drop (length command + 1) buffer))) (\<lambda>message.
             thn (modify_supplies1 E message)
            (bnd (get_client_address1 E client_socket MAX_BUFFER1) (\<lambda>client_address.
             thn (tell (''[SERVER] Updated of supplies from client '' @ client_address))
                 (log_activity1 E (''Updated of supplies from client '' @ client_address)))))
           else ret ())
          (if command = ''state'' then
             thn (send_state_summary1 E client_socket)
            (bnd (get_client_address1 E client_socket MAX_BUFFER1) (\<lambda>client_address.
             thn (tell (''[SERVER] Request of state from client '' @ client_address))
                 (log_activity1 E (''Request of state from client '' @ client_address))))
           else ret ())))))"

text \<open>The body of the second loop of a round.\<close>

definition set_cur :: "int \<Rightarrow> ('h, 'n, unit) act1" where
  "set_cur fd = (\<lambda>s. (Inr (), s\<lparr>cur := fd\<rparr>))"

definition serve_slot :: "('h, 'n) lab1_env \<Rightarrow> int list \<Rightarrow> int \<Rightarrow> ('h, 'n, unit) act1" where
  "serve_slot E ready i =
     bnd (get_slot i) (\<lambda>c. let client_socket = socket c in
     thn (set_cur client_socket)
    (if client_socket > 0 \<and> client_socket \<in> set ready then
       bnd (read1 client_socket) (\<lambda>r. case r of
           At_end \<Rightarrow> disconnect_client1 E client_socket i
         | Bytes bs \<Rightarrow> client_message1 E client_socket i bs
         | Error \<Rightarrow> client_message1 E client_socket i [])
     else ret ()))"

section \<open>The loop\<close>

text \<open>
  One round, for what \<open>select\<close> reports and what \<open>accept\<close> would give.  When the table is
  full the branch closes the descriptor that the first loop met last.
\<close>

definition main_round1 :: "('h, 'n) lab1_env \<Rightarrow> select_result \<Rightarrow> int \<times> string \<Rightarrow> ('h, 'n, unit) act1" where
  "main_round1 E sel accepted =
     bnd (watch1 E) (\<lambda>(max_socket_fd, read_fds).
     bnd (select1 sel read_fds) (\<lambda>ready.
     thn (if server_fd E \<in> set ready then
            bnd (gets num_clients) (\<lambda>num. if num < int MAX_CLIENTS
                 then bnd (accept_new_connection1 E accepted) set_cur
                 else thn (tell ''[SERVER] Maximum number of clients reached. Unable to accept new connections.'')
                        (bnd (gets cur) close1))
          else ret ())
    (thn (for_act 0 max_socket_fd (serve_slot E ready))
    (thn (if alert_fd1 E \<in> set ready then handle_alerts1 E (alert_fd1 E) else ret ())
         (if emergency_fd1 E \<in> set ready then handle_emergencies1 E (emergency_fd1 E) else ret ())))))"

text \<open>The globals before \<open>main\<close>.\<close>

definition boot :: "'h \<Rightarrow> ('h, 'n) lab1" where
  "boot h = \<lparr>heap = h, state_summary = None, terminal = [], log_text = [], ticks1 = 0,
     streams = (\<lambda>_. []), sent1 = [], closed1 = [], clients = replicate MAX_CLIENTS no_client,
     num_clients = 0, cur = 0\<rparr>"

text \<open>The descriptors in use: those of \<open>main\<close> and those of the connected clients.\<close>

definition sockets :: "('h, 'n) lab1 \<Rightarrow> int list" where
  "sockets s = map socket (take (nat (num_clients s)) (clients s))"

definition open_fds :: "('h, 'n) lab1_env \<Rightarrow> ('h, 'n) lab1 \<Rightarrow> int set" where
  "open_fds E s = {server_fd E, alert_fd1 E, emergency_fd1 E} \<union> set (sockets s)"

text \<open>
  Whether a round calls \<open>accept\<close>, and the descriptors of the open connections after it:
  \<open>K\<close> are those before it, \<open>fd\<close> is what \<open>accept\<close> returns, and what the round gives to \<open>close\<close>
  is open no longer.
\<close>

definition accepts :: "('h, 'n) lab1_env \<Rightarrow> select_result \<Rightarrow> ('h, 'n) lab1 \<Rightarrow> bool" where
  "accepts E sel s \<longleftrightarrow> num_clients s < int MAX_CLIENTS \<and>
     (case sel of Ready fds \<Rightarrow> server_fd E \<in> set fds | Interrupted \<Rightarrow> True | Select_failed \<Rightarrow> False)"

definition open_after ::
    "('h, 'n) lab1_env \<Rightarrow> select_result \<Rightarrow> int \<Rightarrow> ('h, 'n) lab1 \<Rightarrow> ('h, 'n) lab1 \<Rightarrow> int set \<Rightarrow> int set" where
  "open_after E sel fd s s' K =
     (if accepts E sel s then insert fd K else K) - set (drop (length (closed1 s)) (closed1 s'))"

text \<open>
  The rounds of the server, with the set of the open connections.  Before each the kernel
  decides what every descriptor delivers, what \<open>select\<close> reports and what \<open>accept\<close> returns: a
  failure, or a positive descriptor that is not open, whatever the server has in its table.
\<close>

inductive step1 :: "('h, 'n) lab1_env \<Rightarrow> ('h, 'n) lab1 \<times> int set \<Rightarrow> ('h, 'n) lab1 \<times> int set \<Rightarrow> bool" for E where
  round: "step1 E (s, K) (s', open_after E sel fd s s' K)"
    if "fd = -1 \<or> 0 < fd \<and> fd \<notin> {server_fd E, alert_fd1 E, emergency_fd1 E} \<union> K"
      and "main_round1 E sel (fd, addr) (s\<lparr>streams := st\<rparr>) = (Inr (), s')"

inductive reach1 ::
    "('h, 'n) lab1_env \<Rightarrow> lab1_os \<Rightarrow> string list \<Rightarrow> 'h \<Rightarrow> ('h, 'n) lab1 \<times> int set \<Rightarrow> bool" for E S argv h where
  start: "reach1 E S argv h (s, {})" if "main_start1 E S argv (boot h) = (Inr fd, s)"
| next_round: "reach1 E S argv h c'" if "reach1 E S argv h c" and "step1 E c c'"

inductive_cases step1E: "step1 E c c'"

end
