(* ===== verification/Lab1_Doc.thy ===== *)
theory Lab1_Doc
  imports Lab1_Supplies
begin

text \<open>
  What the document of \<open>lab1_-manugcr\<close> stands for: eleven counters and the last
  emergency.  The operations of \<open>supplies.c\<close> implement their counterparts on this
  record, for every library that meets \<open>cjson_api\<close>.
\<close>

section \<open>The abstract shelter\<close>

record shelter =
  count :: "string \<Rightarrow> int"
  keepalived :: string
  event :: string

definition alert_names :: "string list" where
  "alert_names = [''north_entry'', ''east_entry'', ''west_entry'', ''south_entry'']"

definition counter_names :: "string list" where
  "counter_names = alert_names @ food_names @ medicine_names"

definition numbers :: "shelter \<Rightarrow> string list \<Rightarrow> ctree" where
  "numbers r ks = CObj (map (\<lambda>k. (k, CNum (count r k))) ks)"

definition doc :: "shelter \<Rightarrow> ctree" where
  "doc r = CObj [(''alerts'', numbers r alert_names),
     (''supplies'', CObj [(''food'', numbers r food_names), (''medicine'', numbers r medicine_names)]),
     (''emergency'', CObj [(''last_keepalived'', CStr (keepalived r)), (''last_event'', CStr (event r))])]"

definition empty_shelter :: shelter where
  "empty_shelter = \<lparr>count = (\<lambda>_. 0), keepalived = ''NULL'', event = ''NULL''\<rparr>"

section \<open>The document in memory\<close>

text \<open>The nodes of the document, and where in the memory each of them is.\<close>

datatype place = Root | Alerts | Supplies | Food | Medicine | Emergency | Counter string | Keepalived | Event

definition places :: "place list" where
  "places = [Root, Alerts, Supplies, Food, Medicine, Emergency, Keepalived, Event] @ map Counter counter_names"

definition leaves :: "(place \<Rightarrow> 'n) \<Rightarrow> string list \<Rightarrow> 'n cell" where
  "leaves pos ks = Obj_cell (map (\<lambda>k. (k, pos (Counter k))) ks)"

fun cell_of :: "(place \<Rightarrow> 'n) \<Rightarrow> shelter \<Rightarrow> place \<Rightarrow> 'n cell" where
  "cell_of pos r Root = Obj_cell [(''alerts'', pos Alerts), (''supplies'', pos Supplies), (''emergency'', pos Emergency)]"
| "cell_of pos r Alerts = leaves pos alert_names"
| "cell_of pos r Supplies = Obj_cell [(''food'', pos Food), (''medicine'', pos Medicine)]"
| "cell_of pos r Food = leaves pos food_names"
| "cell_of pos r Medicine = leaves pos medicine_names"
| "cell_of pos r Emergency = Obj_cell [(''last_keepalived'', pos Keepalived), (''last_event'', pos Event)]"
| "cell_of pos r (Counter k) = Num_cell (count r k)"
| "cell_of pos r Keepalived = Str_cell (keepalived r)"
| "cell_of pos r Event = Str_cell (event r)"

definition stored :: "('n \<Rightarrow> 'n cell option) \<Rightarrow> (place \<Rightarrow> 'n) \<Rightarrow> shelter \<Rightarrow> bool" where
  "stored c pos r \<longleftrightarrow> inj_on pos (set places) \<and> (\<forall>p \<in> set places. c (pos p) = Some (cell_of pos r p))"

definition holds :: "('n \<Rightarrow> 'n cell option) \<Rightarrow> 'n \<Rightarrow> shelter \<Rightarrow> bool" where
  "holds c root r \<longleftrightarrow> (\<exists>pos. pos Root = root \<and> stored c pos r)"

text \<open>The server's document: the pointer is set and the tree below it is the shelter's.\<close>

definition summary_is :: "('h \<Rightarrow> 'n \<Rightarrow> 'n cell option) \<Rightarrow> ('h \<Rightarrow> bool) \<Rightarrow> ('h, 'n) lab1 \<Rightarrow> shelter \<Rightarrow> bool" where
  "summary_is cells room s r \<longleftrightarrow>
     room (heap s) \<and> (\<exists>root. state_summary s = Some root \<and> holds (cells (heap s)) root r)"

lemmas name_defs = counter_names_def alert_names_def food_names_def medicine_names_def

lemma stored_cell: "stored c pos r \<Longrightarrow> p \<in> set places \<Longrightarrow> c (pos p) = Some (cell_of pos r p)"
  by (simp add: stored_def)

text \<open>A leaf can be changed without touching any other node.\<close>

lemma stored_update:
  assumes "stored c pos r" and "p \<in> set places" and "cell_of pos r' p = x"
    and "\<And>q. q \<in> set places \<Longrightarrow> q \<noteq> p \<Longrightarrow> cell_of pos r' q = cell_of pos r q"
  shows "stored (c(pos p := Some x)) pos r'"
proof -
  have inj: "inj_on pos (set places)" using assms(1) by (simp add: stored_def)
  have "(c(pos p := Some x)) (pos q) = Some (cell_of pos r' q)" if "q \<in> set places" for q
  proof (cases "q = p")
    case True
    with assms(3) show ?thesis by simp
  next
    case False
    then have "pos q \<noteq> pos p" using inj that assms(2) by (simp add: inj_on_eq_iff)
    with False that assms(1,4) show ?thesis by (simp add: stored_cell)
  qed
  with inj show ?thesis by (simp add: stored_def)
qed

lemma places_mem [simp]:
  "Root \<in> set places" "Alerts \<in> set places" "Supplies \<in> set places" "Food \<in> set places"
  "Medicine \<in> set places" "Emergency \<in> set places" "Keepalived \<in> set places" "Event \<in> set places"
  "Counter k \<in> set places \<longleftrightarrow> k \<in> set counter_names"
  by (auto simp: places_def)

lemma stored_count:
  assumes "stored c pos r" and "k \<in> set counter_names"
  shows "stored (c(pos (Counter k) := Some (Num_cell v))) pos (r\<lparr>count := (count r)(k := v)\<rparr>)"
proof (rule stored_update [OF assms(1)])
  show "cell_of pos (r\<lparr>count := (count r)(k := v)\<rparr>) q = cell_of pos r q"
    if "q \<in> set places" "q \<noteq> Counter k" for q
    using that(2) by (cases q) (auto simp: leaves_def)
qed (use assms(2) in simp_all)

lemma stored_keepalived:
  "stored c pos r \<Longrightarrow> stored (c(pos Keepalived := Some (Str_cell t))) pos (r\<lparr>keepalived := t\<rparr>)"
proof (rule stored_update)
  show "cell_of pos (r\<lparr>keepalived := t\<rparr>) q = cell_of pos r q" if "q \<noteq> Keepalived" for q
    using that by (cases q) (auto simp: leaves_def)
qed simp_all

lemma stored_event:
  "stored c pos r \<Longrightarrow> stored (c(pos Event := Some (Str_cell t))) pos (r\<lparr>event := t\<rparr>)"
proof (rule stored_update)
  show "cell_of pos (r\<lparr>event := t\<rparr>) q = cell_of pos r q" if "q \<noteq> Event" for q
    using that by (cases q) (auto simp: leaves_def)
qed simp_all

text \<open>What the printer sees.\<close>

lemma tree_at_leaves:
  assumes "c p = Some (leaves pos ks)" and "\<forall>k \<in> set ks. c (pos (Counter k)) = Some (Num_cell (count r k))"
  shows "tree_at (Suc (Suc d)) c p = Some (numbers r ks)"
proof -
  have "all_some (map (\<lambda>k. (k, tree_at (Suc d) c (pos (Counter k)))) ks) = Some (map (\<lambda>k. (k, CNum (count r k))) ks)"
    using assms(2) by (induction ks) auto
  with assms(1) show ?thesis by (simp add: leaves_def numbers_def comp_def)
qed

lemma tree_at_doc:
  assumes "stored c pos r"
  shows "tree_at 8 c (pos Root) = Some (doc r)"
proof -
  note cell = stored_cell [OF assms]
  have leaf: "\<forall>k \<in> set ks. c (pos (Counter k)) = Some (Num_cell (count r k))" if "set ks \<subseteq> set counter_names" for ks
    using that cell [of "Counter _"] by auto
  have 1: "tree_at (Suc (Suc (Suc (Suc (Suc (Suc (Suc 0))))))) c (pos Alerts) = Some (numbers r alert_names)"
    using cell [of Alerts] leaf [of alert_names] by (intro tree_at_leaves) (auto simp: counter_names_def)
  have 2: "tree_at (Suc (Suc (Suc (Suc (Suc (Suc 0)))))) c (pos Food) = Some (numbers r food_names)"
    "tree_at (Suc (Suc (Suc (Suc (Suc (Suc 0)))))) c (pos Medicine) = Some (numbers r medicine_names)"
    using cell [of Food] cell [of Medicine] leaf [of food_names] leaf [of medicine_names]
    by (auto intro!: tree_at_leaves simp: counter_names_def simp del: tree_at.simps)
  have 3: "tree_at (Suc (Suc (Suc (Suc (Suc (Suc (Suc 0))))))) c (pos Supplies) =
      Some (CObj [(''food'', numbers r food_names), (''medicine'', numbers r medicine_names)])"
    by (subst tree_at.simps) (simp add: cell [of Supplies] 2 del: tree_at.simps)
  have 4: "tree_at (Suc (Suc (Suc (Suc (Suc (Suc (Suc 0))))))) c (pos Emergency) =
      Some (CObj [(''last_keepalived'', CStr (keepalived r)), (''last_event'', CStr (event r))])"
    by (simp add: cell [of Emergency] cell [of Keepalived] cell [of Event])
  have "tree_at (Suc (Suc (Suc (Suc (Suc (Suc (Suc (Suc 0)))))))) c (pos Root) = Some (doc r)"
    by (subst tree_at.simps) (simp add: cell [of Root] 1 3 4 doc_def del: tree_at.simps)
  then show ?thesis by (simp add: numeral_eq_Suc del: tree_at.simps)
qed

section \<open>The operations on the shelter\<close>

text \<open>Each gives the lines printed and the new shelter, or undefined behaviour.\<close>

definition supply_effect :: "string \<Rightarrow> shelter \<Rightarrow> (string list \<times> shelter) res" where
  "supply_effect message r = rbind (scan_supply message) (\<lambda>scanned. case scanned of
      None \<Rightarrow> Inr ([''[ERROR] Invalid message format''], r)
    | Some (k, v) \<Rightarrow>
        if v < 0 then Inr ([''[ERROR] Invalid value: '' @ show_int v], r)
        else if k \<in> set (food_names @ medicine_names) then Inr ([], r\<lparr>count := (count r)(k := v)\<rparr>)
        else Inr ([''[ERROR] Unknown field: '' @ k], r))"

definition alert_effect :: "string \<Rightarrow> shelter \<Rightarrow> (string list \<times> shelter) res" where
  "alert_effect message r = (case scan_alert message of
      None \<Rightarrow> Inr ([''[ERROR] Invalid alert message format''], r)
    | Some area \<Rightarrow> (case find (\<lambda>k. same_key k area) alert_names of
        None \<Rightarrow> Inr ([''[ERROR] Alert entry not found for area: '' @ area], r)
      | Some k \<Rightarrow> if count r k < INT_MAX then Inr ([], r\<lparr>count := (count r)(k := count r k + 1)\<rparr>) else Inl Undefined))"

definition emergency_effect :: "string + string \<Rightarrow> string \<Rightarrow> shelter \<Rightarrow> string list \<times> shelter" where
  "emergency_effect clock message r = (case clock of
      Inl msg \<Rightarrow> ([msg], r)
    | Inr t \<Rightarrow> ([], r\<lparr>keepalived := t, event := message\<rparr>))"

definition counts_ok :: "shelter \<Rightarrow> bool" where
  "counts_ok r \<longleftrightarrow> (\<forall>k \<in> set counter_names. 0 \<le> count r k \<and> count r k \<le> INT_MAX)"

lemma scan_supply_range: "scan_supply m = Inr (Some (k, v)) \<Longrightarrow> v \<le> INT_MAX"
  unfolding scan_supply_def scan_int_def
  by (auto simp: rbind_def in_int_def split: option.splits prod.splits sum.splits if_splits dest!: stoi_in_int)

lemma supply_effect_counts: "supply_effect m r = Inr (ms, r') \<Longrightarrow> counts_ok r \<Longrightarrow> counts_ok r'"
  unfolding supply_effect_def rbind_Inr_iff
proof (elim exE conjE)
  fix x
  assume 1: "counts_ok r" "scan_supply m = Inr x"
    and 2: "(case x of None \<Rightarrow> Inr ([''[ERROR] Invalid message format''], r)
      | Some (k, v) \<Rightarrow> if v < 0 then Inr ([''[ERROR] Invalid value: '' @ show_int v], r)
          else if k \<in> set (food_names @ medicine_names) then Inr ([], r\<lparr>count := (count r)(k := v)\<rparr>)
          else Inr ([''[ERROR] Unknown field: '' @ k], r)) = Inr (ms, r')"
  show "counts_ok r'"
  proof (cases x)
    case None
    with 1 2 show ?thesis by simp
  next
    case (Some y)
    with 1 2 scan_supply_range [of m "fst y" "snd y"] show ?thesis
      by (cases y) (auto simp: counts_ok_def split: if_splits)
  qed
qed

lemma alert_effect_counts: "alert_effect m r = Inr (ms, r') \<Longrightarrow> counts_ok r \<Longrightarrow> counts_ok r'"
  by (auto simp: alert_effect_def counts_ok_def split: option.splits if_splits)

lemma emergency_effect_counts: "emergency_effect t m r = (ms, r') \<Longrightarrow> counts_ok r \<Longrightarrow> counts_ok r'"
  by (auto simp: emergency_effect_def counts_ok_def split: sum.splits)

section \<open>The type of the document\<close>

text \<open>
  Three sections; every counter a number between zero and \<open>INT_MAX\<close>, in the order in
  which the program writes them; two strings.
\<close>

fun number_in_range :: "ctree \<Rightarrow> bool" where
  "number_in_range (CNum v) \<longleftrightarrow> 0 \<le> v \<and> v \<le> INT_MAX"
| "number_in_range _ \<longleftrightarrow> False"

fun numbers_typed :: "string list \<Rightarrow> ctree \<Rightarrow> bool" where
  "numbers_typed ks (CObj ms) \<longleftrightarrow> map fst ms = ks \<and> list_all number_in_range (map snd ms)"
| "numbers_typed ks _ \<longleftrightarrow> False"

fun summary_typed :: "ctree \<Rightarrow> bool" where
  "summary_typed (CObj [(a, alerts), (b, CObj [(c, food), (d, medicine)]), (e, CObj [(f, CStr t), (g, CStr u)])]) \<longleftrightarrow>
     [a, b, c, d, e, f, g] =
       [''alerts'', ''supplies'', ''food'', ''medicine'', ''emergency'', ''last_keepalived'', ''last_event''] \<and>
     numbers_typed alert_names alerts \<and> numbers_typed food_names food \<and> numbers_typed medicine_names medicine"
| "summary_typed _ \<longleftrightarrow> False"

lemma doc_typed: "counts_ok r \<Longrightarrow> summary_typed (doc r)"
  by (auto simp: doc_def numbers_def counts_ok_def counter_names_def list_all_iff comp_def)

section \<open>Sequences of updates\<close>

datatype op1 = Op_supply string | Op_alert string | Op_emergency string

text \<open>The updates in order; an emergency reads the clock, which the number \<open>n\<close> stands for.\<close>

fun ops_effect :: "(nat \<Rightarrow> string + string) \<Rightarrow> nat \<Rightarrow> op1 list \<Rightarrow> shelter \<Rightarrow> (string list \<times> shelter) res" where
  "ops_effect clock n [] r = Inr ([], r)"
| "ops_effect clock n (Op_supply m # ops) r = rbind (supply_effect m r) (\<lambda>(ms, r1).
     rbind (ops_effect clock n ops r1) (\<lambda>(ms', r2). Inr (ms @ ms', r2)))"
| "ops_effect clock n (Op_alert m # ops) r = rbind (alert_effect m r) (\<lambda>(ms, r1).
     rbind (ops_effect clock n ops r1) (\<lambda>(ms', r2). Inr (ms @ ms', r2)))"
| "ops_effect clock n (Op_emergency m # ops) r = (let (ms, r1) = emergency_effect (clock n) m r in
     rbind (ops_effect clock (Suc n) ops r1) (\<lambda>(ms', r2). Inr (ms @ ms', r2)))"

lemma ops_effect_counts: "ops_effect clock n ops r = Inr (ms, r') \<Longrightarrow> counts_ok r \<Longrightarrow> counts_ok r'"
proof (induction clock n ops r arbitrary: ms rule: ops_effect.induct)
  case (2 clock n m ops r)
  then obtain ms1 r1 ms2 where "supply_effect m r = Inr (ms1, r1)" "ops_effect clock n ops r1 = Inr (ms2, r')"
    by (auto simp: rbind_Inr_iff)
  with 2 supply_effect_counts show ?case by blast
next
  case (3 clock n m ops r)
  then obtain ms1 r1 ms2 where "alert_effect m r = Inr (ms1, r1)" "ops_effect clock n ops r1 = Inr (ms2, r')"
    by (auto simp: rbind_Inr_iff)
  with 3 alert_effect_counts show ?case by blast
next
  case (4 clock n m ops r)
  obtain ms1 r1 where e: "emergency_effect (clock n) m r = (ms1, r1)" by fastforce
  with 4 obtain ms2 where "ops_effect clock (Suc n) ops r1 = Inr (ms2, r')"
    by (auto simp: rbind_Inr_iff)
  with 4 e emergency_effect_counts [OF e] show ?case by auto
qed simp

text \<open>What is printed about the last of the messages handed to \<open>send\<close>, a summary.\<close>

definition send_report :: "('h, 'n) lab1_env \<Rightarrow> (int \<times> string) list \<Rightarrow> string list" where
  "send_report E ms = (if send_fails1 E ms then [''[ERROR] Error sending JSON data''] else [])"

fun run_op :: "('h, 'n) lab1_env \<Rightarrow> op1 \<Rightarrow> ('h, 'n, unit) act1" where
  "run_op E (Op_supply m) = modify_supplies1 E m"
| "run_op E (Op_alert m) = modify_alerts1 E m"
| "run_op E (Op_emergency m) = modify_emergencies1 E m"

fun run_ops :: "('h, 'n) lab1_env \<Rightarrow> op1 list \<Rightarrow> ('h, 'n, unit) act1" where
  "run_ops E [] = ret ()"
| "run_ops E (q # qs) = thn (run_op E q) (run_ops E qs)"

end
