(* ===== verification/Lab1_Refine.thy ===== *)
theory Lab1_Refine
  imports Lab1_Doc
begin

text \<open>
  The functions of \<open>supplies.c\<close> carry out the operations of the shelter, for every
  library with the documented behaviour; the reference library is one.
\<close>

section \<open>Partial documents\<close>

text \<open>
  While the document is built, only some places have a node.  \<open>D\<close> gives their cells
  in terms of places; \<open>layout\<close> relates it to the memory, and \<open>child\<close> adds a member.
\<close>

definition layout :: "('n \<Rightarrow> 'n cell option) \<Rightarrow> (place \<Rightarrow> 'n) \<Rightarrow> (place \<Rightarrow> place cell option) \<Rightarrow> bool" where
  "layout c pos D \<longleftrightarrow> inj_on pos (dom D) \<and>
     (\<forall>p x. D p = Some x \<longrightarrow> set_cell x \<subseteq> dom D \<and> c (pos p) = Some (map_cell pos x))"

definition child :: "place \<Rightarrow> string \<Rightarrow> place \<Rightarrow> place cell \<Rightarrow> (place \<Rightarrow> place cell option) \<Rightarrow> place \<Rightarrow> place cell option" where
  "child P k Q x D = (case D P of Some (Obj_cell ms) \<Rightarrow> D(Q \<mapsto> x, P \<mapsto> Obj_cell (ms @ [(k, Q)])) | _ \<Rightarrow> D)"

lemma layout_cell: "layout c pos D \<Longrightarrow> D p = Some x \<Longrightarrow> c (pos p) = Some (map_cell pos x)"
  by (simp add: layout_def)

lemma child_at:
  "D P = Some (Obj_cell ms) \<Longrightarrow>
     child P k Q x D = (\<lambda>p. if p = P then Some (Obj_cell (ms @ [(k, Q)])) else if p = Q then Some x else D p)"
  by (auto simp: child_def fun_eq_iff)

lemma children_at:
  assumes "D P = Some (Obj_cell ms)" and "\<And>k. P \<noteq> Counter k"
  shows "fold (\<lambda>k. child P k (Counter k) (Num_cell 0)) ks D =
    (\<lambda>p. if p = P then Some (Obj_cell (ms @ map (\<lambda>k. (k, Counter k)) ks))
         else if p \<in> Counter ` set ks then Some (Num_cell 0) else D p)"
  using assms
proof (induction ks arbitrary: D ms)
  case Nil
  then show ?case by (auto simp: fun_eq_iff)
next
  case (Cons k ks)
  have "child P k (Counter k) (Num_cell 0) D P = Some (Obj_cell (ms @ [(k, Counter k)]))"
    by (simp add: child_at [of D P ms, OF Cons.prems(1)])
  from Cons.IH [of "child P k (Counter k) (Num_cell 0) D", OF this] Cons.prems show ?case
    by (auto simp: child_at [of D P ms, OF Cons.prems(1)] fun_eq_iff)
qed

lemma layout_child:
  assumes "layout c pos D" and "D P = Some (Obj_cell ms)" and "D Q = None" and "c n = None" and "set_cell x = {}"
  shows "layout (c(n := Some (map_cell pos x), pos P := Some (Obj_cell (map (map_prod id pos) ms @ [(k, n)]))))
           (pos(Q := n)) (child P k Q x D)"
proof -
  let ?pos = "pos(Q := n)"
  have inj: "inj_on pos (dom D)" using assms(1) by (simp add: layout_def)
  have used: "pos p \<noteq> n" if "D p \<noteq> None" for p
    using that assms(1,4) by (auto simp: layout_def)
  have PQ: "P \<noteq> Q" using assms(2,3) by auto
  have same: "map_cell ?pos y = map_cell pos y" if "set_cell y \<subseteq> dom D" for y
    using that assms(3) by (intro cell.map_cong0) auto
  have msD: "set_cell (Obj_cell ms) \<subseteq> dom D" using assms(1,2) unfolding layout_def by blast
  have D': "child P k Q x D = D(Q \<mapsto> x, P \<mapsto> Obj_cell (ms @ [(k, Q)]))" using assms(2) by (simp add: child_def)
  have "inj_on ?pos (insert Q (dom D))"
    using inj used assms(3) by (auto simp: inj_on_def)
  moreover have "dom (child P k Q x D) = insert Q (dom D)" using assms(2) D' by auto
  moreover have "set_cell y \<subseteq> insert Q (dom D) \<and>
      (c(n := Some (map_cell pos x), pos P := Some (Obj_cell (map (map_prod id pos) ms @ [(k, n)])))) (?pos p) =
        Some (map_cell ?pos y)" if y: "child P k Q x D p = Some y" for p y
  proof (cases "p = Q \<or> p = P")
    case True
    have "map_cell ?pos x = map_cell pos x" using assms(5) by (intro same) simp
    moreover have "map_cell ?pos (Obj_cell ms) = map_cell pos (Obj_cell ms)" using msD by (rule same)
    moreover have "\<exists>z. D b = Some z" if "(a, b) \<in> set ms" for a b using that msD by force
    ultimately show ?thesis
      using True y D' PQ assms(2,5) used [of P] by (auto simp del: fun_upd_apply simp: fun_upd_def)
  next
    case False
    with y D' have Dp: "D p = Some y" by simp
    with assms(1) have y1: "set_cell y \<subseteq> dom D" "c (pos p) = Some (map_cell pos y)" by (auto simp: layout_def)
    have "pos p \<noteq> pos P" using inj Dp assms(2) False by (auto simp: inj_on_def)
    with False y1 same [OF y1(1)] used [of p] Dp show ?thesis by auto
  qed
  ultimately show ?thesis by (simp add: layout_def)
qed

text \<open>A layout of all places is the stored document.\<close>

lemma cell_of_places: "map_cell pos (cell_of (\<lambda>p. p) r p) = cell_of pos r p"
  by (cases p) (simp_all add: leaves_def)

lemma layout_stored:
  assumes "layout c pos D" and "\<forall>p \<in> set places. D p = Some (cell_of (\<lambda>p. p) r p)"
  shows "stored c pos r"
proof -
  have "set places \<subseteq> dom D" using assms(2) by auto
  with assms(1) have "inj_on pos (set places)" by (auto simp: layout_def intro: inj_on_subset)
  with assms show ?thesis by (simp add: stored_def layout_cell cell_of_places)
qed

section \<open>The operations\<close>

locale lab1_doc = cjson_api "cj E" cells room render
  for E :: "('h, 'n) lab1_env" and cells :: "'h \<Rightarrow> 'n \<Rightarrow> 'n cell option" and room render
begin

section \<open>Changing the document\<close>

lemma summary_isE:
  assumes "summary_is cells room s r"
  obtains pos where "room (heap s)" "state_summary s = Some (pos Root)" "stored (cells (heap s)) pos r"
  using assms by (auto simp: summary_is_def holds_def)

lemma summary_isI:
  "room (heap s) \<Longrightarrow> state_summary s = Some (pos Root) \<Longrightarrow> stored (cells (heap s)) pos r \<Longrightarrow> summary_is cells room s r"
  by (auto simp: summary_is_def holds_def)

lemma find_leaf:
  "map_option snd (find (\<lambda>m. same_key (fst m) k) (map (\<lambda>k. (k, pos (Counter k))) ks))
    = map_option (\<lambda>k'. pos (Counter k')) (find (\<lambda>k'. same_key k' k) ks)"
  by (induction ks) auto

text \<open>Looking up the members of the document.\<close>

lemma items:
  assumes "stored (cells h) pos r"
  shows "cj_get_item (cj E) h (Some (pos Root)) ''alerts'' = Some (pos Alerts)"
    "cj_get_item (cj E) h (Some (pos Root)) ''supplies'' = Some (pos Supplies)"
    "cj_get_item (cj E) h (Some (pos Root)) ''emergency'' = Some (pos Emergency)"
    "cj_get_item (cj E) h (Some (pos Supplies)) ''food'' = Some (pos Food)"
    "cj_get_item (cj E) h (Some (pos Supplies)) ''medicine'' = Some (pos Medicine)"
    "cj_get_item (cj E) h (Some (pos Emergency)) ''last_keepalived'' = Some (pos Keepalived)"
    "cj_get_item (cj E) h (Some (pos Emergency)) ''last_event'' = Some (pos Event)"
  using stored_cell [OF assms, of Root] stored_cell [OF assms, of Supplies] stored_cell [OF assms, of Emergency]
  by (simp_all add: get_item same_key_def lower_def)

lemma leaf_items:
  assumes "stored (cells h) pos r"
  shows "cj_get_item (cj E) h (Some (pos Alerts)) k = map_option (\<lambda>k'. pos (Counter k')) (find (\<lambda>k'. same_key k' k) alert_names)"
    "cj_get_item (cj E) h (Some (pos Food)) k = map_option (\<lambda>k'. pos (Counter k')) (find (\<lambda>k'. same_key k' k) food_names)"
    "cj_get_item (cj E) h (Some (pos Medicine)) k = map_option (\<lambda>k'. pos (Counter k')) (find (\<lambda>k'. same_key k' k) medicine_names)"
  using stored_cell [OF assms, of Alerts] stored_cell [OF assms, of Food] stored_cell [OF assms, of Medicine]
  by (simp_all add: get_item leaves_def find_leaf)

lemma find_self:
  "k \<in> set food_names \<Longrightarrow> find (\<lambda>k'. same_key k' k) food_names = Some k"
  "k \<in> set medicine_names \<Longrightarrow> find (\<lambda>k'. same_key k' k) medicine_names = Some k"
  by (auto simp: food_names_def medicine_names_def same_key_def lower_def)

lemma food_not_medicine: "k \<in> set food_names \<Longrightarrow> k \<notin> set medicine_names"
  by (auto simp: food_names_def medicine_names_def)

lemma find_mem: "find P xs = Some x \<Longrightarrow> x \<in> set xs"
  by (auto simp: find_Some_iff)

lemma set_count:
  assumes "stored (cells h) pos r" "room h" "k \<in> set counter_names"
  shows "stored (cells (cj_set_number (cj E) h (pos (Counter k)) v)) pos (r\<lparr>count := (count r)(k := v)\<rparr>)"
    "room (cj_set_number (cj E) h (pos (Counter k)) v)"
  using set_number [of h "pos (Counter k)" "count r k" v] stored_cell [OF assms(1), of "Counter k"] assms
    stored_count [OF assms(1,3)]
  by simp_all

lemma set_texts:
  assumes "stored (cells h) pos r" "room h"
  shows "stored (cells (cj_set_string (cj E) h (pos Keepalived) t)) pos (r\<lparr>keepalived := t\<rparr>)"
    "room (cj_set_string (cj E) h (pos Keepalived) t)"
    "stored (cells (cj_set_string (cj E) h (pos Event) u)) pos (r\<lparr>event := u\<rparr>)"
    "room (cj_set_string (cj E) h (pos Event) u)"
  using set_string [of h "pos Keepalived" "keepalived r" t] set_string [of h "pos Event" "event r" u]
    stored_cell [OF assms(1), of Keepalived] stored_cell [OF assms(1), of Event] assms
    stored_keepalived [OF assms(1)] stored_event [OF assms(1)]
  by simp_all

lemma get_count: "stored (cells h) pos r \<Longrightarrow> k \<in> set counter_names \<Longrightarrow> cj_get_number (cj E) h (pos (Counter k)) = Some (count r k)"
  using stored_cell [of "cells h" pos r "Counter k"] by (simp add: get_number)

text \<open>
  \<open>did s s' lines r\<close>: from \<open>s\<close> to \<open>s'\<close> the operation has printed these lines, changed
  the document into \<open>r\<close>, and nothing else.
\<close>

definition did :: "('h, 'n) lab1 \<Rightarrow> ('h, 'n) lab1 \<Rightarrow> string list \<Rightarrow> shelter \<Rightarrow> bool" where
  "did s s' ms r \<longleftrightarrow> summary_is cells room s' r \<and> (\<exists>h. s' = s\<lparr>heap := h, terminal := terminal s @ ms\<rparr>)"

lemma did_frame:
  assumes "did s s' ms r"
  shows "summary_is cells room s' r" "terminal s' = terminal s @ ms" "ticks1 s' = ticks1 s" "log_text s' = log_text s"
    "streams s' = streams s" "sent1 s' = sent1 s" "closed1 s' = closed1 s" "clients s' = clients s"
    "num_clients s' = num_clients s"
  using assms by (auto simp: did_def)

lemma did_tell: "summary_is cells room s r \<Longrightarrow> did s (s\<lparr>terminal := terminal s @ [t]\<rparr>) [t] r"
  by (auto simp: did_def summary_is_def intro!: exI [of _ "heap s"])

lemma did_heap:
  assumes "state_summary s = Some (pos Root)" "stored (cells h) pos r" "room h"
  shows "did s (s\<lparr>heap := h\<rparr>) [] r"
  using assms by (auto simp: did_def intro: summary_isI)

lemma modify_supplies1_refines:
  assumes "summary_is cells room s r"
  shows "case supply_effect m r of Inl e \<Rightarrow> modify_supplies1 E m s = (Inl e, s)
    | Inr (ms, r') \<Rightarrow> \<exists>s'. modify_supplies1 E m s = (Inr (), s') \<and> did s s' ms r'"
proof (cases "scan_supply m")
  case (Inl e)
  then show ?thesis by (simp add: supply_effect_def modify_supplies1_def)
next
  case (Inr x)
  obtain pos where s: "room (heap s)" "state_summary s = Some (pos Root)" "stored (cells (heap s)) pos r"
    using assms by (rule summary_isE)
  show ?thesis
  proof (cases x)
    case None
    with Inr show ?thesis
      by (simp add: supply_effect_def modify_supplies1_def did_tell [OF assms])
  next
    case (Some y)
    obtain k v where y: "y = (k, v)" by (cases y)
    show ?thesis
    proof (cases "0 \<le> v \<and> k \<in> set (food_names @ medicine_names)")
      case False
      with Inr Some y show ?thesis
        by (auto simp: supply_effect_def modify_supplies1_def item1_def did_tell [OF assms])
    next
      case True
      let ?h = "cj_set_number (cj E) (heap s) (pos (Counter k)) v"
      from True have k: "k \<in> set counter_names" by (auto simp: counter_names_def)
      from True have "modify_supplies1 E m s = (Inr (), s\<lparr>heap := ?h\<rparr>)"
        using Inr Some y s(2) food_not_medicine [of k]
        by (auto simp: modify_supplies1_def item1_def items [OF s(3)] leaf_items [OF s(3)] find_self heap_do_def)
      moreover have "did s (s\<lparr>heap := ?h\<rparr>) [] (r\<lparr>count := (count r)(k := v)\<rparr>)"
        using set_count [OF s(3,1) k] s(2) by (intro did_heap) auto
      ultimately show ?thesis using True Inr Some y by (simp add: supply_effect_def)
    qed
  qed
qed

lemma modify_alerts1_refines:
  assumes "summary_is cells room s r"
  shows "case alert_effect m r of Inl e \<Rightarrow> modify_alerts1 E m s = (Inl e, s)
    | Inr (ms, r') \<Rightarrow> \<exists>s'. modify_alerts1 E m s = (Inr (), s') \<and> did s s' ms r'"
proof (cases "scan_alert m")
  case None
  then show ?thesis
    by (simp add: alert_effect_def modify_alerts1_def did_tell [OF assms])
next
  case (Some area)
  obtain pos where s: "room (heap s)" "state_summary s = Some (pos Root)" "stored (cells (heap s)) pos r"
    using assms by (rule summary_isE)
  show ?thesis
  proof (cases "find (\<lambda>k. same_key k area) alert_names")
    case None
    with Some s(2) show ?thesis
      by (simp add: alert_effect_def modify_alerts1_def item1_def items [OF s(3)] leaf_items [OF s(3)] did_tell [OF assms])
  next
    case k: (Some k)
    then have mem: "k \<in> set counter_names" by (auto simp: counter_names_def dest: find_mem)
    show ?thesis
    proof (cases "count r k < INT_MAX")
      case False
      with Some k s(2) show ?thesis
        by (simp add: alert_effect_def modify_alerts1_def item1_def items [OF s(3)] leaf_items [OF s(3)] get_count [OF s(3) mem])
    next
      case True
      let ?h = "cj_set_number (cj E) (heap s) (pos (Counter k)) (count r k + 1)"
      from True have "modify_alerts1 E m s = (Inr (), s\<lparr>heap := ?h\<rparr>)"
        using Some k s(2)
        by (simp add: modify_alerts1_def item1_def items [OF s(3)] leaf_items [OF s(3)] get_count [OF s(3) mem] heap_do_def)
      moreover have "did s (s\<lparr>heap := ?h\<rparr>) [] (r\<lparr>count := (count r)(k := count r k + 1)\<rparr>)"
        using set_count [OF s(3,1) mem] s(2) by (intro did_heap) auto
      ultimately show ?thesis using True Some k by (simp add: alert_effect_def)
    qed
  qed
qed

lemma modify_emergencies1_refines:
  assumes "summary_is cells room s r" and "emergency_effect (stamp_c E (ticks1 s)) m r = (ms, r')"
  shows "\<exists>s'. modify_emergencies1 E m s = (Inr (), s') \<and> did (s\<lparr>ticks1 := Suc (ticks1 s)\<rparr>) s' ms r'"
proof (cases "stamp_c E (ticks1 s)")
  case (Inl msg)
  have "summary_is cells room (s\<lparr>ticks1 := Suc (ticks1 s)\<rparr>) r" using assms(1) by (simp add: summary_is_def)
  with Inl assms(2) show ?thesis
    by (auto simp: emergency_effect_def modify_emergencies1_def dest: did_tell)
next
  case (Inr t)
  obtain pos where s: "room (heap s)" "state_summary s = Some (pos Root)" "stored (cells (heap s)) pos r"
    using assms(1) by (rule summary_isE)
  let ?h1 = "cj_set_string (cj E) (heap s) (pos Keepalived) t"
  let ?h2 = "cj_set_string (cj E) ?h1 (pos Event) m"
  note 1 = set_texts(1,2) [OF s(3,1), of t]
  note 2 = set_texts(3,4) [OF 1, of m]
  have "modify_emergencies1 E m s = (Inr (), s\<lparr>ticks1 := Suc (ticks1 s), heap := ?h2\<rparr>)"
    using Inr s(2) by (simp add: modify_emergencies1_def item1_def items [OF s(3)] items [OF 1(1)] heap_do_def)
  moreover have "did (s\<lparr>ticks1 := Suc (ticks1 s)\<rparr>) (s\<lparr>ticks1 := Suc (ticks1 s), heap := ?h2\<rparr>) [] (r\<lparr>keepalived := t, event := m\<rparr>)"
    using did_heap [of "s\<lparr>ticks1 := Suc (ticks1 s)\<rparr>" pos ?h2] s(2) 2 by simp
  ultimately show ?thesis using assms(2) Inr by (auto simp: emergency_effect_def)
qed

lemma send_state_summary1_sends:
  assumes "summary_is cells room s r"
  shows "send_state_summary1 E fd s = (Inr (), s\<lparr>sent1 := sent1 s @ [(fd, render (doc r))],
    terminal := terminal s @ send_report E (sent1 s @ [(fd, render (doc r))])\<rparr>)"
proof -
  obtain pos where s: "room (heap s)" "state_summary s = Some (pos Root)" "stored (cells (heap s)) pos r"
    using assms by (rule summary_isE)
  with print [OF s(1) tree_at_doc [OF s(3)]] show ?thesis
    by (simp add: send_state_summary1_def send_report_def gets_def tell_def)
qed

section \<open>Sequences\<close>

lemma run_ops_refines:
  assumes "summary_is cells room s r"
  shows "case ops_effect (stamp_c E) (ticks1 s) ops r of Inl e \<Rightarrow> fst (run_ops E ops s) = Inl e
    | Inr (ms, r') \<Rightarrow> \<exists>s'. run_ops E ops s = (Inr (), s') \<and> summary_is cells room s' r' \<and> terminal s' = terminal s @ ms"
  using assms
proof (induction ops arbitrary: s r)
  case Nil
  then show ?case by simp
next
  case (Cons q ops)
  have step: "case rbind (ops_effect (stamp_c E) (ticks1 s1) ops r1) (\<lambda>(ms', r2). Inr (ms @ ms', r2)) of
      Inl e \<Rightarrow> fst (run_ops E (q # ops) s) = Inl e
    | Inr (ms, r') \<Rightarrow> \<exists>s'. run_ops E (q # ops) s = (Inr (), s') \<and> summary_is cells room s' r' \<and> terminal s' = terminal s @ ms"
    if "run_op E q s = (Inr (), s1)" "summary_is cells room s1 r1" "terminal s1 = terminal s @ ms" for s1 r1 ms
    using Cons.IH [OF that(2)] that(1,3)
    by (cases "ops_effect (stamp_c E) (ticks1 s1) ops r1") auto
  show ?case
  proof (cases q)
    case (Op_supply m)
    show ?thesis
    proof (cases "supply_effect m r")
      case (Inl e)
      with Op_supply modify_supplies1_refines [OF Cons.prems, of m] show ?thesis by simp
    next
      case (Inr y)
      obtain ms r1 where y: "y = (ms, r1)" by (cases y)
      with Inr modify_supplies1_refines [OF Cons.prems, of m] obtain s1 where
        1: "modify_supplies1 E m s = (Inr (), s1)" "did s s1 ms r1" by auto
      from step [OF _ did_frame(1,2) [OF 1(2)]] Op_supply Inr y 1(1) did_frame(3) [OF 1(2)] show ?thesis by simp
    qed
  next
    case (Op_alert m)
    show ?thesis
    proof (cases "alert_effect m r")
      case (Inl e)
      with Op_alert modify_alerts1_refines [OF Cons.prems, of m] show ?thesis by simp
    next
      case (Inr y)
      obtain ms r1 where y: "y = (ms, r1)" by (cases y)
      with Inr modify_alerts1_refines [OF Cons.prems, of m] obtain s1 where
        1: "modify_alerts1 E m s = (Inr (), s1)" "did s s1 ms r1" by auto
      from step [OF _ did_frame(1,2) [OF 1(2)]] Op_alert Inr y 1(1) did_frame(3) [OF 1(2)] show ?thesis by simp
    qed
  next
    case (Op_emergency m)
    obtain ms r1 where e: "emergency_effect (stamp_c E (ticks1 s)) m r = (ms, r1)" by fastforce
    from modify_emergencies1_refines [OF Cons.prems e] obtain s1 where
      1: "modify_emergencies1 E m s = (Inr (), s1)" "did (s\<lparr>ticks1 := Suc (ticks1 s)\<rparr>) s1 ms r1" by auto
    from step [of s1 r1 ms] Op_emergency e 1(1) did_frame(1-3) [OF 1(2)] show ?thesis by simp
  qed
qed

section \<open>Creating the document\<close>

lemma add_object_child:
  assumes "room h" "layout (cells h) pos D" "D P = Some (Obj_cell ms)" "D Q = None"
  shows "\<exists>pos' h'. (\<forall>s. add_object E (Some (pos P)) k (s\<lparr>heap := h\<rparr>) = (Inr (Some (pos' Q)), s\<lparr>heap := h'\<rparr>)) \<and>
    room h' \<and> layout (cells h') pos' (child P k Q (Obj_cell []) D) \<and> (\<forall>p. p \<noteq> Q \<longrightarrow> pos' p = pos p)"
proof -
  obtain n h1 where 1: "cj_create_object (cj E) h = (Some n, h1)" "cells h n = None"
    "cells h1 = (cells h)(n := Some (Obj_cell []))" "room h1"
    using create [OF assms(1)] by blast
  have p: "cells h (pos P) = Some (Obj_cell (map (map_prod id pos) ms))"
    using layout_cell [OF assms(2,3)] by simp
  then have np: "n \<noteq> pos P" using 1(2) by auto
  have 2: "cells h1 (pos P) = Some (Obj_cell (map (map_prod id pos) ms))" "cells h1 n \<noteq> None"
    using 1(3) p np by auto
  define h2 where "h2 = cj_add_item (cj E) h1 (Some (pos P)) k (Some n)"
  have 3: "cells h2 = (cells h)(n := Some (map_cell pos (Obj_cell [])), pos P := Some (Obj_cell (map (map_prod id pos) ms @ [(k, n)])))"
    "room h2"
    using add_item [OF 1(4) 2 np, of k] 1(3) by (simp_all add: h2_def)
  have "layout (cells h2) (pos(Q := n)) (child P k Q (Obj_cell []) D)"
    unfolding 3 by (rule layout_child [OF assms(2-4) 1(2)]) simp
  with 3(2) show ?thesis
    by (intro exI [of _ "pos(Q := n)"] exI [of _ h2]) (simp add: add_object_def create_object1_def 1(1) heap_do_def h2_def)
qed

lemma add_zeros_children:
  assumes "room h" "layout (cells h) pos D" "D P = Some (Obj_cell ms)" "distinct ks" "\<forall>k \<in> set ks. D (Counter k) = None"
  shows "\<exists>pos' h'. (\<forall>s. add_zeros E (Some (pos P)) ks (s\<lparr>heap := h\<rparr>) = (Inr (), s\<lparr>heap := h'\<rparr>)) \<and> room h' \<and>
    layout (cells h') pos' (fold (\<lambda>k. child P k (Counter k) (Num_cell 0)) ks D) \<and> (\<forall>p. p \<notin> Counter ` set ks \<longrightarrow> pos' p = pos p)"
  using assms
proof (induction ks arbitrary: h pos D ms)
  case Nil
  then show ?case by (intro exI [of _ pos] exI [of _ h]) simp
next
  case (Cons k ks)
  let ?D = "child P k (Counter k) (Num_cell 0) D"
  define h1 where "h1 = cj_add_number (cj E) h (Some (pos P)) k 0"
  have p: "cells h (pos P) = Some (Obj_cell (map (map_prod id pos) ms))"
    using layout_cell [OF Cons.prems(2,3)] by simp
  obtain c where c: "cells h c = None" "room h1"
    "cells h1 = (cells h)(c := Some (map_cell pos (Num_cell 0)), pos P := Some (Obj_cell (map (map_prod id pos) ms @ [(k, c)])))"
    using add_number [OF Cons.prems(1) p, of k 0] unfolding h1_def by auto
  have k: "D (Counter k) = None" "P \<noteq> Counter k" using Cons.prems(3,5) by auto
  have l: "layout (cells h1) (pos(Counter k := c)) ?D"
    unfolding c(3) by (rule layout_child [OF Cons.prems(2,3) k(1) c(1)]) simp
  have D: "?D P = Some (Obj_cell (ms @ [(k, Counter k)]))" "\<forall>k \<in> set ks. ?D (Counter k) = None"
    using Cons.prems(3-5) by (auto simp: child_def)
  have "distinct ks" using Cons.prems(4) by simp
  from Cons.IH [OF c(2) l D(1) this D(2)] k(2) obtain pos' h' where
    1: "\<forall>s. add_zeros E (Some (pos P)) ks (s\<lparr>heap := h1\<rparr>) = (Inr (), s\<lparr>heap := h'\<rparr>)" and
    2: "room h'" "layout (cells h') pos' (fold (\<lambda>k. child P k (Counter k) (Num_cell 0)) ks ?D)"
       "\<forall>p. p \<notin> Counter ` set ks \<longrightarrow> pos' p = (pos(Counter k := c)) p"
    by auto
  have "\<forall>s. add_zeros E (Some (pos P)) (k # ks) (s\<lparr>heap := h\<rparr>) = (Inr (), s\<lparr>heap := h'\<rparr>)"
  proof
    fix s
    show "add_zeros E (Some (pos P)) (k # ks) (s\<lparr>heap := h\<rparr>) = (Inr (), s\<lparr>heap := h'\<rparr>)"
      using 1 [rule_format, of s] by (simp add: heap_do_def h1_def)
  qed
  with 2 show ?case by (intro exI [of _ pos'] exI [of _ h']) auto
qed

lemma add_string_child:
  assumes "room h" "layout (cells h) pos D" "D P = Some (Obj_cell ms)" "D Q = None"
  shows "\<exists>pos'. room (cj_add_string (cj E) h (Some (pos P)) k t) \<and>
    layout (cells (cj_add_string (cj E) h (Some (pos P)) k t)) pos' (child P k Q (Str_cell t) D) \<and>
    (\<forall>p. p \<noteq> Q \<longrightarrow> pos' p = pos p)"
proof -
  let ?h = "cj_add_string (cj E) h (Some (pos P)) k t"
  have p: "cells h (pos P) = Some (Obj_cell (map (map_prod id pos) ms))"
    using layout_cell [OF assms(2,3)] by simp
  obtain c where c: "cells h c = None" "room ?h"
    "cells ?h = (cells h)(c := Some (map_cell pos (Str_cell t)), pos P := Some (Obj_cell (map (map_prod id pos) ms @ [(k, c)])))"
    using add_string [OF assms(1) p, of k t] by auto
  have "layout (cells ?h) (pos(Q := c)) (child P k Q (Str_cell t) D)"
    unfolding c(3) by (rule layout_child [OF assms(2-4) c(1)]) simp
  with c(2) show ?thesis by (intro exI [of _ "pos(Q := c)"]) simp
qed

lemma create_state_summary1_establishes:
  assumes "room h"
  shows "\<exists>n h'. (\<forall>s. create_state_summary1 E (s\<lparr>heap := h\<rparr>) = (Inr (), s\<lparr>state_summary := Some n, heap := h'\<rparr>)) \<and>
    room h' \<and> holds (cells h') n empty_shelter"
proof -
  obtain n h0 where 0: "cj_create_object (cj E) h = (Some n, h0)" "cells h n = None"
    "cells h0 = (cells h)(n := Some (Obj_cell []))" "room h0"
    using create [OF assms] by blast
  define pos0 where "pos0 = (\<lambda>p :: place. n)"
  define D0 :: "place \<Rightarrow> place cell option" where "D0 = [Root \<mapsto> Obj_cell []]"
  have l0: "layout (cells h0) pos0 D0" by (auto simp: layout_def 0(3) pos0_def D0_def split: if_splits)
  have names: "distinct alert_names" "distinct food_names" "distinct medicine_names"
    "set alert_names \<inter> set food_names = {}" "(set alert_names \<union> set food_names) \<inter> set medicine_names = {}"
    by (simp_all add: name_defs)
  have e1: "D0 Root = Some (Obj_cell [])" "D0 Alerts = None"
    by (auto simp:  D0_def)
  define D1 where "D1 = child Root ''alerts'' Alerts (Obj_cell []) D0"
  note D1 = D1_def [unfolded child_at [of D0, OF e1(1)]]
  obtain pos1 h1 where 1: "\<forall>s. add_object E (Some (pos0 Root)) ''alerts'' (s\<lparr>heap := h0\<rparr>) = (Inr (Some (pos1 Alerts)), s\<lparr>heap := h1\<rparr>)"
    "room h1" "layout (cells h1) pos1 D1" "\<forall>p. p \<noteq> Alerts \<longrightarrow> pos1 p = pos0 p"
    using add_object_child [OF 0(4) l0 e1, of "''alerts''"] unfolding D1_def by blast
  have e2: "D1 Alerts = Some (Obj_cell [])" "\<forall>k \<in> set alert_names. D1 (Counter k) = None"
    using names(4,5) by (auto simp: D1 D0_def)
  define D2 where "D2 = fold (\<lambda>k. child Alerts k (Counter k) (Num_cell 0)) alert_names D1"
  have D2: "D2 = (\<lambda>p. if p = Alerts then Some (Obj_cell ([] @ map (\<lambda>k. (k, Counter k)) alert_names))
      else if p \<in> Counter ` set alert_names then Some (Num_cell 0) else D1 p)"
    unfolding D2_def by (rule children_at [of D1, OF e2(1)]) simp
  obtain pos2 h2 where 2: "\<forall>s. add_zeros E (Some (pos1 Alerts)) alert_names (s\<lparr>heap := h1\<rparr>) = (Inr (), s\<lparr>heap := h2\<rparr>)"
    "room h2" "layout (cells h2) pos2 D2" "\<forall>p. p \<notin> Counter ` set alert_names \<longrightarrow> pos2 p = pos1 p"
    using add_zeros_children [OF 1(2,3) e2(1) names(1) e2(2)] unfolding D2_def by blast
  have e3: "D2 Root = Some (Obj_cell [(''alerts'', Alerts)])" "D2 Supplies = None"
    by (auto simp: D2 D1 D0_def)
  define D3 where "D3 = child Root ''supplies'' Supplies (Obj_cell []) D2"
  note D3 = D3_def [unfolded child_at [of D2, OF e3(1)]]
  obtain pos3 h3 where 3: "\<forall>s. add_object E (Some (pos2 Root)) ''supplies'' (s\<lparr>heap := h2\<rparr>) = (Inr (Some (pos3 Supplies)), s\<lparr>heap := h3\<rparr>)"
    "room h3" "layout (cells h3) pos3 D3" "\<forall>p. p \<noteq> Supplies \<longrightarrow> pos3 p = pos2 p"
    using add_object_child [OF 2(2,3) e3, of "''supplies''"] unfolding D3_def by blast
  have e4: "D3 Supplies = Some (Obj_cell [])" "D3 Food = None"
    by (auto simp: D3 D2 D1 D0_def)
  define D4 where "D4 = child Supplies ''food'' Food (Obj_cell []) D3"
  note D4 = D4_def [unfolded child_at [of D3, OF e4(1)]]
  obtain pos4 h4 where 4: "\<forall>s. add_object E (Some (pos3 Supplies)) ''food'' (s\<lparr>heap := h3\<rparr>) = (Inr (Some (pos4 Food)), s\<lparr>heap := h4\<rparr>)"
    "room h4" "layout (cells h4) pos4 D4" "\<forall>p. p \<noteq> Food \<longrightarrow> pos4 p = pos3 p"
    using add_object_child [OF 3(2,3) e4, of "''food''"] unfolding D4_def by blast
  have e5: "D4 Food = Some (Obj_cell [])" "\<forall>k \<in> set food_names. D4 (Counter k) = None"
    using names(4,5) by (auto simp: D4 D3 D2 D1 D0_def)
  define D5 where "D5 = fold (\<lambda>k. child Food k (Counter k) (Num_cell 0)) food_names D4"
  have D5: "D5 = (\<lambda>p. if p = Food then Some (Obj_cell ([] @ map (\<lambda>k. (k, Counter k)) food_names))
      else if p \<in> Counter ` set food_names then Some (Num_cell 0) else D4 p)"
    unfolding D5_def by (rule children_at [of D4, OF e5(1)]) simp
  obtain pos5 h5 where 5: "\<forall>s. add_zeros E (Some (pos4 Food)) food_names (s\<lparr>heap := h4\<rparr>) = (Inr (), s\<lparr>heap := h5\<rparr>)"
    "room h5" "layout (cells h5) pos5 D5" "\<forall>p. p \<notin> Counter ` set food_names \<longrightarrow> pos5 p = pos4 p"
    using add_zeros_children [OF 4(2,3) e5(1) names(2) e5(2)] unfolding D5_def by blast
  have e6: "D5 Supplies = Some (Obj_cell [(''food'', Food)])" "D5 Medicine = None"
    by (auto simp: D5 D4 D3 D2 D1 D0_def)
  define D6 where "D6 = child Supplies ''medicine'' Medicine (Obj_cell []) D5"
  note D6 = D6_def [unfolded child_at [of D5, OF e6(1)]]
  obtain pos6 h6 where 6: "\<forall>s. add_object E (Some (pos5 Supplies)) ''medicine'' (s\<lparr>heap := h5\<rparr>) = (Inr (Some (pos6 Medicine)), s\<lparr>heap := h6\<rparr>)"
    "room h6" "layout (cells h6) pos6 D6" "\<forall>p. p \<noteq> Medicine \<longrightarrow> pos6 p = pos5 p"
    using add_object_child [OF 5(2,3) e6, of "''medicine''"] unfolding D6_def by blast
  have e7: "D6 Medicine = Some (Obj_cell [])" "\<forall>k \<in> set medicine_names. D6 (Counter k) = None"
    using names(4,5) by (auto simp: D6 D5 D4 D3 D2 D1 D0_def)
  define D7 where "D7 = fold (\<lambda>k. child Medicine k (Counter k) (Num_cell 0)) medicine_names D6"
  have D7: "D7 = (\<lambda>p. if p = Medicine then Some (Obj_cell ([] @ map (\<lambda>k. (k, Counter k)) medicine_names))
      else if p \<in> Counter ` set medicine_names then Some (Num_cell 0) else D6 p)"
    unfolding D7_def by (rule children_at [of D6, OF e7(1)]) simp
  obtain pos7 h7 where 7: "\<forall>s. add_zeros E (Some (pos6 Medicine)) medicine_names (s\<lparr>heap := h6\<rparr>) = (Inr (), s\<lparr>heap := h7\<rparr>)"
    "room h7" "layout (cells h7) pos7 D7" "\<forall>p. p \<notin> Counter ` set medicine_names \<longrightarrow> pos7 p = pos6 p"
    using add_zeros_children [OF 6(2,3) e7(1) names(3) e7(2)] unfolding D7_def by blast
  have e8: "D7 Root = Some (Obj_cell [(''alerts'', Alerts), (''supplies'', Supplies)])" "D7 Emergency = None"
    by (auto simp: D7 D6 D5 D4 D3 D2 D1 D0_def)
  define D8 where "D8 = child Root ''emergency'' Emergency (Obj_cell []) D7"
  note D8 = D8_def [unfolded child_at [of D7, OF e8(1)]]
  obtain pos8 h8 where 8: "\<forall>s. add_object E (Some (pos7 Root)) ''emergency'' (s\<lparr>heap := h7\<rparr>) = (Inr (Some (pos8 Emergency)), s\<lparr>heap := h8\<rparr>)"
    "room h8" "layout (cells h8) pos8 D8" "\<forall>p. p \<noteq> Emergency \<longrightarrow> pos8 p = pos7 p"
    using add_object_child [OF 7(2,3) e8, of "''emergency''"] unfolding D8_def by blast
  have e9: "D8 Emergency = Some (Obj_cell [])" "D8 Keepalived = None"
    by (auto simp: D8 D7 D6 D5 D4 D3 D2 D1 D0_def)
  define D9 where "D9 = child Emergency ''last_keepalived'' Keepalived (Str_cell ''NULL'') D8"
  note D9 = D9_def [unfolded child_at [of D8, OF e9(1)]]
  let ?h9 = "cj_add_string (cj E) h8 (Some (pos8 Emergency)) ''last_keepalived'' ''NULL''"
  obtain pos9 where 9: "room ?h9" "layout (cells ?h9) pos9 D9" "\<forall>p. p \<noteq> Keepalived \<longrightarrow> pos9 p = pos8 p"
    using add_string_child [OF 8(2,3) e9, of "''last_keepalived''" "''NULL''"] unfolding D9_def by blast
  have e10: "D9 Emergency = Some (Obj_cell [(''last_keepalived'', Keepalived)])" "D9 Event = None"
    by (auto simp: D9 D8 D7 D6 D5 D4 D3 D2 D1 D0_def)
  define D10 where "D10 = child Emergency ''last_event'' Event (Str_cell ''NULL'') D9"
  note D10 = D10_def [unfolded child_at [of D9, OF e10(1)]]
  let ?h10 = "cj_add_string (cj E) ?h9 (Some (pos9 Emergency)) ''last_event'' ''NULL''"
  obtain pos10 where 10: "room ?h10" "layout (cells ?h10) pos10 D10" "\<forall>p. p \<noteq> Event \<longrightarrow> pos10 p = pos9 p"
    using add_string_child [OF 9(1,2) e10, of "''last_event''" "''NULL''"] unfolding D10_def by blast
  have "\<forall>p \<in> set places. D10 p = Some (cell_of (\<lambda>p. p) empty_shelter p)"
    by (auto simp: D10 D9 D8 D7 D6 D5 D4 D3 D2 D1 D0_def places_def counter_names_def leaves_def empty_shelter_def)
  then have "stored (cells ?h10) pos10 empty_shelter" by (rule layout_stored [OF 10(2)])
  moreover have same: "pos2 Root = n" "pos5 Supplies = pos3 Supplies" "pos7 Root = n" "pos9 Emergency = pos8 Emergency" "pos10 Root = n"
    by (simp_all add: 1(4) 2(4) 3(4) 4(4) 5(4) 6(4) 7(4) 8(4) 9(3) 10(3) pos0_def image_iff)
  moreover have "\<forall>s. create_state_summary1 E (s\<lparr>heap := h\<rparr>) = (Inr (), s\<lparr>state_summary := Some n, heap := ?h10\<rparr>)"
  proof
    fix s :: "('h, 'n) lab1"
    let ?s = "s\<lparr>state_summary := Some n\<rparr>"
    have comm: "s\<lparr>heap := h0, state_summary := Some n\<rparr> = ?s\<lparr>heap := h0\<rparr>" by simp
    show "create_state_summary1 E (s\<lparr>heap := h\<rparr>) = (Inr (), s\<lparr>state_summary := Some n, heap := ?h10\<rparr>)"
      unfolding create_state_summary1_def alert_names_def [symmetric] food_names_def [symmetric] medicine_names_def [symmetric]
      using 1(1) [rule_format, of ?s] 2(1) [rule_format, of ?s] 3(1) [rule_format, of ?s] 4(1) [rule_format, of ?s]
        5(1) [rule_format, of ?s] 6(1) [rule_format, of ?s] 7(1) [rule_format, of ?s] 8(1) [rule_format, of ?s]
      by (simp add: create_object1_def 0(1) comm heap_do_def same pos0_def)
  qed
  ultimately show ?thesis using 10(1) by (auto simp: holds_def)
qed

end

section \<open>The reference library\<close>

text \<open>Surroundings with the reference library, for the concrete runs of the witnesses.\<close>

definition demo1 :: "(ref_heap, nat) lab1_env" where
  "demo1 = \<lparr>cj = ref_cjson, stamp_log = (\<lambda>_. ''Mon''), stamp_c = (\<lambda>_. Inr ''Tue''), log_opens1 = True,
     peer1 = (\<lambda>fd. Some (''127.0.0.1:'' @ show_int (4000 + fd))), send_fails1 = (\<lambda>_. False), server_fd = 3, alert_fd1 = 4, emergency_fd1 = 5,
     junk_command = [], junk_username = [], junk_password = []\<rparr>"

interpretation demo1: lab1_doc demo1 rh_cells rh_room show_tree
  unfolding lab1_doc_def demo1_def by simp (rule ref_cj.cjson_api_axioms)

end
