(* ===== verification/Lab1_Table.thy ===== *)
theory Lab1_Table
  imports Lab1_Main Lab1_Refine
begin

text \<open>
  What the functions of \<open>server.c\<close> do to the table of clients and to the document:
  rules for actions that return, frames, and the effect of the functions that
  change the table.
\<close>

section \<open>Rules for actions that return\<close>

definition valid :: "('s \<Rightarrow> bool) \<Rightarrow> ('s, 'a) act \<Rightarrow> ('a \<Rightarrow> 's \<Rightarrow> bool) \<Rightarrow> bool" where
  "valid P m Q \<longleftrightarrow> (\<forall>s x s'. P s \<longrightarrow> m s = (Inr x, s') \<longrightarrow> Q x s')"

lemma validI: "(\<And>s x s'. P s \<Longrightarrow> m s = (Inr x, s') \<Longrightarrow> Q x s') \<Longrightarrow> valid P m Q"
  by (simp add: valid_def)

lemma validD: "valid P m Q \<Longrightarrow> P s \<Longrightarrow> m s = (Inr x, s') \<Longrightarrow> Q x s'"
  by (simp add: valid_def)

lemma valid_bnd:
  assumes "valid P m Q" and "\<And>x. valid (Q x) (f x) R"
  shows "valid P (bnd m f) R"
proof (rule validI)
  fix s x s'
  assume "P s" and "bnd m f s = (Inr x, s')"
  then show "R x s'" using validD [OF assms(1)] validD [OF assms(2)] by (elim bnd_InrE) blast
qed

lemma valid_thn:
  assumes "valid P m (\<lambda>_. Q)" and "valid Q n R"
  shows "valid P (thn m n) R"
  unfolding thn_def using assms by (rule valid_bnd)

lemma valid_halt: "valid P (halt e) Q"
  by (simp add: valid_def)

lemma valid_ret: "(\<And>s. P s \<Longrightarrow> Q x s) \<Longrightarrow> valid P (ret x) Q"
  by (auto simp: valid_def)

lemma valid_of_res: "(\<And>x s. r = Inr x \<Longrightarrow> P s \<Longrightarrow> Q x s) \<Longrightarrow> valid P (of_res r) Q"
  by (auto simp: valid_def)

lemma valid_if: "(b \<Longrightarrow> valid P m Q) \<Longrightarrow> (\<not> b \<Longrightarrow> valid P n Q) \<Longrightarrow> valid P (if b then m else n) Q"
  by simp

lemma valid_weaken: "valid P' m Q' \<Longrightarrow> (\<And>s. P s \<Longrightarrow> P' s) \<Longrightarrow> (\<And>x s. Q' x s \<Longrightarrow> Q x s) \<Longrightarrow> valid P m Q"
  unfolding valid_def by blast

lemma valid_for_act:
  assumes "\<And>i. lo \<le> i \<Longrightarrow> i < hi \<Longrightarrow> valid P (body i) (\<lambda>_. P)"
  shows "valid P (for_act lo hi body) (\<lambda>_. P)"
proof (cases "lo \<le> hi")
  case True
  show ?thesis
  proof (rule validI)
    fix s s' and x :: unit
    assume P: "P s" and run: "for_act lo hi body s = (Inr x, s')"
    have run': "for_act lo hi body s = (Inr (), s')" using run by simp
    show "P s'"
      by (rule for_act_keeps_inv [of "\<lambda>_. P", OF P run' True]) (blast dest: validD [OF assms])
  qed
qed (simp add: valid_def)

text \<open>An action that keeps the part of the state that a predicate looks at.\<close>

lemma valid_keeps:
  assumes "keeps R m" and "\<And>s t. R s t \<Longrightarrow> P s \<Longrightarrow> P t"
  shows "valid P m (\<lambda>_. P)"
proof (rule validI)
  fix s x s'
  assume "P s" and "m s = (Inr x, s')"
  with keepsD [OF assms(1), of s] show "P s'" using assms(2) [of s s'] by simp
qed

section \<open>Frames\<close>

definition same_doc :: "('h, 'n) lab1 \<Rightarrow> ('h, 'n) lab1 \<Rightarrow> bool" where
  "same_doc s t \<longleftrightarrow> heap t = heap s \<and> state_summary t = state_summary s"

definition same_table :: "('h, 'n) lab1 \<Rightarrow> ('h, 'n) lab1 \<Rightarrow> bool" where
  "same_table s t \<longleftrightarrow> clients t = clients s \<and> num_clients t = num_clients s"

lemma same_orders:
  "reflp same_doc" "transp same_doc" "reflp same_table" "transp same_table"
  by (auto simp: reflp_def transp_def same_doc_def same_table_def)

lemma keeps_doc:
  "keeps same_doc (ret x)" "keeps same_doc (halt e)" "keeps same_doc (of_res r)"
  "keeps same_doc (tell t)" "keeps same_doc (send1 c t)" "keeps same_doc (close1 c)" "keeps same_doc (read1 c)"
  "keeps same_doc (read_pipe1 c)" "keeps same_doc (get_slot i)" "keeps same_doc (set_slot i y)" "keeps same_doc (set_num f)"
  "keeps same_doc (log_activity1 E t)" "keeps same_doc (get_client_address1 E c n)" "keeps same_doc (check1 v t)"
  "keeps same_doc (set_cur k)" "keeps same_doc (gets g)"
  by (auto simp: keeps_def same_doc_def get_slot_def set_slot_def log_activity1_run read1_def read_pipe1_def
      get_client_address1_def check1_def set_cur_def split: option.split prod.split)

lemma keeps_table:
  "keeps same_table (ret x)" "keeps same_table (halt e)" "keeps same_table (of_res r)"
  "keeps same_table (tell t)" "keeps same_table (send1 c t)" "keeps same_table (close1 c)" "keeps same_table (read1 c)"
  "keeps same_table (read_pipe1 c)" "keeps same_table (get_slot i)" "keeps same_table (log_activity1 E t)"
  "keeps same_table (get_client_address1 E c n)" "keeps same_table (check1 v t)" "keeps same_table (heap_do f)"
  "keeps same_table (set_cur k)" "keeps same_table (gets g)"
  by (auto simp: keeps_def same_table_def get_slot_def log_activity1_run read1_def read_pipe1_def heap_do_def
      get_client_address1_def check1_def set_cur_def split: option.split prod.split)

lemma keeps_case:
  "(\<And>y. r = Inr y \<Longrightarrow> keeps R (f y)) \<Longrightarrow> (\<And>e. r = Inl e \<Longrightarrow> keeps R (g e)) \<Longrightarrow> keeps R (case r of Inl e \<Rightarrow> g e | Inr y \<Rightarrow> f y)"
  "(o1 = None \<Longrightarrow> keeps R m) \<Longrightarrow> (\<And>y. o1 = Some y \<Longrightarrow> keeps R (f1 y)) \<Longrightarrow> keeps R (case o1 of None \<Rightarrow> m | Some y \<Rightarrow> f1 y)"
  "(\<And>bs. r1 = Bytes bs \<Longrightarrow> keeps R (f2 bs)) \<Longrightarrow> keeps R m1 \<Longrightarrow> keeps R m2 \<Longrightarrow>
     keeps R (case r1 of Bytes bs \<Rightarrow> f2 bs | At_end \<Rightarrow> m1 | Error \<Rightarrow> m2)"
  "(\<And>a b. p = (a, b) \<Longrightarrow> keeps R (f3 a b)) \<Longrightarrow> keeps R (case p of (a, b) \<Rightarrow> f3 a b)"
  by (auto split: sum.split option.split read_result.split prod.split)

lemmas doc_rules = keeps_doc keeps_bnd [OF same_orders(2)] keeps_thn [OF same_orders(2)] keeps_if keeps_case
  keeps_for_act [OF same_orders(1,2)]
lemmas table_rules = keeps_table keeps_bnd [OF same_orders(4)] keeps_thn [OF same_orders(4)] keeps_if keeps_case
  keeps_for_act [OF same_orders(3,4)]

lemma notify_all_doc: "keeps same_doc (notify_all t)"
  unfolding notify_all_def by (intro doc_rules)

lemma notify_all_table: "keeps same_table (notify_all t)"
  unfolding notify_all_def by (intro table_rules)

lemma auth_client1_doc: "keeps same_doc (auth_client1 E c)"
  unfolding auth_client1_def Let_def by (intro doc_rules)

lemma auth_client1_table: "keeps same_table (auth_client1 E c)"
  unfolding auth_client1_def Let_def by (intro table_rules)

lemma new_client_address1_doc: "keeps same_doc (new_client_address1 E b c n)"
  unfolding new_client_address1_def by (intro doc_rules)

lemma accept_new_connection1_doc: "keeps same_doc (accept_new_connection1 E a)"
  unfolding accept_new_connection1_def by (intro doc_rules auth_client1_doc new_client_address1_doc)

lemma disconnect_client1_doc: "keeps same_doc (disconnect_client1 E c i)"
  unfolding disconnect_client1_def by (intro doc_rules)

lemma disconnect_all_clients1_doc: "keeps same_doc (disconnect_all_clients1 E)"
  unfolding disconnect_all_clients1_def Let_def by (intro doc_rules)

lemma modify_table:
  "keeps same_table (modify_supplies1 E m)" "keeps same_table (modify_alerts1 E m)"
  "keeps same_table (modify_emergencies1 E m)" "keeps same_table (send_state_summary1 E c)"
  by (auto simp: keeps_def same_table_def modify_supplies1_def modify_alerts1_def modify_emergencies1_def send_state_summary1_def
      item1_def heap_do_def split: option.split sum.split)

section \<open>The table as a list\<close>

text \<open>
  \<open>table_is cs s\<close>: the used slots of the table are the list \<open>cs\<close>, the others are free.
  \<open>clients_ok\<close>: different positive descriptors, other than the three of \<open>main\<close>.
\<close>

definition table_is :: "client_info list \<Rightarrow> ('h, 'n) lab1 \<Rightarrow> bool" where
  "table_is cs s \<longleftrightarrow> clients s = cs @ replicate (MAX_CLIENTS - length cs) no_client \<and>
     num_clients s = int (length cs) \<and> length cs \<le> MAX_CLIENTS"

definition clients_ok :: "('h, 'n) lab1_env \<Rightarrow> client_info list \<Rightarrow> bool" where
  "clients_ok E cs \<longleftrightarrow> distinct (map socket cs) \<and>
     (\<forall>c \<in> set cs. 0 < socket c \<and> socket c \<notin> {server_fd E, alert_fd1 E, emergency_fd1 E})"

definition without :: "nat \<Rightarrow> 'a list \<Rightarrow> 'a list" where
  "without i xs = take i xs @ drop (Suc i) xs"

lemma set_without: "set (without i xs) \<subseteq> set xs"
  by (auto simp: without_def dest: in_set_takeD in_set_dropD)

lemma length_without [simp]: "i < length xs \<Longrightarrow> length (without i xs) = length xs - 1"
  by (simp add: without_def)

lemma distinct_without: "distinct xs \<Longrightarrow> distinct (without i xs)"
proof (cases "i < length xs")
  case True
  assume "distinct xs"
  then have "distinct (take i xs @ xs ! i # drop (Suc i) xs)" using True by (simp add: id_take_nth_drop [symmetric])
  then show ?thesis by (simp add: without_def)
qed (simp add: without_def)

lemma clients_ok_without: "clients_ok E cs \<Longrightarrow> clients_ok E (without i cs)"
  using set_without [of i cs] distinct_without [of "map socket cs" i]
  by (auto simp: clients_ok_def without_def take_map drop_map)

lemma table_is_sockets: "table_is cs s \<Longrightarrow> sockets s = map socket cs"
  by (simp add: table_is_def sockets_def)

lemma table_is_length: "table_is cs s \<Longrightarrow> length (clients s) = MAX_CLIENTS"
  by (simp add: table_is_def)

lemma table_is_nth: "table_is cs s \<Longrightarrow> i < length cs \<Longrightarrow> clients s ! i = cs ! i"
  by (simp add: table_is_def nth_append)

lemma table_is_free: "table_is cs s \<Longrightarrow> length cs \<le> i \<Longrightarrow> i < MAX_CLIENTS \<Longrightarrow> clients s ! i = no_client"
  by (simp add: table_is_def nth_append)

lemma same_table_is: "same_table s t \<Longrightarrow> table_is cs s \<Longrightarrow> table_is cs t"
  by (simp add: same_table_def table_is_def)

section \<open>Removing a client\<close>

lemma shift_run:
  assumes "clients s = cs @ rest" and "i < length cs"
  shows "for_act (int i) (int (length cs) - 1) (\<lambda>j. bnd (get_slot (j + 1)) (set_slot j)) s =
    (Inr (), s\<lparr>clients := without i cs @ last cs # rest\<rparr>)"
proof -
  define cur_list where "cur_list k = (take i cs @ take (k - i) (drop (Suc i) cs)) @ drop k cs @ rest" for k
  define P where "P j t \<longleftrightarrow> t = s\<lparr>clients := cur_list (nat j)\<rparr>" for j t
  have "\<exists>s'. for_act (int i) (int (length cs) - 1) (\<lambda>j. bnd (get_slot (j + 1)) (set_slot j)) s = (Inr (), s') \<and>
      P (int (length cs) - 1) s'"
  proof (rule for_act_inv)
    show "int i \<le> int (length cs) - 1" using assms(2) by simp
    show "P (int i) s" using assms by (simp add: P_def cur_list_def)
  next
    fix j t
    assume j: "int i \<le> j" "j < int (length cs) - 1" and t: "P j t"
    define k where "k = nat j"
    have k: "i \<le> k" "Suc k < length cs" "j = int k" using j by (auto simp: k_def)
    define A where "A = take i cs @ take (k - i) (drop (Suc i) cs)"
    define B where "B = drop (Suc (Suc k)) cs @ rest"
    have len: "length A = k" using k assms(2) by (simp add: A_def)
    have d: "drop k cs = cs ! k # cs ! Suc k # drop (Suc (Suc k)) cs" "drop (Suc k) cs = cs ! Suc k # drop (Suc (Suc k)) cs"
      using k by (simp_all add: Cons_nth_drop_Suc)
    have "take (Suc k - i) (drop (Suc i) cs) = take (k - i) (drop (Suc i) cs) @ [cs ! Suc k]"
      using k by (simp add: Suc_diff_le take_Suc_conv_app_nth)
    then have lists: "cur_list k = A @ cs ! k # cs ! Suc k # B" "cur_list (Suc k) = A @ cs ! Suc k # cs ! Suc k # B"
      by (simp_all add: cur_list_def A_def B_def d)
    have step: "(cur_list k)[k := cs ! Suc k] = cur_list (Suc k)"
      using list_update_length [of A "cs ! k" "cs ! Suc k # B" "cs ! Suc k"] unfolding lists len .
    have get: "cur_list k ! Suc k = cs ! Suc k" "Suc k < length (cur_list k)"
      unfolding lists using len by (simp_all add: nth_append)
    have "bnd (get_slot (j + 1)) (set_slot j) t = (Inr (), s\<lparr>clients := cur_list (Suc k)\<rparr>)"
      using t k(2,3) get step by (simp add: P_def get_slot_def set_slot_def nat_add_distrib)
    then show "\<exists>s'. bnd (get_slot (j + 1)) (set_slot j) t = (Inr (), s') \<and> P (j + 1) s'"
      using k(3) by (simp add: P_def nat_add_distrib)
  qed
  moreover have "cur_list (length cs - 1) = without i cs @ last cs # rest"
  proof -
    have "drop (length cs - 1) cs = [last cs]" using assms(2)
      by (metis One_nat_def Suc_pred append_butlast_last_id append_eq_conv_conj length_butlast length_greater_0_conv less_nat_zero_code neq0_conv)
    then show ?thesis using assms(2) by (simp add: cur_list_def without_def)
  qed
  ultimately show ?thesis using assms(2) by (auto simp: P_def nat_diff_distrib)
qed

lemma disconnect_client1_run:
  assumes "table_is cs s" and "i < length cs" and "log_opens1 E" and "peer1 E c = Some addr"
  shows "disconnect_client1 E c (int i) s = (Inr (), s\<lparr>
      terminal := terminal s @ [''[SERVER] Client disconnected at '' @ take 15 addr],
      ticks1 := Suc (ticks1 s),
      log_text := log_text s @ stamp_log E (ticks1 s) @ '', Connection close from client '' @ take 15 addr @ [LF],
      closed1 := closed1 s @ [c],
      clients := without i cs @ replicate (MAX_CLIENTS - (length cs - 1)) no_client,
      num_clients := int (length cs) - 1\<rparr>)"
proof -
  let ?free = "replicate (MAX_CLIENTS - length cs) no_client"
  have n: "0 < length cs" "length cs \<le> MAX_CLIENTS" using assms(1,2) by (auto simp: table_is_def)
  have free: "no_client # ?free = replicate (MAX_CLIENTS - (length cs - 1)) no_client"
  proof -
    have "MAX_CLIENTS - (length cs - 1) = Suc (MAX_CLIENTS - length cs)" using n by arith
    then show ?thesis by simp
  qed
  have s: "clients s = cs @ ?free" "num_clients s = int (length cs)" using assms(1) by (simp_all add: table_is_def)
  have upd: "(without i cs @ last cs # ?free)[length cs - 1 := no_client] = without i cs @ no_client # ?free"
    using assms(2) list_update_length [of "without i cs" "last cs" ?free no_client] by simp
  have idx: "nat (int (length cs) - 1) = length cs - 1" "int (length cs) - 1 < int (length cs + k)" "0 \<le> int (length cs) - 1" for k
    using n by simp_all
  note run = shift_run [of "s\<lparr>terminal := T, ticks1 := K, log_text := L, closed1 := C\<rparr>" for T K L C, OF _ assms(2)]
  show ?thesis
    using assms(3,4) s n upd free
    by (simp add: disconnect_client1_def get_client_address1_run log_activity1_run INET_ADDRSTRLEN_def snprintf_def
        run set_slot_def idx assms(2))
qed

text \<open>A loop over the used slots.\<close>

lemma for_table:
  assumes "P 0 s" and "\<And>i t. i < length cs \<Longrightarrow> P i t \<Longrightarrow> \<exists>t'. body (int i) t = (Inr (), t') \<and> P (Suc i) t'"
  shows "\<exists>s'. for_act 0 (int (length cs)) body s = (Inr (), s') \<and> P (length cs) s'"
proof -
  have "\<exists>s'. for_act 0 (int (length cs)) body s = (Inr (), s') \<and> P (nat (int (length cs))) s'"
  proof (rule for_act_inv [where P = "\<lambda>j. P (nat j)"])
    fix j t
    assume "0 \<le> j" "j < int (length cs)" "P (nat j) t"
    then show "\<exists>s'. body j t = (Inr (), s') \<and> P (nat (j + 1)) s'"
      using assms(2) [of "nat j" t] by (simp add: nat_add_distrib)
  qed (use assms(1) in simp_all)
  then show ?thesis by simp
qed

lemma get_slot_table:
  "table_is cs s \<Longrightarrow> i < length cs \<Longrightarrow> get_slot (int i) s = (Inr (cs ! i), s)"
  by (auto simp: get_slot_def table_is_def nth_append)

lemma notify_all_run:
  assumes "table_is cs s" and "\<forall>c \<in> set cs. 0 < socket c"
  shows "notify_all t s = (Inr (), s\<lparr>sent1 := sent1 s @ map (\<lambda>c. (socket c, t)) cs\<rparr>)"
proof -
  define P where "P i u \<longleftrightarrow> u = s\<lparr>sent1 := sent1 s @ map (\<lambda>c. (socket c, t)) (take i cs)\<rparr>" for i u
  have "\<exists>s'. for_act 0 (int (length cs)) (\<lambda>i. bnd (get_slot i) (\<lambda>c. if socket c > 0 then send1 (socket c) t else ret ())) s
      = (Inr (), s') \<and> P (length cs) s'"
  proof (rule for_table)
    show "P 0 s" by (simp add: P_def)
    fix i u
    assume i: "i < length cs" and u: "P i u"
    then have "table_is cs u" using assms(1) by (simp add: P_def table_is_def)
    from get_slot_table [OF this i] u assms(2) i
    show "\<exists>u'. bnd (get_slot (int i)) (\<lambda>c. if socket c > 0 then send1 (socket c) t else ret ()) u = (Inr (), u') \<and> P (Suc i) u'"
      by (simp add: P_def take_Suc_conv_app_nth)
  qed
  with assms(1) show ?thesis by (auto simp: notify_all_def P_def table_is_def)
qed

text \<open>Disconnecting everybody.\<close>

lemma disconnect_all_clients1_run:
  assumes "table_is cs s" and "\<forall>c \<in> set cs. 0 < socket c" and "log_opens1 E" and "\<forall>c \<in> set cs. peer1 E (socket c) \<noteq> None"
  shows "\<exists>s'. disconnect_all_clients1 E s = (Inr (), s') \<and> table_is [] s' \<and> closed1 s' = closed1 s @ map socket cs \<and>
    sent1 s' = sent1 s \<and> streams s' = streams s \<and> same_doc s s'"
proof -
  let ?free = "replicate (MAX_CLIENTS - length cs) no_client"
  let ?body = "\<lambda>i. bnd (get_slot i) (\<lambda>c. let client_socket = socket c in
            if client_socket > 0 then
              bnd (get_client_address1 E client_socket INET_ADDRSTRLEN) (\<lambda>client_address.
              thn (tell (''[SERVER] Client disconnected at '' @ client_address))
             (thn (log_activity1 E (''Connection close from client '' @ client_address))
             (thn (close1 client_socket) (set_slot i no_client))))
            else ret ())"
  define P where "P i u \<longleftrightarrow> clients u = replicate i no_client @ drop i cs @ ?free \<and> closed1 u = closed1 s @ map socket (take i cs) \<and>
    sent1 u = sent1 s \<and> streams u = streams s \<and> same_doc s u" for i u
  have "\<exists>s'. for_act 0 (int (length cs)) ?body s = (Inr (), s') \<and> P (length cs) s'"
  proof (rule for_table)
    show "P 0 s" using assms(1) by (simp add: P_def table_is_def same_doc_def)
    fix i u
    assume i: "i < length cs" and u: "P i u"
    have d: "drop i cs = cs ! i # drop (Suc i) cs" using i by (simp add: Cons_nth_drop_Suc)
    have slot: "get_slot (int i) u = (Inr (cs ! i), u)"
      using u i by (simp add: P_def get_slot_def nth_append d)
    have mem: "cs ! i \<in> set cs" using i by simp
    with assms(4) obtain a where a: "peer1 E (socket (cs ! i)) = Some a" by auto
    have upd: "(replicate i no_client @ cs ! i # drop (Suc i) cs @ ?free)[i := no_client] =
        replicate (Suc i) no_client @ drop (Suc i) cs @ ?free"
      using list_update_length [of "replicate i no_client" "cs ! i" "drop (Suc i) cs @ ?free" no_client]
      by (simp add: replicate_app_Cons_same)
    show "\<exists>u'. ?body (int i) u = (Inr (), u') \<and> P (Suc i) u'"
      using u i a mem assms(2,3) upd
      by (simp add: slot Let_def get_client_address1_run log_activity1_run set_slot_def P_def d same_doc_def take_Suc_conv_app_nth)
  qed
  moreover have "replicate (length cs) no_client @ ?free = replicate MAX_CLIENTS no_client"
    using assms(1) by (simp add: table_is_def flip: replicate_add)
  ultimately show ?thesis
    using assms(1) by (auto simp: disconnect_all_clients1_def P_def table_is_def same_doc_def)
qed

end
