(* ===== verification/Lab1_Watch.thy ===== *)
theory Lab1_Watch
  imports Lab1_Table
begin

text \<open>
  The first loop of a round of \<open>main\<close>, whose bound is a descriptor and not the number
  of clients.  With different positive descriptors the bound always reaches all used
  slots; it leaves the table as soon as one descriptor is above 100.
\<close>

definition three_fds :: "('h, 'n) lab1_env \<Rightarrow> bool" where
  "three_fds E \<longleftrightarrow> 0 < server_fd E \<and> 0 < alert_fd1 E \<and> 0 < emergency_fd1 E \<and>
     server_fd E < 1024 \<and> alert_fd1 E < 1024 \<and> emergency_fd1 E < 1024 \<and>
     distinct [server_fd E, alert_fd1 E, emergency_fd1 E]"

definition fds_upto :: "('h, 'n) lab1_env \<Rightarrow> client_info list \<Rightarrow> nat \<Rightarrow> int set" where
  "fds_upto E cs i = {server_fd E, alert_fd1 E, emergency_fd1 E} \<union> socket ` set (take i cs)"

lemma fds_upto_finite [simp]: "finite (fds_upto E cs i)" "fds_upto E cs i \<noteq> {}"
  by (simp_all add: fds_upto_def)

lemma card_le_Max:
  fixes A :: "int set"
  assumes "finite A" "A \<noteq> {}" "\<forall>x \<in> A. 0 < x"
  shows "int (card A) \<le> Max A"
proof -
  have "A \<subseteq> {1..Max A}" using assms by auto
  then have "card A \<le> card {1..Max A}" by (intro card_mono) simp_all
  moreover have "0 < Max A" using assms by (simp add: Max_in)
  ultimately show ?thesis by simp
qed

text \<open>The bound is above the number of the slots visited so far.\<close>

lemma bound_above:
  assumes "clients_ok E cs" and "three_fds E" and "i \<le> length cs"
  shows "int i + 3 \<le> Max (fds_upto E cs i)"
proof -
  let ?T = "{server_fd E, alert_fd1 E, emergency_fd1 E}"
  have ok: "distinct (map socket cs)" "\<forall>c \<in> set cs. 0 < socket c \<and> socket c \<notin> ?T"
    using assms(1) by (simp_all add: clients_ok_def)
  have "distinct (map socket (take i cs))" using ok(1) by (simp flip: take_map)
  then have "card (socket ` set (take i cs)) = i"
    using assms(3) distinct_card [of "map socket (take i cs)"] by simp
  moreover have "card ?T = 3" using assms(2) by (simp add: three_fds_def)
  moreover have "?T \<inter> socket ` set (take i cs) = {}" using ok(2) by (fastforce dest: in_set_takeD)
  ultimately have "card (fds_upto E cs i) = 3 + i"
    unfolding fds_upto_def by (subst card_Un_disjoint) simp_all
  moreover have "\<forall>x \<in> fds_upto E cs i. 0 < x"
    using ok(2) assms(2) by (auto simp: fds_upto_def three_fds_def dest: in_set_takeD)
  ultimately show ?thesis using card_le_Max [of "fds_upto E cs i"] by simp
qed

lemma fds_upto_Suc: "i < length cs \<Longrightarrow> fds_upto E cs (Suc i) = insert (socket (cs ! i)) (fds_upto E cs i)"
  by (auto simp: fds_upto_def take_Suc_conv_app_nth)

lemma larger: "(if a > b then a else b) = max a (b :: int)"
  by (simp add: max_def)

lemma Max_fds_upto_Suc:
  "i < length cs \<Longrightarrow> Max (fds_upto E cs (Suc i)) = max (socket (cs ! i)) (Max (fds_upto E cs i))"
  by (simp add: fds_upto_Suc)

section \<open>The used slots\<close>

text \<open>One step of the loop in a used slot.\<close>

lemma scan_step:
  assumes "table_is cs s" "clients_ok E cs" "three_fds E" "i < length cs" "set fds = fds_upto E cs i"
    and "socket (cs ! i) < 1024"
  shows "\<exists>fds'. scan_clients (int i) (Max (fds_upto E cs i)) fds s =
      scan_clients (int (Suc i)) (Max (fds_upto E cs (Suc i))) fds' (s\<lparr>cur := socket (cs ! i)\<rparr>) \<and>
    set fds' = fds_upto E cs (Suc i)"
proof -
  have pos: "0 < socket (cs ! i)" using assms(2,4) by (simp add: clients_ok_def)
  have b: "int i < Max (fds_upto E cs i)" using bound_above [OF assms(2,3), of i] assms(4) by simp
  have len: "int i < int (length (clients s))" using assms(1,4) by (simp add: table_is_def)
  have nth: "clients s ! nat (int i) = cs ! i" using table_is_nth [OF assms(1,4)] by simp
  let ?m = "if socket (cs ! i) > Max (fds_upto E cs i) then socket (cs ! i) else Max (fds_upto E cs i)"
  have m: "?m = Max (fds_upto E cs (Suc i))" unfolding Max_fds_upto_Suc [OF assms(4)] by (rule larger)
  have "scan_clients (int i) (Max (fds_upto E cs i)) fds s =
      scan_clients (int i + 1) ?m (List.insert (socket (cs ! i)) fds) (s\<lparr>cur := socket (cs ! i)\<rparr>)"
    using b len nth pos assms(6) by (subst scan_clients.simps) (simp add: fd_set1_def Let_def)
  then show ?thesis
    unfolding m using assms(4,5)
    by (intro exI [of _ "List.insert (socket (cs ! i)) fds"]) (simp add: fds_upto_Suc add.commute)
qed

lemma scan_used:
  assumes "table_is cs s" "clients_ok E cs" "three_fds E" "set fds = fds_upto E cs 0"
    and "i \<le> length cs" "\<forall>c \<in> set (take i cs). socket c < 1024"
  shows "\<exists>fds' k. scan_clients 0 (Max (fds_upto E cs 0)) fds s =
      scan_clients (int i) (Max (fds_upto E cs i)) fds' (s\<lparr>cur := k\<rparr>) \<and> set fds' = fds_upto E cs i"
  using assms(5,6)
proof (induction i)
  case 0
  then show ?case using assms(4) by (intro exI [of _ fds] exI [of _ "cur s"]) simp
next
  case (Suc i)
  then have i: "i < length cs" "\<forall>c \<in> set (take i cs). socket c < 1024" "socket (cs ! i) < 1024"
    by (auto simp: take_Suc_conv_app_nth)
  from Suc.IH i obtain fds1 k where 1: "scan_clients 0 (Max (fds_upto E cs 0)) fds s =
      scan_clients (int i) (Max (fds_upto E cs i)) fds1 (s\<lparr>cur := k\<rparr>)" "set fds1 = fds_upto E cs i"
    by auto
  have t: "table_is cs (s\<lparr>cur := k\<rparr>)" using assms(1) by (simp add: table_is_def)
  from scan_step [OF t assms(2,3) i(1) 1(2) i(3)] 1 show ?case by auto
qed

section \<open>The free slots\<close>

lemma scan_free:
  assumes "table_is cs s" "length cs \<le> i" "i \<le> MAX_CLIENTS" "int i \<le> m" "0 \<le> m"
  shows "if m \<le> int MAX_CLIENTS then \<exists>k. scan_clients (int i) m fds s = (Inr (m, fds), s\<lparr>cur := k\<rparr>)
    else fst (scan_clients (int i) m fds s) = Inl Undefined"
  using assms
proof (induction "MAX_CLIENTS - i" arbitrary: i s)
  case 0
  then have i: "i = MAX_CLIENTS" by simp
  then have "int (length (clients s)) \<le> int i" using table_is_length [OF 0(2)] by simp
  with i 0 show ?case by (subst (1 2) scan_clients.simps) (auto intro: exI [of _ "cur s"])
next
  case (Suc n)
  then have i: "i < MAX_CLIENTS" by simp
  show ?case
  proof (cases "int i < m")
    case False
    with Suc.prems have "m = int i" by simp
    with i show ?thesis by (subst scan_clients.simps) (auto intro: exI [of _ "cur s"])
  next
    case True
    have slot: "clients s ! i = no_client" using table_is_free [OF Suc.prems(1,2) i] .
    have "scan_clients (int i) m fds s = scan_clients (int (Suc i)) m fds (s\<lparr>cur := 0\<rparr>)"
      using True i table_is_length [OF Suc.prems(1)] slot Suc.prems(5)
      by (subst scan_clients.simps) (simp add: no_client_def Let_def add.commute)
    moreover have "table_is cs (s\<lparr>cur := 0\<rparr>)" using Suc.prems(1) by (simp add: table_is_def)
    ultimately show ?thesis
      using Suc.hyps(1) [of "Suc i" "s\<lparr>cur := 0\<rparr>"] Suc.hyps(2) Suc.prems(2-5) True i by auto
  qed
qed

section \<open>Watching\<close>

lemma watch1_start:
  assumes "three_fds E"
  shows "\<exists>fds. watch1 E = scan_clients 0 (Max (fds_upto E cs 0)) fds \<and> set fds = fds_upto E cs 0"
proof -
  have "(if (if server_fd E > alert_fd1 E then server_fd E else alert_fd1 E) > emergency_fd1 E
       then (if server_fd E > alert_fd1 E then server_fd E else alert_fd1 E) else emergency_fd1 E) =
     Max (fds_upto E cs 0)"
    by (auto simp: fds_upto_def max_def)
  moreover have "rbind (fd_set1 (server_fd E) []) (\<lambda>fds. rbind (fd_set1 (alert_fd1 E) fds) (fd_set1 (emergency_fd1 E))) =
      Inr (List.insert (emergency_fd1 E) (List.insert (alert_fd1 E) [server_fd E]))"
    using assms by (simp add: fd_set1_def three_fds_def)
  ultimately show ?thesis
    by (intro exI [of _ "List.insert (emergency_fd1 E) (List.insert (alert_fd1 E) [server_fd E])"])
      (auto simp: watch1_def fun_eq_iff Let_def fds_upto_def)
qed

lemma fds_upto_all: "table_is cs s \<Longrightarrow> fds_upto E cs (length cs) = open_fds E s"
  by (simp add: fds_upto_def open_fds_def table_is_sockets)

lemma watch1_run:
  assumes "table_is cs s" "clients_ok E cs" "three_fds E"
  shows "if Max (open_fds E s) \<le> int MAX_CLIENTS
    then \<exists>fds k. watch1 E s = (Inr (Max (open_fds E s), fds), s\<lparr>cur := k\<rparr>) \<and> set fds = open_fds E s
    else fst (watch1 E s) = Inl Undefined"
proof -
  obtain fds where start: "watch1 E s = scan_clients 0 (Max (fds_upto E cs 0)) fds s" "set fds = fds_upto E cs 0"
    using watch1_start [OF assms(3), of cs] by auto
  show ?thesis
  proof (cases "\<forall>c \<in> set cs. socket c < 1024")
    case True
    then obtain fds' k where 1: "watch1 E s = scan_clients (int (length cs)) (Max (open_fds E s)) fds' (s\<lparr>cur := k\<rparr>)"
      "set fds' = open_fds E s"
      using scan_used [OF assms start(2), of "length cs"] start(1) fds_upto_all [OF assms(1)] by auto
    have t: "table_is cs (s\<lparr>cur := k\<rparr>)" using assms(1) by (simp add: table_is_def)
    have b: "int (length cs) + 3 \<le> Max (open_fds E s)"
      using bound_above [OF assms(2,3), of "length cs"] fds_upto_all [OF assms(1)] by simp
    from scan_free [OF t, of "length cs" "Max (open_fds E s)" fds'] b assms(1) 1 show ?thesis
      by (auto simp: table_is_def split: if_splits)
  next
    case False
    define i where "i = (LEAST i. i < length cs \<and> 1024 \<le> socket (cs ! i))"
    have "\<exists>i. i < length cs \<and> 1024 \<le> socket (cs ! i)" using False by (auto simp: in_set_conv_nth not_less)
    from LeastI_ex [OF this] have i: "i < length cs" "1024 \<le> socket (cs ! i)" by (simp_all add: i_def)
    have "\<forall>c \<in> set (take i cs). socket c < 1024"
      using not_less_Least [of _ "\<lambda>i. i < length cs \<and> 1024 \<le> socket (cs ! i)"] i(1)
      by (auto simp: in_set_conv_nth i_def [symmetric] not_less not_le)
    from scan_used [OF assms start(2), of i] this i obtain fds' k where
      1: "watch1 E s = scan_clients (int i) (Max (fds_upto E cs i)) fds' (s\<lparr>cur := k\<rparr>)"
      using start(1) by auto
    have b: "int i < Max (fds_upto E cs i)" using bound_above [OF assms(2,3), of i] i(1) by simp
    have "fst (watch1 E s) = Inl Undefined"
      unfolding 1 using b i assms(1) table_is_nth [OF assms(1) i(1)]
      by (subst scan_clients.simps) (simp add: fd_set1_def table_is_def Let_def)
    moreover have "socket (cs ! i) \<le> Max (open_fds E s)"
      using i(1) assms(1) by (intro Max_ge) (auto simp: open_fds_def table_is_sockets)
    ultimately show ?thesis using i(2) by (simp add: MAX_CLIENTS_def)
  qed
qed

end
