(* ===== verification/Lab1_Round.thy ===== *)
theory Lab1_Round
  imports Lab1_Watch
begin

text \<open>
  What every round of the server keeps: the table holds different descriptors in
  use, the document stands for a shelter, and, for two predicates chosen freely, the
  shelter and the roles in the table satisfy them.
\<close>

section \<open>Parts of the table invariant\<close>

definition table_inv :: "('h, 'n) lab1_env \<Rightarrow> (int \<Rightarrow> bool) \<Rightarrow> ('h, 'n) lab1 \<Rightarrow> bool" where
  "table_inv E R s \<longleftrightarrow> (\<exists>cs. table_is cs s \<and> clients_ok E cs \<and> (\<forall>c \<in> set cs. R (role c)))"

lemma same_table_inv: "same_table s t \<Longrightarrow> table_inv E R s \<Longrightarrow> table_inv E R t"
  unfolding table_inv_def using same_table_is by blast

lemma valid_table: "keeps same_table m \<Longrightarrow> valid (table_inv E R) m (\<lambda>_. table_inv E R)"
  by (erule valid_keeps) (rule same_table_inv)

lemma slot_used:
  assumes "table_is cs s" and "get_slot i s = (Inr c, s')" and "0 < socket c"
  shows "0 \<le> i \<and> nat i < length cs \<and> c = cs ! nat i \<and> s' = s"
proof -
  from assms(2) have i: "0 \<le> i" "i < int (length (clients s))" "c = clients s ! nat i" "s' = s"
    by (auto simp: get_slot_def split: if_splits)
  have "nat i < length cs"
  proof (rule ccontr)
    assume "\<not> nat i < length cs"
    with i assms(1) have "c = no_client"
      using table_is_free [OF assms(1), of "nat i"] table_is_length [OF assms(1)] by simp
    with assms(3) show False by (simp add: no_client_def)
  qed
  with i table_is_nth [OF assms(1)] show ?thesis by simp
qed

lemma disconnect_client1_valid:
  assumes "i < length cs"
  shows "valid (table_is cs) (disconnect_client1 E c (int i)) (\<lambda>_. table_is (without i cs))"
proof (rule validI)
  fix s x s'
  assume t: "table_is cs s" and run: "disconnect_client1 E c (int i) s = (Inr x, s')"
  show "table_is (without i cs) s'"
  proof (cases "peer1 E c")
    case None
    with run show ?thesis by (simp add: disconnect_client1_def get_client_address1_run)
  next
    case (Some a)
    show ?thesis
    proof (cases "log_opens1 E")
      case True
      from run disconnect_client1_run [OF t assms True Some] t assms show ?thesis
        by (auto simp: table_is_def)
    next
      case False
      with run Some show ?thesis by (simp add: disconnect_client1_def get_client_address1_run log_activity1_run)
    qed
  qed
qed

lemma disconnect_all_clients1_valid:
  assumes "\<forall>c \<in> set cs. 0 < socket c"
  shows "valid (\<lambda>s. table_is cs s \<and> closed1 s = closed) (disconnect_all_clients1 E)
    (\<lambda>_ s. table_is [] s \<and> closed1 s = closed @ map socket cs)"
proof (rule validI)
  fix s x s'
  assume s: "table_is cs s \<and> closed1 s = closed" and run: "disconnect_all_clients1 E s = (Inr x, s')"
  from s have t: "table_is cs s" ..
  let ?free = "replicate (MAX_CLIENTS - length cs) no_client"
  define P where "P j u \<longleftrightarrow> clients u = replicate (nat j) no_client @ drop (nat j) cs @ ?free \<and> closed1 u = closed @ map socket (take (nat j) cs)"
    for j and u :: "('a, 'b) lab1"
  from run t obtain u where loop: "for_act 0 (int (length cs)) (\<lambda>i.
            bnd (get_slot i) (\<lambda>c. let client_socket = socket c in
            if client_socket > 0 then
              bnd (get_client_address1 E client_socket INET_ADDRSTRLEN) (\<lambda>client_address.
              thn (tell (''[SERVER] Client disconnected at '' @ client_address))
             (thn (log_activity1 E (''Connection close from client '' @ client_address))
             (thn (close1 client_socket) (set_slot i no_client))))
            else ret ())) s = (Inr (), u)" and s': "s' = u\<lparr>num_clients := 0\<rparr>"
    unfolding disconnect_all_clients1_def by (elim thn_InrE bnd_InrE) (auto simp: table_is_def)
  have "P (int (length cs)) u"
  proof (rule for_act_keeps_inv [of P, OF _ loop])
    show "P 0 s" using s by (simp add: P_def table_is_def)
    fix j v w
    assume j: "0 \<le> j" "j < int (length cs)" and v: "P j v"
      and body: "bnd (get_slot j) (\<lambda>c. let client_socket = socket c in
            if client_socket > 0 then
              bnd (get_client_address1 E client_socket INET_ADDRSTRLEN) (\<lambda>client_address.
              thn (tell (''[SERVER] Client disconnected at '' @ client_address))
             (thn (log_activity1 E (''Connection close from client '' @ client_address))
             (thn (close1 client_socket) (set_slot j no_client))))
            else ret ()) v = (Inr (), w)"
    define i where "i = nat j"
    have i: "i < length cs" "j = int i" using j by (simp_all add: i_def)
    have d: "drop i cs = cs ! i # drop (Suc i) cs" using i by (simp add: Cons_nth_drop_Suc)
    have slot: "get_slot (int i) v = (Inr (cs ! i), v)"
      using v i by (simp add: P_def get_slot_def nth_append d)
    have mem: "cs ! i \<in> set cs" using i by simp
    have upd: "(replicate i no_client @ cs ! i # drop (Suc i) cs @ ?free)[i := no_client] =
        replicate (Suc i) no_client @ drop (Suc i) cs @ ?free"
      using list_update_length [of "replicate i no_client" "cs ! i" "drop (Suc i) cs @ ?free" no_client]
      by (simp add: replicate_app_Cons_same)
    show "P (j + 1) w"
      using body v i mem assms upd
      by (auto simp: slot Let_def get_client_address1_run log_activity1_run set_slot_def P_def d nat_add_distrib
          take_Suc_conv_app_nth split: option.splits if_splits)
  qed simp
  with t s' show "table_is [] s' \<and> closed1 s' = closed @ map socket cs" by (simp add: P_def table_is_def flip: replicate_add)
qed

lemma auth_client1_table_is: "valid (table_is cs) (auth_client1 E c) (\<lambda>_. table_is cs)"
  by (rule valid_keeps [OF auth_client1_table]) (rule same_table_is)

text \<open>
  A new client is appended, if it is authenticated.  \<open>login_gives\<close> says which roles the
  bytes that it sends can get.
\<close>

definition login_gives :: "('h, 'n) lab1_env \<Rightarrow> (int \<Rightarrow> bool) \<Rightarrow> int \<Rightarrow> recv_event list \<Rightarrow> bool" where
  "login_gives E R fd evs \<longleftrightarrow> (\<forall>(s :: ('h, 'n) lab1) x s'. streams s fd = evs \<longrightarrow> auth_client1 E fd s = (Inr x, s') \<longrightarrow>
     x \<noteq> -1 \<longrightarrow> R x)"

lemma accept_valid:
  assumes auth: "login_gives E R (fst a) evs"
    and room: "length cs < MAX_CLIENTS"
  shows "valid (\<lambda>s. table_is cs s \<and> streams s (fst a) = evs) (accept_new_connection1 E a)
    (\<lambda>_ s. table_is cs s \<or> (\<exists>x. R x \<and> fst a \<noteq> -1 \<and> table_is (cs @ [\<lparr>socket = fst a, role = x\<rparr>]) s))"
proof (rule validI)
  fix s x s'
  assume s: "table_is cs s \<and> streams s (fst a) = evs" and run: "accept_new_connection1 E a s = (Inr x, s')"
  have nz: "fst a \<noteq> -1" using run by (auto simp: accept_new_connection1_def)
  from run obtain y s1 where auth1: "auth_client1 E (fst a) s = (Inr y, s1)" and
    rest: "(if y = -1 then
       thn (close1 (fst a))
      (thn (tell ''[SERVER] Client could not be authenticated'') (ret (-1)))
     else
       thn (bnd (gets num_clients) (\<lambda>n. set_slot n \<lparr>socket = fst a, role = y\<rparr>))
      (thn (set_num (\<lambda>n. n + 1))
      (thn (tell (''[SERVER] New connection at '' @ snd a))
      (bnd (new_client_address1 E (length (closed1 s)) (fst a) MAX_BUFFER1) (\<lambda>client_address.
       thn (log_activity1 E (''Connection from new client '' @ client_address))
      (ret (fst a))))))) s1 = (Inr x, s')"
    unfolding accept_new_connection1_def check1_ok [OF nz] bnd_ret
    by (elim bnd_InrE) auto
  have t1: "table_is cs s1" using validD [OF auth_client1_table_is _ auth1] s by blast
  show "table_is cs s' \<or> (\<exists>x. R x \<and> fst a \<noteq> -1 \<and> table_is (cs @ [\<lparr>socket = fst a, role = x\<rparr>]) s')"
  proof (cases "y = -1")
    case True
    with rest t1 show ?thesis by (auto simp: table_is_def)
  next
    case False
    have Ry: "R y" using auth auth1 False s unfolding login_gives_def by blast
    let ?c = "\<lparr>socket = fst a, role = y\<rparr>"
    let ?n = "MAX_CLIENTS - length (cs @ [?c])"
    have free: "replicate (MAX_CLIENTS - length cs) no_client = no_client # replicate ?n no_client"
      using room by (simp add: Suc_diff_Suc flip: replicate_Suc)
    have "table_is (cs @ [?c]) s'"
      using rest False t1 room free
      by (auto simp: table_is_def set_slot_def new_client_address1_run get_client_address1_run log_activity1_run
          split: option.splits if_splits)
    with Ry nz show ?thesis by blast
  qed
qed

section \<open>Messages of clients\<close>

definition doc_inv :: "('h \<Rightarrow> 'n \<Rightarrow> 'n cell option) \<Rightarrow> ('h \<Rightarrow> bool) \<Rightarrow> (shelter \<Rightarrow> bool) \<Rightarrow> ('h, 'n) lab1 \<Rightarrow> bool" where
  "doc_inv cells room P s \<longleftrightarrow> (\<exists>r. summary_is cells room s r \<and> P r)"

lemma same_doc_inv: "same_doc s t \<Longrightarrow> doc_inv cells room P s \<Longrightarrow> doc_inv cells room P t"
  by (auto simp: doc_inv_def summary_is_def same_doc_def)

lemma valid_doc: "keeps same_doc m \<Longrightarrow> valid (doc_inv cells room P) m (\<lambda>_. doc_inv cells room P)"
  by (erule valid_keeps) (rule same_doc_inv)

lemma valid_conj:
  "valid P m (\<lambda>_. P) \<Longrightarrow> valid Q m (\<lambda>_. Q) \<Longrightarrow> valid (\<lambda>s. P s \<and> Q s) m (\<lambda>_ s. P s \<and> Q s)"
  unfolding valid_def by blast

lemma send_state_summary1_doc: "keeps same_doc (send_state_summary1 E c)"
  by (auto simp: keeps_def same_doc_def send_state_summary1_def split: option.split)

text \<open>A client whose role is not 1 does not reach the document, whatever it sends.\<close>

lemma client_message1_unprivileged:
  assumes "get_slot i s = (Inr c, s)" and "role c \<noteq> 1"
  shows "same_doc s (snd (client_message1 E fd i bs s))"
proof -
  define answer where "answer command = (if command = ''state'' then
             thn (send_state_summary1 E fd)
            (bnd (get_client_address1 E fd MAX_BUFFER1) (\<lambda>client_address.
             thn (tell (''[SERVER] Request of state from client '' @ client_address))
                 (log_activity1 E (''Request of state from client '' @ client_address))))
           else ret ())" for command
  have answer: "keeps same_doc (answer command)" for command
    unfolding answer_def by (intro doc_rules send_state_summary1_doc)
  let ?buf = "buf_fill (replicate MAX_BUFFER1 NUL) bs"
  have slot: "get_slot i (s\<lparr>terminal := t\<rparr>) = (Inr c, s\<lparr>terminal := t\<rparr>)" for t
    using assms(1) by (auto simp: get_slot_def split: if_splits)
  show ?thesis
  proof (cases "c_str ?buf")
    case (Inl e)
    then show ?thesis by (simp add: client_message1_def Let_def same_doc_def)
  next
    case (Inr line)
    show ?thesis
    proof (cases "scan_word 99 line")
      case None
      let ?s = "s\<lparr>terminal := terminal s @ [''Error reading command from client'']\<rparr>"
      have "client_message1 E fd i bs s = answer (junk_command E) ?s"
        using Inr None assms(2) slot by (simp add: client_message1_def Let_def answer_def)
      with keepsD [OF answer, of ?s] show ?thesis by (simp add: same_doc_def)
    next
      case (Some w)
      have "client_message1 E fd i bs s = answer (fst w) s"
        using Inr Some assms by (cases w) (simp add: client_message1_def Let_def answer_def)
      with keepsD [OF answer, of s] show ?thesis by simp
    qed
  qed
qed

lemma client_message1_table: "keeps same_table (client_message1 E fd i bs)"
  unfolding client_message1_def Let_def by (intro table_rules modify_table)

text \<open>The loop that scans the table changes neither table nor document.\<close>

lemma scan_clients_cur: "\<exists>k. snd (scan_clients i m fds s) = s\<lparr>cur := k\<rparr>"
proof (induction i m fds s rule: scan_clients.induct)
  case (1 i m fds s)
  have stay: "\<exists>k. s = s\<lparr>cur := k\<rparr>" by (intro exI [of _ "cur s"]) simp
  let ?c = "socket (clients s ! nat i)"
  let ?f = "if ?c > 0 then fd_set1 ?c fds else Inr fds"
  show ?case
  proof (cases "i < m \<and> 0 \<le> i \<and> i < int (length (clients s))")
    case False
    then show ?thesis using stay by (subst scan_clients.simps) auto
  next
    case True
    show ?thesis
    proof (cases ?f)
      case (Inl e)
      with True have "scan_clients i m fds s = (Inl e, s\<lparr>cur := ?c\<rparr>)"
        by (subst scan_clients.simps) (simp add: Let_def)
      then show ?thesis by auto
    next
      case (Inr fds')
      with True have "scan_clients i m fds s = scan_clients (i + 1) (if ?c > m then ?c else m) fds' (s\<lparr>cur := ?c\<rparr>)"
        by (subst scan_clients.simps) (simp add: Let_def)
      with "1.IH" [OF _ _ refl refl Inr] True show ?thesis by force
    qed
  qed
qed

lemma scan_clients_same:
  "same_table s (snd (scan_clients i m fds s)) \<and> same_doc s (snd (scan_clients i m fds s)) \<and>
     same_streams s (snd (scan_clients i m fds s))"
proof -
  obtain k where "snd (scan_clients i m fds s) = s\<lparr>cur := k\<rparr>" using scan_clients_cur by blast
  then show ?thesis by (simp add: same_table_def same_doc_def same_streams_def)
qed

lemma scan_clients_table: "keeps same_table (scan_clients i m fds)"
  by (simp add: keeps_def scan_clients_same)

lemma scan_clients_doc: "keeps same_doc (scan_clients i m fds)"
  by (simp add: keeps_def scan_clients_same)

lemma scan_clients_streams: "keeps same_streams (scan_clients i m fds)"
  by (simp add: keeps_def scan_clients_same)

lemmas streams_rules = keeps_same_streams keeps_pure [OF same_streams_order(1)] keeps_bnd [OF same_streams_order(2)]
  keeps_thn [OF same_streams_order(2)] keeps_if

lemma watch1_frame: "keeps same_table (watch1 E)" "keeps same_streams (watch1 E)"
  unfolding watch1_def Let_def
  by (intro table_rules scan_clients_table, intro streams_rules scan_clients_streams)

lemma select1_frame: "keeps same_table (select1 sel fds)" "keeps same_streams (select1 sel fds)"
  unfolding select1_def
  by (cases sel, auto intro: table_rules) (cases sel, auto intro: streams_rules)

lemma same_table_open_fds: "same_table s t \<Longrightarrow> open_fds E t = open_fds E s"
  by (simp add: same_table_def open_fds_def sockets_def)

section \<open>The parts of a round\<close>

text \<open>What one slot does: nothing, or one read and its treatment, for a client of the table.\<close>

lemma serve_slot_cases:
  assumes "serve_slot E ready i s = (Inr x, s')" and "table_is cs s"
  obtains (idle) k where "s' = s\<lparr>cur := k\<rparr>"
  | (served) j r s1 where "i = int j" "j < length cs" "0 < socket (cs ! j)"
      "read1 (socket (cs ! j)) (s\<lparr>cur := socket (cs ! j)\<rparr>) = (Inr r, s1)"
      "(case r of At_end \<Rightarrow> disconnect_client1 E (socket (cs ! j)) (int j)
         | Bytes bs \<Rightarrow> client_message1 E (socket (cs ! j)) (int j) bs
         | Error \<Rightarrow> client_message1 E (socket (cs ! j)) (int j) []) s1 = (Inr (), s')"
proof -
  from assms(1) obtain c where slot: "get_slot i s = (Inr c, s)"
    by (auto simp: serve_slot_def get_slot_def split: if_splits)
  show ?thesis
  proof (cases "0 < socket c \<and> socket c \<in> set ready")
    case False
    with assms(1) slot show ?thesis by (intro idle [of "socket c"]) (auto simp: serve_slot_def set_cur_def)
  next
    case True
    from slot_used [OF assms(2) slot] True obtain j where used: "i = int j" "j < length cs" "c = cs ! j"
      by (intro that [of "nat i"]) simp_all
    obtain r s1 where read: "read1 (socket c) (s\<lparr>cur := socket c\<rparr>) = (Inr r, s1)"
      by (cases "read_blocking MAX_BUFFER1 (streams s (socket c))") (simp add: read1_def)
    have rest: "(case r of At_end \<Rightarrow> disconnect_client1 E (socket c) i
         | Bytes bs \<Rightarrow> client_message1 E (socket c) i bs
         | Error \<Rightarrow> client_message1 E (socket c) i []) s1 = (Inr (), s')"
      using assms(1) slot True read by (simp add: serve_slot_def set_cur_def Let_def)
    from True used(3) have "0 < socket (cs ! j)" by simp
    then show ?thesis by (rule served [OF used(1,2) _ read [unfolded used(3)] rest [unfolded used(1,3)]])
  qed
qed

text \<open>The loop over the alert pipe keeps what each of its messages keeps.\<close>

lemma handle_alerts1_valid:
  assumes "\<And>bs. valid P (alert_message1 E bs) (\<lambda>_. P)" and "valid P (tell ''[ALERT] Alert pipe closed'') (\<lambda>_. P)"
    and "\<And>s st. P s \<Longrightarrow> P (s\<lparr>streams := st\<rparr>)"
  shows "valid P (handle_alerts1 E fd) (\<lambda>_. P)"
proof (rule validI)
  fix s s' and x :: unit
  assume "P s" "handle_alerts1 E fd s = (Inr x, s')"
  then show "P s'"
  proof (induction "pending (streams s fd)" arbitrary: s rule: less_induct)
    case less
    obtain r evs where read: "read_nonblocking MAX_BUFFER1 (streams s fd) = (r, evs)" by fastforce
    let ?s = "s\<lparr>streams := (streams s)(fd := evs)\<rparr>"
    have P1: "P ?s" using less.prems(1) by (rule assms(3))
    show ?case
    proof (cases r)
      case (Bytes bs)
      obtain q s2 where m: "alert_message1 E bs ?s = (q, s2)" by fastforce
      show ?thesis
      proof (cases q)
        case (Inl e)
        with less.prems(2) read Bytes m show ?thesis by (subst (asm) handle_alerts1.simps) simp
      next
        case (Inr u)
        have "streams s2 = (streams s)(fd := evs)" using alert_message1_streams [of E bs ?s] m by simp
        then have "pending (streams s2 fd) < pending (streams s fd)"
          using read_nonblocking_pending [of MAX_BUFFER1 "streams s fd" bs evs] read Bytes by (simp add: MAX_BUFFER1_def)
        moreover have "P s2" using validD [OF assms(1) P1] m Inr by blast
        moreover have "handle_alerts1 E fd s2 = (Inr x, s')"
          using less.prems(2) read Bytes m Inr by (subst (asm) handle_alerts1.simps) simp
        ultimately show ?thesis by (rule less.hyps)
      qed
    next
      case At_end
      with less.prems(2) read have "tell ''[ALERT] Alert pipe closed'' ?s = (Inr x, s')"
        by (subst (asm) handle_alerts1.simps) simp
      then show ?thesis by (rule validD [OF assms(2) P1])
    next
      case Error
      with less.prems(2) read have "s' = ?s" by (subst (asm) handle_alerts1.simps) simp
      with P1 show ?thesis by simp
    qed
  qed
qed

text \<open>A round that returns, in its parts.\<close>

abbreviation accept_part :: "('h, 'n) lab1_env \<Rightarrow> int \<times> string \<Rightarrow> ('h, 'n, unit) act1" where
  "accept_part E a \<equiv> bnd (gets num_clients) (\<lambda>num. if num < int MAX_CLIENTS
     then bnd (accept_new_connection1 E a) set_cur
     else thn (tell ''[SERVER] Maximum number of clients reached. Unable to accept new connections.'')
            (bnd (gets cur) close1))"

lemma main_round1_parts:
  assumes "main_round1 E sel a s = (Inr (), s')"
  obtains m fds s1 ready s2 s3 s4 s5 where
    "watch1 E s = (Inr (m, fds), s1)" "select1 sel fds s1 = (Inr ready, s2)"
    "(if server_fd E \<in> set ready then accept_part E a else ret ()) s2 = (Inr (), s3)"
    "for_act 0 m (serve_slot E ready) s3 = (Inr (), s4)"
    "(if alert_fd1 E \<in> set ready then handle_alerts1 E (alert_fd1 E) else ret ()) s4 = (Inr (), s5)"
    "(if emergency_fd1 E \<in> set ready then handle_emergencies1 E (emergency_fd1 E) else ret ()) s5 = (Inr (), s')"
proof -
  from assms obtain p t1 where w: "watch1 E s = (Inr p, t1)" and
    r1: "(case p of (max_socket_fd, read_fds) \<Rightarrow> bnd (select1 sel read_fds) (\<lambda>ready.
      thn (if server_fd E \<in> set ready then accept_part E a else ret ())
      (thn (for_act 0 max_socket_fd (serve_slot E ready))
      (thn (if alert_fd1 E \<in> set ready then handle_alerts1 E (alert_fd1 E) else ret ())
       (if emergency_fd1 E \<in> set ready then handle_emergencies1 E (emergency_fd1 E) else ret ()))))) t1 = (Inr (), s')"
    unfolding main_round1_def by (rule bnd_InrE)
  obtain m fds where p: "p = (m, fds)" by (cases p)
  from r1 [unfolded p prod.case] show ?thesis
    by (elim bnd_InrE thn_InrE) (rule that [OF w [unfolded p]])
qed

section \<open>Effects on the document\<close>

context lab1_doc
begin

lemma modify_alerts1_valid:
  assumes "\<And>m r ms r'. P r \<Longrightarrow> alert_effect m r = Inr (ms, r') \<Longrightarrow> P r'"
  shows "valid (doc_inv cells room P) (modify_alerts1 E m) (\<lambda>_. doc_inv cells room P)"
proof (rule validI)
  fix s x s'
  assume "doc_inv cells room P s" and run: "modify_alerts1 E m s = (Inr x, s')"
  then obtain r where r: "summary_is cells room s r" "P r" by (auto simp: doc_inv_def)
  from modify_alerts1_refines [OF r(1), of m] run assms [OF r(2)] show "doc_inv cells room P s'"
    by (cases "alert_effect m r") (auto simp: did_def doc_inv_def)
qed

lemma modify_supplies1_valid:
  assumes "\<And>m r ms r'. P r \<Longrightarrow> supply_effect m r = Inr (ms, r') \<Longrightarrow> P r'"
  shows "valid (doc_inv cells room P) (modify_supplies1 E m) (\<lambda>_. doc_inv cells room P)"
proof (rule validI)
  fix s x s'
  assume "doc_inv cells room P s" and run: "modify_supplies1 E m s = (Inr x, s')"
  then obtain r where r: "summary_is cells room s r" "P r" by (auto simp: doc_inv_def)
  from modify_supplies1_refines [OF r(1), of m] run assms [OF r(2)] show "doc_inv cells room P s'"
    by (cases "supply_effect m r") (auto simp: did_def doc_inv_def)
qed

lemma modify_emergencies1_valid:
  assumes "\<And>t m r ms r'. P r \<Longrightarrow> emergency_effect t m r = (ms, r') \<Longrightarrow> P r'"
  shows "valid (doc_inv cells room P) (modify_emergencies1 E m) (\<lambda>_. doc_inv cells room P)"
proof (rule validI)
  fix s x s'
  assume "doc_inv cells room P s" and run: "modify_emergencies1 E m s = (Inr x, s')"
  then obtain r where r: "summary_is cells room s r" "P r" by (auto simp: doc_inv_def)
  obtain ms r' where e: "emergency_effect (stamp_c E (ticks1 s)) m r = (ms, r')" by fastforce
  from modify_emergencies1_refines [OF r(1) e] run assms [OF r(2) e] show "doc_inv cells room P s'"
    by (auto simp: did_def doc_inv_def)
qed

end

section \<open>A round\<close>

text \<open>
  \<open>P\<close> is a property of the shelter that alerts and emergencies keep, and that supply
  updates keep if the table may hold a client of role 1; \<open>R\<close> restricts the roles.
\<close>

locale lab1_inv = lab1_doc E cells room render
  for E :: "('h, 'n) lab1_env" and cells :: "'h \<Rightarrow> 'n \<Rightarrow> 'n cell option" and room render +
  fixes P :: "shelter \<Rightarrow> bool" and R :: "int \<Rightarrow> bool"
  assumes alert_keeps: "P r \<Longrightarrow> alert_effect m r = Inr (ms, r') \<Longrightarrow> P r'"
    and emergency_keeps: "P r \<Longrightarrow> emergency_effect t m r = (ms, r') \<Longrightarrow> P r'"
    and supply_keeps: "R 1 \<Longrightarrow> P r \<Longrightarrow> supply_effect m r = Inr (ms, r') \<Longrightarrow> P r'"
begin

abbreviation D where "D \<equiv> doc_inv cells room P"
abbreviation J where "J s \<equiv> table_inv E R s \<and> D s"

lemma keeps_J: "keeps same_table m \<Longrightarrow> keeps same_doc m \<Longrightarrow> valid J m (\<lambda>_. J)"
  by (intro valid_conj valid_table valid_doc)

lemmas D_rules = valid_bnd [where P = D and Q = "\<lambda>_. D" and R = "\<lambda>_. D"] valid_thn [where P = D and Q = D and R = "\<lambda>_. D"]
  valid_if [where P = D and Q = "\<lambda>_. D"]

lemma client_message1_D:
  assumes "R 1"
  shows "valid D (client_message1 E fd i bs) (\<lambda>_. D)"
  unfolding client_message1_def Let_def
  by (intro D_rules modify_supplies1_valid [OF supply_keeps [OF assms]] valid_doc send_state_summary1_doc doc_rules)

lemma client_message1_J:
  assumes "J s" and "get_slot i s = (Inr c, s)" and "R (role c)" and "client_message1 E fd i bs s = (Inr (), s')"
  shows "J s'"
proof
  show "table_inv E R s'"
    using validD [OF valid_table [OF client_message1_table] _ assms(4)] assms(1) by blast
  show "D s'"
  proof (cases "role c = 1")
    case True
    with assms(3) have "R 1" by simp
    from validD [OF client_message1_D [OF this] _ assms(4)] assms(1) show ?thesis by blast
  next
    case False
    have "same_doc s s'" using client_message1_unprivileged [OF assms(2) False, of E fd bs] assms(4) by simp
    then show ?thesis by (rule same_doc_inv) (use assms(1) in blast)
  qed
qed

lemma serve_slot_J: "valid J (serve_slot E ready i) (\<lambda>_. J)"
proof (rule validI)
  fix s s' and x :: unit
  assume J: "J s" and run: "serve_slot E ready i s = (Inr x, s')"
  from J obtain cs where cs: "table_is cs s" "clients_ok E cs" "\<forall>c \<in> set cs. R (role c)"
    by (auto simp: table_inv_def)
  have cur: "J (s\<lparr>cur := k\<rparr>)" for k
    using validD [OF keeps_J [OF keeps_table(14) keeps_doc(15)], of s] J by (simp add: set_cur_def)
  from run cs(1) show "J s'"
  proof (cases rule: serve_slot_cases)
    case (idle k)
    with cur show ?thesis by simp
  next
    case (served j r s1)
    let ?c = "cs ! j"
    have J2: "J s1" using validD [OF keeps_J [OF keeps_table(7) keeps_doc(7)] cur served(4)] .
    have t1: "table_is cs s1" using cs(1) served(4) by (auto simp: read1_def table_is_def split: prod.splits)
    have slot1: "get_slot (int j) s1 = (Inr ?c, s1)" using get_slot_table [OF t1 served(2)] .
    have Rc: "R (role ?c)" using cs(3) served(2) by simp
    show ?thesis
    proof (cases r)
      case At_end
      with served(5) have d: "disconnect_client1 E (socket ?c) (int j) s1 = (Inr (), s')" by simp
      have "table_is (without j cs) s'"
        using validD [OF disconnect_client1_valid [OF served(2)] t1 d] .
      moreover have "\<forall>c \<in> set (without j cs). R (role c)" using cs(3) set_without by fast
      ultimately have "table_inv E R s'" using clients_ok_without [OF cs(2)] by (auto simp: table_inv_def)
      moreover have "D s'" using validD [OF valid_doc [OF disconnect_client1_doc] _ d] J2 by blast
      ultimately show ?thesis by blast
    qed (use served(5) client_message1_J [OF J2 slot1 Rc] in auto)
  qed
qed

section \<open>The pipes\<close>

lemma alert_message1_J: "valid J (alert_message1 E bs) (\<lambda>_. J)"
proof (rule valid_conj)
  show "valid (table_inv E R) (alert_message1 E bs) (\<lambda>_. table_inv E R)"
    unfolding alert_message1_def Let_def by (intro valid_table table_rules modify_table notify_all_table)
  show "valid D (alert_message1 E bs) (\<lambda>_. D)"
    unfolding alert_message1_def Let_def
    by (intro D_rules modify_alerts1_valid [OF alert_keeps] valid_doc doc_rules notify_all_doc)
qed

lemma streams_J: "J (s\<lparr>streams := st\<rparr>) \<longleftrightarrow> J s"
  by (simp add: table_inv_def table_is_def doc_inv_def summary_is_def)

lemma handle_alerts1_J: "valid J (handle_alerts1 E fd) (\<lambda>_. J)"
  by (intro handle_alerts1_valid alert_message1_J keeps_J keeps_table keeps_doc) (simp add: streams_J)

lemma table_inv_all: "table_inv E R s \<Longrightarrow> \<exists>cs. table_is cs s \<and> (\<forall>c \<in> set cs. 0 < socket c)"
  by (auto simp: table_inv_def clients_ok_def)

lemma disconnect_all_clients1_J: "valid J (disconnect_all_clients1 E) (\<lambda>_. J)"
proof (rule valid_conj)
  show "valid D (disconnect_all_clients1 E) (\<lambda>_. D)" by (intro valid_doc disconnect_all_clients1_doc)
  show "valid (table_inv E R) (disconnect_all_clients1 E) (\<lambda>_. table_inv E R)"
  proof (rule validI)
    fix s s' and x :: unit
    assume "table_inv E R s" and run: "disconnect_all_clients1 E s = (Inr x, s')"
    then obtain cs where "table_is cs s" "\<forall>c \<in> set cs. 0 < socket c" using table_inv_all by blast
    then have "table_is [] s'" using validD [OF disconnect_all_clients1_valid [of cs "closed1 s"] _ run] by blast
    then show "table_inv E R s'" by (auto simp: table_inv_def clients_ok_def)
  qed
qed

lemma handle_emergencies1_J: "valid J (handle_emergencies1 E fd) (\<lambda>_. J)"
  unfolding handle_emergencies1_def Let_def
proof (rule valid_bnd [where Q = "\<lambda>_. J"])
  show "valid J (read_pipe1 fd) (\<lambda>_. J)" by (intro keeps_J keeps_table keeps_doc)
  fix r
  have ret: "valid J (ret ()) (\<lambda>_. J)" by (intro keeps_J keeps_table keeps_doc)
  have "valid J (modify_emergencies1 E t) (\<lambda>_. J)" for t
    by (intro valid_conj valid_table modify_table modify_emergencies1_valid [OF emergency_keeps])
  moreover have "valid J (tell t) (\<lambda>_. J)" "valid J (log_activity1 E t) (\<lambda>_. J)"
    "valid J (bnd (of_res q) notify_all) (\<lambda>_. J)" for t q
    by (intro keeps_J table_rules doc_rules notify_all_table notify_all_doc)+
  ultimately have msg: "valid J (thn (modify_emergencies1 E t) (thn (tell u) (thn (log_activity1 E t)
      (thn (bnd (of_res q) notify_all) (disconnect_all_clients1 E))))) (\<lambda>_. J)" for t u q
    by (intro valid_thn [where Q = J] disconnect_all_clients1_J)
  show "valid J (case r of Bytes bs \<Rightarrow>
           thn (modify_emergencies1 E (text_of (butlast bs)))
           (thn (tell (''[EMERGENCY] '' @ text_of (butlast bs)))
           (thn (log_activity1 E (text_of (butlast bs)))
           (thn (bnd (of_res (strcat_lf MAX_BUFFER1 (text_of (butlast bs)))) notify_all)
                (disconnect_all_clients1 E))))
       | At_end \<Rightarrow> ret () | Error \<Rightarrow> ret ()) (\<lambda>_. J)"
    using ret msg by (cases r) simp_all
qed

section \<open>The whole round\<close>

lemma watch1_J: "valid J (watch1 E) (\<lambda>_. J)"
  unfolding watch1_def Let_def
  by (intro keeps_J table_rules doc_rules scan_clients_table scan_clients_doc)

lemma select1_J: "valid J (select1 sel fds) (\<lambda>_. J)"
  unfolding select1_def
  by (cases sel) (auto intro!: keeps_J intro: table_rules doc_rules)

text \<open>Accepting a client: the new descriptor is not in use, and the role it gets is allowed.\<close>

lemma accept_J:
  assumes s: "table_is cs s" "clients_ok E cs" "\<forall>c \<in> set cs. R (role c)" "D s"
    and fd: "fst a = -1 \<or> 0 < fst a \<and> fst a \<notin> open_fds E s"
    and auth: "login_gives E R (fst a) (streams s (fst a))"
    and room: "length cs < MAX_CLIENTS" and run: "accept_new_connection1 E a s = (Inr y, s')"
  shows "J s'"
proof
  show "D s'" using validD [OF valid_doc [OF accept_new_connection1_doc] s(4) run] .
  have "table_is cs s' \<or> (\<exists>x. R x \<and> fst a \<noteq> -1 \<and> table_is (cs @ [\<lparr>socket = fst a, role = x\<rparr>]) s')"
    using validD [OF accept_valid [OF auth room] _ run] s(1) by blast
  then consider "table_is cs s'" | x where "R x" "fst a \<noteq> -1" "table_is (cs @ [\<lparr>socket = fst a, role = x\<rparr>]) s'" by blast
  then show "table_inv E R s'"
  proof cases
    case 1
    with s show ?thesis by (auto simp: table_inv_def)
  next
    case 2
    have "clients_ok E (cs @ [\<lparr>socket = fst a, role = x\<rparr>])"
      using fd 2(2) s(2) table_is_sockets [OF s(1)] by (auto simp: clients_ok_def open_fds_def)
    with 2 s(3) show ?thesis unfolding table_inv_def by force
  qed
qed

lemma main_round1_J:
  assumes J: "J s" and fd: "fst a = -1 \<or> 0 < fst a \<and> fst a \<notin> open_fds E s"
    and auth: "login_gives E R (fst a) (streams s (fst a))"
    and run: "main_round1 E sel a s = (Inr (), s')"
  shows "J s'"
proof -
  have accept: "J t'" if t: "J t" "open_fds E t = open_fds E s" "streams t = streams s" and r: "accept_part E a t = (Inr (), t')" for t t'
  proof -
    from t(1) obtain cs where cs: "table_is cs t" "clients_ok E cs" "\<forall>c \<in> set cs. R (role c)" by (auto simp: table_inv_def)
    show ?thesis
    proof (cases "num_clients t < int MAX_CLIENTS")
      case True
      with r obtain y u where u: "accept_new_connection1 E a t = (Inr y, u)" "t' = u\<lparr>cur := y\<rparr>"
        by (auto simp: set_cur_def split: prod.splits sum.splits)
      have len: "length cs < MAX_CLIENTS" using True cs(1) by (simp add: table_is_def)
      have "J u" using accept_J [OF cs _ _ _ len u(1)] t fd auth by fastforce
      with u(2) show ?thesis by (simp add: table_inv_def table_is_def doc_inv_def summary_is_def)
    next
      case False
      with r have "same_table t t' \<and> same_doc t t'" by (auto simp: same_table_def same_doc_def)
      with t(1) show ?thesis using same_table_inv same_doc_inv by blast
    qed
  qed
  obtain m fds s1 ready s2 s3 s4 s5 where 1: "watch1 E s = (Inr (m, fds), s1)" "select1 sel fds s1 = (Inr ready, s2)" and
    3: "(if server_fd E \<in> set ready then accept_part E a else ret ()) s2 = (Inr (), s3)" and
    4: "for_act 0 m (serve_slot E ready) s3 = (Inr (), s4)" and
    5: "(if alert_fd1 E \<in> set ready then handle_alerts1 E (alert_fd1 E) else ret ()) s4 = (Inr (), s5)" and
    6: "(if emergency_fd1 E \<in> set ready then handle_emergencies1 E (emergency_fd1 E) else ret ()) s5 = (Inr (), s')"
    using run by (rule main_round1_parts)
  have J2: "J s2" using validD [OF select1_J validD [OF watch1_J J 1(1)] 1(2)] .
  have frame: "open_fds E s2 = open_fds E s" "streams s2 = streams s"
    using keepsD [OF watch1_frame(1) [of E], of s] keepsD [OF watch1_frame(2) [of E], of s] 1
      keepsD [OF select1_frame(1) [of sel fds], of s1] keepsD [OF select1_frame(2) [of sel fds], of s1]
    by (auto simp: same_streams_def dest!: same_table_open_fds)
  have J3: "J s3" using 3 accept [OF J2 frame] J2 by (auto split: if_splits)
  have ret: "valid J (ret ()) (\<lambda>_. J)" by (intro keeps_J keeps_table keeps_doc)
  have "valid J (for_act 0 m (serve_slot E ready)) (\<lambda>_. J)" by (rule valid_for_act) (rule serve_slot_J)
  then have "J s4" using J3 4 by (rule validD)
  with 5 have "J s5" by (rule validD [OF valid_if [OF handle_alerts1_J ret], rotated])
  with 6 show "J s'" by (rule validD [OF valid_if [OF handle_emergencies1_J ret], rotated])
qed

end

end
