(* ===== verification/Lab1_Open.thy ===== *)
theory Lab1_Open
  imports Lab1_Round
begin

text \<open>
  Which connections are open.  The table of clients lists exactly the descriptors that
  \<open>accept\<close> has returned and that have not been closed since, although \<open>auth_client\<close> goes on
  with a connection that it has closed, and a denied connection is closed again by its caller.
\<close>

section \<open>Actions that close nothing\<close>

definition same_closed :: "('h, 'n) lab1 \<Rightarrow> ('h, 'n) lab1 \<Rightarrow> bool" where
  "same_closed s t \<longleftrightarrow> closed1 t = closed1 s"

lemma same_closed_order: "reflp same_closed" "transp same_closed"
  by (auto simp: reflp_def transp_def same_closed_def)

lemma keeps_closed:
  "keeps same_closed (ret x)" "keeps same_closed (halt e)" "keeps same_closed (of_res r)"
  "keeps same_closed (tell t)" "keeps same_closed (send1 c t)" "keeps same_closed (read1 c)"
  "keeps same_closed (read_pipe1 c)" "keeps same_closed (get_slot i)" "keeps same_closed (log_activity1 E t)"
  "keeps same_closed (get_client_address1 E c n)" "keeps same_closed (heap_do f)"
  "keeps same_closed (set_cur k)" "keeps same_closed (gets g)"
  by (auto simp: keeps_def same_closed_def get_slot_def log_activity1_run read1_def read_pipe1_def heap_do_def
      get_client_address1_def set_cur_def split: option.split prod.split)

lemmas closed_rules = keeps_closed keeps_bnd [OF same_closed_order(2)] keeps_thn [OF same_closed_order(2)] keeps_if keeps_case
  keeps_for_act [OF same_closed_order]

lemma modify_closed:
  "keeps same_closed (modify_supplies1 E m)" "keeps same_closed (modify_alerts1 E m)"
  "keeps same_closed (modify_emergencies1 E m)" "keeps same_closed (send_state_summary1 E c)"
  by (auto simp: keeps_def same_closed_def modify_supplies1_def modify_alerts1_def modify_emergencies1_def
      send_state_summary1_def item1_def heap_do_def split: option.split sum.split)

lemma notify_all_closed: "keeps same_closed (notify_all t)"
  unfolding notify_all_def by (intro closed_rules)

lemma alert_message1_closed: "keeps same_closed (alert_message1 E bs)"
  unfolding alert_message1_def Let_def by (intro closed_rules modify_closed notify_all_closed)

lemma alert_message1_table: "keeps same_table (alert_message1 E bs)"
  unfolding alert_message1_def Let_def by (intro table_rules modify_table notify_all_table)

lemma client_message1_closed: "keeps same_closed (client_message1 E fd i bs)"
  unfolding client_message1_def Let_def by (intro closed_rules modify_closed)

lemma scan_clients_closed: "keeps same_closed (scan_clients i m fds)"
proof (rule keepsI)
  fix s
  obtain k where "snd (scan_clients i m fds s) = s\<lparr>cur := k\<rparr>" using scan_clients_cur by blast
  then show "same_closed s (snd (scan_clients i m fds s))" by (simp add: same_closed_def)
qed

lemma select_closed: "keeps same_closed (watch1 E)" "keeps same_closed (select1 sel fds)"
  unfolding watch1_def select1_def Let_def
  by (intro closed_rules scan_clients_closed) (cases sel, auto intro: closed_rules)

section \<open>The table and the open connections\<close>

text \<open>
  \<open>tracks E closed A s\<close>: since \<open>closed\<close> was the list of the closed descriptors, when the
  connections \<open>A\<close> were open, some have been closed; the table lists the others.
\<close>

definition tracks :: "('h, 'n) lab1_env \<Rightarrow> int list \<Rightarrow> int set \<Rightarrow> ('h, 'n) lab1 \<Rightarrow> bool" where
  "tracks E closed A s \<longleftrightarrow> (\<exists>cs gone. table_is cs s \<and> clients_ok E cs \<and> closed1 s = closed @ gone \<and>
     socket ` set cs = A - set gone)"

lemma tracksI:
  "table_is cs s \<Longrightarrow> clients_ok E cs \<Longrightarrow> closed1 s = closed @ gone \<Longrightarrow> socket ` set cs = A - set gone \<Longrightarrow> tracks E closed A s"
  by (auto simp: tracks_def)

lemma tracks_frame: "same_table s t \<Longrightarrow> same_closed s t \<Longrightarrow> tracks E closed A s \<Longrightarrow> tracks E closed A t"
  unfolding tracks_def same_closed_def using same_table_is by metis

lemma tracks_keeps: "keeps same_table m \<Longrightarrow> keeps same_closed m \<Longrightarrow> valid (tracks E closed A) m (\<lambda>_. tracks E closed A)"
  by (rule validI) (metis keepsD snd_conv tracks_frame)

lemma tracks_other:
  "tracks E closed A (s\<lparr>streams := st\<rparr>) = tracks E closed A s" "tracks E closed A (s\<lparr>cur := k\<rparr>) = tracks E closed A s"
  by (simp_all add: tracks_def table_is_def)

lemma set_split_at: "i < length cs \<Longrightarrow> set cs = insert (cs ! i) (set (without i cs))"
  unfolding without_def by (subst id_take_nth_drop [of i cs]) auto

lemma without_fresh:
  assumes "distinct (map f cs)" "i < length cs"
  shows "f ` set (without i cs) = f ` set cs - {f (cs ! i)}"
proof -
  have "map f cs = map f (take i cs) @ f (cs ! i) # map f (drop (Suc i) cs)"
    using id_take_nth_drop [OF assms(2)] by (metis list.simps(9) map_append)
  with assms(1) have "f (cs ! i) \<notin> f ` set (without i cs)" by (auto simp: without_def)
  with set_split_at [OF assms(2)] show ?thesis by auto
qed

text \<open>A client that leaves is closed and removed.\<close>

lemma disconnect_client1_returns:
  assumes "table_is cs s" and "i < length cs" and "disconnect_client1 E c (int i) s = (Inr x, s')"
  shows "table_is (without i cs) s'" "closed1 s' = closed1 s @ [c]"
proof -
  have r: "log_opens1 E" "\<exists>a. peer1 E c = Some a"
    using assms(3) by (auto simp: disconnect_client1_def get_client_address1_run log_activity1_run split: option.splits if_splits)
  with disconnect_client1_run [OF assms(1,2)] assms(3) show "closed1 s' = closed1 s @ [c]" by fastforce
  show "table_is (without i cs) s'" using validD [OF disconnect_client1_valid [OF assms(2)] assms(1,3)] .
qed

lemma serve_slot_tracks: "valid (tracks E closed A) (serve_slot E ready i) (\<lambda>_. tracks E closed A)"
proof (rule validI)
  fix s s' and x :: unit
  assume T: "tracks E closed A s" and run: "serve_slot E ready i s = (Inr x, s')"
  from T obtain cs gone where cs: "table_is cs s" "clients_ok E cs" "closed1 s = closed @ gone" "socket ` set cs = A - set gone"
    by (auto simp: tracks_def)
  from run cs(1) show "tracks E closed A s'"
  proof (cases rule: serve_slot_cases)
    case (idle k)
    with T show ?thesis by (simp add: tracks_other)
  next
    case (served j r s1)
    let ?c = "socket (cs ! j)"
    have T1: "tracks E closed A s1"
      using validD [OF tracks_keeps [OF keeps_table(7) keeps_closed(6)] _ served(4)] T by (simp add: tracks_other)
    have message: "tracks E closed A s'" if "client_message1 E ?c (int j) bs s1 = (Inr (), s')" for bs
      using validD [OF tracks_keeps [OF client_message1_table client_message1_closed] T1 that] .
    show ?thesis
    proof (cases r)
      case At_end
      with served(5) have d: "disconnect_client1 E ?c (int j) s1 = (Inr (), s')" by simp
      have 1: "table_is cs s1" "closed1 s1 = closed @ gone"
        using cs(1,3) served(4) by (auto simp: read1_def table_is_def split: prod.splits)
      note d' = disconnect_client1_returns [OF 1(1) served(2) d]
      have "distinct (map socket cs)" using cs(2) by (simp add: clients_ok_def)
      from without_fresh [OF this served(2)] cs(4) have "socket ` set (without j cs) = A - set (gone @ [?c])" by auto
      then show ?thesis using d' 1(2) clients_ok_without [OF cs(2)] by (intro tracksI [of "without j cs" s' E closed "gone @ [?c]"]) simp_all
    qed (use served(5) message in auto)
  qed
qed

lemma disconnect_all_clients1_tracks: "valid (tracks E closed A) (disconnect_all_clients1 E) (\<lambda>_. tracks E closed A)"
proof (rule validI)
  fix s s' and x :: unit
  assume "tracks E closed A s" and run: "disconnect_all_clients1 E s = (Inr x, s')"
  then obtain cs gone where cs: "table_is cs s" "clients_ok E cs" "closed1 s = closed @ gone" "socket ` set cs = A - set gone"
    by (auto simp: tracks_def)
  have "\<forall>c \<in> set cs. 0 < socket c" using cs(2) by (simp add: clients_ok_def)
  from validD [OF disconnect_all_clients1_valid [OF this] _ run] cs
  have "table_is [] s'" "closed1 s' = closed @ gone @ map socket cs" by auto
  then show "tracks E closed A s'" using cs(4) by (intro tracksI [of "[]" s' E closed "gone @ map socket cs"]) (auto simp: clients_ok_def)
qed

lemma handle_alerts1_tracks: "valid (tracks E closed A) (handle_alerts1 E fd) (\<lambda>_. tracks E closed A)"
  by (intro handle_alerts1_valid tracks_keeps alert_message1_table alert_message1_closed keeps_table keeps_closed)
    (simp add: tracks_other)

lemma handle_emergencies1_tracks: "valid (tracks E closed A) (handle_emergencies1 E fd) (\<lambda>_. tracks E closed A)"
  unfolding handle_emergencies1_def Let_def
proof (rule valid_bnd [where Q = "\<lambda>_. tracks E closed A"])
  show "valid (tracks E closed A) (read_pipe1 fd) (\<lambda>_. tracks E closed A)" by (intro tracks_keeps keeps_table keeps_closed)
  fix r
  have ret: "valid (tracks E closed A) (ret ()) (\<lambda>_. tracks E closed A)" by (intro tracks_keeps keeps_table keeps_closed)
  have msg: "valid (tracks E closed A) (thn (modify_emergencies1 E t) (thn (tell u) (thn (log_activity1 E t)
      (thn (bnd (of_res q) notify_all) (disconnect_all_clients1 E))))) (\<lambda>_. tracks E closed A)" for t u q
    by (intro valid_thn [where Q = "tracks E closed A"] disconnect_all_clients1_tracks tracks_keeps modify_table modify_closed
        table_rules closed_rules notify_all_table notify_all_closed)
  show "valid (tracks E closed A) (case r of Bytes bs \<Rightarrow>
           thn (modify_emergencies1 E (text_of (butlast bs)))
           (thn (tell (''[EMERGENCY] '' @ text_of (butlast bs)))
           (thn (log_activity1 E (text_of (butlast bs)))
           (thn (bnd (of_res (strcat_lf MAX_BUFFER1 (text_of (butlast bs)))) notify_all)
                (disconnect_all_clients1 E))))
       | At_end \<Rightarrow> ret () | Error \<Rightarrow> ret ()) (\<lambda>_. tracks E closed A)"
    using ret msg by (cases r) simp_all
qed

section \<open>Accepting\<close>

text \<open>What \<open>auth_client\<close> closes: nothing but its own connection, which it always closes when it denies it.\<close>

lemma auth_client1_closes:
  assumes "auth_client1 E fd s = (Inr x, s')"
  shows "\<exists>gone. closed1 s' = closed1 s @ gone \<and> set gone \<subseteq> {fd} \<and> (x = -1 \<longrightarrow> gone \<noteq> [])"
proof -
  obtain r evs where r: "read_blocking MAX_BUFFER1 (streams s fd) = (r, evs)" by fastforce
  show ?thesis
    using assms r by (cases r)
      (auto simp: auth_client1_def read1_def Let_def split: if_splits option.splits)
qed

text \<open>So a new client is in the table exactly if its connection is open when the function returns.\<close>

lemma accept_tracks:
  assumes t: "table_is cs s" "clients_ok E cs" "length cs < MAX_CLIENTS"
    and fd: "fst a = -1 \<or> 0 < fst a \<and> fst a \<notin> {server_fd E, alert_fd1 E, emergency_fd1 E} \<union> socket ` set cs"
    and run: "accept_new_connection1 E a s = (Inr y, s')"
  shows "tracks E (closed1 s) (insert (fst a) (socket ` set cs)) s'"
proof -
  have nz: "fst a \<noteq> -1" using run by (auto simp: accept_new_connection1_def)
  with fd have fresh: "0 < fst a" "fst a \<notin> {server_fd E, alert_fd1 E, emergency_fd1 E}" "fst a \<notin> socket ` set cs" by auto
  from run obtain x s1 where auth: "auth_client1 E (fst a) s = (Inr x, s1)" and
    rest: "(if x = -1 then
       thn (close1 (fst a))
      (thn (tell ''[SERVER] Client could not be authenticated'') (ret (-1)))
     else
       thn (bnd (gets num_clients) (\<lambda>n. set_slot n \<lparr>socket = fst a, role = x\<rparr>))
      (thn (set_num (\<lambda>n. n + 1))
      (thn (tell (''[SERVER] New connection at '' @ snd a))
      (bnd (new_client_address1 E (length (closed1 s)) (fst a) MAX_BUFFER1) (\<lambda>client_address.
       thn (log_activity1 E (''Connection from new client '' @ client_address))
      (ret (fst a))))))) s1 = (Inr y, s')"
    unfolding accept_new_connection1_def check1_ok [OF nz] bnd_ret by (elim bnd_InrE) auto
  obtain gone where gone: "closed1 s1 = closed1 s @ gone" "set gone \<subseteq> {fst a}" "x = -1 \<longrightarrow> gone \<noteq> []"
    using auth_client1_closes [OF auth] by blast
  have t1: "table_is cs s1" using validD [OF auth_client1_table_is t(1) auth] .
  show ?thesis
  proof (cases "x = -1")
    case True
    with rest t1 gone(1) have "table_is cs s'" "closed1 s' = closed1 s @ gone @ [fst a]" by (auto simp: table_is_def)
    moreover have "socket ` set cs = insert (fst a) (socket ` set cs) - set (gone @ [fst a])"
    proof -
      have "S = insert (fst a) S - set (gone @ [fst a])" if "fst a \<notin> S" for S using that gone(2) by auto
      then show ?thesis using fresh(3) .
    qed
    ultimately show ?thesis using t(2) by (intro tracksI [of cs s' E "closed1 s" "gone @ [fst a]"])
  next
    case False
    let ?c = "\<lparr>socket = fst a, role = x\<rparr>"
    let ?n = "MAX_CLIENTS - length (cs @ [?c])"
    have free: "replicate (MAX_CLIENTS - length cs) no_client = no_client # replicate ?n no_client"
      using t(3) by (simp add: Suc_diff_Suc flip: replicate_Suc)
    have "table_is (cs @ [?c]) s'" "closed1 s' = closed1 s1" "fst a \<notin> set gone"
      using rest False t1 t(3) free gone(1)
      by (auto simp: table_is_def set_slot_def new_client_address1_run get_client_address1_run log_activity1_run
          split: option.splits if_splits)
    moreover from this(3) gone(2) have "gone = []" by (cases gone) auto
    moreover have "clients_ok E (cs @ [?c])" using t(2) fresh by (auto simp: clients_ok_def)
    ultimately show ?thesis using gone(1) by (intro tracksI [of "cs @ [?c]" s' E "closed1 s" "[]"]) auto
  qed
qed

section \<open>The whole round\<close>

text \<open>While the round can go on, there is room in the table.\<close>

lemma watched_room:
  assumes "table_is cs s" "clients_ok E cs" "three_fds E" and "watch1 E s = (Inr x, s')"
  shows "length cs < MAX_CLIENTS" "\<exists>k. s' = s\<lparr>cur := k\<rparr>" "set (snd x) = open_fds E s" "fst x = Max (open_fds E s)"
    "Max (open_fds E s) \<le> int MAX_CLIENTS"
proof -
  note w = watch1_run [OF assms(1-3)]
  from w assms(4) show 1: "Max (open_fds E s) \<le> int MAX_CLIENTS" by (cases "Max (open_fds E s) \<le> int MAX_CLIENTS") simp_all
  with w obtain fds k where "watch1 E s = (Inr (Max (open_fds E s), fds), s\<lparr>cur := k\<rparr>)" "set fds = open_fds E s" by auto
  with assms(4) have x: "x = (Max (open_fds E s), fds)" "s' = s\<lparr>cur := k\<rparr>" by simp_all
  show "\<exists>k. s' = s\<lparr>cur := k\<rparr>" using x(2) by (rule exI)
  show "set (snd x) = open_fds E s" "fst x = Max (open_fds E s)" using x(1) \<open>set fds = open_fds E s\<close> by simp_all
  have "int (length cs) + 3 \<le> Max (open_fds E s)"
    using bound_above [OF assms(2,3), of "length cs"] fds_upto_all [OF assms(1), of E] by simp
  with 1 show "length cs < MAX_CLIENTS" by simp
qed

lemma select1_server:
  assumes "select1 sel fds s = (Inr ready, s')" and "server_fd E \<in> set fds" and "num_clients u < int MAX_CLIENTS"
  shows "s' = s" "server_fd E \<in> set ready \<longleftrightarrow> accepts E sel u"
  using assms by (auto simp: select1_def accepts_def split: select_result.splits)

lemma main_round1_tracks:
  assumes t: "table_is cs s" "clients_ok E cs" "three_fds E"
    and fd: "fst a = -1 \<or> 0 < fst a \<and> fst a \<notin> {server_fd E, alert_fd1 E, emergency_fd1 E} \<union> socket ` set cs"
    and run: "main_round1 E sel a s = (Inr (), s')"
  shows "tracks E (closed1 s) (if accepts E sel s then insert (fst a) (socket ` set cs) else socket ` set cs) s'"
proof -
  define A where "A = (if accepts E sel s then insert (fst a) (socket ` set cs) else socket ` set cs)"
  obtain m fds s1 ready s2 s3 s4 s5 where 1: "watch1 E s = (Inr (m, fds), s1)" "select1 sel fds s1 = (Inr ready, s2)" and
    3: "(if server_fd E \<in> set ready then accept_part E a else ret ()) s2 = (Inr (), s3)" and
    4: "for_act 0 m (serve_slot E ready) s3 = (Inr (), s4)" and
    5: "(if alert_fd1 E \<in> set ready then handle_alerts1 E (alert_fd1 E) else ret ()) s4 = (Inr (), s5)" and
    6: "(if emergency_fd1 E \<in> set ready then handle_emergencies1 E (emergency_fd1 E) else ret ()) s5 = (Inr (), s')"
    using run by (rule main_round1_parts)
  note w = watched_room [OF t 1(1)]
  have room: "num_clients s < int MAX_CLIENTS" using w(1) t(1) by (simp add: table_is_def)
  have "server_fd E \<in> set fds" using w(3) by (simp add: open_fds_def)
  note sel = select1_server [OF 1(2) this room]
  obtain k where s2: "s2 = s\<lparr>cur := k\<rparr>" using w(2) sel(1) by blast
  have t2: "table_is cs s2" "closed1 s2 = closed1 s" "num_clients s2 = num_clients s" using t(1) by (simp_all add: s2 table_is_def)
  let ?T = "tracks E (closed1 s) A"
  have T3: "?T s3"
  proof (cases "accepts E sel s")
    case True
    with 3 sel(2) room t2(3) obtain y u where u: "accept_new_connection1 E a s2 = (Inr y, u)" "s3 = u\<lparr>cur := y\<rparr>"
      by (auto simp: set_cur_def split: prod.splits sum.splits)
    from accept_tracks [OF t2(1) t(2) w(1) fd u(1)] show ?thesis using True by (simp add: u(2) tracks_other A_def t2(2))
  next
    case False
    with 3 sel(2) have "s3 = s2" by simp
    then show ?thesis using False t2 t(2) by (intro tracksI [of cs s3 E "closed1 s" "[]"]) (simp_all add: A_def)
  qed
  have ret: "valid ?T (ret ()) (\<lambda>_. ?T)" by (intro tracks_keeps keeps_table keeps_closed)
  have "valid ?T (for_act 0 m (serve_slot E ready)) (\<lambda>_. ?T)" by (rule valid_for_act) (rule serve_slot_tracks)
  then have "?T s4" using T3 4 by (rule validD)
  with 5 have "?T s5" by (rule validD [OF valid_if [OF handle_alerts1_tracks ret], rotated])
  with 6 have "?T s'" by (rule validD [OF valid_if [OF handle_emergencies1_tracks ret], rotated])
  then show ?thesis by (simp add: A_def)
qed

text \<open>After a round the table lists exactly the connections that are open then.\<close>

lemma step1_open:
  assumes "three_fds E" and "step1 E (s, K) (s', K')" and "table_is cs s" "clients_ok E cs" "socket ` set cs = K"
  shows "\<exists>cs'. table_is cs' s' \<and> clients_ok E cs' \<and> socket ` set cs' = K'"
proof -
  from assms(2) obtain fd sel addr st where fd: "fd = -1 \<or> 0 < fd \<and> fd \<notin> {server_fd E, alert_fd1 E, emergency_fd1 E} \<union> K"
    and run: "main_round1 E sel (fd, addr) (s\<lparr>streams := st\<rparr>) = (Inr (), s')" and K': "K' = open_after E sel fd s s' K"
    by (rule step1E) auto
  have t: "table_is cs (s\<lparr>streams := st\<rparr>)" using assms(3) by (simp add: table_is_def)
  have same: "accepts E sel (s\<lparr>streams := st\<rparr>) = accepts E sel s" "closed1 (s\<lparr>streams := st\<rparr>) = closed1 s"
    by (simp_all add: accepts_def)
  have "tracks E (closed1 s) (if accepts E sel s then insert fd K else K) s'"
    using main_round1_tracks [OF t assms(4,1) _ run, unfolded assms(5) fst_conv same] fd by blast
  then show ?thesis by (auto simp: tracks_def K' open_after_def)
qed

section \<open>A round in which only a new client comes\<close>

lemma quiet_slots:
  assumes "table_is cs s" "clients_ok E cs" "set ready = {server_fd E}" "0 \<le> m" "m \<le> int MAX_CLIENTS"
  shows "\<exists>k. for_act 0 m (serve_slot E ready) s = (Inr (), s\<lparr>cur := k\<rparr>)"
proof -
  have "\<exists>s'. for_act 0 m (serve_slot E ready) s = (Inr (), s') \<and> (\<exists>k. s' = s\<lparr>cur := k\<rparr>)"
  proof (rule for_act_inv [OF assms(4)])
    show "\<exists>k. s = s\<lparr>cur := k\<rparr>" by (intro exI [of _ "cur s"]) simp
    fix i t
    assume i: "0 \<le> i" "i < m" and "\<exists>k. t = s\<lparr>cur := k\<rparr>"
    then obtain k where t: "t = s\<lparr>cur := k\<rparr>" by blast
    let ?c = "clients s ! nat i"
    have slot: "get_slot i t = (Inr ?c, t)" using i assms(5) table_is_length [OF assms(1)] by (simp add: get_slot_def t)
    have "\<not> (0 < socket ?c \<and> socket ?c \<in> set ready)"
    proof (cases "nat i < length cs")
      case True
      with table_is_nth [OF assms(1) True] assms(2,3) show ?thesis by (auto simp: clients_ok_def)
    next
      case False
      with table_is_free [OF assms(1)] i assms(5) show ?thesis by (simp add: no_client_def)
    qed
    then have "serve_slot E ready i t = (Inr (), s\<lparr>cur := socket ?c\<rparr>)"
      using slot by (auto simp: serve_slot_def set_cur_def t)
    then show "\<exists>s'. serve_slot E ready i t = (Inr (), s') \<and> (\<exists>k. s' = s\<lparr>cur := k\<rparr>)" by blast
  qed
  then show ?thesis by blast
qed

text \<open>Up to \<open>accept\<close>, and behind it if the function returns.\<close>

lemma newcomer_round:
  assumes "table_is cs s" "clients_ok E cs" "three_fds E" "Max (open_fds E s) \<le> int MAX_CLIENTS"
  obtains k where
    "\<And>e u. accept_new_connection1 E a (s\<lparr>cur := k\<rparr>) = (Inl e, u) \<Longrightarrow> main_round1 E (Ready [server_fd E]) a s = (Inl e, u)"
    "\<And>y u cs'. accept_new_connection1 E a (s\<lparr>cur := k\<rparr>) = (Inr y, u) \<Longrightarrow> table_is cs' u \<Longrightarrow> clients_ok E cs' \<Longrightarrow>
       \<exists>k'. main_round1 E (Ready [server_fd E]) a s = (Inr (), u\<lparr>cur := k'\<rparr>)"
proof -
  from watch1_run [OF assms(1-3)] assms(4) obtain fds k where
    w: "watch1 E s = (Inr (Max (open_fds E s), fds), s\<lparr>cur := k\<rparr>)" "set fds = open_fds E s" by auto
  define m where "m = Max (open_fds E s)"
  define ready where "ready = filter (\<lambda>fd. fd \<in> set [server_fd E]) fds"
  have ready: "set ready = {server_fd E}" using w(2) by (auto simp: ready_def open_fds_def)
  have "int (length cs) + 3 \<le> m"
    using bound_above [OF assms(2,3), of "length cs"] fds_upto_all [OF assms(1), of E] by (simp add: m_def)
  then have m: "0 \<le> m" "m \<le> int MAX_CLIENTS" using assms(4) by (simp_all add: m_def)
  have room: "num_clients (s\<lparr>cur := k\<rparr>) < int MAX_CLIENTS" using watched_room(1) [OF assms(1-3) w(1)] assms(1) by (simp add: table_is_def)
  have others: "alert_fd1 E \<notin> set ready" "emergency_fd1 E \<notin> set ready" "server_fd E \<in> set ready"
    using assms(3) unfolding ready by (auto simp: three_fds_def)
  have sel: "select1 (Ready [server_fd E]) fds (s\<lparr>cur := k\<rparr>) = (Inr ready, s\<lparr>cur := k\<rparr>)"
    by (simp only: select1_def select_result.case ready_def ret_app)
  have start: "main_round1 E (Ready [server_fd E]) a s =
      thn (bnd (accept_new_connection1 E a) set_cur) (thn (for_act 0 m (serve_slot E ready)) (thn (ret ()) (ret ()))) (s\<lparr>cur := k\<rparr>)"
    using w(1) room others sel by (simp add: main_round1_def m_def)
  show thesis
  proof (rule that [of k])
    show "main_round1 E (Ready [server_fd E]) a s = (Inl e, u)"
      if "accept_new_connection1 E a (s\<lparr>cur := k\<rparr>) = (Inl e, u)" for e u
      using that by (simp add: start)
    show "\<exists>k'. main_round1 E (Ready [server_fd E]) a s = (Inr (), u\<lparr>cur := k'\<rparr>)"
      if "accept_new_connection1 E a (s\<lparr>cur := k\<rparr>) = (Inr y, u)" "table_is cs' u" "clients_ok E cs'" for y u cs'
    proof -
      have "table_is cs' (u\<lparr>cur := y\<rparr>)" using that(2) by (simp add: table_is_def)
      from quiet_slots [OF this that(3) ready m] obtain k' where
        "for_act 0 m (serve_slot E ready) (u\<lparr>cur := y\<rparr>) = (Inr (), u\<lparr>cur := k'\<rparr>)" by auto
      with that(1) show ?thesis by (intro exI [of _ k']) (simp add: start set_cur_def)
    qed
  qed
qed

end
