(* ===== verification/Lab1_Props.thy ===== *)
theory Lab1_Props
  imports Lab1_Open
begin

text \<open>
  Properties of the server of the first laboratory: its document, its table of
  clients and its loop.
\<close>

section \<open>Starting\<close>

lemma tell_lines_run: "tell_lines ts s = (Inr (), s\<lparr>terminal := terminal s @ ts\<rparr>)"
  by (induction ts arbitrary: s) simp_all

lemma start_sensor_returns:
  "start_sensor f msg s = (Inr (), s') \<Longrightarrow> s' = s"
  by (auto simp: start_sensor_def tell_lines_run split: fork1.splits)

lemma setup_server1_returns:
  assumes "setup_server1 E S port s = (Inr fd, s')"
  shows "fd = server_fd E \<and> s' = s\<lparr>terminal := terminal s'\<rparr>"
  using assms unfolding setup_server1_def check1_def
  by (auto split: if_splits sum.splits prod.splits dest!: start_sensor_returns)

context lab1_doc
begin

lemma main_start1_establishes:
  assumes "room h" "main_start1 E S argv (boot h) = (Inr fd, s)"
  shows "table_is [] s \<and> summary_is cells room s empty_shelter"
proof -
  from assms(2) obtain prog port where argv: "argv = [prog, port]"
    by (auto simp: main_start1_def split: list.splits)
  from assms(2) obtain v s1 s2 where 1: "setup_server1 E S v (boot h) = (Inr (server_fd E), s1)"
    and 2: "setup_shared_memory1 E S s1 = (Inr (), s2)" and s: "s = s2"
  proof -
    from assms(2) obtain v where "bnd (setup_server1 E S v) (\<lambda>server_socket.
        thn (setup_shared_memory1 E S) (ret server_socket)) (boot h) = (Inr fd, s)"
      by (cases "atoi port") (auto simp: main_start1_def argv)
    then obtain x s1 where x: "setup_server1 E S v (boot h) = (Inr x, s1)" "thn (setup_shared_memory1 E S) (ret x) s1 = (Inr fd, s)"
      by (rule bnd_InrE)
    from x(2) have "setup_shared_memory1 E S s1 = (Inr (), s)" by (rule thn_InrE) simp
    with x(1) setup_server1_returns [OF x(1)] show ?thesis by (intro that) auto
  qed
  obtain t where t: "s1 = (boot h)\<lparr>terminal := t\<rparr>" using setup_server1_returns [OF 1] by blast
  have s1: "s1 = s1\<lparr>heap := h\<rparr>" by (simp add: t boot_def)
  from 2 have "create_state_summary1 E s1 = (Inr (), s2)"
    by (auto simp: setup_shared_memory1_def check1_def split: if_splits)
  with s1 obtain n h' where "s2 = s1\<lparr>state_summary := Some n, heap := h'\<rparr>" "room h'" "holds (cells h') n empty_shelter"
    using create_state_summary1_establishes [OF assms(1)] by (metis prod.inject)
  moreover have "table_is [] s1" by (simp add: t table_is_def boot_def)
  ultimately show ?thesis by (simp add: s summary_is_def table_is_def)
qed

end

context lab1_inv
begin

text \<open>A round after the kernel has delivered new bytes.\<close>

lemma round_J:
  assumes "table_inv E R s \<and> doc_inv cells room P s" and "fd = -1 \<or> 0 < fd \<and> fd \<notin> open_fds E s"
    and "login_gives E R fd (st fd)" and "main_round1 E sel (fd, addr) (s\<lparr>streams := st\<rparr>) = (Inr (), s')"
  shows "table_inv E R s' \<and> doc_inv cells room P s'"
proof (rule main_round1_J [OF _ _ _ assms(4)])
  show "J (s\<lparr>streams := st\<rparr>)" using assms(1) by (simp add: streams_J)
  show "fst (fd, addr) = -1 \<or> 0 < fst (fd, addr) \<and> fst (fd, addr) \<notin> open_fds E (s\<lparr>streams := st\<rparr>)"
    using assms(2) by (simp add: open_fds_def sockets_def)
  show "login_gives E R (fst (fd, addr)) (streams (s\<lparr>streams := st\<rparr>) (fst (fd, addr)))" using assms(3) by simp
qed

end

lemma counts_ok_inv:
  assumes "lab1_doc E cells room render"
  shows "lab1_inv E cells room render counts_ok (\<lambda>_. True)"
  using assms supply_effect_counts alert_effect_counts emergency_effect_counts
  by (intro lab1_inv.intro lab1_inv_axioms.intro)

lemma empty_shelter_ok: "counts_ok empty_shelter"
  by (simp add: counts_ok_def empty_shelter_def INT_MAX_def)

interpretation demo1_counts: lab1_inv demo1 rh_cells rh_room show_tree counts_ok "\<lambda>_. True"
  by (rule counts_ok_inv) (rule demo1.lab1_doc_axioms)

definition demo_os :: lab1_os where
  "demo_os = \<lparr>os_setsockopt = 0, os_bind = 0, os_listen = 0, os_alert_fork = In_parent, os_emergency_fork = In_parent,
     os_shm_open = 6, os_ftruncate = 0, os_mmap_fails = False\<rparr>"

lemma empty_heap_room: "rh_room empty_heap"
  by (simp add: rh_room_def empty_heap_def)

text \<open>The reference server starts.\<close>

lemma demo1_starts: "\<exists>s. main_start1 demo1 demo_os [''server'', ''8080''] (boot empty_heap) = (Inr 3, s)"
proof -
  obtain n h' where c: "create_state_summary1 demo1 (s\<lparr>heap := empty_heap\<rparr>) = (Inr (), s\<lparr>state_summary := Some n, heap := h'\<rparr>)" for s
    using demo1.create_state_summary1_establishes [OF empty_heap_room] by blast
  have e: "scan_int ''8080'' = Inr (Some 8080)" by code_simp
  have h: "(boot empty_heap)\<lparr>terminal := t\<rparr> = ((boot empty_heap)\<lparr>terminal := t\<rparr>)\<lparr>heap := empty_heap\<rparr>" for t :: "string list"
    by (simp add: boot_def)
  show ?thesis
    by (simp add: main_start1_def setup_server1_def setup_shared_memory1_def atoi_def e demo_os_def start_sensor_def demo1_def [THEN arg_cong, of server_fd]
        c [of "(boot empty_heap)\<lparr>terminal := t\<rparr>" for t, folded h])
qed

section \<open>Every reachable state\<close>

text \<open>
  C15: in every state that the server of the first laboratory reaches, whatever its
  clients send, whatever the pipes deliver and whatever \<open>select\<close> and \<open>accept\<close> report, the
  table of clients is a list of different descriptors followed by free slots, these
  descriptors are exactly those of the connections that are open, none forgotten and none
  closed already, and the document is the complete summary of a shelter whose counters
  are all between zero and \<open>INT_MAX\<close>.  The three descriptors of \<open>main\<close> are taken to be
  different ones, as the kernel gives them.
\<close>

theorem lab1_invariant:
  assumes "lab1_doc E cells room render" and "room h" and "three_fds E" and "reach1 E S argv h (s, K)"
  shows "\<exists>cs r. table_is cs s \<and> clients_ok E cs \<and> socket ` set cs = K \<and> summary_is cells room s r \<and> counts_ok r"
proof -
  define I where "I c \<longleftrightarrow> doc_inv cells room counts_ok (fst c) \<and>
    (\<exists>cs. table_is cs (fst c) \<and> clients_ok E cs \<and> socket ` set cs = snd c)" for c
  have "I (s, K)"
    using assms(4)
  proof (induction rule: reach1.induct)
    case (start fd s)
    from lab1_doc.main_start1_establishes [OF assms(1,2) start] empty_shelter_ok show ?case
      by (auto simp: I_def clients_ok_def doc_inv_def)
  next
    case (next_round c c')
    obtain s K s' K' where c: "c = (s, K)" "c' = (s', K')" by (cases c; cases c')
    from next_round.IH obtain cs where cs: "doc_inv cells room counts_ok s" "table_is cs s" "clients_ok E cs" "socket ` set cs = K"
      by (auto simp: I_def c)
    from next_round.hyps(2) obtain fd sel addr st where
      fd: "fd = -1 \<or> 0 < fd \<and> fd \<notin> {server_fd E, alert_fd1 E, emergency_fd1 E} \<union> K" and
      run: "main_round1 E sel (fd, addr) (s\<lparr>streams := st\<rparr>) = (Inr (), s')"
      unfolding c by (rule step1E) auto
    have "open_fds E s = {server_fd E, alert_fd1 E, emergency_fd1 E} \<union> K"
      using table_is_sockets [OF cs(2)] cs(4) by (simp add: open_fds_def)
    with fd have fd': "fd = -1 \<or> 0 < fd \<and> fd \<notin> open_fds E s" by simp
    have "table_inv E (\<lambda>_. True) s \<and> doc_inv cells room counts_ok s" using cs by (auto simp: table_inv_def)
    from lab1_inv.round_J [OF counts_ok_inv [OF assms(1)] this fd' _ run] have "doc_inv cells room counts_ok s'"
      by (simp add: login_gives_def)
    with step1_open [OF assms(3) next_round.hyps(2) [unfolded c] cs(2-4)] show ?case by (simp add: I_def c)
  qed
  then show ?thesis by (auto simp: I_def doc_inv_def)
qed

text \<open>The reference server with one client, who has logged in as root.\<close>

lemma demo1_three: "three_fds demo1"
  by (simp add: three_fds_def demo1_def)

lemma demo1_login:
  assumes "table_is [] s"
  shows "\<exists>s'. step1 demo1 (s, {}) (s', {6}) \<and> table_is [\<lparr>socket = 6, role = 1\<rparr>] s'"
proof -
  let ?s = "s\<lparr>streams := (\<lambda>_. [Data ''ubuntu ubuntu''])\<rparr>"
  let ?c = "\<lparr>socket = 6, role = 1 :: int\<rparr>"
  have t: "table_is [] ?s" "clients_ok demo1 []" using assms by (simp_all add: table_is_def clients_ok_def)
  have fds: "open_fds demo1 ?s = {3, 4, 5}" using table_is_sockets [OF t(1)] by (auto simp: open_fds_def demo1_def)
  have "Max (open_fds demo1 ?s) \<le> int MAX_CLIENTS" by (simp add: fds MAX_CLIENTS_def)
  then obtain k where round: "\<And>y u cs'. accept_new_connection1 demo1 (6, ''client'') (?s\<lparr>cur := k\<rparr>) = (Inr y, u) \<Longrightarrow>
      table_is cs' u \<Longrightarrow> clients_ok demo1 cs' \<Longrightarrow>
      \<exists>k'. main_round1 demo1 (Ready [server_fd demo1]) (6, ''client'') ?s = (Inr (), u\<lparr>cur := k'\<rparr>)"
    using newcomer_round [OF t demo1_three] by metis
  have w: "scan_word 99 ''ubuntu ubuntu'' = Some (''ubuntu'', '' ubuntu'')" "scan_word 99 '' ubuntu'' = Some (''ubuntu'', [])"
    "text_of ''ubuntu ubuntu'' = ''ubuntu ubuntu''"
    by code_simp+
  have slots: "num_clients s = 0" "clients s = no_client # replicate 99 no_client"
    using assms by (simp_all add: table_is_def MAX_CLIENTS_def numeral_eq_Suc)
  define u where "u = snd (accept_new_connection1 demo1 (6, ''client'') (?s\<lparr>cur := k\<rparr>))"
  have acc: "accept_new_connection1 demo1 (6, ''client'') (?s\<lparr>cur := k\<rparr>) = (Inr 6, u)" "closed1 u = closed1 s" "table_is [?c] u"
    using slots w unfolding u_def
    by (simp_all add: accept_new_connection1_def auth_client1_def read1_def MAX_BUFFER1_def set_slot_def new_client_address1_run
        get_client_address1_run log_activity1_run demo1_def table_is_def MAX_CLIENTS_def)
  have "clients_ok demo1 [?c]" by (simp add: clients_ok_def demo1_def)
  from round [OF acc(1,3) this] obtain k' where
    run: "main_round1 demo1 (Ready [server_fd demo1]) (6, ''client'') ?s = (Inr (), u\<lparr>cur := k'\<rparr>)" by blast
  have "step1 demo1 (s, {}) (u\<lparr>cur := k'\<rparr>, open_after demo1 (Ready [server_fd demo1]) 6 s (u\<lparr>cur := k'\<rparr>) {})"
    by (rule step1.round [OF _ run]) (simp add: demo1_def)
  moreover have "open_after demo1 (Ready [server_fd demo1]) 6 s (u\<lparr>cur := k'\<rparr>) {} = {6}"
    using acc(2) slots by (simp add: open_after_def accepts_def MAX_CLIENTS_def)
  moreover have "table_is [?c] (u\<lparr>cur := k'\<rparr>)" using acc(3) by (simp add: table_is_def)
  ultimately show ?thesis by auto
qed

theorem lab1_invariant_witness:
  "\<exists>s. reach1 demo1 demo_os [''server'', ''8080''] empty_heap (s, {6}) \<and>
     (\<exists>cs r. table_is cs s \<and> clients_ok demo1 cs \<and> socket ` set cs = {6} \<and> summary_is rh_cells rh_room s r \<and> counts_ok r)"
proof -
  obtain s0 where s0: "main_start1 demo1 demo_os [''server'', ''8080''] (boot empty_heap) = (Inr 3, s0)"
    using demo1_starts by blast
  then have r0: "reach1 demo1 demo_os [''server'', ''8080''] empty_heap (s0, {})" by (rule reach1.start)
  have "table_is [] s0" using demo1.main_start1_establishes [OF empty_heap_room s0] ..
  then obtain s where "step1 demo1 (s0, {}) (s, {6})" using demo1_login by blast
  with r0 have r: "reach1 demo1 demo_os [''server'', ''8080''] empty_heap (s, {6})" by (rule reach1.next_round)
  from r lab1_invariant [OF demo1.lab1_doc_axioms empty_heap_room demo1_three r] show ?thesis by blast
qed

section \<open>The updates of the document\<close>

lemma demo1_summary: "\<exists>s. summary_is rh_cells rh_room s empty_shelter \<and> table_is [] s \<and> ticks1 s = 0"
proof -
  obtain s where s: "main_start1 demo1 demo_os [''server'', ''8080''] (boot empty_heap) = (Inr 3, s)"
    using demo1_starts by blast
  from demo1.main_start1_establishes [OF empty_heap_room s] have
    "summary_is rh_cells rh_room (s\<lparr>ticks1 := 0\<rparr>) empty_shelter \<and> table_is [] (s\<lparr>ticks1 := 0\<rparr>)"
    by (simp add: summary_is_def table_is_def)
  then show ?thesis by (intro exI [of _ "s\<lparr>ticks1 := 0\<rparr>"]) simp
qed

text \<open>
  C16: any sequence of supply updates, alerts and emergencies, with any texts, does to
  the cJSON document what it does to the abstract shelter: the same lines are printed,
  the document stands for the resulting shelter, and the sequence is stopped by
  undefined behaviour exactly when the abstract one is.
\<close>

theorem lab1_runs_refine:
  assumes "lab1_doc E cells room render" and "summary_is cells room s r"
  shows "case ops_effect (stamp_c E) (ticks1 s) ops r of
      Inl e \<Rightarrow> fst (run_ops E ops s) = Inl e
    | Inr (ms, r') \<Rightarrow> \<exists>s'. run_ops E ops s = (Inr (), s') \<and> summary_is cells room s' r' \<and> terminal s' = terminal s @ ms"
  by (rule lab1_doc.run_ops_refines [OF assms])

definition sample_ops :: "op1 list" where
  "sample_ops = [Op_supply ''water 7'', Op_supply ''water -1'', Op_alert ''Alert of possible infection in NORTH_entry, 39.5'',
     Op_emergency ''fire'']"

lemma sample_ops_effect:
  "ops_effect (\<lambda>_. Inr ''Tue'') 0 sample_ops empty_shelter = Inr ([''[ERROR] Invalid value: -1''],
     \<lparr>count = (\<lambda>_. 0)(''water'' := 7, ''north_entry'' := 1), keepalived = ''Tue'', event = ''fire''\<rparr>)"
proof -
  have 1: "scan_supply ''water 7'' = Inr (Some (''water'', 7))" "scan_supply ''water -1'' = Inr (Some (''water'', -1))"
    "scan_alert ''Alert of possible infection in NORTH_entry, 39.5'' = Some ''NORTH_entry''"
    "find (\<lambda>k. same_key k ''NORTH_entry'') alert_names = Some ''north_entry''" "show_int (-1) = ''-1''"
    by code_simp+
  show ?thesis
    unfolding sample_ops_def ops_effect.simps supply_effect_def alert_effect_def emergency_effect_def 1
    by (simp add: 1 empty_shelter_def food_names_def INT_MAX_def fun_upd_def)
qed

theorem lab1_runs_refine_witness:
  "\<exists>s s'. run_ops demo1 sample_ops s = (Inr (), s') \<and> terminal s' = terminal s @ [''[ERROR] Invalid value: -1''] \<and>
     summary_is rh_cells rh_room s' \<lparr>count = (\<lambda>_. 0)(''water'' := 7, ''north_entry'' := 1), keepalived = ''Tue'', event = ''fire''\<rparr>"
proof -
  obtain s where s: "summary_is rh_cells rh_room s empty_shelter" "ticks1 s = 0" using demo1_summary by blast
  from lab1_runs_refine [OF demo1.lab1_doc_axioms s(1), of sample_ops] s(2) sample_ops_effect show ?thesis
    by (auto simp: demo1_def)
qed

text \<open>
  C22: the document keeps its type.  Starting from the summary that the server creates,
  after any sequence of updates that returns, what \<open>cJSON_Print\<close> writes for a query is
  the rendering of a tree with all three sections, all eleven counters under their
  names, in their order and in range, and the two strings.  When \<open>send\<close> fails, the server says so and goes on.
\<close>

theorem lab1_document_typed:
  assumes "lab1_doc E cells room render" and "summary_is cells room s empty_shelter"
    and "run_ops E ops s = (Inr (), s')"
  shows "\<exists>d. summary_typed d \<and> send_state_summary1 E fd s' = (Inr (), s'\<lparr>sent1 := sent1 s' @ [(fd, render d)],
    terminal := terminal s' @ send_report E (sent1 s' @ [(fd, render d)])\<rparr>)"
proof -
  obtain ms r' where r': "ops_effect (stamp_c E) (ticks1 s) ops empty_shelter = Inr (ms, r')" "summary_is cells room s' r'"
    using lab1_doc.run_ops_refines [OF assms(1,2), of ops] assms(3) by (auto split: sum.splits)
  with ops_effect_counts [OF r'(1) empty_shelter_ok] doc_typed lab1_doc.send_state_summary1_sends [OF assms(1) r'(2)]
  show ?thesis by blast
qed

theorem lab1_document_typed_witness:
  "\<exists>s s' d. run_ops demo1 sample_ops s = (Inr (), s') \<and> summary_typed d \<and>
     send_state_summary1 demo1 6 s' = (Inr (), s'\<lparr>sent1 := sent1 s' @ [(6, show_tree d)]\<rparr>)"
proof -
  obtain s where s: "summary_is rh_cells rh_room s empty_shelter" "ticks1 s = 0" using demo1_summary by blast
  obtain s' where run: "run_ops demo1 sample_ops s = (Inr (), s')"
    using demo1.run_ops_refines [OF s(1), of sample_ops] s(2) sample_ops_effect by (auto simp: demo1_def)
  have "send_report demo1 ms = []" for ms by (simp add: send_report_def demo1_def)
  with lab1_document_typed [OF demo1.lab1_doc_axioms s(1) run, of 6] run show ?thesis by auto
qed

section \<open>Who may change the supplies\<close>

text \<open>A round in which nobody new logs in as root.\<close>

definition guest_round :: "('h, 'n) lab1_env \<Rightarrow> ('h, 'n) lab1 \<Rightarrow> ('h, 'n) lab1 \<Rightarrow> bool" where
  "guest_round E s s' \<longleftrightarrow> (\<exists>fd sel addr st. (fd = -1 \<or> 0 < fd \<and> fd \<notin> open_fds E s) \<and> login_gives E (\<lambda>x. x \<noteq> 1) fd (st fd) \<and>
     main_round1 E sel (fd, addr) (s\<lparr>streams := st\<rparr>) = (Inr (), s'))"

definition same_supplies :: "shelter \<Rightarrow> shelter \<Rightarrow> bool" where
  "same_supplies r0 r \<longleftrightarrow> (\<forall>k \<in> set (food_names @ medicine_names). count r k = count r0 k)"

lemma alert_not_supply: "find P alert_names = Some k \<Longrightarrow> k \<notin> set (food_names @ medicine_names)"
proof -
  assume "find P alert_names = Some k"
  then have "k \<in> set alert_names" by (auto simp: find_Some_iff)
  then show ?thesis by (auto simp: name_defs)
qed

lemma guests_inv:
  assumes "lab1_doc E cells room render"
  shows "lab1_inv E cells room render (same_supplies r0) (\<lambda>x. x \<noteq> 1)"
proof (intro lab1_inv.intro lab1_inv_axioms.intro assms)
  show "same_supplies r0 r'" if "same_supplies r0 r" "alert_effect m r = Inr (ms, r')" for r m ms r'
    using that by (auto simp: same_supplies_def alert_effect_def dest: alert_not_supply split: option.splits if_splits)
  show "same_supplies r0 r'" if "same_supplies r0 r" "emergency_effect t m r = (ms, r')" for r t m ms r'
    using that by (auto simp: same_supplies_def emergency_effect_def split: sum.splits)
qed simp

text \<open>
  C17: the supplies are safe from guests.  From a state in which no connected client has
  role 1, over any number of rounds in which no new client logs in as root, with
  any messages, alerts, emergencies and disconnections, all seven supplies keep their
  quantities.
\<close>

theorem lab1_guests_keep_supplies:
  assumes "lab1_doc E cells room render" and "table_is cs s" "clients_ok E cs" "\<forall>c \<in> set cs. role c \<noteq> 1"
    and "summary_is cells room s r" and "(guest_round E)\<^sup>*\<^sup>* s s'"
  shows "\<exists>r'. summary_is cells room s' r' \<and> (\<forall>k \<in> set (food_names @ medicine_names). count r' k = count r k)"
proof -
  have "table_inv E (\<lambda>x. x \<noteq> 1) s' \<and> doc_inv cells room (same_supplies r) s'"
    using assms(6)
  proof (induction rule: rtranclp_induct)
    case base
    with assms(2-5) show ?case by (auto simp: table_inv_def doc_inv_def same_supplies_def)
  next
    case (step s1 s2)
    from step.hyps(2) obtain fd sel addr st where "fd = -1 \<or> 0 < fd \<and> fd \<notin> open_fds E s1"
      "login_gives E (\<lambda>x. x \<noteq> 1) fd (st fd)" "main_round1 E sel (fd, addr) (s1\<lparr>streams := st\<rparr>) = (Inr (), s2)"
      unfolding guest_round_def by blast
    with lab1_inv.round_J [OF guests_inv [OF assms(1)] step.IH] show ?case by blast
  qed
  then show ?thesis by (auto simp: doc_inv_def same_supplies_def)
qed

text \<open>A guest that tries to change a supply: the round passes, and nothing is changed.\<close>

definition guest_table :: "client_info list" where
  "guest_table = [\<lparr>socket = 6, role = 0\<rparr>]"

lemma guest_message:
  assumes "clients s = \<lparr>socket = 6, role = 0\<rparr> # cs"
  shows "client_message1 E fd 0 ''modify water 7'' s = (Inr (), s)"
proof -
  let ?bs = "''modify water 7''"
  have buf: "buf_fill (replicate MAX_BUFFER1 NUL) ?bs = ?bs @ replicate (MAX_BUFFER1 - 14) NUL"
    using buf_fill_cleared [of ?bs MAX_BUFFER1] by (simp add: MAX_BUFFER1_def)
  have c: "c_str (?bs @ replicate (MAX_BUFFER1 - 14) NUL) = Inr ?bs"
    by (rule c_str_padded) (simp_all add: NUL_def MAX_BUFFER1_def)
  have w: "scan_word 99 ?bs = Some (''modify'', '' water 7'')" by code_simp
  have slot: "get_slot 0 s = (Inr \<lparr>socket = 6, role = 0\<rparr>, s)" using assms by (simp add: get_slot_def)
  show ?thesis unfolding client_message1_def Let_def buf using c w slot by simp
qed

lemma free_slots:
  assumes "table_is cs s" "length cs \<le> lo" "hi \<le> MAX_CLIENTS" "lo \<le> hi"
  shows "\<exists>k. for_act (int lo) (int hi) (serve_slot E ready) s = (Inr (), s\<lparr>cur := k\<rparr>)"
proof -
  define P where "P i u \<longleftrightarrow> (\<exists>k. u = s\<lparr>cur := k\<rparr>)" for i :: int and u
  have "\<exists>s'. for_act (int lo) (int hi) (serve_slot E ready) s = (Inr (), s') \<and> P (int hi) s'"
  proof (rule for_act_inv)
    show "P (int lo) s" by (auto simp: P_def intro: exI [of _ "cur s"])
    fix i u
    assume i: "int lo \<le> i" "i < int hi" and "P i u"
    then obtain k where u: "u = s\<lparr>cur := k\<rparr>" by (auto simp: P_def)
    obtain n where n: "i = int n" "length cs \<le> n" "n < MAX_CLIENTS" using i assms(2,3) by (intro that [of "nat i"]) auto
    have "clients s ! n = no_client" using table_is_free [OF assms(1) n(2,3)] .
    moreover have "n < length (clients s)" using n(3) table_is_length [OF assms(1)] by simp
    ultimately have "serve_slot E ready i u = (Inr (), s\<lparr>cur := 0\<rparr>)"
      by (simp add: serve_slot_def get_slot_def n(1) u no_client_def Let_def set_cur_def)
    then show "\<exists>s'. serve_slot E ready i u = (Inr (), s') \<and> P (i + 1) s'" by (auto simp: P_def)
  qed (use assms(4) in simp)
  then show ?thesis by (auto simp: P_def)
qed

lemma demo1_fds [simp]: "server_fd demo1 = 3" "alert_fd1 demo1 = 4" "emergency_fd1 demo1 = 5" "junk_username demo1 = []"
  by (simp_all add: demo1_def)

lemma demo1_guest_round:
  fixes s :: "(ref_heap, nat) lab1"
  assumes "table_is guest_table s"
  shows "\<exists>s'. guest_round demo1 s s'"
proof -
  define st :: "int \<Rightarrow> recv_event list" where "st = (\<lambda>fd. if fd = 6 then [Data ''modify water 7''] else [])"
  let ?s = "s\<lparr>streams := st\<rparr>"
  have t: "table_is guest_table ?s" using assms by (simp add: table_is_def)
  have ok: "clients_ok demo1 guest_table" by (simp add: clients_ok_def guest_table_def)
  have fds: "open_fds demo1 ?s = {3, 4, 5, 6}"
    using table_is_sockets [OF t] by (auto simp: open_fds_def guest_table_def)
  have "Max {3, 4, 5, 6 :: int} = 6" by simp
  then obtain read_fds k where w: "watch1 demo1 ?s = (Inr (6, read_fds), ?s\<lparr>cur := k\<rparr>)" "set read_fds = {3, 4, 5, 6}"
    using watch1_run [OF t ok] unfolding fds by (auto simp: three_fds_def MAX_CLIENTS_def)
  let ?ready = "filter (\<lambda>fd. fd \<in> set [6]) read_fds"
  let ?t = "?s\<lparr>cur := 6, streams := st(6 := [])\<rparr>"
  have ready: "set ?ready = {6}" using w(2) by auto
  have row: "clients s = \<lparr>socket = 6, role = 0\<rparr> # replicate 99 no_client"
    using assms by (simp add: table_is_def guest_table_def MAX_CLIENTS_def)
  have read: "read1 6 (?s\<lparr>cur := 6\<rparr>) = (Inr (Bytes ''modify water 7''), ?t)"
    by (simp add: read1_def st_def MAX_BUFFER1_def)
  have msg: "client_message1 demo1 6 0 ''modify water 7'' ?t = (Inr (), ?t)" by (rule guest_message) (simp add: row)
  have 0: "serve_slot demo1 ?ready 0 (?s\<lparr>cur := k\<rparr>) = (Inr (), ?t)"
    using ready read msg by (simp add: serve_slot_def get_slot_def row set_cur_def Let_def)
  have t': "table_is guest_table ?t" using assms by (simp add: table_is_def)
  obtain k' where "for_act (int 1) (int 6) (serve_slot demo1 ?ready) ?t = (Inr (), ?t\<lparr>cur := k'\<rparr>)"
    using free_slots [OF t', of 1 6 demo1 ?ready] by (auto simp: guest_table_def MAX_CLIENTS_def)
  then have loop: "for_act 0 6 (serve_slot demo1 ?ready) (?s\<lparr>cur := k\<rparr>) = (Inr (), ?t\<lparr>cur := k'\<rparr>)"
    using 0 by (simp add: for_act_step [of 0])
  have "main_round1 demo1 (Ready [6]) (-1, ''x'') ?s = (Inr (), ?t\<lparr>cur := k'\<rparr>)"
    unfolding main_round1_def using w loop ready by (simp add: select1_def)
  moreover have "login_gives demo1 (\<lambda>x. x \<noteq> 1) (-1) (st (-1))"
    by (auto simp: login_gives_def st_def auth_client1_def read1_def scan_word_spaces)
  ultimately show ?thesis unfolding guest_round_def by blast
qed

theorem lab1_guests_keep_supplies_witness:
  "\<exists>s s'. table_is guest_table s \<and> guest_round demo1 s s' \<and>
     (\<exists>r'. summary_is rh_cells rh_room s' r' \<and> (\<forall>k \<in> set (food_names @ medicine_names). count r' k = 0))"
proof -
  obtain s where s: "summary_is rh_cells rh_room s empty_shelter" using demo1_summary by blast
  let ?s = "s\<lparr>clients := guest_table @ replicate 99 no_client, num_clients := 1\<rparr>"
  have pre: "table_is guest_table ?s" "clients_ok demo1 guest_table" "\<forall>c \<in> set guest_table. role c \<noteq> 1"
    "summary_is rh_cells rh_room ?s empty_shelter"
    using s by (simp_all add: table_is_def clients_ok_def guest_table_def summary_is_def MAX_CLIENTS_def)
  obtain s' where s': "guest_round demo1 ?s s'" using demo1_guest_round [OF pre(1)] by blast
  then have "(guest_round demo1)\<^sup>*\<^sup>* ?s s'" by (rule r_into_rtranclp)
  from lab1_guests_keep_supplies [OF demo1.lab1_doc_axioms pre this]
  have "\<exists>r'. summary_is rh_cells rh_room s' r' \<and> (\<forall>k \<in> set (food_names @ medicine_names). count r' k = 0)"
    by (simp add: empty_shelter_def)
  with pre(1) s' show ?thesis by blast
qed

end
