(* ===== verification/Lab1_Client.thy ===== *)
theory Lab1_Client
  imports Stdio
begin

text \<open>
  The client of the first laboratory: \<open>lab1_-manugcr/src/client.c\<close>.
\<close>

definition SERVER_PORT :: int where
  "SERVER_PORT = 8080"

definition SERVER_IP :: string where
  "SERVER_IP = ''127.0.0.1''"

definition MAX_BUFFER2 :: nat where
  "MAX_BUFFER2 = 1024"

text \<open>
  What was sent and printed, what the connection will deliver, what \<open>fgets\<close> returns in
  the iterations to come (\<open>None\<close> is the null pointer), and whether the socket is closed.
\<close>

record client1 =
  uplink1 :: "string list"
  shown :: "string list"
  downlink :: "recv_event list"
  typed :: "string option list"
  hung_up :: bool

text \<open>
  The results of \<open>socket\<close>, \<open>inet_pton\<close>, \<open>connect\<close> and \<open>snprintf\<close>'s success, and the
  contents of the array \<open>buffer\<close> before \<open>main\<close> writes into it.
\<close>

record client1_env =
  c1_socket :: int
  c1_pton :: "string \<Rightarrow> int"
  c1_connect :: "string \<Rightarrow> int \<Rightarrow> int"
  c1_prints :: bool
  c1_junk :: string

type_synonym 'a c1act = "(client1, 'a) act"

definition show1 :: "string \<Rightarrow> unit c1act" where
  "show1 t = (\<lambda>s. (Inr (), s\<lparr>shown := shown s @ [t]\<rparr>))"

definition send2 :: "string \<Rightarrow> unit c1act" where
  "send2 bs = (\<lambda>s. (Inr (), s\<lparr>uplink1 := uplink1 s @ [bs]\<rparr>))"

definition hang_up :: "unit c1act" where
  "hang_up = (\<lambda>s. (Inr (), s\<lparr>hung_up := True\<rparr>))"

definition check2 :: "int \<Rightarrow> string \<Rightarrow> int c1act" where
  "check2 exp msg = (if exp = -1 then thn (show1 msg) (halt (Exit 1)) else ret exp)"

text \<open>
  The array after \<open>snprintf(buffer, MAX_BUFFER, "%s %s", username, password)\<close>: the text, a
  NUL, and the old contents.  All of it is sent.
\<close>

definition credentials1 :: "string \<Rightarrow> string \<Rightarrow> string \<Rightarrow> string" where
  "credentials1 junk username password =
     buf_fill junk (snprintf MAX_BUFFER2 (username @ '' '' @ password) @ [NUL])"

definition login1 :: "client1_env \<Rightarrow> string \<Rightarrow> string \<Rightarrow> unit c1act" where
  "login1 H username password =
     (if \<not> c1_prints H then thn (show1 ''[CLIENT] Snprintf failed'') (thn hang_up (halt (Exit 1)))
      else
        thn (send2 (credentials1 (c1_junk H) username password))
       (\<lambda>s. let (r, evs) = read_blocking MAX_BUFFER2 (downlink s); s1 = s\<lparr>downlink := evs\<rparr> in
         (if r = Error then thn (show1 ''[CLIENT] Recieve failed'') (thn hang_up (halt (Exit 1)))
          else if (case r of Bytes bs \<Rightarrow> text_of bs = ''Denied'' | _ \<Rightarrow> False)
          then thn (show1 (''[SERVER]'' @ [LF] @ ''Authentication failed'')) (thn hang_up (halt (Exit 1)))
          else show1 (''[SERVER]'' @ [LF] @ ''Authentication succeed.'')) s1))"

definition connect1 :: "client1_env \<Rightarrow> string list \<Rightarrow> unit c1act" where
  "connect1 H argv = (case argv of
      [prog, username, password] \<Rightarrow>
        bnd (check2 (c1_socket H) ''[CLIENT] Socket creation failed'') (\<lambda>client_socket.
        bnd (check2 (c1_pton H SERVER_IP) ''[CLIENT] Invalid address/Address not supported'') (\<lambda>_.
        bnd (check2 (c1_connect H SERVER_IP SERVER_PORT) ''[CLIENT] Connection failed'') (\<lambda>_.
        login1 H username password)))
    | prog # args \<Rightarrow> thn (show1 (''Usage: '' @ prog @ '' <username> <password>'')) (halt (Exit 1))
    | [] \<Rightarrow> halt Undefined)"

text \<open>One iteration of the loop; the result says whether it goes on.\<close>

definition client_round1 :: "bool c1act" where
  "client_round1 = (\<lambda>s.
     let s1 = (case typed s of
           Some l # ks \<Rightarrow> s\<lparr>typed := ks, uplink1 := uplink1 s @ [text_of l]\<rparr>
         | ks \<Rightarrow> s\<lparr>typed := tl ks\<rparr>);
         (r, evs) = read_nonblocking MAX_BUFFER2 (downlink s1); s2 = s1\<lparr>downlink := evs\<rparr>
     in (case r of
           Error \<Rightarrow> ret True
         | At_end \<Rightarrow> ret False
         | Bytes bs \<Rightarrow> if length bs < MAX_BUFFER2
                      then thn (show1 (''[SERVER]'' @ [LF] @ text_of bs)) (ret True)
                      else halt Undefined) s2)"

text \<open>At most \<open>n\<close> iterations, and the \<open>close\<close> after the loop.\<close>

fun client_loop1 :: "nat \<Rightarrow> bool c1act" where
  "client_loop1 0 = ret True"
| "client_loop1 (Suc n) = bnd client_round1 (\<lambda>goes_on. if goes_on then client_loop1 n else thn hang_up (ret False))"

definition client_main1 :: "client1_env \<Rightarrow> string list \<Rightarrow> nat \<Rightarrow> bool c1act" where
  "client_main1 H argv n = thn (connect1 H argv) (client_loop1 n)"

text \<open>\<open>check\<close> of \<open>src/logic.c\<close>, the variant of the unit tests, which returns instead of exiting.\<close>

definition check_logic :: "int \<Rightarrow> string \<Rightarrow> int c1act" where
  "check_logic exp msg = (if exp = -1 then thn (show1 msg) (ret (-1)) else ret exp)"

section \<open>Running it\<close>

lemma show1_run [simp, act_simps]: "show1 t s = (Inr (), s\<lparr>shown := shown s @ [t]\<rparr>)"
  by (simp add: show1_def)

lemma send2_run [simp, act_simps]: "send2 bs s = (Inr (), s\<lparr>uplink1 := uplink1 s @ [bs]\<rparr>)"
  by (simp add: send2_def)

lemma hang_up_run [simp, act_simps]: "hang_up s = (Inr (), s\<lparr>hung_up := True\<rparr>)"
  by (simp add: hang_up_def)

text \<open>The message with the credentials always has the length of the whole array.\<close>

lemma credentials1_length:
  assumes "length junk = MAX_BUFFER2"
  shows "length (credentials1 junk u p) = MAX_BUFFER2"
proof -
  let ?t = "snprintf MAX_BUFFER2 (u @ '' '' @ p) @ [NUL]"
  have "length ?t \<le> MAX_BUFFER2" by (simp add: snprintf_def MAX_BUFFER2_def)
  with assms length_buf_fill [of ?t junk] show ?thesis unfolding credentials1_def by simp
qed

lemma credentials1_text:
  assumes "length u + 1 + length p < MAX_BUFFER2" "NUL \<notin> set u" "NUL \<notin> set p"
  shows "text_of (credentials1 junk u p) = u @ '' '' @ p"
proof -
  have "credentials1 junk u p = (u @ '' '' @ p) @ NUL # drop (length (u @ '' '' @ p) + 1) junk"
    using assms(1) by (simp add: credentials1_def snprintf_def buf_fill_def)
  then have "text_of (credentials1 junk u p) = text_of (u @ '' '' @ p)"
    using c_str_terminated [of "u @ '' '' @ p" "drop (length (u @ '' '' @ p) + 1) junk"]
    by (simp add: c_str_def text_of_def)
  then show ?thesis using assms(2,3) by (simp add: text_of_plain NUL_def)
qed

end
