(* ===== verification/Lab1_Login_Props.thy ===== *)
theory Lab1_Login_Props
  imports Lab1_Props Lab1_Client
begin

text \<open>
  Properties of the conversation of the first laboratory: logging in, the messages of
  a client, leaving, and the client program.
\<close>

section \<open>Messages\<close>

lemma supply_word: "k \<in> set (food_names @ medicine_names) \<Longrightarrow> word k \<and> length k \<le> 11 \<and> NUL \<notin> set k"
  by (auto simp: word_def food_names_def medicine_names_def is_space_def NUL_def)

lemma scan_supply_message:
  assumes "word k" and "in_int v"
  shows "scan_supply (k @ '' '' @ show_int v) = Inr (Some (k, v))"
  using scan_word_word [OF assms(1), of "CHR '' '' # show_int v"] scan_int_show_int [OF assms(2)]
  by (simp add: scan_supply_def)

lemma in_int_range: "0 \<le> v \<Longrightarrow> v \<le> INT_MAX \<Longrightarrow> in_int v"
  by (simp add: in_int_def INT_MIN_def)

context lab1_doc
begin

lemma modify_message:
  assumes s: "summary_is cells room s r" and slot: "get_slot i s = (Inr c, s)" and "role c = 1"
    and open_log: "log_opens1 E" "peer1 E fd = Some addr"
    and k: "k \<in> set (food_names @ medicine_names)" and v: "0 \<le> v" "v \<le> INT_MAX"
  shows "\<exists>s'. client_message1 E fd i (''modify '' @ k @ '' '' @ show_int v) s = (Inr (), s') \<and>
    summary_is cells room s' (r\<lparr>count := (count r)(k := v)\<rparr>) \<and> same_table s s' \<and> sent1 s' = sent1 s"
proof -
  let ?m = "k @ '' '' @ show_int v" and ?bs = "''modify '' @ k @ '' '' @ show_int v"
  have wk: "word k" "length k \<le> 11" "NUL \<notin> set k" using supply_word [OF k] by simp_all
  have len: "length ?bs < MAX_BUFFER1" using wk(2) show_int_length [OF v] by (simp add: MAX_BUFFER1_def)
  have nul: "NUL \<notin> set ?bs" using wk(3) show_int_no_NUL by (auto simp: NUL_def)
  let ?n = "MAX_BUFFER1 - length ?bs"
  have buf: "buf_fill (replicate MAX_BUFFER1 NUL) ?bs = ?bs @ replicate ?n NUL"
    using len by (intro buf_fill_cleared) simp
  have n: "0 < ?n" using len by simp
  have c: "c_str (?bs @ replicate ?n NUL) = Inr ?bs" by (rule c_str_padded [OF nul n])
  have d: "drop 7 (?bs @ replicate ?n NUL) = ?m @ replicate ?n NUL" by simp
  have cd: "c_str (?m @ replicate ?n NUL) = Inr ?m" using nul n by (intro c_str_padded) auto
  have w: "scan_word 99 ?bs = Some (''modify'', '' '' @ ?m)"
    using scan_word_word [of "''modify''" "'' '' @ ?m"] by (simp add: word_def is_space_def)
  have eff: "supply_effect ?m r = Inr ([], r\<lparr>count := (count r)(k := v)\<rparr>)"
    using scan_supply_message [OF wk(1) in_int_range [OF v]] v k by (simp add: supply_effect_def)
  obtain s1 where s1: "modify_supplies1 E ?m s = (Inr (), s1)" "did s s1 [] (r\<lparr>count := (count r)(k := v)\<rparr>)"
    using modify_supplies1_refines [OF s, of ?m] eff by auto
  let ?a = "snprintf MAX_BUFFER1 addr"
  let ?s' = "s1\<lparr>terminal := terminal s1 @ [''[SERVER] Updated of supplies from client '' @ ?a], ticks1 := Suc (ticks1 s1),
    log_text := log_text s1 @ stamp_log E (ticks1 s1) @ '', '' @ ''Updated of supplies from client '' @ ?a @ [LF]\<rparr>"
  have "client_message1 E fd i ?bs s = (Inr (), ?s')"
    unfolding client_message1_def Let_def buf
    using c w slot assms(3) d cd s1(1) open_log
    by (simp only: bnd_app thn_app of_res_app prod.case sum.case option.case ret_app if_True simp_thms)
      (simp add: get_client_address1_run log_activity1_run)
  moreover have "same_table s ?s'" "sent1 ?s' = sent1 s" "summary_is cells room ?s' (r\<lparr>count := (count r)(k := v)\<rparr>)"
    using did_frame [OF s1(2)] by (simp_all add: same_table_def summary_is_def)
  ultimately show ?thesis by blast
qed

lemma state_message:
  assumes s: "summary_is cells room s r" and slot: "get_slot i s = (Inr c, s)" and open_log: "log_opens1 E" "peer1 E fd = Some addr"
  shows "\<exists>s'. client_message1 E fd i ''state'' s = (Inr (), s') \<and> summary_is cells room s' r \<and> same_table s s' \<and>
    sent1 s' = sent1 s @ [(fd, render (doc r))]"
proof -
  let ?bs = "''state''"
  have buf: "buf_fill (replicate MAX_BUFFER1 NUL) ?bs = ?bs @ replicate (MAX_BUFFER1 - 5) NUL"
    using buf_fill_cleared [of ?bs MAX_BUFFER1] by (simp add: MAX_BUFFER1_def)
  have c: "c_str (?bs @ replicate (MAX_BUFFER1 - 5) NUL) = Inr ?bs"
    by (rule c_str_padded) (simp_all add: NUL_def MAX_BUFFER1_def)
  have w: "scan_word 99 ?bs = Some (?bs, [])" by code_simp
  let ?a = "snprintf MAX_BUFFER1 addr"
  let ?s' = "s\<lparr>sent1 := sent1 s @ [(fd, render (doc r))],
    terminal := terminal s @ send_report E (sent1 s @ [(fd, render (doc r))]) @ [''[SERVER] Request of state from client '' @ ?a], ticks1 := Suc (ticks1 s),
    log_text := log_text s @ stamp_log E (ticks1 s) @ '', '' @ ''Request of state from client '' @ ?a @ [LF]\<rparr>"
  have "client_message1 E fd i ?bs s = (Inr (), ?s')"
    unfolding client_message1_def Let_def buf
    using c w slot open_log send_state_summary1_sends [OF s]
    by (simp add: get_client_address1_run log_activity1_run)
  moreover have "summary_is cells room ?s' r" "same_table s ?s'" using s by (simp_all add: summary_is_def same_table_def)
  ultimately show ?thesis by (intro exI [of _ ?s']) simp
qed

end

text \<open>
  C18: an update by a client of role 1 and the query after it.  The message
  \<open>modify <supply> <quantity>\<close> sets exactly that supply, the table and the other
  clients' output are untouched, and the next \<open>state\<close> is answered with the rendering of
  the updated document.
\<close>

theorem lab1_root_update:
  assumes "lab1_doc E cells room render" and "summary_is cells room s r"
    and "get_slot i s = (Inr c, s)" "role c = 1" and "log_opens1 E" "peer1 E fd = Some addr"
    and "k \<in> set (food_names @ medicine_names)" and "0 \<le> v" "v \<le> INT_MAX"
  shows "\<exists>s1 s2. client_message1 E fd i (''modify '' @ k @ '' '' @ show_int v) s = (Inr (), s1) \<and>
    summary_is cells room s1 (r\<lparr>count := (count r)(k := v)\<rparr>) \<and> same_table s s1 \<and> sent1 s1 = sent1 s \<and>
    client_message1 E fd i ''state'' s1 = (Inr (), s2) \<and>
    sent1 s2 = sent1 s @ [(fd, render (doc (r\<lparr>count := (count r)(k := v)\<rparr>)))]"
proof -
  obtain s1 where 1: "client_message1 E fd i (''modify '' @ k @ '' '' @ show_int v) s = (Inr (), s1)"
    "summary_is cells room s1 (r\<lparr>count := (count r)(k := v)\<rparr>)" "same_table s s1" "sent1 s1 = sent1 s"
    using lab1_doc.modify_message [OF assms] by blast
  have "get_slot i s1 = (Inr c, s1)"
    using assms(3) 1(3) by (auto simp: get_slot_def same_table_def split: if_splits)
  from lab1_doc.state_message [OF assms(1) 1(2) this assms(5,6)] 1 show ?thesis by auto
qed

lemma demo1_root:
  "\<exists>s. summary_is rh_cells rh_room s empty_shelter \<and> table_is [\<lparr>socket = 6, role = 1\<rparr>] s \<and> sent1 s = []"
proof -
  obtain s where s: "summary_is rh_cells rh_room s empty_shelter" using demo1_summary by blast
  let ?s = "s\<lparr>clients := \<lparr>socket = 6, role = 1\<rparr> # replicate 99 no_client, num_clients := 1, sent1 := []\<rparr>"
  show ?thesis using s by (intro exI [of _ ?s]) (simp add: summary_is_def table_is_def MAX_CLIENTS_def)
qed

theorem lab1_root_update_witness:
  "\<exists>s s1 s2. client_message1 demo1 6 0 ''modify water 7'' s = (Inr (), s1) \<and> client_message1 demo1 6 0 ''state'' s1 = (Inr (), s2) \<and>
     sent1 s2 = [(6, show_tree (doc (empty_shelter\<lparr>count := (count empty_shelter)(''water'' := 7)\<rparr>)))]"
proof -
  obtain s where s: "summary_is rh_cells rh_room s empty_shelter" "table_is [\<lparr>socket = 6, role = 1\<rparr>] s" "sent1 s = []"
    using demo1_root by blast
  have slot: "get_slot 0 s = (Inr \<lparr>socket = 6, role = 1\<rparr>, s)" using get_slot_table [OF s(2), of 0] by simp
  obtain addr where addr: "peer1 demo1 6 = Some addr" by (simp add: demo1_def)
  have e: "''modify '' @ ''water'' @ '' '' @ show_int 7 = ''modify water 7''" by code_simp
  have "\<exists>s1 s2. client_message1 demo1 6 0 (''modify '' @ ''water'' @ '' '' @ show_int 7) s = (Inr (), s1) \<and>
    summary_is rh_cells rh_room s1 (empty_shelter\<lparr>count := (count empty_shelter)(''water'' := 7)\<rparr>) \<and> same_table s s1 \<and> sent1 s1 = sent1 s \<and>
    client_message1 demo1 6 0 ''state'' s1 = (Inr (), s2) \<and>
    sent1 s2 = sent1 s @ [(6, show_tree (doc (empty_shelter\<lparr>count := (count empty_shelter)(''water'' := 7)\<rparr>)))]"
    by (rule lab1_root_update [OF demo1.lab1_doc_axioms s(1) slot _ _ addr])
      (simp_all add: demo1_def food_names_def INT_MAX_def)
  with s(3) show ?thesis unfolding e by auto
qed

section \<open>Logging in\<close>

definition login_role :: "string \<Rightarrow> string \<Rightarrow> int" where
  "login_role u p = (if u = ''ubuntu'' \<and> p = ''ubuntu'' then 1 else if u = ''hostname'' \<and> p = ''hostname'' then 0 else -1)"

lemma auth_client1_words:
  assumes "word u" "word p" and "text_of bs = u @ '' '' @ p" and "length bs < MAX_BUFFER1" and "streams s fd = Data bs # rest"
  shows "\<exists>s'. auth_client1 E fd s = (Inr (login_role u p), s') \<and>
    s' = s\<lparr>streams := (streams s)(fd := rest),
      sent1 := sent1 s @ [(fd, if login_role u p = -1 then ''Denied'' else ''Authenticated'')],
      closed1 := closed1 s @ (if login_role u p = -1 then [fd] else [])\<rparr>"
proof -
  have ne: "bs \<noteq> []" using assms(3) by (auto simp: text_of_def)
  have w1: "scan_word 99 (u @ '' '' @ p) = Some (u, '' '' @ p)" using scan_word_word [OF assms(1), of "'' '' @ p"] by simp
  have w2: "scan_word 99 ('' '' @ p) = Some (p, [])"
    using scan_word_word [OF assms(2), of "[]"] by (simp add: scan_word_skips)
  have run: "read1 fd s = (Inr (Bytes bs), s\<lparr>streams := (streams s)(fd := rest)\<rparr>)"
    using assms(4,5) ne by (simp add: read1_def)
  show ?thesis
    unfolding auth_client1_def using run assms(3,4) w1 w2 by (simp add: login_role_def)
qed

text \<open>
  C23: logging in with the program's own client.  The client always sends its whole
  array of \<open>MAX_BUFFER\<close> bytes.  If the first \<open>read\<close> of the server gets a part that contains
  the credentials, they decide the role: \<open>ubuntu\<close> is 1, \<open>hostname\<close> is 0, everything else
  is denied, and a denied connection is closed a second time by the caller.  If it gets
  the whole message, it writes behind its buffer, which is undefined behaviour; so is a
  failing \<open>read\<close>.
\<close>

theorem lab1_login:
  assumes "c1_prints H" "length (c1_junk H) = MAX_BUFFER2" and "word u" "word p" "NUL \<notin> set u" "NUL \<notin> set p"
    and "fd \<noteq> -1"
  shows "\<exists>message. uplink1 (snd (login1 H u p c)) = uplink1 c @ [message] \<and> length message = MAX_BUFFER2 \<and>
    (streams s fd = Data message # rest \<longrightarrow> fst (auth_client1 E fd s) = Inl Undefined) \<and>
    (streams s fd = Failed # rest \<longrightarrow> fst (auth_client1 E fd s) = Inl Undefined) \<and>
    (length u + 1 + length p \<le> n \<and> n < MAX_BUFFER1 \<and> streams s fd = Data (take n message) # rest \<longrightarrow>
       fst (auth_client1 E fd s) = Inr (login_role u p) \<and>
       sent1 (snd (auth_client1 E fd s)) = sent1 s @ [(fd, if login_role u p = -1 then ''Denied'' else ''Authenticated'')] \<and>
       (login_role u p = -1 \<longrightarrow> fst (accept_new_connection1 E (fd, addr) s) = Inr (-1) \<and>
          closed1 (snd (accept_new_connection1 E (fd, addr) s)) = closed1 s @ [fd, fd]))"
proof -
  let ?M = "credentials1 (c1_junk H) u p"
  have len: "length ?M = MAX_BUFFER2" by (rule credentials1_length [OF assms(2)])
  have fits: "length u + 1 + length p < MAX_BUFFER2" using assms(3,4) by (simp add: word_def MAX_BUFFER2_def)
  have up: "uplink1 (snd (login1 H u p c)) = uplink1 c @ [?M]"
    using assms(1) by (auto simp: login1_def Let_def split: prod.splits)
  have whole: "fst (auth_client1 E fd s) = Inl Undefined" if "streams s fd = Data ?M # rest"
  proof -
    have "?M \<noteq> []" using len by (auto simp: MAX_BUFFER2_def)
    then have "read1 fd s = (Inr (Bytes ?M), s\<lparr>streams := (streams s)(fd := rest)\<rparr>)"
      using that len by (simp add: read1_def MAX_BUFFER1_def MAX_BUFFER2_def)
    with len show ?thesis by (simp add: auth_client1_def MAX_BUFFER1_def MAX_BUFFER2_def)
  qed
  have failed: "fst (auth_client1 E fd s) = Inl Undefined" if "streams s fd = Failed # rest"
    using that by (simp add: auth_client1_def read1_def)
  have part: "text_of (take n ?M) = u @ '' '' @ p" if "length u + 1 + length p \<le> n"
  proof -
    define x where "x = u @ '' '' @ p"
    have x: "length x = length u + 1 + length p" "NUL \<notin> set x" using assms(5,6) by (auto simp: x_def NUL_def)
    have "?M = x @ NUL # drop (Suc (length x)) (c1_junk H)"
      using fits x(1) by (simp add: credentials1_def snprintf_def buf_fill_def x_def)
    then have "take n ?M = x @ take (n - length x) (NUL # drop (Suc (length x)) (c1_junk H))"
      using that x(1) by simp
    then have "text_of (take n ?M) = text_of x"
      by (cases "n - length x") simp_all
    then show ?thesis using x(2) by (simp add: x_def)
  qed
  have words: "fst (auth_client1 E fd s) = Inr (login_role u p) \<and>
       sent1 (snd (auth_client1 E fd s)) = sent1 s @ [(fd, if login_role u p = -1 then ''Denied'' else ''Authenticated'')] \<and>
       (login_role u p = -1 \<longrightarrow> fst (accept_new_connection1 E (fd, addr) s) = Inr (-1) \<and>
          closed1 (snd (accept_new_connection1 E (fd, addr) s)) = closed1 s @ [fd, fd])"
    if n: "length u + 1 + length p \<le> n" "n < MAX_BUFFER1" and st: "streams s fd = Data (take n ?M) # rest"
  proof -
    have "length (take n ?M) < MAX_BUFFER1" using n(2) by simp
    from auth_client1_words [OF assms(3,4) part [OF n(1)] this st, of E] assms(7) show ?thesis
      by (auto simp: accept_new_connection1_def)
  qed
  show ?thesis using up len whole failed words by (intro exI [of _ ?M]) blast
qed

definition demo_client :: client1_env where
  "demo_client = \<lparr>c1_socket = 3, c1_pton = (\<lambda>_. 1), c1_connect = (\<lambda>_ _. 0), c1_prints = True, c1_junk = replicate 1024 (CHR ''x'')\<rparr>"

theorem lab1_login_witness:
  "\<exists>c message (s :: (ref_heap, nat) lab1). uplink1 (snd (login1 demo_client ''ubuntu'' ''ubuntu'' c)) = uplink1 c @ [message] \<and>
     streams s 6 = [Data (take 20 message)] \<and> fst (auth_client1 demo1 6 s) = Inr 1"
proof -
  have w: "word ''ubuntu''" by code_simp
  have H: "c1_prints demo_client" "length (c1_junk demo_client) = MAX_BUFFER2" "NUL \<notin> set ''ubuntu''" "(6 :: int) \<noteq> -1"
    by (simp_all add: demo_client_def MAX_BUFFER2_def NUL_def)
  define c where "c = \<lparr>uplink1 = [], shown = [], downlink = [Data ''Authenticated''], typed = [], hung_up = False\<rparr>"
  define message where "message = credentials1 (c1_junk demo_client) ''ubuntu'' ''ubuntu''"
  have up: "uplink1 (snd (login1 demo_client ''ubuntu'' ''ubuntu'' c)) = uplink1 c @ [message]"
    using H(1) by (auto simp: login1_def Let_def message_def split: prod.splits)
  define s :: "(ref_heap, nat) lab1" where "s = (boot empty_heap)\<lparr>streams := (\<lambda>_. [Data (take 20 message)])\<rparr>"
  have "fst (auth_client1 demo1 6 s) = Inr (login_role ''ubuntu'' ''ubuntu'')"
    using lab1_login [OF H(1,2) w w H(3) H(3) H(4), of c s "[]" demo1 20] up by (auto simp: s_def MAX_BUFFER1_def)
  with up show ?thesis by (intro exI [of _ c] exI [of _ message] exI [of _ s]) (simp add: s_def login_role_def)
qed

section \<open>A client that says nothing\<close>

text \<open>
  C24: a client that connects and closes its connection before it has sent anything.  The
  server closes its own end, but goes on with what its uninitialised arrays hold, which
  may be the credentials of the client before.  If these are valid, the server takes the
  connection for authenticated and then exits, since \<open>getpeername\<close> fails on the closed
  descriptor.  If not, the client is denied: the table stays as it was, and the
  descriptor has been given to \<open>close\<close> three times.
\<close>

theorem lab1_silent_client:
  assumes "table_is cs s" "clients_ok E cs" "three_fds E" "Max (open_fds E s) \<le> int MAX_CLIENTS"
    and "0 < fd" "fd \<notin> open_fds E s" and "read_blocking MAX_BUFFER1 (streams s fd) = (At_end, evs)"
  shows "if login_role (junk_username E) (junk_password E) \<noteq> -1
    then fst (main_round1 E (Ready [server_fd E]) (fd, addr) s) = Inl (Exit 1)
    else \<exists>s'. main_round1 E (Ready [server_fd E]) (fd, addr) s = (Inr (), s') \<and> table_is cs s' \<and>
      closed1 s' = closed1 s @ [fd, fd, fd] \<and> sent1 s' = sent1 s @ [(fd, ''Denied'')] \<and> same_doc s s'"
proof -
  obtain k where exits: "\<And>e u. accept_new_connection1 E (fd, addr) (s\<lparr>cur := k\<rparr>) = (Inl e, u) \<Longrightarrow>
      main_round1 E (Ready [server_fd E]) (fd, addr) s = (Inl e, u)"
    and returns: "\<And>y u cs'. accept_new_connection1 E (fd, addr) (s\<lparr>cur := k\<rparr>) = (Inr y, u) \<Longrightarrow> table_is cs' u \<Longrightarrow>
      clients_ok E cs' \<Longrightarrow> \<exists>k'. main_round1 E (Ready [server_fd E]) (fd, addr) s = (Inr (), u\<lparr>cur := k'\<rparr>)"
    using newcomer_round [OF assms(1-4), of "(fd, addr)"] by metis
  let ?junk = "login_role (junk_username E) (junk_password E)"
  let ?s = "s\<lparr>cur := k, streams := (streams s)(fd := evs),
    terminal := terminal s @ [''[SERVER] Error reading credentials from client''], closed1 := closed1 s @ [fd]\<rparr>"
  have nz: "fd \<noteq> -1" using assms(5) by simp
  have read: "read1 fd (s\<lparr>cur := k\<rparr>) = (Inr At_end, s\<lparr>cur := k, streams := (streams s)(fd := evs)\<rparr>)"
    using assms(7) by (simp add: read1_def)
  have scan: "scan_word 99 [] = None" by (simp add: scan_word_spaces)
  have auth: "auth_client1 E fd (s\<lparr>cur := k\<rparr>) = (if ?junk \<noteq> -1 then (Inr ?junk, ?s\<lparr>sent1 := sent1 s @ [(fd, ''Authenticated'')]\<rparr>)
      else (Inr (-1), ?s\<lparr>sent1 := sent1 s @ [(fd, ''Denied'')], closed1 := closed1 s @ [fd, fd]\<rparr>))"
    by (simp add: auth_client1_def read scan login_role_def)
  show ?thesis
  proof (cases "?junk \<noteq> -1")
    case True
    from watch1_run [OF assms(1-3)] assms(4) obtain fds k' where "watch1 E s = (Inr (Max (open_fds E s), fds), s\<lparr>cur := k'\<rparr>)" by auto
    from watched_room(1) [OF assms(1-3) this] have "length cs < MAX_CLIENTS" .
    then have slot: "0 \<le> num_clients s" "num_clients s < int (length (clients s))"
      using assms(1) by (simp_all add: table_is_def)
    have "fst (accept_new_connection1 E (fd, addr) (s\<lparr>cur := k\<rparr>)) = Inl (Exit 1)"
      using True nz slot by (simp add: accept_new_connection1_def auth set_slot_def new_client_address1_run)
    then have "accept_new_connection1 E (fd, addr) (s\<lparr>cur := k\<rparr>) = (Inl (Exit 1), snd (accept_new_connection1 E (fd, addr) (s\<lparr>cur := k\<rparr>)))"
      by (simp add: prod_eq_iff)
    from exits [OF this] True show ?thesis by simp
  next
    case False
    let ?u = "?s\<lparr>sent1 := sent1 s @ [(fd, ''Denied'')], closed1 := closed1 s @ [fd, fd, fd],
      terminal := terminal ?s @ [''[SERVER] Client could not be authenticated'']\<rparr>"
    have "accept_new_connection1 E (fd, addr) (s\<lparr>cur := k\<rparr>) = (Inr (-1), ?u)"
      using False nz by (simp add: accept_new_connection1_def auth)
    moreover have "table_is cs ?u" using assms(1) by (simp add: table_is_def)
    ultimately obtain k' where "main_round1 E (Ready [server_fd E]) (fd, addr) s = (Inr (), ?u\<lparr>cur := k'\<rparr>)"
      using returns assms(2) by blast
    moreover have "table_is cs (?u\<lparr>cur := k'\<rparr>)" "same_doc s (?u\<lparr>cur := k'\<rparr>)" using assms(1) by (simp_all add: table_is_def same_doc_def)
    ultimately show ?thesis using False by auto
  qed
qed

theorem lab1_silent_client_witness:
  "\<exists>s :: (ref_heap, nat) lab1. table_is [\<lparr>socket = 6, role = 1\<rparr>] s \<and>
     (\<exists>s'. main_round1 demo1 (Ready [3]) (7, ''client'') s = (Inr (), s') \<and> closed1 s' = closed1 s @ [7, 7, 7]) \<and>
     fst (main_round1 (demo1\<lparr>junk_username := ''ubuntu'', junk_password := ''ubuntu''\<rparr>) (Ready [3]) (7, ''client'') s) = Inl (Exit 1)"
proof -
  obtain s0 :: "(ref_heap, nat) lab1" where t0: "table_is [\<lparr>socket = 6, role = 1\<rparr>] s0" using demo1_root by blast
  define s where "s = s0\<lparr>streams := (\<lambda>_. [])\<rparr>"
  let ?F = "demo1\<lparr>junk_username := ''ubuntu'', junk_password := ''ubuntu''\<rparr>"
  have t: "table_is [\<lparr>socket = 6, role = 1\<rparr>] s" using t0 by (simp add: s_def table_is_def)
  have ok: "clients_ok demo1 [\<lparr>socket = 6, role = 1\<rparr>]" "clients_ok ?F [\<lparr>socket = 6, role = 1\<rparr>]" "three_fds demo1" "three_fds ?F"
    by (simp_all add: clients_ok_def three_fds_def demo1_def)
  have fds: "open_fds demo1 s = {3, 4, 5, 6}" "open_fds ?F s = {3, 4, 5, 6}"
    using table_is_sockets [OF t] by (auto simp: open_fds_def demo1_def)
  have Max: "Max (open_fds demo1 s) \<le> int MAX_CLIENTS" "Max (open_fds ?F s) \<le> int MAX_CLIENTS" "7 \<notin> open_fds demo1 s" "7 \<notin> open_fds ?F s"
    by (simp_all add: fds MAX_CLIENTS_def)
  have read: "read_blocking MAX_BUFFER1 (streams s 7) = (At_end, [])" by (simp add: s_def)
  have j: "login_role (junk_username demo1) (junk_password demo1) = -1" "login_role (junk_username ?F) (junk_password ?F) \<noteq> -1"
    by (simp_all add: login_role_def demo1_def)
  from lab1_silent_client [OF t ok(1,3) Max(1) _ Max(3) read, of "''client''"] j(1)
    lab1_silent_client [OF t ok(2,4) Max(2) _ Max(4) read, of "''client''"] j(2) t
  show ?thesis by (intro exI [of _ s]) auto
qed

section \<open>Leaving\<close>

text \<open>
  C25: a client that leaves.  Its slot is removed, the other clients keep their
  order, its descriptor is closed, the document stays, and its address is printed cut to 15 bytes.  If
  \<open>getpeername\<close> fails for it, though, the whole server exits, and if the log cannot be
  opened the server runs into a null pointer, since the check of the log compares 0
  or 1 with -1.
\<close>

theorem lab1_disconnect:
  assumes "table_is cs s" and "i < length cs"
  shows "(peer1 E fd = None \<longrightarrow> fst (disconnect_client1 E fd (int i) s) = Inl (Exit 1)) \<and>
    (\<forall>addr. peer1 E fd = Some addr \<longrightarrow>
      (\<not> log_opens1 E \<longrightarrow> fst (disconnect_client1 E fd (int i) s) = Inl Undefined) \<and>
      (log_opens1 E \<longrightarrow> (\<exists>s'. disconnect_client1 E fd (int i) s = (Inr (), s') \<and>
         table_is (take i cs @ drop (Suc i) cs) s' \<and> closed1 s' = closed1 s @ [fd] \<and> same_doc s s' \<and> sent1 s' = sent1 s \<and>
         terminal s' = terminal s @ [''[SERVER] Client disconnected at '' @ take 15 addr])))"
proof (intro conjI allI impI)
  show "fst (disconnect_client1 E fd (int i) s) = Inl (Exit 1)" if "peer1 E fd = None"
    using that by (simp add: disconnect_client1_def get_client_address1_run)
next
  fix addr
  assume peer: "peer1 E fd = Some addr"
  show "fst (disconnect_client1 E fd (int i) s) = Inl Undefined" if "\<not> log_opens1 E"
    using that peer by (simp add: disconnect_client1_def get_client_address1_run log_activity1_run)
  show "\<exists>s'. disconnect_client1 E fd (int i) s = (Inr (), s') \<and> table_is (take i cs @ drop (Suc i) cs) s' \<and>
      closed1 s' = closed1 s @ [fd] \<and> same_doc s s' \<and> sent1 s' = sent1 s \<and>
      terminal s' = terminal s @ [''[SERVER] Client disconnected at '' @ take 15 addr]" if "log_opens1 E"
    using disconnect_client1_run [OF assms that peer] assms
    by (auto simp: table_is_def same_doc_def without_def)
qed

theorem lab1_disconnect_witness:
  "\<exists>s s' :: (ref_heap, nat) lab1. disconnect_client1 demo1 7 1 s = (Inr (), s') \<and>
     table_is [\<lparr>socket = 6, role = 0\<rparr>, \<lparr>socket = 8, role = 0\<rparr>] s' \<and> closed1 s' = [7]"
proof -
  define cs where "cs = map (\<lambda>fd. \<lparr>socket = fd, role = 0 :: int\<rparr>) [6, 7, 8 :: int]"
  define s :: "(ref_heap, nat) lab1" where
    "s = (boot empty_heap)\<lparr>clients := cs @ replicate (MAX_CLIENTS - length cs) no_client, num_clients := int (length cs)\<rparr>"
  have t: "table_is cs s" by (simp add: s_def table_is_def cs_def MAX_CLIENTS_def)
  have i: "1 < length cs" by (simp add: cs_def)
  obtain addr where "peer1 demo1 7 = Some addr" "log_opens1 demo1" by (simp add: demo1_def)
  with lab1_disconnect [OF t i, of demo1 7] obtain s' where "disconnect_client1 demo1 7 (int 1) s = (Inr (), s')"
    "table_is (take 1 cs @ drop (Suc 1) cs) s'" "closed1 s' = closed1 s @ [7]" by blast
  then show ?thesis by (intro exI [of _ s] exI [of _ s']) (simp add: cs_def s_def boot_def)
qed

section \<open>The limit of the table\<close>

text \<open>
  C26: which descriptors are watched.  With the different positive descriptors that the
  kernel gives, the loop that fills the set for \<open>select\<close> reaches every connected client
  although its bound is the largest descriptor seen so far; it reads behind the table of
  clients exactly when some open descriptor is above \<open>MAX_CLIENTS\<close>.  So with 98 clients
  or more a round is always undefined, and the branch for a full table is never taken.
\<close>

theorem lab1_watch:
  assumes "table_is cs s" and "clients_ok E cs" and "three_fds E"
  shows "(Max (open_fds E s) \<le> int MAX_CLIENTS \<longrightarrow>
      (\<exists>fds k. watch1 E s = (Inr (Max (open_fds E s), fds), s\<lparr>cur := k\<rparr>) \<and> set fds = open_fds E s)) \<and>
    (Max (open_fds E s) > int MAX_CLIENTS \<longrightarrow> fst (watch1 E s) = Inl Undefined) \<and>
    (98 \<le> length cs \<longrightarrow> fst (main_round1 E sel accepted s) = Inl Undefined)"
proof -
  note w = watch1_run [OF assms]
  have "fst (main_round1 E sel accepted s) = Inl Undefined" if "98 \<le> length cs"
  proof -
    have "int (length cs) + 3 \<le> Max (open_fds E s)"
      using bound_above [OF assms(2,3), of "length cs"] fds_upto_all [OF assms(1), of E] by simp
    with that have "\<not> Max (open_fds E s) \<le> int MAX_CLIENTS" by (simp add: MAX_CLIENTS_def)
    with w have "fst (watch1 E s) = Inl Undefined" by simp
    then show ?thesis by (cases "watch1 E s") (simp add: main_round1_def)
  qed
  with w show ?thesis by (simp split: if_splits)
qed

theorem lab1_watch_witness:
  "\<exists>s fds. fst (watch1 demo1 s) = Inr (6 :: int, fds) \<and> table_is [\<lparr>socket = 6, role = 1\<rparr>] (s :: (ref_heap, nat) lab1) \<and>
     set fds = {3, 4, 5, 6}"
proof -
  obtain s :: "(ref_heap, nat) lab1" where t: "table_is [\<lparr>socket = 6, role = 1\<rparr>] s" using demo1_root by blast
  have ok: "clients_ok demo1 [\<lparr>socket = 6, role = 1\<rparr>]" "three_fds demo1"
    by (simp_all add: clients_ok_def three_fds_def demo1_def)
  have fds: "open_fds demo1 s = {3, 4, 5, 6}"
    using table_is_sockets [OF t] by (auto simp: open_fds_def demo1_def)
  have "Max {3, 4, 5, 6 :: int} = 6" by simp
  with lab1_watch [OF t ok] fds obtain l k where "watch1 demo1 s = (Inr (6, l), s\<lparr>cur := k\<rparr>)" "set l = {3, 4, 5, 6}"
    by (auto simp: MAX_CLIENTS_def)
  with t show ?thesis by (intro exI [of _ s] exI [of _ l]) simp
qed

section \<open>The client program\<close>

text \<open>
  What the client makes of the answer to its credentials.  \<open>Denied\<close> and a failed
  \<open>recv\<close> end it with a closed socket; \<open>Authenticated\<close> lets it go on, and so does a server
  that closes the connection without an answer, which it reports as a success before it
  leaves at its first \<open>recv\<close>.  Behind the terminated credentials it has sent the
  uninitialised rest of its array.
\<close>

theorem lab1_client_login:
  assumes "c1_prints H" and "length u + 1 + length p < MAX_BUFFER2" and "length (c1_junk H) = MAX_BUFFER2"
  shows "(downlink c = Data ''Denied'' # evs \<longrightarrow> fst (login1 H u p c) = Inl (Exit 1) \<and> hung_up (snd (login1 H u p c)) \<and>
       shown (snd (login1 H u p c)) = shown c @ [''[SERVER]'' @ [LF] @ ''Authentication failed'']) \<and>
    (downlink c = Failed # evs \<longrightarrow> fst (login1 H u p c) = Inl (Exit 1) \<and> hung_up (snd (login1 H u p c))) \<and>
    (downlink c = Data ''Authenticated'' # evs \<longrightarrow> fst (login1 H u p c) = Inr () \<and>
       shown (snd (login1 H u p c)) = shown c @ [''[SERVER]'' @ [LF] @ ''Authentication succeed.'']) \<and>
    (downlink c = [] \<longrightarrow> fst (login1 H u p c) = Inr () \<and>
       shown (snd (login1 H u p c)) = shown c @ [''[SERVER]'' @ [LF] @ ''Authentication succeed.''] \<and>
       fst (client_loop1 (Suc n) (snd (login1 H u p c))) = Inr False) \<and>
    (\<exists>message. uplink1 (snd (login1 H u p c)) = uplink1 c @ [message] \<and>
       message = (u @ '' '' @ p) @ NUL # drop (length u + length p + 2) (c1_junk H))"
proof (intro conjI)
  show "\<exists>message. uplink1 (snd (login1 H u p c)) = uplink1 c @ [message] \<and>
      message = (u @ '' '' @ p) @ NUL # drop (length u + length p + 2) (c1_junk H)"
    using assms by (auto simp: login1_def Let_def credentials1_def snprintf_def buf_fill_def split: prod.splits)
  show "downlink c = [] \<longrightarrow> fst (login1 H u p c) = Inr () \<and>
       shown (snd (login1 H u p c)) = shown c @ [''[SERVER]'' @ [LF] @ ''Authentication succeed.''] \<and>
       fst (client_loop1 (Suc n) (snd (login1 H u p c))) = Inr False"
  proof
    assume "downlink c = []"
    with assms(1) have run: "login1 H u p c = (Inr (), c\<lparr>uplink1 := uplink1 c @ [credentials1 (c1_junk H) u p],
        shown := shown c @ [''[SERVER]'' @ [LF] @ ''Authentication succeed.''], downlink := []\<rparr>)"
      by (simp add: login1_def)
    have once: "fst (client_round1 t) = Inr False" if "downlink t = []" for t
      using that by (cases "typed t"; cases "hd (typed t)") (simp_all add: client_round1_def Let_def)
    have loop: "fst (client_loop1 (Suc n) t) = Inr False" if "downlink t = []" for t
    proof -
      from once [OF that] obtain t' where "client_round1 t = (Inr False, t')" by (metis prod.collapse)
      then show ?thesis by simp
    qed
    with run show "fst (login1 H u p c) = Inr () \<and>
       shown (snd (login1 H u p c)) = shown c @ [''[SERVER]'' @ [LF] @ ''Authentication succeed.''] \<and>
       fst (client_loop1 (Suc n) (snd (login1 H u p c))) = Inr False" by simp
  qed
qed (use assms(1) in \<open>auto simp: login1_def MAX_BUFFER2_def NUL_def\<close>)

theorem lab1_client_login_witness:
  "\<exists>c. downlink c = [Data ''Denied''] \<and> fst (login1 demo_client ''guest'' ''guest'' c) = Inl (Exit 1) \<and>
     hung_up (snd (login1 demo_client ''guest'' ''guest'' c))"
proof -
  define c where "c = \<lparr>uplink1 = [], shown = [], downlink = [Data ''Denied''], typed = [], hung_up = False\<rparr>"
  have "c1_prints demo_client" "length ''guest'' + 1 + length ''guest'' < MAX_BUFFER2" "length (c1_junk demo_client) = MAX_BUFFER2"
    by (simp_all add: demo_client_def MAX_BUFFER2_def)
  from lab1_client_login [OF this, of c "[]" 0] show ?thesis by (intro exI [of _ c]) (simp add: c_def)
qed

text \<open>
  What the client shows.  A piece shorter than the array is printed up to its first
  NUL and the client goes on; a piece that fills the array makes it write behind the
  array; a failing \<open>recv\<close>, like a quiet moment, only makes it try again.  In the same
  iteration one line from the terminal is sent, without its NUL.
\<close>

theorem lab1_client_shows:
  assumes "typed c = Some line # ks"
  shows "(\<forall>bs evs. downlink c = Data bs # evs \<and> bs \<noteq> [] \<and> length bs < MAX_BUFFER2 \<longrightarrow>
       client_round1 c = (Inr True, c\<lparr>typed := ks, uplink1 := uplink1 c @ [text_of line], downlink := evs,
         shown := shown c @ [''[SERVER]'' @ [LF] @ text_of bs]\<rparr>)) \<and>
    (\<forall>bs evs. downlink c = Data bs # evs \<and> MAX_BUFFER2 \<le> length bs \<longrightarrow> fst (client_round1 c) = Inl Undefined) \<and>
    (\<forall>e evs. e \<in> {Quiet, Failed} \<and> downlink c = e # evs \<longrightarrow>
       client_round1 c = (Inr True, c\<lparr>typed := ks, uplink1 := uplink1 c @ [text_of line], downlink := evs\<rparr>))"
  using assms by (auto simp: client_round1_def Let_def MAX_BUFFER2_def)

theorem lab1_client_shows_witness:
  "\<exists>c. typed c = [Some ''state''] \<and> fst (client_round1 c) = Inr True \<and> uplink1 (snd (client_round1 c)) = [''state''] \<and>
     shown (snd (client_round1 c)) = [''[SERVER]'' @ [LF] @ ''ok'']"
proof -
  define c where "c = \<lparr>uplink1 = [], shown = [], downlink = [Data ''ok''], typed = [Some ''state''], hung_up = False\<rparr>"
  have "typed c = Some ''state'' # []" by (simp add: c_def)
  from lab1_client_shows [OF this] show ?thesis by (intro exI [of _ c]) (simp add: c_def MAX_BUFFER2_def NUL_def)
qed

end
