(* ===== verification/Lab1_Sensors.thy ===== *)
theory Lab1_Sensors
  imports Sensors Stdio
begin

text \<open>
  The two sensor processes of the first laboratory: \<open>lib/libdyn/src/alerts.c\<close> and
  \<open>lib/libsta/src/emergency.c\<close> of \<open>lab1_-manugcr\<close>.
\<close>

section \<open>Constants\<close>

definition ALLOWED_TEMPERATURE :: rat where
  "ALLOWED_TEMPERATURE = 38"

definition MIN_TEMPERATURE :: rat where
  "MIN_TEMPERATURE = 35"

definition MAX_TEMPERATURE :: rat where
  "MAX_TEMPERATURE = 42"

definition MAX_AL_BUFFER :: nat where
  "MAX_AL_BUFFER = 100"

definition MAX_ALERTS_RANDOM_VALUE :: int where
  "MAX_ALERTS_RANDOM_VALUE = 16"

definition FLOOR_AL_VALUE :: int where
  "FLOOR_AL_VALUE = 10"

definition MAX_EMG_BUFFER :: nat where
  "MAX_EMG_BUFFER = 100"

definition MAX_EMG_RANDOM_VALUE :: int where
  "MAX_EMG_RANDOM_VALUE = 31"

definition FLOOR_EMG_VALUE :: int where
  "FLOOR_EMG_VALUE = 60"

section \<open>Random numbers and single precision\<close>

text \<open>
  \<open>rand\<close> with \<open>RAND_MAX\<close>, and the rounding of a result to a \<open>float\<close>: it is monotone and
  leaves whole numbers up to \<open>2 ^ 24\<close> as they are.
\<close>

record 'g c_lib =
  c_rand :: "'g \<Rightarrow> int \<times> 'g"
  rand_max :: int
  fl32 :: "rat \<Rightarrow> rat"

locale c_random =
  fixes L :: "'g c_lib"
  assumes rand_range: "0 \<le> fst (c_rand L g) \<and> fst (c_rand L g) \<le> rand_max L"
    and rand_max_pos: "0 < rand_max L"
    and fl_mono: "x \<le> y \<Longrightarrow> fl32 L x \<le> fl32 L y"
    and fl_whole: "\<bar>n\<bar> \<le> 2 ^ 24 \<Longrightarrow> fl32 L (of_int n) = of_int n"

section \<open>The state of a sensor\<close>

text \<open>
  The generator, the times slept, what was written into the pipe, what was printed,
  and the outcomes of the calls of \<open>write\<close> to come.
\<close>

record 'g sensor1 =
  gen :: 'g
  naps :: "int list"
  written :: "string list"
  said :: "string list"
  writes_ok :: "bool list"

type_synonym ('g, 'a) sact = "('g sensor1, 'a) act"

definition rand1 :: "'g c_lib \<Rightarrow> ('g, int) sact" where
  "rand1 L = (\<lambda>s. let (v, g) = c_rand L (gen s) in (Inr v, s\<lparr>gen := g\<rparr>))"

definition fail1 :: "string \<Rightarrow> ('g, 'a) sact" where
  "fail1 msg = (\<lambda>s. (Inl (Exit 1), s\<lparr>said := said s @ [msg]\<rparr>))"

definition sleep1 :: "int \<Rightarrow> ('g, unit) sact" where
  "sleep1 n = (\<lambda>s. (Inr (), s\<lparr>naps := naps s @ [n]\<rparr>))"

text \<open>\<open>write\<close> of a C string, whose result -1 ends the process.\<close>

definition write_line :: "string \<Rightarrow> ('g, unit) sact" where
  "write_line t = (\<lambda>s. case writes_ok s of
      False # oks \<Rightarrow> fail1 ''[ERROR] write'' (s\<lparr>writes_ok := oks\<rparr>)
    | oks \<Rightarrow> (Inr (), s\<lparr>writes_ok := tl oks, written := written s @ [t]\<rparr>))"

section \<open>Alerts\<close>

definition alert_entries :: "string list" where
  "alert_entries = [''north_entry'', ''east_entry'', ''west_entry'', ''south_entry'']"

definition generate_random_temperature :: "'g c_lib \<Rightarrow> ('g, rat) sact" where
  "generate_random_temperature L = bnd (rand1 L) (\<lambda>r.
     ret (fl32 L (MIN_TEMPERATURE + fl32 L (fl32 L (fl32 L (of_int r) / fl32 L (of_int (rand_max L)))
       * fl32 L (MAX_TEMPERATURE - MIN_TEMPERATURE)))))"

text \<open>\<open>sprintf\<close> into the array of \<open>MAX_AL_BUFFER\<close> bytes; the index is always in range.\<close>

definition generate_alert :: "'g c_lib \<Rightarrow> ('g, string) sact" where
  "generate_alert L =
     bnd (rand1 L) (\<lambda>r. let entry_index = r mod 4 in
     bnd (generate_random_temperature L) (\<lambda>temperature.
     let t = ''Alert of possible infection in '' @ alert_entries ! nat entry_index @ '', '' @ fixed1 temperature @ [LF]
     in if length t < MAX_AL_BUFFER then ret t else halt Undefined))"

definition send_alert_if_needed :: "string \<Rightarrow> rat \<Rightarrow> ('g, unit) sact" where
  "send_alert_if_needed alert_message temperature =
     (if temperature \<ge> ALLOWED_TEMPERATURE then write_line alert_message else ret ())"

definition sleep_random_interval :: "'g c_lib \<Rightarrow> ('g, unit) sact" where
  "sleep_random_interval L = bnd (rand1 L) (\<lambda>r. sleep1 (r mod MAX_ALERTS_RANDOM_VALUE + FLOOR_AL_VALUE))"

definition open_alert_pipe1 :: "int \<Rightarrow> ('g, int) sact" where
  "open_alert_pipe1 fd = (if fd = -1 then fail1 ''Failed to open alert pipe'' else ret fd)"

text \<open>The body of the endless loop, and the loop for a given number of rounds.\<close>

definition alert_round1 :: "'g c_lib \<Rightarrow> ('g, unit) sact" where
  "alert_round1 L =
     thn (sleep_random_interval L)
    (bnd (generate_alert L) (\<lambda>alert_message.
     bnd (generate_random_temperature L) (\<lambda>temperature.
     send_alert_if_needed alert_message temperature)))"

fun repeat_act :: "nat \<Rightarrow> ('s, unit) act \<Rightarrow> ('s, unit) act" where
  "repeat_act 0 m = ret ()"
| "repeat_act (Suc n) m = thn m (repeat_act n m)"

definition start_alerts :: "'g c_lib \<Rightarrow> int \<Rightarrow> nat \<Rightarrow> ('g, unit) sact" where
  "start_alerts L fd rounds = bnd (open_alert_pipe1 fd) (\<lambda>_. repeat_act rounds (alert_round1 L))"

section \<open>Emergencies\<close>

definition open_emergency_pipe1 :: "int \<Rightarrow> ('g, int) sact" where
  "open_emergency_pipe1 fd = (if fd = -1 then fail1 ''[ERROR] Failed to open emergency pipe'' else ret fd)"

definition generate_emergency_message1 :: "('g, string) sact" where
  "generate_emergency_message1 =
     (let t = ''Server failure/Server shutdown'' @ [LF] in if length t < MAX_EMG_BUFFER then ret t else halt Undefined)"

definition send_emergency_message :: "string \<Rightarrow> ('g, unit) sact" where
  "send_emergency_message emergency_message = write_line emergency_message"

definition sleep_random_interval_emergency :: "'g c_lib \<Rightarrow> ('g, unit) sact" where
  "sleep_random_interval_emergency L = bnd (rand1 L) (\<lambda>r. sleep1 (r mod MAX_EMG_RANDOM_VALUE + FLOOR_EMG_VALUE))"

definition emergency_round1 :: "'g c_lib \<Rightarrow> ('g, unit) sact" where
  "emergency_round1 L =
     thn (sleep_random_interval_emergency L) (bnd generate_emergency_message1 send_emergency_message)"

definition start_emergencies :: "'g c_lib \<Rightarrow> int \<Rightarrow> nat \<Rightarrow> ('g, unit) sact" where
  "start_emergencies L fd rounds = bnd (open_emergency_pipe1 fd) (\<lambda>_. repeat_act rounds (emergency_round1 L))"

section \<open>A reference library\<close>

text \<open>A linear congruential generator, and a rounding down to sixteen binary places.\<close>

definition lcg1 :: "nat c_lib" where
  "lcg1 = \<lparr>c_rand = (\<lambda>g. (int (g mod 32768), (1103515245 * g + 12345) mod 2147483648)),
           rand_max = 32767, fl32 = (\<lambda>x. of_int \<lfloor>x * 65536\<rfloor> / 65536)\<rparr>"

interpretation lcg1: c_random lcg1
proof
  show "0 \<le> fst (c_rand lcg1 g) \<and> fst (c_rand lcg1 g) \<le> rand_max lcg1" for g
  proof -
    have "g mod 32768 < 32768" by simp
    then show ?thesis by (simp add: lcg1_def)
  qed
  show "0 < rand_max lcg1" by (simp add: lcg1_def)
  show "fl32 lcg1 x \<le> fl32 lcg1 y" if "x \<le> y" for x y
    using that by (simp add: lcg1_def divide_right_mono floor_mono)
  show "fl32 lcg1 (of_int n) = of_int n" for n
  proof -
    have "(of_int n :: rat) * 65536 = of_int (n * 65536)" by simp
    then have "\<lfloor>(of_int n :: rat) * 65536\<rfloor> = n * 65536" by (simp only: floor_of_int)
    then show ?thesis by (simp add: lcg1_def)
  qed
qed

end
