(* ===== verification/Lab1_Pipe_Props.thy ===== *)
theory Lab1_Pipe_Props
  imports Lab1_Props Lab1_Sensors
begin

text \<open>
  Properties of the two pipes of the first laboratory, from the sensor processes to
  the clients.
\<close>

section \<open>Alert lines\<close>

definition alert_text :: "string \<Rightarrow> rat \<Rightarrow> string" where
  "alert_text entry t = ''Alert of possible infection in '' @ entry @ '', '' @ fixed1 t"

definition alert_ok :: "string \<times> rat \<Rightarrow> bool" where
  "alert_ok x \<longleftrightarrow> fst x \<in> set alert_names \<and> 35 \<le> snd x \<and> snd x \<le> 42"

definition alert_line1 :: "string \<times> rat \<Rightarrow> string" where
  "alert_line1 x = alert_text (fst x) (snd x) @ [LF]"

lemma show_digit: "0 \<le> b \<Longrightarrow> b < 10 \<Longrightarrow> show_int b = [digit_char (nat b)]"
  by (simp add: show_int_def show_nat.simps)

lemma fixed1_shape:
  assumes "35 \<le> t" "t \<le> 42"
  obtains a d where "fixed1 t = show_int a @ ''.'' @ [d]" "a \<in> {35, 36, 37, 38, 39, 40, 41, 42}" "is_digit d"
proof -
  let ?n = "round_half_even (10 * \<bar>t\<bar>)"
  have n: "350 \<le> ?n" "?n \<le> 420"
    using assms by (intro round_half_even_bounds; simp)+
  have a: "?n div 10 \<in> {35, 36, 37, 38, 39, 40, 41, 42}" 
  proof -
    have "?n div 10 \<in> {35..42}" using n by auto
    moreover have "{35..42 :: int} = {35, 36, 37, 38, 39, 40, 41, 42}" by code_simp
    ultimately show ?thesis by blast
  qed
  have b: "0 \<le> ?n mod 10" "?n mod 10 < 10" by simp_all
  have "fixed1 t = show_int (?n div 10) @ ''.'' @ [digit_char (nat (?n mod 10))]"
    using assms show_digit [OF b] by (simp add: fixed1_def Let_def)
  moreover have "is_digit (digit_char (nat (?n mod 10)))" using b by (intro digit_char_digit) simp
  ultimately show ?thesis using a by (intro that)
qed

lemma show_temps:
  "show_int 35 = ''35''" "show_int 36 = ''36''" "show_int 37 = ''37''" "show_int 38 = ''38''"
  "show_int 39 = ''39''" "show_int 40 = ''40''" "show_int 41 = ''41''" "show_int 42 = ''42''"
  by code_simp+

lemma lower_digit: "is_digit d \<Longrightarrow> lower d = d"
  by (simp add: lower_def is_digit_def)

lemma lower_LF: "lower LF = LF" "\<not> is_digit LF" "LF \<noteq> CHR ''e''"
  by code_simp+

lemma float_ok:
  assumes "is_digit x" "is_digit y" "is_digit d" and "rest = [] \<or> hd rest = LF"
  shows "scan_float_ok (x # y # CHR ''.'' # d # rest)"
proof -
  have tail: "case dropWhile is_digit (map lower rest) of [] \<Rightarrow> True
      | c # q \<Rightarrow> lower c = CHR ''e'' \<longrightarrow> takeWhile is_digit (skip_sign q) \<noteq> []"
    using assms(4) lower_LF by (cases rest) auto
  have x: "\<not> is_space x" "x \<noteq> CHR ''-''" "x \<noteq> CHR ''+''" using assms(1) by (auto simp: is_digit_def is_space_def)
  have y: "y \<noteq> CHR ''x''" using assms(2) by (auto simp: is_digit_def)
  have dot: "lower (CHR ''.'') = CHR ''.''" "\<not> is_digit (CHR ''.'')" by code_simp+
  have "skip_sign (dropWhile is_space (x # y # CHR ''.'' # d # rest)) = x # y # CHR ''.'' # d # rest"
    using x by (simp add: skip_sign_def)
  then show ?thesis
    using assms(1-3) y tail by (simp add: scan_float_ok_def mantissa_ok_def lower_digit dot Let_def)
qed

lemma two_digits:
  assumes "a \<in> {35, 36, 37, 38, 39, 40, 41, 42}"
  obtains x y where "show_int a = [x, y]" "is_digit x" "is_digit y"
proof -
  have "\<forall>a \<in> {35, 36, 37, 38, 39, 40, 41, 42}. length (show_int a) = 2 \<and> (\<forall>d \<in> set (show_int a). is_digit d)"
    by code_simp
  with assms have "length (show_int a) = 2" "\<forall>d \<in> set (show_int a). is_digit d" by blast+
  then show ?thesis by (cases "show_int a"; cases "tl (show_int a)") (auto intro: that)
qed

text \<open>The alert of a sensor is recognised, also when more text follows its line break.\<close>

lemma scan_alert_text:
  assumes "35 \<le> t" "t \<le> 42" and "entry \<in> set alert_names" and "rest = [] \<or> hd rest = LF"
  shows "scan_alert (alert_text entry t @ rest) = Some entry"
proof -
  obtain a d where f: "fixed1 t = show_int a @ ''.'' @ [d]" "a \<in> {35, 36, 37, 38, 39, 40, 41, 42}" "is_digit d"
    using fixed1_shape [OF assms(1,2)] .
  obtain x y where a: "show_int a = [x, y]" "is_digit x" "is_digit y" using two_digits [OF f(2)] .
  have x: "\<not> is_space x" using a(2) by (auto simp: is_digit_def is_space_def)
  have lit: "scan_literal ''Alert of possible infection in '' (''Alert of possible infection in '' @ entry @ u) = Some (entry @ u)" for u
    using assms(3) by (auto simp: alert_names_def is_space_def)
  have until: "scan_until (CHR '','') 99 (entry @ '','' @ u) = Some (entry, '','' @ u)" for u
    using assms(3) by (auto simp: alert_names_def scan_until_def)
  have sep: "scan_literal '', '' ('','' @ '' '' @ x # u) = Some (x # u)" for u
  proof -
    have "\<not> is_space (CHR '','')" by code_simp
    with x show ?thesis by simp
  qed
  have ok: "scan_float_ok (x # y # CHR ''.'' # d # rest)" by (rule float_ok [OF a(2,3) f(3) assms(4)])
  have split: "alert_text entry t @ rest = ''Alert of possible infection in '' @ entry @ '','' @ '' '' @ x # y # CHR ''.'' # d # rest"
    by (simp add: alert_text_def f(1) a(1))
  show ?thesis unfolding scan_alert_def split lit using until sep ok by simp
qed

lemma find_entry: "entry \<in> set alert_names \<Longrightarrow> find (\<lambda>k. same_key k entry) alert_names = Some entry"
  by (auto simp: alert_names_def same_key_def lower_def)

lemma alert_text_effect:
  assumes "35 \<le> t" "t \<le> 42" and "entry \<in> set alert_names" and "rest = [] \<or> hd rest = LF" and "count r entry < INT_MAX"
  shows "alert_effect (alert_text entry t @ rest) r = Inr ([], r\<lparr>count := (count r)(entry := count r entry + 1)\<rparr>)"
  using scan_alert_text [OF assms(1-4)] find_entry [OF assms(3)] assms(5) by (simp add: alert_effect_def)

section \<open>From the pipe to the clients\<close>

lemma strcat_lf_short: "length t < 1023 \<Longrightarrow> strcat_lf MAX_BUFFER1 t = Inr (t @ [LF])"
  by (simp add: strcat_lf_def MAX_BUFFER1_def)

lemma alert_text_length:
  assumes "35 \<le> t" "t \<le> 42" and "entry \<in> set alert_names"
  shows "length (alert_text entry t) < 60" "NUL \<notin> set (alert_text entry t)"
proof -
  obtain a d where f: "fixed1 t = show_int a @ ''.'' @ [d]" "a \<in> {35, 36, 37, 38, 39, 40, 41, 42}" "is_digit d"
    using fixed1_shape [OF assms(1,2)] .
  obtain x y where a: "show_int a = [x, y]" "is_digit x" "is_digit y" using two_digits [OF f(2)] .
  have e: "length entry \<le> 11" "NUL \<notin> set entry" using assms(3) by (auto simp: alert_names_def NUL_def)
  show "length (alert_text entry t) < 60" using e(1) by (simp add: alert_text_def f(1) a(1))
  have "NUL \<notin> {x, y, d}" using a f(3) by (auto simp: is_digit_def NUL_def)
  with e(2) show "NUL \<notin> set (alert_text entry t)" by (auto simp: alert_text_def f(1) a(1) NUL_def)
qed

lemma table_positive: "clients_ok E cs \<Longrightarrow> \<forall>c \<in> set cs. 0 < socket c"
  by (simp add: clients_ok_def)

context lab1_doc
begin

text \<open>One message from the pipe: \<open>text\<close> is what stands before its last byte and before a NUL.\<close>

lemma alert_message1_run:
  assumes "summary_is cells room s r" "table_is cs s" "clients_ok E cs" "log_opens1 E"
    and "text_of (butlast bs) = t" "length t < 1023" and "alert_effect t r = Inr (ms, r')"
  shows "\<exists>s'. alert_message1 E bs s = (Inr (), s') \<and> summary_is cells room s' r' \<and> table_is cs s' \<and>
    sent1 s' = sent1 s @ map (\<lambda>c. (socket c, t @ [LF])) cs \<and> streams s' = streams s"
proof -
  obtain s1 where s1: "modify_alerts1 E t s = (Inr (), s1)" "did s s1 ms r'"
    using modify_alerts1_refines [OF assms(1), of t] assms(7) by auto
  note f = did_frame [OF s1(2)]
  define s2 where "s2 = s1\<lparr>terminal := terminal s1 @ [''[ALERT] '' @ t], ticks1 := Suc (ticks1 s1),
    log_text := log_text s1 @ stamp_log E (ticks1 s1) @ '', '' @ t @ [LF]\<rparr>"
  have t2: "table_is cs s2" using assms(2) f by (simp add: s2_def table_is_def)
  have "alert_message1 E bs s = notify_all (t @ [LF]) s2"
    unfolding alert_message1_def Let_def assms(5)
    using s1(1) assms(4) strcat_lf_short [OF assms(6)] by (simp add: log_activity1_run s2_def)
  moreover have "notify_all (t @ [LF]) s2 = (Inr (), s2\<lparr>sent1 := sent1 s2 @ map (\<lambda>c. (socket c, t @ [LF])) cs\<rparr>)"
    by (rule notify_all_run [OF t2 table_positive [OF assms(3)]])
  moreover have "summary_is cells room s2 r'" using f(1) by (simp add: s2_def summary_is_def)
  ultimately show ?thesis using t2 f by (simp add: s2_def summary_is_def table_is_def)
qed

lemma handle_alerts1_step:
  assumes "streams s fd = Data bs # evs" "bs \<noteq> []" "length bs \<le> MAX_BUFFER1"
    and "alert_message1 E bs (s\<lparr>streams := (streams s)(fd := evs)\<rparr>) = (Inr (), s1)"
  shows "handle_alerts1 E fd s = handle_alerts1 E fd s1"
  using assms by (subst handle_alerts1.simps) simp

text \<open>
  A read that gets several lines: what is left of them when the last line break is
  removed begins with the alert of the first line.
\<close>

lemma merged_lines:
  assumes "xs \<noteq> []" "\<forall>x \<in> set xs. alert_ok x" and "count r (fst (hd xs)) < INT_MAX"
  defines "bs \<equiv> concat (map alert_line1 xs)"
  shows "text_of (butlast bs) @ [LF] = bs"
    "alert_effect (text_of (butlast bs)) r = Inr ([], r\<lparr>count := (count r)(fst (hd xs) := count r (fst (hd xs)) + 1)\<rparr>)"
proof -
  have line: "NUL \<notin> set (alert_line1 x)" "alert_line1 x \<noteq> []" "last (alert_line1 x) = LF" if "alert_ok x" for x
    using alert_text_length(2) [of "snd x" "fst x"] that by (auto simp: alert_ok_def alert_line1_def LF_def NUL_def)
  have no: "NUL \<notin> set bs" using assms(2) line(1) by (auto simp: bs_def)
  obtain zs z where "xs = zs @ [z]" using assms(1) by (cases xs rule: rev_cases) auto
  then have "bs = (concat (map alert_line1 zs) @ alert_text (fst z) (snd z)) @ [LF]" by (simp add: bs_def alert_line1_def)
  then have ends: "butlast bs @ [LF] = bs" by (metis butlast_snoc)
  have "NUL \<notin> set (butlast bs)" using no by (auto dest: in_set_butlastD)
  then have t: "text_of (butlast bs) = butlast bs" by (simp add: text_of_plain)
  with ends show "text_of (butlast bs) @ [LF] = bs" by simp
  obtain e u ys where xs: "xs = (e, u) # ys" using assms(1) by (cases xs) auto
  have ok: "35 \<le> u" "u \<le> 42" "e \<in> set alert_names" using assms(2) xs by (auto simp: alert_ok_def)
  have "\<exists>rest. butlast bs = alert_text e u @ rest \<and> (rest = [] \<or> hd rest = LF)"
  proof (cases "concat (map alert_line1 ys) = []")
    case True
    then show ?thesis by (simp add: bs_def xs alert_line1_def butlast_append)
  next
    case False
    then show ?thesis by (simp add: bs_def xs alert_line1_def butlast_append)
  qed
  then obtain rest where "butlast bs = alert_text e u @ rest" "rest = [] \<or> hd rest = LF" by blast
  with alert_text_effect [OF ok, of rest r] assms(3)
  show "alert_effect (text_of (butlast bs)) r = Inr ([], r\<lparr>count := (count r)(fst (hd xs) := count r (fst (hd xs)) + 1)\<rparr>)"
    unfolding t by (simp add: xs)
qed

text \<open>The loop over a pipe whose reads get one or several lines each.\<close>

lemma handle_alerts1_lines:
  assumes "summary_is cells room s r" "table_is cs s" "clients_ok E cs" "log_opens1 E"
    and "\<forall>xs \<in> set xss. xs \<noteq> [] \<and> (\<forall>x \<in> set xs. alert_ok x) \<and> length (concat (map alert_line1 xs)) < MAX_BUFFER1"
    and "\<forall>k \<in> set alert_names. count r k + int (length xss) \<le> INT_MAX"
    and "streams s fd = map (\<lambda>xs. Data (concat (map alert_line1 xs))) xss @ Quiet # evs"
  shows "\<exists>s'. handle_alerts1 E fd s = (Inr (), s') \<and> table_is cs s' \<and> streams s' fd = evs \<and>
    summary_is cells room s' (r\<lparr>count := \<lambda>k. count r k + int (count_list (map (\<lambda>xs. fst (hd xs)) xss) k)\<rparr>) \<and>
    sent1 s' = sent1 s @ concat (map (\<lambda>xs. map (\<lambda>c. (socket c, concat (map alert_line1 xs))) cs) xss)"
  using assms
proof (induction xss arbitrary: s r)
  case Nil
  let ?s = "s\<lparr>streams := (streams s)(fd := evs)\<rparr>"
  have "handle_alerts1 E fd s = (Inr (), ?s)" using Nil.prems(7) by (subst handle_alerts1.simps) simp
  with Nil.prems show ?case by (simp add: table_is_def summary_is_def)
next
  case (Cons xs xss)
  let ?e = "fst (hd xs)" and ?bs = "concat (map alert_line1 xs)"
  let ?evs = "map (\<lambda>xs. Data (concat (map alert_line1 xs))) xss @ Quiet # evs"
  let ?s = "s\<lparr>streams := (streams s)(fd := ?evs)\<rparr>"
  let ?r = "r\<lparr>count := (count r)(?e := count r ?e + 1)\<rparr>"
  have xs: "xs \<noteq> []" "\<forall>x \<in> set xs. alert_ok x" "length ?bs < MAX_BUFFER1" using Cons.prems(5) by simp_all
  then have e: "?e \<in> set alert_names" by (cases xs) (auto simp: alert_ok_def)
  have bound: "count r k + 1 + int (length xss) \<le> INT_MAX" if "k \<in> set alert_names" for k
    using that Cons.prems(6) by (auto simp: add.assoc)
  have lt: "count r ?e < INT_MAX" using bound [OF e] by linarith
  note m = merged_lines [OF xs(1,2) lt]
  have len: "length (text_of (butlast ?bs)) < 1023"
    using xs(3) arg_cong [OF m(1), of length] by (simp add: MAX_BUFFER1_def)
  have pre: "summary_is cells room ?s r" "table_is cs ?s" using Cons.prems(1,2) by (simp_all add: summary_is_def table_is_def)
  obtain s1 where s1: "alert_message1 E ?bs ?s = (Inr (), s1)" "summary_is cells room s1 ?r" "table_is cs s1"
    "sent1 s1 = sent1 ?s @ map (\<lambda>c. (socket c, ?bs)) cs" "streams s1 = streams ?s"
    using alert_message1_run [OF pre Cons.prems(3,4) refl len m(2)] unfolding m(1) by auto
  have "?bs \<noteq> []" by (subst m(1) [symmetric]) simp
  then have step: "handle_alerts1 E fd s = handle_alerts1 E fd s1"
    using Cons.prems(7) xs(3) s1(1) by (intro handle_alerts1_step [of s fd ?bs ?evs]) simp_all
  have "\<forall>k \<in> set alert_names. count ?r k + int (length xss) \<le> INT_MAX"
  proof
    fix k
    assume "k \<in> set alert_names"
    from bound [OF this] show "count ?r k + int (length xss) \<le> INT_MAX" by auto
  qed
  moreover have "streams s1 fd = ?evs" using s1(5) by simp
  ultimately obtain s' where s': "handle_alerts1 E fd s1 = (Inr (), s')" "table_is cs s'" "streams s' fd = evs"
    "summary_is cells room s' (?r\<lparr>count := \<lambda>k. count ?r k + int (count_list (map (\<lambda>xs. fst (hd xs)) xss) k)\<rparr>)"
    "sent1 s' = sent1 s1 @ concat (map (\<lambda>xs. map (\<lambda>c. (socket c, concat (map alert_line1 xs))) cs) xss)"
    using Cons.IH [OF s1(2,3) Cons.prems(3,4)] Cons.prems(5) by auto
  have "(\<lambda>k. count ?r k + int (count_list (map (\<lambda>xs. fst (hd xs)) xss) k)) =
      (\<lambda>k. count r k + int (count_list (map (\<lambda>xs. fst (hd xs)) (xs # xss)) k))"
    by (auto simp: fun_eq_iff)
  with s' s1(4) step show ?case by simp
qed

end

section \<open>What the sensors write\<close>

lemma write_line_cases:
  obtains "write_line t s = (Inr (), s\<lparr>writes_ok := tl (writes_ok s), written := written s @ [t]\<rparr>)"
  | "write_line t s = (Inl (Exit 1), s\<lparr>writes_ok := tl (writes_ok s), said := said s @ [''[ERROR] write'']\<rparr>)"
  by (cases "writes_ok s"; cases "hd (writes_ok s)") (auto simp: write_line_def fail1_def)

definition emergency_line :: string where
  "emergency_line = ''Server failure/Server shutdown'' @ [LF]"

text \<open>The temperature as a function of the random number.\<close>

definition temperature_of :: "'g c_lib \<Rightarrow> int \<Rightarrow> rat" where
  "temperature_of L v = fl32 L (35 + fl32 L (fl32 L (fl32 L (of_int v) / fl32 L (of_int (rand_max L))) * 7))"

context c_random
begin

lemma rand1_run:
  obtains v g where "rand1 L s = (Inr v, s\<lparr>gen := g\<rparr>)" "0 \<le> v" "v \<le> rand_max L"
  using rand_range [of "gen s"] by (cases "c_rand L (gen s)") (auto simp: rand1_def)

text \<open>The temperature stays in its range although every operation is rounded.\<close>

lemma temperature_range:
  obtains t g where "generate_random_temperature L s = (Inr t, s\<lparr>gen := g\<rparr>)" "35 \<le> t" "t \<le> 42"
proof -
  obtain v g where v: "rand1 L s = (Inr v, s\<lparr>gen := g\<rparr>)" "0 \<le> v" "v \<le> rand_max L" by (rule rand1_run)
  let ?x = "fl32 L (of_int v)" and ?y = "fl32 L (of_int (rand_max L))"
  have whole: "fl32 L 0 = 0" "fl32 L 1 = 1" "fl32 L 7 = 7" "fl32 L 35 = 35" "fl32 L 42 = 42"
    using fl_whole [of 0] fl_whole [of 1] fl_whole [of 7] fl_whole [of 35] fl_whole [of 42] by simp_all
  have "fl32 L 0 \<le> ?x" using v(2) by (intro fl_mono) simp
  then have x0: "0 \<le> ?x" using whole by simp
  have xy: "?x \<le> ?y" using v(3) by (intro fl_mono) simp
  have "fl32 L 1 \<le> ?y" using rand_max_pos by (intro fl_mono) simp
  then have y1: "1 \<le> ?y" using whole by simp
  define q where "q = fl32 L (?x / ?y)"
  have "0 \<le> ?x / ?y" "?x / ?y \<le> 1" using x0 xy y1 by (simp_all add: divide_le_eq)
  then have q: "0 \<le> q" "q \<le> 1" using fl_mono [of 0 "?x / ?y"] fl_mono [of "?x / ?y" 1] whole by (simp_all add: q_def)
  define p where "p = fl32 L (q * 7)"
  have p: "0 \<le> p" "p \<le> 7" using q fl_mono [of 0 "q * 7"] fl_mono [of "q * 7" 7] whole by (simp_all add: p_def)
  have "35 \<le> fl32 L (35 + p)" "fl32 L (35 + p) \<le> 42"
    using p fl_mono [of 35 "35 + p"] fl_mono [of "35 + p" 42] whole by simp_all
  moreover have "generate_random_temperature L s = (Inr (fl32 L (35 + p)), s\<lparr>gen := g\<rparr>)"
    using v(1) whole(3) by (simp add: generate_random_temperature_def MIN_TEMPERATURE_def MAX_TEMPERATURE_def p_def q_def)
  ultimately show ?thesis using that by blast
qed

lemma temperature_run: "c_rand L (gen s) = (v, g) \<Longrightarrow> generate_random_temperature L s = (Inr (temperature_of L v), s\<lparr>gen := g\<rparr>)"
  using fl_whole [of 7] by (simp add: generate_random_temperature_def rand1_def temperature_of_def MIN_TEMPERATURE_def MAX_TEMPERATURE_def)

lemma entry_ok: "alert_entries ! nat (v mod 4) \<in> set alert_names"
proof -
  have "nat (v mod 4) < 4" by (simp add: nat_less_iff)
  then have "alert_entries ! nat (v mod 4) \<in> set alert_entries" by (intro nth_mem) (simp add: alert_entries_def)
  then show ?thesis by (simp add: alert_entries_def alert_names_def)
qed

text \<open>One round in terms of the four random numbers that it draws.\<close>

lemma alert_round1_draws:
  assumes "c_rand L (gen s) = (v1, g1)" "c_rand L g1 = (v2, g2)" "c_rand L g2 = (v3, g3)" "c_rand L g3 = (v4, g4)"
  shows "alert_round1 L s = (if 38 \<le> temperature_of L v4 then write_line (alert_line1 (alert_entries ! nat (v2 mod 4), temperature_of L v3)) else ret ())
    (s\<lparr>naps := naps s @ [v1 mod 16 + 10], gen := g4\<rparr>)"
proof -
  let ?e = "alert_entries ! nat (v2 mod 4)"
  have e: "?e \<in> set alert_names" by (rule entry_ok)
  obtain t g' where t: "generate_random_temperature L (s\<lparr>gen := g2\<rparr>) = (Inr t, s\<lparr>gen := g'\<rparr>)" "35 \<le> t" "t \<le> 42"
    using temperature_range [of "s\<lparr>gen := g2\<rparr>"] by auto
  have "temperature_of L v3 = t" using t(1) temperature_run [of "s\<lparr>gen := g2\<rparr>" v3 g3] assms(3) by simp
  with alert_text_length(1) [OF t(2,3) e] have len: "length (alert_text ?e (temperature_of L v3)) < 60" by simp
  show ?thesis
    unfolding alert_round1_def sleep_random_interval_def generate_alert_def send_alert_if_needed_def Let_def
    using assms len
    by (simp add: rand1_def sleep1_def temperature_run MAX_ALERTS_RANDOM_VALUE_def FLOOR_AL_VALUE_def MAX_AL_BUFFER_def ALLOWED_TEMPERATURE_def
        alert_line1_def alert_text_def)
qed

text \<open>One round: a nap of 10 to 25 seconds, and perhaps a line.\<close>

lemma alert_round1_run:
  obtains g d x and t :: rat where "10 \<le> d" "d \<le> 25" "alert_ok x" "35 \<le> t" "t \<le> 42"
    "alert_round1 L s = (if 38 \<le> t then write_line (alert_line1 x) else ret ()) (s\<lparr>naps := naps s @ [d], gen := g\<rparr>)"
proof -
  obtain v1 g1 where 1: "c_rand L (gen s) = (v1, g1)" by fastforce
  obtain v2 g2 where 2: "c_rand L g1 = (v2, g2)" by fastforce
  obtain v3 g3 where 3: "c_rand L g2 = (v3, g3)" by fastforce
  obtain v4 g4 where 4: "c_rand L g3 = (v4, g4)" by fastforce
  have t3: "35 \<le> temperature_of L v3 \<and> temperature_of L v3 \<le> 42" if "c_rand L g = (v3, g')" for g g' v3
    using temperature_run [of "s\<lparr>gen := g\<rparr>" v3 g'] temperature_range [of "s\<lparr>gen := g\<rparr>"] that by auto
  have "10 \<le> v1 mod 16 + 10" "v1 mod 16 + 10 \<le> 25" using pos_mod_bound [of 16 v1] pos_mod_sign [of 16 v1] by linarith+
  moreover have "alert_ok (alert_entries ! nat (v2 mod 4), temperature_of L v3)" using entry_ok t3 [OF 3] by (simp add: alert_ok_def)
  ultimately show ?thesis using that alert_round1_draws [OF 1 2 3 4] t3 [OF 4] by blast
qed

lemma repeat_alerts:
  "\<exists>xs ds. naps (snd (repeat_act n (alert_round1 L) s)) = naps s @ ds \<and> (\<forall>d \<in> set ds. 10 \<le> d \<and> d \<le> 25) \<and>
     written (snd (repeat_act n (alert_round1 L) s)) = written s @ map alert_line1 xs \<and> (\<forall>x \<in> set xs. alert_ok x) \<and>
     length xs \<le> n \<and> fst (repeat_act n (alert_round1 L) s) \<in> {Inr (), Inl (Exit 1)}"
proof (induction n arbitrary: s)
  case 0
  then show ?case by (intro exI [of _ "[]"]) simp
next
  case (Suc n)
  obtain g d x and t :: rat where r: "10 \<le> d" "d \<le> 25" "alert_ok x"
    "alert_round1 L s = (if 38 \<le> t then write_line (alert_line1 x) else ret ()) (s\<lparr>naps := naps s @ [d], gen := g\<rparr>)"
    by (rule alert_round1_run)
  let ?s = "s\<lparr>naps := naps s @ [d], gen := g\<rparr>"
  consider (quiet) "alert_round1 L s = (Inr (), ?s)"
    | (line) "alert_round1 L s = (Inr (), ?s\<lparr>writes_ok := tl (writes_ok s), written := written s @ [alert_line1 x]\<rparr>)"
    | (fail) "alert_round1 L s = (Inl (Exit 1), ?s\<lparr>writes_ok := tl (writes_ok s), said := said s @ [''[ERROR] write'']\<rparr>)"
    using r(4) by (cases "38 \<le> t") (auto intro: write_line_cases [of "alert_line1 x" ?s])
  then show ?case
  proof cases
    case quiet
    from Suc.IH [of ?s] obtain xs ds where i: "naps (snd (repeat_act n (alert_round1 L) ?s)) = naps s @ [d] @ ds"
      "\<forall>d \<in> set ds. 10 \<le> d \<and> d \<le> 25" "written (snd (repeat_act n (alert_round1 L) ?s)) = written s @ map alert_line1 xs"
      "\<forall>x \<in> set xs. alert_ok x" "length xs \<le> n" "fst (repeat_act n (alert_round1 L) ?s) \<in> {Inr (), Inl (Exit 1)}" by auto
    with quiet r(1-3) show ?thesis by (intro exI [of _ xs] exI [of _ "d # ds"]) auto
  next
    case line
    let ?t = "?s\<lparr>writes_ok := tl (writes_ok s), written := written s @ [alert_line1 x]\<rparr>"
    from Suc.IH [of ?t] obtain xs ds where i: "naps (snd (repeat_act n (alert_round1 L) ?t)) = naps s @ [d] @ ds"
      "\<forall>d \<in> set ds. 10 \<le> d \<and> d \<le> 25"
      "written (snd (repeat_act n (alert_round1 L) ?t)) = written s @ [alert_line1 x] @ map alert_line1 xs"
      "\<forall>x \<in> set xs. alert_ok x" "length xs \<le> n" "fst (repeat_act n (alert_round1 L) ?t) \<in> {Inr (), Inl (Exit 1)}" by auto
    with line r(1-3) show ?thesis by (intro exI [of _ "x # xs"] exI [of _ "d # ds"]) auto
  next
    case fail
    with r(1-3) show ?thesis by (intro exI [of _ "[]"] exI [of _ "[d]"]) simp
  qed
qed

lemma emergency_round1_run:
  obtains g d where "60 \<le> d" "d \<le> 90"
    "emergency_round1 L s = write_line emergency_line (s\<lparr>gen := g, naps := naps s @ [d]\<rparr>)"
proof -
  obtain v g where 1: "rand1 L s = (Inr v, s\<lparr>gen := g\<rparr>)" "0 \<le> v" by (rule rand1_run)
  have "emergency_round1 L s = write_line emergency_line (s\<lparr>gen := g, naps := naps s @ [v mod 31 + 60]\<rparr>)"
    using 1(1) by (simp add: emergency_round1_def sleep_random_interval_emergency_def generate_emergency_message1_def
        send_emergency_message_def sleep1_def MAX_EMG_RANDOM_VALUE_def FLOOR_EMG_VALUE_def MAX_EMG_BUFFER_def emergency_line_def)
  moreover have "60 \<le> v mod 31 + 60" "v mod 31 + 60 \<le> 90" using pos_mod_bound [of 31 v] pos_mod_sign [of 31 v] by linarith+
  ultimately show ?thesis using that by blast
qed

lemma repeat_emergencies:
  "\<exists>k ds. naps (snd (repeat_act n (emergency_round1 L) s)) = naps s @ ds \<and> (\<forall>d \<in> set ds. 60 \<le> d \<and> d \<le> 90) \<and>
     written (snd (repeat_act n (emergency_round1 L) s)) = written s @ replicate k emergency_line \<and>
     k \<le> n \<and> fst (repeat_act n (emergency_round1 L) s) \<in> {Inr (), Inl (Exit 1)}"
proof (induction n arbitrary: s)
  case 0
  then show ?case by (intro exI [of _ 0] exI [of _ "[]"]) simp
next
  case (Suc n)
  let ?m = emergency_line
  obtain g d where r: "60 \<le> d" "d \<le> 90" "emergency_round1 L s = write_line ?m (s\<lparr>gen := g, naps := naps s @ [d]\<rparr>)"
    by (rule emergency_round1_run)
  let ?s = "s\<lparr>gen := g, naps := naps s @ [d]\<rparr>"
  consider (line) "emergency_round1 L s = (Inr (), ?s\<lparr>writes_ok := tl (writes_ok s), written := written s @ [?m]\<rparr>)"
    | (fail) "emergency_round1 L s = (Inl (Exit 1), ?s\<lparr>writes_ok := tl (writes_ok s), said := said s @ [''[ERROR] write'']\<rparr>)"
    unfolding r(3) by (rule write_line_cases [of ?m ?s]) auto
  then show ?case
  proof cases
    case line
    let ?t = "?s\<lparr>writes_ok := tl (writes_ok s), written := written s @ [?m]\<rparr>"
    from Suc.IH [of ?t] obtain k ds where i: "naps (snd (repeat_act n (emergency_round1 L) ?t)) = naps s @ [d] @ ds"
      "\<forall>d \<in> set ds. 60 \<le> d \<and> d \<le> 90"
      "written (snd (repeat_act n (emergency_round1 L) ?t)) = written s @ [?m] @ replicate k ?m"
      "k \<le> n" "fst (repeat_act n (emergency_round1 L) ?t) \<in> {Inr (), Inl (Exit 1)}" by auto
    with line r(1,2) show ?thesis by (intro exI [of _ "Suc k"] exI [of _ "d # ds"]) auto
  next
    case fail
    with r(1,2) show ?thesis by (intro exI [of _ 0] exI [of _ "[d]"]) simp
  qed
qed

end

section \<open>Properties of the sensors\<close>

text \<open>
  C27: the two sensor processes.  Whatever \<open>rand\<close> returns and however single precision
  rounds, the alert process naps 10 to 25 seconds before each round, the emergency
  process 60 to 90; they write only complete lines, those of the alerts with one of the
  four entries and a temperature between 35 and 42 degrees, at most one for each round;
  they end only by \<open>exit\<close> after a failed \<open>open\<close> or \<open>write\<close>, and no line overruns its buffer.
  The temperature that is compared with 38 degrees is not the one in the line: the
  third random number of a round is reported, the fourth decides.
\<close>

theorem lab1_sensors:
  assumes "c_random L"
  shows "(\<exists>xs ds. naps (snd (start_alerts L fd n s)) = naps s @ ds \<and> (\<forall>d \<in> set ds. 10 \<le> d \<and> d \<le> 25) \<and>
      written (snd (start_alerts L fd n s)) = written s @ map alert_line1 xs \<and> (\<forall>x \<in> set xs. alert_ok x) \<and>
      length xs \<le> n \<and> fst (start_alerts L fd n s) \<in> {Inr (), Inl (Exit 1)}) \<and>
    (\<exists>k ds. naps (snd (start_emergencies L fd n s)) = naps s @ ds \<and> (\<forall>d \<in> set ds. 60 \<le> d \<and> d \<le> 90) \<and>
      written (snd (start_emergencies L fd n s)) = written s @ replicate k emergency_line \<and> k \<le> n \<and>
      fst (start_emergencies L fd n s) \<in> {Inr (), Inl (Exit 1)}) \<and>
    (\<forall>v1 v2 v3 v4 g1 g2 g3 g4. writes_ok s = [] \<and> c_rand L (gen s) = (v1, g1) \<and> c_rand L g1 = (v2, g2) \<and>
      c_rand L g2 = (v3, g3) \<and> c_rand L g3 = (v4, g4) \<longrightarrow>
      written (snd (alert_round1 L s)) = written s @ (if 38 \<le> temperature_of L v4
        then [alert_line1 (alert_entries ! nat (v2 mod 4), temperature_of L v3)] else []))"
proof (intro conjI)
  show "\<forall>v1 v2 v3 v4 g1 g2 g3 g4. writes_ok s = [] \<and> c_rand L (gen s) = (v1, g1) \<and> c_rand L g1 = (v2, g2) \<and>
      c_rand L g2 = (v3, g3) \<and> c_rand L g3 = (v4, g4) \<longrightarrow>
      written (snd (alert_round1 L s)) = written s @ (if 38 \<le> temperature_of L v4
        then [alert_line1 (alert_entries ! nat (v2 mod 4), temperature_of L v3)] else [])"
    using c_random.alert_round1_draws [OF assms, of s] by (auto simp: write_line_def)
next
  have same: "(fd = -1 \<and> naps (snd (start_alerts L fd n s)) = naps s \<and> written (snd (start_alerts L fd n s)) = written s \<and>
      fst (start_alerts L fd n s) = Inl (Exit 1) \<and> naps (snd (start_emergencies L fd n s)) = naps s \<and>
      written (snd (start_emergencies L fd n s)) = written s \<and> fst (start_emergencies L fd n s) = Inl (Exit 1)) \<or>
    (start_alerts L fd n s = repeat_act n (alert_round1 L) s \<and> start_emergencies L fd n s = repeat_act n (emergency_round1 L) s)"
    by (simp add: start_alerts_def start_emergencies_def open_alert_pipe1_def open_emergency_pipe1_def fail1_def)
  show "\<exists>xs ds. naps (snd (start_alerts L fd n s)) = naps s @ ds \<and> (\<forall>d \<in> set ds. 10 \<le> d \<and> d \<le> 25) \<and>
      written (snd (start_alerts L fd n s)) = written s @ map alert_line1 xs \<and> (\<forall>x \<in> set xs. alert_ok x) \<and>
      length xs \<le> n \<and> fst (start_alerts L fd n s) \<in> {Inr (), Inl (Exit 1)}"
    using same c_random.repeat_alerts [OF assms, of n s] by (elim disjE) (auto intro: exI [of _ "[]"])
  show "\<exists>k ds. naps (snd (start_emergencies L fd n s)) = naps s @ ds \<and> (\<forall>d \<in> set ds. 60 \<le> d \<and> d \<le> 90) \<and>
      written (snd (start_emergencies L fd n s)) = written s @ replicate k emergency_line \<and> k \<le> n \<and>
      fst (start_emergencies L fd n s) \<in> {Inr (), Inl (Exit 1)}"
    using same c_random.repeat_emergencies [OF assms, of n s] by (elim disjE) (auto intro: exI [of _ 0])
qed

definition fresh_sensor :: "nat \<Rightarrow> nat sensor1" where
  "fresh_sensor seed = \<lparr>gen = seed, naps = [], written = [], said = [], writes_ok = []\<rparr>"

lemma fresh_sensor_simps [simp]: "naps (fresh_sensor g) = []" "written (fresh_sensor g) = []"
  by (simp_all add: fresh_sensor_def)

theorem lab1_sensors_witness:
  "c_random lcg1 \<and> (\<exists>k ds. naps (snd (start_emergencies lcg1 7 3 (fresh_sensor 1))) = ds \<and> (\<forall>d \<in> set ds. 60 \<le> d \<and> d \<le> 90) \<and>
     written (snd (start_emergencies lcg1 7 3 (fresh_sensor 1))) = replicate k emergency_line \<and> k \<le> 3)"
  using lcg1.c_random_axioms lab1_sensors [OF lcg1.c_random_axioms, of 7 3 "fresh_sensor 1"] by auto

section \<open>Properties of the pipes\<close>

lemma grouped_map:
  assumes "concat lss = map f xs"
  shows "\<exists>xss. concat xss = xs \<and> lss = map (map f) xss"
  using assms
proof (induction lss arbitrary: xs)
  case Nil
  then show ?case by (intro exI [of _ "[]"]) simp
next
  case (Cons ls lss)
  then obtain ys zs where "xs = ys @ zs" "ls = map f ys" "concat lss = map f zs" by (auto simp: append_eq_map_conv)
  with Cons.IH [of zs] show ?case by (metis concat.simps(2) list.simps(9))
qed

text \<open>
  C19: the alerts from the sensor to the clients, however the lines that the alert process
  writes in \<open>n\<close> rounds are put together in the pipe, as long as no read fills the buffer.
  \<open>lss\<close> groups these lines by the reads that get them.  Every line reaches every
  connected client, in order, and the loop of \<open>handle_alerts\<close> stops when the pipe is empty; but each
  read counts one alert only, under the entry of its first line, and the other lines of
  the read are lost for the document.  So all alerts are counted if every line is read
  alone.  Nothing else in the document changes.
\<close>

theorem lab1_alerts:
  assumes "lab1_doc E cells room render" and "c_random L" and "written g = []"
    and "summary_is cells room s r" "table_is cs s" "clients_ok E cs" "log_opens1 E"
    and "\<forall>k \<in> set alert_names. count r k + int n \<le> INT_MAX"
    and "concat lss = written (snd (start_alerts L fd n g))"
    and "\<forall>ls \<in> set lss. ls \<noteq> [] \<and> length (concat ls) < MAX_BUFFER1"
    and "streams s pipe = map (\<lambda>ls. Data (concat ls)) lss @ Quiet # evs"
  shows "\<exists>xss s'. lss = map (map alert_line1) xss \<and> (\<forall>x \<in> set (concat xss). alert_ok x) \<and> handle_alerts1 E pipe s = (Inr (), s') \<and>
    summary_is cells room s' (r\<lparr>count := \<lambda>k. count r k + int (count_list (map (\<lambda>xs. fst (hd xs)) xss) k)\<rparr>) \<and>
    ((\<forall>ls \<in> set lss. length ls = 1) \<longrightarrow> map (\<lambda>xs. fst (hd xs)) xss = map fst (concat xss)) \<and> table_is cs s' \<and>
    sent1 s' = sent1 s @ concat (map (\<lambda>ls. map (\<lambda>c. (socket c, concat ls)) cs) lss) \<and> streams s' pipe = evs"
proof -
  obtain xs where xs: "written (snd (start_alerts L fd n g)) = map alert_line1 xs" "\<forall>x \<in> set xs. alert_ok x" "length xs \<le> n"
  proof (cases "fd = -1")
    case True
    with assms(3) show ?thesis by (intro that [of "[]"]) (simp_all add: start_alerts_def open_alert_pipe1_def fail1_def)
  next
    case False
    then have "start_alerts L fd n g = repeat_act n (alert_round1 L) g" by (simp add: start_alerts_def open_alert_pipe1_def)
    with c_random.repeat_alerts [OF assms(2), of n g] assms(3) that show ?thesis by auto
  qed
  obtain xss where xss: "concat xss = xs" "lss = map (map alert_line1) xss"
    using grouped_map assms(9) xs(1) by metis
  have groups: "\<forall>xs \<in> set xss. xs \<noteq> [] \<and> (\<forall>x \<in> set xs. alert_ok x) \<and> length (concat (map alert_line1 xs)) < MAX_BUFFER1"
    using assms(10) xs(2) xss by fastforce
  then have "length xss \<le> length (concat xss)" by (induction xss) (auto simp: neq_Nil_conv)
  with xs(3) xss(1) assms(8) have "\<forall>k \<in> set alert_names. count r k + int (length xss) \<le> INT_MAX" by fastforce
  moreover have "streams s pipe = map (\<lambda>xs. Data (concat (map alert_line1 xs))) xss @ Quiet # evs"
    unfolding assms(11) xss(2) by simp
  ultimately obtain s' where "handle_alerts1 E pipe s = (Inr (), s')" "table_is cs s'" "streams s' pipe = evs"
    "summary_is cells room s' (r\<lparr>count := \<lambda>k. count r k + int (count_list (map (\<lambda>xs. fst (hd xs)) xss) k)\<rparr>)"
    "sent1 s' = sent1 s @ concat (map (\<lambda>xs. map (\<lambda>c. (socket c, concat (map alert_line1 xs))) cs) xss)"
    using lab1_doc.handle_alerts1_lines [OF assms(1,4-7) groups] by blast
  moreover have "map (\<lambda>xs. fst (hd xs)) xss = map fst (concat xss)" if "\<forall>ls \<in> set lss. length ls = 1"
    using that unfolding xss(2) by (induction xss) (auto simp: length_Suc_conv)
  ultimately show ?thesis using xss xs(2) by (intro exI [of _ xss] exI [of _ s']) (simp add: comp_def)
qed

text \<open>A sensor that always draws the greatest number, so that each of its rounds writes the same line.\<close>

definition hot :: "nat c_lib" where
  "hot = lcg1\<lparr>c_rand := (\<lambda>g. (32767, g))\<rparr>"

interpretation hot: c_random hot
  by unfold_locales (simp_all add: hot_def lcg1.rand_max_pos lcg1.fl_mono lcg1.fl_whole, simp_all add: lcg1_def)

lemma hot_round: "writes_ok s = [] \<Longrightarrow>
  alert_round1 hot s = (Inr (), s\<lparr>naps := naps s @ [25], written := written s @ [alert_line1 (''south_entry'', 42)]\<rparr>)"
proof -
  assume w: "writes_ok s = []"
  have draw: "c_rand hot g = (32767, g)" for g by (simp add: hot_def)
  have fl: "fl32 hot 32767 = 32767" "fl32 hot 1 = 1" "fl32 hot 7 = 7" "fl32 hot 42 = 42"
    using hot.fl_whole [of 32767] hot.fl_whole [of 1] hot.fl_whole [of 7] hot.fl_whole [of 42] by simp_all
  then have t: "temperature_of hot 32767 = 42" by (simp add: temperature_of_def hot_def lcg1_def)
  have e: "alert_entries ! nat (32767 mod 4) = ''south_entry''" by (simp add: alert_entries_def)
  show ?thesis
    unfolding hot.alert_round1_draws [OF draw draw draw draw] t e using w by (simp add: write_line_def)
qed

theorem lab1_alerts_witness:
  "\<exists>s s' r. written (snd (start_alerts hot 7 2 (fresh_sensor 1))) = replicate 2 (alert_line1 (''south_entry'', 42)) \<and>
     streams s 4 = [Data (concat (replicate 2 (alert_line1 (''south_entry'', 42)))), Quiet] \<and> handle_alerts1 demo1 4 s = (Inr (), s') \<and>
     sent1 s' = [(6, concat (replicate 2 (alert_line1 (''south_entry'', 42))))] \<and>
     summary_is rh_cells rh_room s' r \<and> count r ''south_entry'' = 1"
proof -
  let ?x = "(''south_entry'', 42 :: rat)"
  let ?lss = "[[alert_line1 ?x, alert_line1 ?x]]"
  let ?cs = "[\<lparr>socket = 6, role = 1\<rparr>]"
  obtain s where s: "summary_is rh_cells rh_room s empty_shelter" using demo1_summary by blast
  let ?s = "s\<lparr>sent1 := [], clients := ?cs @ replicate 99 no_client, num_clients := 1,
    streams := (\<lambda>_. map (\<lambda>ls. Data (concat ls)) ?lss @ Quiet # [])\<rparr>"
  have pre: "summary_is rh_cells rh_room ?s empty_shelter" "table_is ?cs ?s" "clients_ok demo1 ?cs" "log_opens1 demo1"
    "written (fresh_sensor 1) = []" "\<forall>k \<in> set alert_names. count empty_shelter k + int 2 \<le> INT_MAX"
    using s by (simp_all add: summary_is_def table_is_def clients_ok_def demo1_def fresh_sensor_def empty_shelter_def INT_MAX_def MAX_CLIENTS_def)
  have "start_alerts hot 7 2 (fresh_sensor 1) = repeat_act (Suc (Suc 0)) (alert_round1 hot) (fresh_sensor 1)"
    by (simp add: start_alerts_def open_alert_pipe1_def numeral_2_eq_2)
  then have w: "written (snd (start_alerts hot 7 2 (fresh_sensor 1))) = [alert_line1 ?x, alert_line1 ?x]"
    by (simp add: hot_round fresh_sensor_def)
  have len: "length (alert_line1 ?x) < 61" using alert_text_length(1) [of 42 "''south_entry''"] by (simp add: alert_line1_def alert_names_def)
  have ne: "alert_line1 ?x \<noteq> []" by (simp add: alert_line1_def)
  have groups: "\<forall>ls \<in> set ?lss. ls \<noteq> [] \<and> length (concat ls) < MAX_BUFFER1" using len by (simp add: MAX_BUFFER1_def)
  have "\<exists>xss s'. ?lss = map (map alert_line1) xss \<and> (\<forall>x \<in> set (concat xss). alert_ok x) \<and> handle_alerts1 demo1 4 ?s = (Inr (), s') \<and>
    summary_is rh_cells rh_room s' (empty_shelter\<lparr>count := \<lambda>k. count empty_shelter k + int (count_list (map (\<lambda>xs. fst (hd xs)) xss) k)\<rparr>) \<and>
    ((\<forall>ls \<in> set ?lss. length ls = 1) \<longrightarrow> map (\<lambda>xs. fst (hd xs)) xss = map fst (concat xss)) \<and> table_is ?cs s' \<and>
    sent1 s' = sent1 ?s @ concat (map (\<lambda>ls. map (\<lambda>c. (socket c, concat ls)) ?cs) ?lss) \<and> streams s' 4 = []"
    by (rule lab1_alerts [OF demo1.lab1_doc_axioms hot.c_random_axioms pre(5,1-4,6) _ groups, of 7]) (simp_all add: w [simplified])
  then obtain xss s' where x: "?lss = map (map alert_line1) xss" "\<forall>x \<in> set (concat xss). alert_ok x" and s': "handle_alerts1 demo1 4 ?s = (Inr (), s')"
    "summary_is rh_cells rh_room s' (empty_shelter\<lparr>count := \<lambda>k. count empty_shelter k + int (count_list (map (\<lambda>xs. fst (hd xs)) xss) k)\<rparr>)"
    "sent1 s' = sent1 ?s @ concat (map (\<lambda>ls. map (\<lambda>c. (socket c, concat ls)) ?cs) ?lss)"
    by (elim exE conjE) (rule that; assumption)
  from x obtain a b where ab: "xss = [[a, b]]" "alert_line1 a = alert_line1 ?x" "alert_ok a" by auto
  have scan: "scan_alert (alert_line1 x) = Some (fst x)" if "alert_ok x" for x
    using scan_alert_text [of "snd x" "fst x" "[LF]"] that by (simp add: alert_ok_def alert_line1_def)
  have "fst a = ''south_entry''" using scan [OF ab(3)] scan [of ?x] ab(2) by (simp add: alert_ok_def alert_names_def)
  with ab s' w show ?thesis
    by (intro exI [of _ ?s] exI [of _ s']
        exI [of _ "empty_shelter\<lparr>count := \<lambda>k. count empty_shelter k + int (count_list (map (\<lambda>xs. fst (hd xs)) xss) k)\<rparr>"])
      (simp add: numeral_2_eq_2 empty_shelter_def)
qed

end
