(* ===== verification/Lab1_Pipe_End.thy ===== *)
theory Lab1_Pipe_End
  imports Lab1_Props
begin

text \<open>
  How the handlers of the two pipes of the first laboratory end: the loop over the
  alerts, and the emergency that closes every connection.
\<close>

section \<open>The only error\<close>

text \<open>An action whose only error is undefined behaviour: it never makes the server exit.\<close>

definition only_undefined :: "('s, 'a) act \<Rightarrow> bool" where
  "only_undefined f \<longleftrightarrow> (\<forall>s e. fst (f s) = Inl e \<longrightarrow> e = Undefined)"

lemma only_undefined_bnd:
  assumes "only_undefined m" "\<And>x. only_undefined (f x)"
  shows "only_undefined (bnd m f)"
  using assms by (auto simp: only_undefined_def bnd_def split: prod.splits sum.splits) (metis fst_conv)

lemma only_undefined_thn: "only_undefined m \<Longrightarrow> only_undefined n \<Longrightarrow> only_undefined (thn m n)"
  by (simp add: thn_def only_undefined_bnd)

lemma only_undefined_for: "(\<And>i. only_undefined (body i)) \<Longrightarrow> only_undefined (for_act lo hi body)"
proof (induction lo hi body rule: for_act.induct)
  case (1 lo hi body)
  show ?case
  proof (cases "lo < hi")
    case True
    with 1 show ?thesis unfolding for_act_step [OF True] by (blast intro: only_undefined_thn)
  qed (simp add: only_undefined_def)
qed

lemma only_undefined_pure:
  "only_undefined (ret x)" "only_undefined (gets g)" "only_undefined (tell t)" "only_undefined (send1 c t)"
  "only_undefined (get_slot i)" "only_undefined (log_activity1 E t)" "only_undefined (of_res (strcat_lf n t))"
  "only_undefined (modify_alerts1 E t)"
  by (auto simp: only_undefined_def get_slot_def log_activity1_run strcat_lf_def of_res_def modify_alerts1_def
      item1_def heap_do_def split: option.splits if_splits)

lemma only_undefined_if: "only_undefined f \<Longrightarrow> only_undefined g \<Longrightarrow> only_undefined (if b then f else g)"
  by simp

lemma alert_message1_only: "only_undefined (alert_message1 E bs)"
  unfolding alert_message1_def notify_all_def Let_def
  by (intro only_undefined_bnd only_undefined_thn only_undefined_for only_undefined_if only_undefined_pure)

section \<open>The loop over the alerts\<close>

text \<open>What a reader leaves in a pipe if it reads until nothing is there.\<close>

fun drain :: "recv_event list \<Rightarrow> recv_event list" where
  "drain [] = []"
| "drain (Quiet # evs) = evs"
| "drain (Failed # evs) = evs"
| "drain (Data bs # evs) = drain evs"

lemma read_nonblocking_drain:
  "case read_nonblocking n evs of (Bytes bs, evs') \<Rightarrow> drain evs' = drain evs | (_, evs') \<Rightarrow> evs' = drain evs"
  by (induction n evs rule: read_nonblocking.induct) (auto split: read_result.splits prod.splits)

lemma handle_alerts1_ends:
  "case handle_alerts1 E fd s of
     (Inr u, s') \<Rightarrow> streams s' = (streams s)(fd := drain (streams s fd))
   | (Inl e, s') \<Rightarrow> e = Undefined"
proof (induction E fd s rule: handle_alerts1.induct)
  case (1 E fd s)
  obtain r evs where r: "read_nonblocking MAX_BUFFER1 (streams s fd) = (r, evs)" by fastforce
  note d = read_nonblocking_drain [of "streams s fd" MAX_BUFFER1, unfolded r]
  let ?s = "s\<lparr>streams := (streams s)(fd := evs)\<rparr>"
  show ?case
  proof (cases r)
    case (Bytes bs)
    obtain q s2 where q: "alert_message1 E bs ?s = (q, s2)" by fastforce
    have st: "streams s2 = (streams s)(fd := evs)" using alert_message1_streams [of E bs ?s] q by simp
    show ?thesis
    proof (cases q)
      case (Inl e)
      with q alert_message1_only [of E bs] have "e = Undefined" by (metis fst_conv only_undefined_def)
      with r Bytes q Inl show ?thesis by (subst handle_alerts1.simps) simp
    next
      case (Inr u)
      have "case handle_alerts1 E fd s2 of
         (Inr u, s') \<Rightarrow> streams s' = (streams s2)(fd := drain (streams s2 fd))
       | (Inl e, s') \<Rightarrow> e = Undefined"
        using "1.IH" [OF r [symmetric] refl Bytes q [symmetric] Inr] .
      then have "case handle_alerts1 E fd s2 of
         (Inr u, s') \<Rightarrow> streams s' = (streams s)(fd := drain (streams s fd))
       | (Inl e, s') \<Rightarrow> e = Undefined"
        using Bytes d unfolding st by (simp split: prod.splits sum.splits)
      with r Bytes q Inr show ?thesis by (subst handle_alerts1.simps) simp
    qed
  qed (use r d in \<open>subst handle_alerts1.simps; simp\<close>)+
qed

lemma text_of_whole [simp]: "NUL \<notin> set t \<Longrightarrow> text_of t = t"
  by (induction t) (auto simp: text_of_def)

lemma full_alert_undefined:
  assumes "NUL \<notin> set bs" "MAX_BUFFER1 \<le> length bs" "streams s fd = Data bs # evs"
  shows "fst (handle_alerts1 E fd s) = Inl Undefined"
proof -
  let ?bs = "take MAX_BUFFER1 bs"
  let ?t = "butlast ?bs"
  let ?evs = "if length bs \<le> MAX_BUFFER1 then evs else Data (drop MAX_BUFFER1 bs) # evs"
  let ?s = "s\<lparr>streams := (streams s)(fd := ?evs)\<rparr>"
  have ne: "bs \<noteq> []" using assms(2) by (auto simp: MAX_BUFFER1_def)
  have r: "read_nonblocking MAX_BUFFER1 (streams s fd) = (Bytes ?bs, ?evs)" using assms(3) ne by simp
  have len: "length ?t = 1023" using assms(2) by (simp add: MAX_BUFFER1_def)
  have "NUL \<notin> set ?t" using assms(1) by (auto dest: in_set_butlastD in_set_takeD)
  then have t: "text_of ?t = ?t" by simp
  obtain q s2 where q: "alert_message1 E ?bs ?s = (q, s2)" by fastforce
  have "\<nexists>u. q = Inr u"
  proof
    assume "\<exists>u. q = Inr u"
    then obtain u where "alert_message1 E ?bs ?s = (Inr u, s2)" using q by blast
    then show False
      unfolding alert_message1_def Let_def t
      by (elim thn_InrE bnd_InrE) (use len in \<open>simp add: of_res_def strcat_lf_def MAX_BUFFER1_def split: if_splits\<close>)
  qed
  with q alert_message1_only [of E ?bs] have "q = Inl Undefined"
    by (cases q) (simp, metis fst_conv only_undefined_def, blast)
  with r q show ?thesis by (subst handle_alerts1.simps) simp
qed


text \<open>
  C21: the loop over the alert pipe ends, whatever stands in the pipe and whatever the
  state of the server: it returns exactly when the pipe has nothing more to read, with
  the pipe's stream drained and no other descriptor read, or it stops with undefined
  behaviour; it never makes the server exit.  A burst that fills the whole buffer of
  1024 bytes is such a stop: \<open>strcat\<close> then writes behind the buffer.
\<close>

theorem lab1_alerts_terminate:
  "(case handle_alerts1 E fd s of
      (Inr u, s') \<Rightarrow> streams s' = (streams s)(fd := drain (streams s fd)) \<and>
        (\<forall>bs evs. streams s fd = Data bs # evs \<and> NUL \<notin> set bs \<longrightarrow> length bs < MAX_BUFFER1)
    | (Inl e, s') \<Rightarrow> e = Undefined)"
proof (cases "handle_alerts1 E fd s")
  case (Pair q s')
  show ?thesis
  proof (cases q)
    case (Inl e)
    with Pair handle_alerts1_ends [of s fd E] show ?thesis by simp
  next
    case (Inr u)
    with Pair handle_alerts1_ends [of s fd E] have "streams s' = (streams s)(fd := drain (streams s fd))" by simp
    moreover have "length bs < MAX_BUFFER1" if "streams s fd = Data bs # evs" "NUL \<notin> set bs" for bs evs
    proof (rule ccontr)
      assume "\<not> length bs < MAX_BUFFER1"
      with full_alert_undefined [OF that(2) _ that(1), of E] Pair Inr show False by simp
    qed
    ultimately show ?thesis using Pair Inr by simp
  qed
qed

theorem lab1_alerts_terminate_witness:
  "\<exists>s :: (ref_heap, nat) lab1. streams s 4 = [Data (replicate 1024 (CHR ''x''))] \<and> fst (handle_alerts1 demo1 4 s) = Inl Undefined"
proof -
  define s :: "(ref_heap, nat) lab1" where "s = (boot empty_heap)\<lparr>streams := (\<lambda>_. [Data (replicate 1024 (CHR ''x''))])\<rparr>"
  have st: "streams s 4 = [Data (replicate 1024 (CHR ''x''))]" by (simp add: s_def)
  from lab1_alerts_terminate [of s 4 demo1] st have "fst (handle_alerts1 demo1 4 s) = Inl Undefined"
    by (auto simp: MAX_BUFFER1_def NUL_def split: prod.splits sum.splits)
  with st show ?thesis by blast
qed

section \<open>Emergencies\<close>

text \<open>
  C20: an emergency.  The line that the server reads from the emergency pipe becomes the
  last event of the document, with the time of the moment; it is sent to every
  connected client in the order of the table, and then every connection is closed and
  the table is empty.  The counters of the shelter are untouched.
\<close>

theorem lab1_emergency:
  assumes "lab1_doc E cells room render" and "summary_is cells room s r" "table_is cs s" "clients_ok E cs"
    and "log_opens1 E" "\<forall>c \<in> set cs. peer1 E (socket c) \<noteq> None" and "stamp_c E (ticks1 s) = Inr now"
    and "NUL \<notin> set m" "length m < 1023" and "streams s pipe = Data (m @ [LF]) # evs"
  shows "\<exists>s'. handle_emergencies1 E pipe s = (Inr (), s') \<and>
    summary_is cells room s' (r\<lparr>keepalived := now, event := m\<rparr>) \<and> table_is [] s' \<and>
    sent1 s' = sent1 s @ map (\<lambda>c. (socket c, m @ [LF])) cs \<and> closed1 s' = closed1 s @ map socket cs \<and>
    streams s' = (streams s)(pipe := evs)"
proof -
  let ?r = "r\<lparr>keepalived := now, event := m\<rparr>" and ?t = "m @ [LF]"
  let ?s = "s\<lparr>streams := (streams s)(pipe := evs)\<rparr>"
  have read: "read_pipe1 pipe s = (Inr (Bytes ?t), ?s)"
    using assms(9,10) by (simp add: read_pipe1_def MAX_BUFFER1_def)
  have "summary_is cells room ?s r" "emergency_effect (stamp_c E (ticks1 ?s)) m r = ([], ?r)"
    using assms(2,7) by (simp_all add: summary_is_def emergency_effect_def)
  from lab1_doc.modify_emergencies1_refines [OF assms(1) this] obtain s1 where
    s1: "modify_emergencies1 E m ?s = (Inr (), s1)" and did: "lab1_doc.did cells room (?s\<lparr>ticks1 := Suc (ticks1 ?s)\<rparr>) s1 [] ?r" by blast
  note f = lab1_doc.did_frame [OF assms(1) did]
  define s2 where "s2 = s1\<lparr>terminal := terminal s1 @ [''[EMERGENCY] '' @ m], ticks1 := Suc (ticks1 s1),
    log_text := log_text s1 @ stamp_log E (ticks1 s1) @ '', '' @ m @ [LF]\<rparr>"
  have t2: "table_is cs s2" using assms(3) f by (simp add: s2_def table_is_def)
  define s3 where "s3 = s2\<lparr>sent1 := sent1 s2 @ map (\<lambda>c. (socket c, ?t)) cs\<rparr>"
  have pos: "\<forall>c \<in> set cs. 0 < socket c" using assms(4) by (simp add: clients_ok_def)
  have s3: "notify_all ?t s2 = (Inr (), s3)" unfolding s3_def by (rule notify_all_run [OF t2 pos])
  have "table_is cs s3" using t2 by (simp add: s3_def table_is_def)
  from disconnect_all_clients1_run [OF this pos assms(5,6)] obtain s' where
    s': "disconnect_all_clients1 E s3 = (Inr (), s')" "table_is [] s'" "closed1 s' = closed1 s3 @ map socket cs"
      "sent1 s' = sent1 s3" "streams s' = streams s3" "same_doc s3 s'" by blast
  have "handle_emergencies1 E pipe s = (Inr (), s')"
    unfolding handle_emergencies1_def
    using read assms(5,8,9) s1 s3 s'(1) by (simp add: log_activity1_run s2_def strcat_lf_def MAX_BUFFER1_def)
  moreover have "summary_is cells room s' ?r" using f(1) s'(6) by (simp add: summary_is_def same_doc_def s2_def s3_def)
  ultimately show ?thesis using s' f by (simp add: s2_def s3_def)
qed

theorem lab1_emergency_witness:
  "\<exists>s s'. streams s 5 = [Data (''fire'' @ [LF])] \<and> table_is [\<lparr>socket = 6, role = 0\<rparr>] s \<and> handle_emergencies1 demo1 5 s = (Inr (), s') \<and>
     summary_is rh_cells rh_room s' (empty_shelter\<lparr>keepalived := ''Tue'', event := ''fire''\<rparr>) \<and>
     sent1 s' = sent1 s @ [(6, ''fire'' @ [LF])] \<and> closed1 s' = closed1 s @ [6]"
proof -
  obtain s where s: "summary_is rh_cells rh_room s empty_shelter" using demo1_summary by blast
  let ?cs = "[\<lparr>socket = 6, role = 0\<rparr>]"
  let ?s = "s\<lparr>clients := ?cs @ replicate 99 no_client, num_clients := 1, streams := (\<lambda>_. [Data (''fire'' @ [LF])])\<rparr>"
  have pre: "summary_is rh_cells rh_room ?s empty_shelter" "table_is ?cs ?s" "clients_ok demo1 ?cs" "log_opens1 demo1"
    "\<forall>c \<in> set ?cs. peer1 demo1 (socket c) \<noteq> None" "stamp_c demo1 (ticks1 ?s) = Inr ''Tue''" "NUL \<notin> set ''fire''"
    "length ''fire'' < 1023" "streams ?s 5 = Data (''fire'' @ [LF]) # []"
    using s by (simp_all add: summary_is_def table_is_def clients_ok_def demo1_def MAX_CLIENTS_def NUL_def)
  obtain s' where s': "handle_emergencies1 demo1 5 ?s = (Inr (), s')"
    "summary_is rh_cells rh_room s' (empty_shelter\<lparr>keepalived := ''Tue'', event := ''fire''\<rparr>)"
    "sent1 s' = sent1 s @ [(6, ''fire'' @ [LF])]" "closed1 s' = closed1 s @ [6]"
    using lab1_emergency [OF demo1.lab1_doc_axioms pre] by auto
  show ?thesis
    by (rule exI [of _ ?s], rule exI [of _ s'], intro conjI pre(2) s'(1,2)) (use s'(3,4) in simp_all)
qed

end
