(* ===== verification/Atoms.thy ===== *)
theory Atoms
  imports Prelude
begin

text \<open>
  Programs of atomic steps, for threads whose steps are interleaved.  An action of
  \<open>Prelude\<close> runs without interruption; a program is the same computation cut into the
  accesses to the shared state between which another thread may run.  Running a
  program without interruption gives an action (\<open>run\<close>).
\<close>

section \<open>Programs\<close>

text \<open>
  Every atomic step names the locations of unsynchronised memory that it reads or
  writes; two such accesses of different threads must not meet.
\<close>

datatype 'l access = Reads 'l | Writes 'l

datatype ('l, 's, 'a) prog =
    Done "'a res"
  | Atom "'l access list" "'s \<Rightarrow> ('l, 's, 'a) prog \<times> 's"

primrec run :: "('l, 's, 'a) prog \<Rightarrow> ('s, 'a) act" where
  "run (Done r) = (\<lambda>s. (r, s))"
| "run (Atom ls f) = (\<lambda>s. case (map_prod run id \<circ> f) s of (m, s') \<Rightarrow> m s')"

definition atom :: "'l access list \<Rightarrow> ('s, 'a) act \<Rightarrow> ('l, 's, 'a) prog" where
  "atom ls m = Atom ls (\<lambda>s. case m s of (r, s') \<Rightarrow> (Done r, s'))"

definition pret :: "'a \<Rightarrow> ('l, 's, 'a) prog" where
  "pret x = Done (Inr x)"

definition phalt :: "stop \<Rightarrow> ('l, 's, 'a) prog" where
  "phalt e = Done (Inl e)"

primrec pbind :: "('l, 's, 'a) prog \<Rightarrow> ('a \<Rightarrow> ('l, 's, 'b) prog) \<Rightarrow> ('l, 's, 'b) prog" where
  "pbind (Done r) k = (case r of Inl e \<Rightarrow> Done (Inl e) | Inr x \<Rightarrow> k x)"
| "pbind (Atom ls f) k = Atom ls (map_prod (\<lambda>p. pbind p k) id \<circ> f)"

definition pthn :: "('l, 's, unit) prog \<Rightarrow> ('l, 's, 'b) prog \<Rightarrow> ('l, 's, 'b) prog" where
  "pthn p q = pbind p (\<lambda>_. q)"

subsection \<open>Running them\<close>

lemma run_Atom: "run (Atom ls f) s = run (fst (f s)) (snd (f s))"
  by (simp add: split_beta)

named_theorems run_simps \<open>running a program as an action\<close>

lemma run_atom [run_simps]: "run (atom ls m) = m"
  by (rule ext) (simp add: atom_def split_beta)

lemma run_pret [run_simps]: "run (pret x) = ret x"
  by (rule ext) (simp add: pret_def)

lemma run_phalt [run_simps]: "run (phalt e) = halt e"
  by (rule ext) (simp add: phalt_def)

lemma run_Done [run_simps]: "run (Done r) = of_res r"
  by (rule ext) simp

lemma run_pbind [run_simps]: "run (pbind p k) = bnd (run p) (\<lambda>x. run (k x))"
proof (induction p)
  case (Done r)
  then show ?case by (cases r) (simp_all add: fun_eq_iff)
next
  case (Atom ls f)
  show ?case
  proof (rule ext)
    fix s
    have "run (pbind (fst (f s)) k) = bnd (run (fst (f s))) (\<lambda>x. run (k x))"
      by (rule Atom) (auto simp: fsts.simps split_beta)
    then show "run (pbind (Atom ls f) k) s = bnd (run (Atom ls f)) (\<lambda>x. run (k x)) s"
      by (simp add: split_beta)
  qed
qed

lemma run_pthn [run_simps]: "run (pthn p q) = thn (run p) (run q)"
  by (simp add: pthn_def thn_def run_pbind)

lemma run_if [run_simps]: "run (if b then p else q) = (if b then run p else run q)"
  by simp

lemma run_case_option [run_simps]: "run (case x of None \<Rightarrow> p | Some y \<Rightarrow> q y) = (case x of None \<Rightarrow> run p | Some y \<Rightarrow> run (q y))"
  by (cases x) simp_all

lemma run_case_sum [run_simps]: "run (case x of Inl e \<Rightarrow> p e | Inr y \<Rightarrow> q y) = (case x of Inl e \<Rightarrow> run (p e) | Inr y \<Rightarrow> run (q y))"
  by (cases x) simp_all

lemma run_case_prod [run_simps]: "run (case x of (a, b) \<Rightarrow> p a b) = (case x of (a, b) \<Rightarrow> run (p a b))"
  by (cases x) simp

lemma pbind_simps [simp]:
  "pbind (pret x) k = k x" "pbind (phalt e) k = phalt e" "pbind (Done (Inr x)) k = k x" "pbind (Done (Inl e)) k = Done (Inl e)"
  by (simp_all add: pret_def phalt_def)

text \<open>Some steps of a program on its own, and all of them.\<close>

inductive psteps :: "('l, 's, 'a) prog \<times> 's \<Rightarrow> ('l, 's, 'a) prog \<times> 's \<Rightarrow> bool" where
  none: "psteps c c"
| some: "psteps (f s) c \<Longrightarrow> psteps (Atom ls f, s) c"

lemma psteps_run: "run p s = (r, s') \<Longrightarrow> psteps (p, s) (Done r, s')"
proof (induction p arbitrary: s)
  case (Done x)
  then show ?case by (auto intro: psteps.none)
next
  case (Atom ls f)
  have "psteps (fst (f s), snd (f s)) (Done r, s')"
    using Atom.prems by (intro Atom.IH) (auto simp: fsts.simps split_beta)
  then show ?case by (intro psteps.some) simp
qed

lemma psteps_trans: "psteps a b \<Longrightarrow> psteps b c \<Longrightarrow> psteps a c"
  by (induction rule: psteps.induct) (auto intro: psteps.intros)

lemma psteps_pbind: "psteps (p, s) (p', s') \<Longrightarrow> psteps (pbind p k, s) (pbind p' k, s')"
proof (induction "(p, s)" "(p', s')" arbitrary: p s rule: psteps.induct)
  case (some f s ls)
  have "psteps (pbind (fst (f s)) k, snd (f s)) (pbind p' k, s')" by (rule some(2)) simp
  then show ?case by (auto intro: psteps.some simp: map_prod_def split_beta)
qed (rule psteps.none)

lemma psteps_value: "run p s = (Inr x, s') \<Longrightarrow> psteps (pbind p k, s) (k x, s')"
  using psteps_pbind [OF psteps_run, of p s "Inr x" s' k] by simp

lemma psteps_value_to: "run p s = (Inr x, s') \<Longrightarrow> k x = p' \<Longrightarrow> psteps (pbind p k, s) (p', s')"
  using psteps_value [of p s x s' k] by simp

section \<open>Rely and guarantee\<close>

text \<open>
  What threads know about the shared state is a world \<open>w\<close>: \<open>I w s\<close> relates it to the
  state, and every atomic step of any thread takes the world to one with \<open>G w w'\<close>.  A
  program is \<open>safe\<close> in a world if each of its steps, whatever the others have done
  before it, keeps to \<open>I\<close> and \<open>G\<close>, and its value satisfies \<open>Q\<close>.
\<close>

inductive safe :: "('w \<Rightarrow> 's \<Rightarrow> bool) \<Rightarrow> ('w \<Rightarrow> 'w \<Rightarrow> bool) \<Rightarrow> ('w \<Rightarrow> 'a \<Rightarrow> bool) \<Rightarrow> 'w \<Rightarrow> ('l, 's, 'a) prog \<Rightarrow> bool"
  for I G Q where
  finished: "(\<And>x. r = Inr x \<Longrightarrow> Q w x) \<Longrightarrow> safe I G Q w (Done r)"
| atom: "(\<And>w1 s. G\<^sup>*\<^sup>* w w1 \<Longrightarrow> I w1 s \<Longrightarrow> \<exists>w2. G w1 w2 \<and> I w2 (snd (f s)) \<and> safe I G Q w2 (fst (f s))) \<Longrightarrow>
     safe I G Q w (Atom ls f)"

inductive_cases safe_DoneE: "safe I G Q w (Done r)"
inductive_cases safe_AtomE: "safe I G Q w (Atom ls f)"

text \<open>What is safe stays safe while the others make their steps.\<close>

definition lasting :: "('w \<Rightarrow> 'w \<Rightarrow> bool) \<Rightarrow> ('w \<Rightarrow> 'a \<Rightarrow> bool) \<Rightarrow> bool" where
  "lasting G Q \<longleftrightarrow> (\<forall>w w' x. G w w' \<longrightarrow> Q w x \<longrightarrow> Q w' x)"

lemma lasting_steps:
  assumes "G\<^sup>*\<^sup>* w w'" and "lasting G Q" and "Q w x"
  shows "Q w' x"
  using assms(1) by (induction rule: rtranclp_induct) (use assms(2,3) in \<open>auto simp: lasting_def\<close>)

lemma safe_later:
  assumes "safe I G Q w p" and "G\<^sup>*\<^sup>* w w'" and "lasting G Q"
  shows "safe I G Q w' p"
  using assms
proof (cases p)
  case (Done r)
  with assms show ?thesis by (auto elim!: safe_DoneE intro!: safe.finished intro: lasting_steps)
next
  case (Atom ls f)
  with assms(1) have "\<exists>w2. G w1 w2 \<and> I w2 (snd (f s)) \<and> safe I G Q w2 (fst (f s))" if "G\<^sup>*\<^sup>* w w1" "I w1 s" for w1 s
    using that by (auto elim!: safe_AtomE)
  with assms(2) Atom show ?thesis by (auto intro!: safe.atom dest: rtranclp_trans)
qed

lemma safe_weaken: "safe I G Q w p \<Longrightarrow> (\<And>w x. Q w x \<Longrightarrow> Q' w x) \<Longrightarrow> safe I G Q' w p"
proof (induction rule: safe.induct)
  case (finished r w)
  then show ?case by (auto intro: safe.finished)
next
  case (atom w f ls)
  show ?case
  proof (rule safe.atom)
    fix w1 s
    assume "G\<^sup>*\<^sup>* w w1" "I w1 s"
    from atom(1) [OF this] obtain w2 where "G w1 w2" "I w2 (snd (f s))" "safe I G Q' w2 (fst (f s))"
      using atom.prems by blast
    then show "\<exists>w2. G w1 w2 \<and> I w2 (snd (f s)) \<and> safe I G Q' w2 (fst (f s))" by blast
  qed
qed

lemma safe_atom_act:
  assumes "\<And>w1 s. G\<^sup>*\<^sup>* w w1 \<Longrightarrow> I w1 s \<Longrightarrow> \<exists>w2. G w1 w2 \<and> I w2 (snd (m s)) \<and> (\<forall>x. fst (m s) = Inr x \<longrightarrow> Q w2 x)"
  shows "safe I G Q w (atom ls m)"
  unfolding atom_def
proof (rule safe.atom)
  fix w1 s
  assume "G\<^sup>*\<^sup>* w w1" "I w1 s"
  from assms [OF this] obtain w2 where "G w1 w2" "I w2 (snd (m s))" "\<forall>x. fst (m s) = Inr x \<longrightarrow> Q w2 x" by blast
  then show "\<exists>w2. G w1 w2 \<and> I w2 (snd (case m s of (r, s') \<Rightarrow> (Done r, s'))) \<and>
      safe I G Q w2 (fst (case m s of (r, s') \<Rightarrow> (Done r, s')))"
    by (auto simp: split_beta intro!: safe.finished)
qed

lemma safe_bind:
  assumes "safe I G Q w p" and "\<And>w' x. G\<^sup>*\<^sup>* w w' \<Longrightarrow> Q w' x \<Longrightarrow> safe I G Q' w' (k x)"
  shows "safe I G Q' w (pbind p k)"
  using assms
proof (induction rule: safe.induct)
  case (finished r w)
  then show ?case by (cases r) (auto intro: safe.finished)
next
  case (atom w f ls)
  show ?case unfolding pbind.simps
  proof (rule safe.atom)
    fix w1 s
    assume s: "G\<^sup>*\<^sup>* w w1" "I w1 s"
    from atom(1) [OF s] obtain w2 where w2: "G w1 w2" "I w2 (snd (f s))"
      "(\<And>w' x. G\<^sup>*\<^sup>* w2 w' \<Longrightarrow> Q w' x \<Longrightarrow> safe I G Q' w' (k x)) \<Longrightarrow> safe I G Q' w2 (pbind (fst (f s)) k)"
      by blast
    have "G\<^sup>*\<^sup>* w w2" using s(1) w2(1) by (rule rtranclp.rtrancl_into_rtrancl)
    then have "safe I G Q' w2 (pbind (fst (f s)) k)" using atom.prems by (intro w2(3)) (meson rtranclp_trans)
    with w2(1,2) show "\<exists>w2. G w1 w2 \<and> I w2 (snd ((map_prod (\<lambda>p. pbind p k) id \<circ> f) s)) \<and>
        safe I G Q' w2 (fst ((map_prod (\<lambda>p. pbind p k) id \<circ> f) s))" by auto
  qed
qed

lemma safe_thn:
  assumes "safe I G (\<lambda>_ _. True) w p" and "\<And>w'. G\<^sup>*\<^sup>* w w' \<Longrightarrow> safe I G Q w' q"
  shows "safe I G Q w (pthn p q)"
  unfolding pthn_def using assms by (rule safe_bind)

lemma safe_ret: "Q w x \<Longrightarrow> safe I G Q w (pret x)"
  by (auto simp: pret_def intro: safe.finished)

lemma safe_halt: "safe I G Q w (phalt e)" "safe I G Q w (Done (Inl e))"
  by (auto simp: phalt_def intro: safe.finished)

text \<open>One step of a safe program, as the system makes it.\<close>

lemma safe_step:
  assumes "safe I G Q w (Atom ls f)" and "I w s" and "f s = (p', s')"
  obtains w2 where "G w w2" "I w2 s'" "safe I G Q w2 p'"
proof -
  have "\<exists>w2. G w w2 \<and> I w2 (snd (f s)) \<and> safe I G Q w2 (fst (f s))"
    using assms(1) by (rule safe_AtomE) (use assms(2) in blast)
  with assms(3) that show ?thesis by auto
qed

text \<open>Programs that are safe in every world and promise nothing of their value.\<close>

definition secure :: "('w \<Rightarrow> 's \<Rightarrow> bool) \<Rightarrow> ('w \<Rightarrow> 'w \<Rightarrow> bool) \<Rightarrow> ('l, 's, 'a) prog \<Rightarrow> bool" where
  "secure I G p \<longleftrightarrow> (\<forall>w. safe I G (\<lambda>_ _. True) w p)"

lemma secure_safe: "secure I G p \<Longrightarrow> safe I G (\<lambda>_ _. True) w p"
  by (simp add: secure_def)

lemma secure_struct:
  "secure I G (pret x)" "secure I G (phalt e)" "secure I G (Done r)"
  "secure I G p \<Longrightarrow> (\<And>x. secure I G (k x)) \<Longrightarrow> secure I G (pbind p k)"
  "secure I G p' \<Longrightarrow> secure I G q \<Longrightarrow> secure I G (pthn p' q)"
  by (auto simp: secure_def pret_def phalt_def pthn_def intro: safe.finished safe_bind)

lemma secure_cases:
  "(b \<Longrightarrow> secure I G p) \<Longrightarrow> (\<not> b \<Longrightarrow> secure I G q) \<Longrightarrow> secure I G (if b then p else q)"
  "(secure I G n) \<Longrightarrow> (\<And>y. secure I G (c y)) \<Longrightarrow> secure I G (case_option n c opt)"
  "(\<And>y. secure I G (l y)) \<Longrightarrow> (\<And>z. secure I G (r z)) \<Longrightarrow> secure I G (case_sum l r sm)"
  "(\<And>y z. secure I G (f y z)) \<Longrightarrow> secure I G (case_prod f pr)"
  by (simp_all split: option.split sum.split prod.split)

lemma safe_bind_secure:
  "safe I G Q w p \<Longrightarrow> (\<And>w' x. Q w' x \<Longrightarrow> safe I G (\<lambda>_ _. True) w' (k x)) \<Longrightarrow> safe I G (\<lambda>_ _. True) w (pbind p k)"
  by (rule safe_bind)

section \<open>Races\<close>

text \<open>Two accesses conflict if they name the same location and one of them writes it.\<close>

fun conflict :: "'l access \<Rightarrow> 'l access \<Rightarrow> bool" where
  "conflict (Reads x) (Reads y) = False"
| "conflict (Reads x) (Writes y) = (x = y)"
| "conflict (Writes x) (Reads y) = (x = y)"
| "conflict (Writes x) (Writes y) = (x = y)"

text \<open>The accesses that a program is about to make.\<close>

fun next_accesses :: "('l, 's, 'a) prog \<Rightarrow> 'l access list" where
  "next_accesses (Done r) = []"
| "next_accesses (Atom ls f) = ls"

definition clash :: "'l access list \<Rightarrow> 'l access list \<Rightarrow> bool" where
  "clash xs ys \<longleftrightarrow> (\<exists>x \<in> set xs. \<exists>y \<in> set ys. conflict x y)"

text \<open>Two of several threads are about to make conflicting accesses.\<close>

definition races :: "'l access list list \<Rightarrow> bool" where
  "races ls \<longleftrightarrow> (\<exists>i < length ls. \<exists>j < i. clash (ls ! i) (ls ! j))"

lemma races_free:
  assumes "\<And>i j. i < length ls \<Longrightarrow> j < i \<Longrightarrow> \<not> clash (ls ! i) (ls ! j)"
  shows "\<not> races ls"
  using assms by (auto simp: races_def)

lemma next_accesses_simps [simp]:
  "next_accesses (atom ls m) = ls" "next_accesses (pbind (Atom ls f) k) = ls"
  "next_accesses (pbind (atom ls m) k') = ls" "next_accesses (pthn (atom ls m') q) = ls"
  by (simp_all add: atom_def pthn_def)

section \<open>Teams\<close>

text \<open>A fixed number of threads that work on one state, one atomic step at a time.\<close>

inductive team_step :: "('l, 's, 'a) prog list \<times> 's \<Rightarrow> ('l, 's, 'a) prog list \<times> 's \<Rightarrow> bool" where
  "i < length ps \<Longrightarrow> ps ! i = Atom ls f \<Longrightarrow> f s = (p, s') \<Longrightarrow> team_step (ps, s) (ps[i := p], s')"

inductive_cases team_stepE: "team_step (ps, s) c"

lemma team_progress:
  assumes "p \<in> set ps" and "p = Atom ls f"
  shows "\<exists>c. team_step (ps, s) c"
proof -
  obtain i where "i < length ps" "ps ! i = Atom ls f" using assms by (metis in_set_conv_nth)
  then show ?thesis using team_step.intros [of i ps ls f s] by (metis surj_pair)
qed

end
