(* ===== verification/Fine.thy ===== *)
theory Fine
  imports Atoms Http Pipes
begin

text \<open>
  The threads of \<open>src/server.cpp\<close> at the grain at which they can be interrupted: every
  function of \<open>Supplies\<close>, \<open>Session\<close>, \<open>Http\<close> and \<open>Pipes\<close> that a running server calls, as
  a program whose steps are its single accesses to the store, the sockets, the log,
  the console and the globals.  Run without interruption each is the action of its
  component (\<open>run_handlers\<close>).
\<close>

section \<open>Memory that the threads share without a lock\<close>

text \<open>
  The list of clients, the global \<open>user\<close>, and the structure to which \<open>std::localtime\<close>
  points.  The store, the console and the sockets are synchronised by their libraries
  and the kernel.
\<close>

datatype location = Clients | Web_user | Tm_buffer

type_synonym ('d, 'm, 'a) server_prog = "(location, ('d, 'm) server_scheme, 'a) prog"

abbreviation single :: "('s, 'a) act \<Rightarrow> ('l, 's, 'a) prog" where
  "single m \<equiv> atom [] m"

definition look :: "('s \<Rightarrow> 'a) \<Rightarrow> ('s, 'a) act" where
  "look g = (\<lambda>s. (Inr (g s), s))"

lemma look_app [simp]: "look g s = (Inr (g s), s)"
  by (simp add: look_def)

section \<open>The library of the summary\<close>

definition show_state_summary_p :: "'j json_lib \<Rightarrow> 'd kv_lib \<Rightarrow> string option \<Rightarrow> ('d, 'm, string) server_prog" where
  "show_state_summary_p J K status =
     pthn (case status of None \<Rightarrow> pret () | Some e \<Rightarrow> single (say (''Error opening database: '' @ e)))
     (pbind (single (get_value K summary_key)) (\<lambda>g.
      pthn (case g of Inl e \<Rightarrow> single (say (''Error retrieving value for key state_summary: '' @ e))
           | Inr _ \<Rightarrow> pret ())
      (pbind (Done (parse_state_summary J (case g of Inl _ \<Rightarrow> [] | Inr v \<Rightarrow> v))) (\<lambda>result.
       Done (jl_dump J result)))))"

definition get_section_p :: "'j json_lib \<Rightarrow> 'd kv_lib \<Rightarrow> string \<Rightarrow> ('d, 'm, string) server_prog" where
  "get_section_p J K field =
     pbind (single (get_value K summary_key)) (\<lambda>g.
     pthn (case g of Inl e \<Rightarrow> single (say (retrieve_error e)) | Inr _ \<Rightarrow> pret ())
     (pbind (Done (parse_state_summary J (case g of Inl _ \<Rightarrow> [] | Inr v \<Rightarrow> v))) (\<lambda>summary.
      pbind (Done (get_json_field J summary field)) (\<lambda>part.
      Done (jl_dump J part)))))"

definition with_summary_p :: "'j json_lib \<Rightarrow> 'd kv_lib \<Rightarrow> ('j \<Rightarrow> ('d, 'm, unit) server_prog) \<Rightarrow> ('d, 'm, unit) server_prog" where
  "with_summary_p J K body = pbind (single (get_value K summary_key)) (\<lambda>g. case g of
       Inl e \<Rightarrow> single (say (retrieve_error e))
     | Inr value \<Rightarrow> pbind (Done (parse_state_summary J value)) body)"

definition store_summary_p :: "'j json_lib \<Rightarrow> 'd kv_lib \<Rightarrow> 'j \<Rightarrow> ('d, 'm, bool) server_prog" where
  "store_summary_p J K summary =
     pbind (Done (jl_dump J summary)) (\<lambda>new_summary.
     pbind (single (put_value K summary_key new_summary)) (\<lambda>status.
     case status of
       None \<Rightarrow> pret True
     | Some e \<Rightarrow> pthn (single (say (''[ERROR] Error updating state summary: '' @ e))) (pret False)))"

fun supply_loop_p ::
    "'j json_lib \<Rightarrow> 'd kv_lib \<Rightarrow> string \<Rightarrow> string \<Rightarrow> 'j \<Rightarrow> string list \<Rightarrow> ('d, 'm, loop_exit) server_prog" where
  "supply_loop_p J K supply_key new_value summary [] = pret (Fell False)"
| "supply_loop_p J K supply_key new_value summary (category # rest) =
     pbind (Done (has_supply J summary category supply_key)) (\<lambda>here.
     if \<not> here then supply_loop_p J K supply_key new_value summary rest
     else case stoi new_value of
       Inl e \<Rightarrow>
         if e = Throw InvalidArgument
         then pthn (single (say (''[ERROR] Invalid value entered for supply: '' @ new_value))) (pret Returned)
         else phalt e
     | Inr value_int \<Rightarrow>
         if value_int < 0
         then pthn (single (say ''[ERROR] Value must be greater than or equal to 0.'')) (pret Returned)
         else
           pbind (Done (json_set3 J summary ''supplies'' category supply_key (jl_of_int J value_int))) (\<lambda>summary'.
           pbind (store_summary_p J K summary') (\<lambda>ok.
           if ok then pthn (single (say ''[SUPPLIES] State summary updated successfully.'')) (pret (Fell True))
           else pret Returned)))"

definition modify_supplies_p :: "'j json_lib \<Rightarrow> 'd kv_lib \<Rightarrow> string \<Rightarrow> string \<Rightarrow> ('d, 'm, unit) server_prog" where
  "modify_supplies_p J K supply_key new_value =
     with_summary_p J K (\<lambda>summary.
       if jl_contains J summary ''supplies'' then
         pbind (supply_loop_p J K supply_key new_value summary [''food'', ''medicine'']) (\<lambda>x.
         case x of
           Returned \<Rightarrow> pret ()
         | Fell supply_found \<Rightarrow>
             if supply_found then pret ()
             else single (say (''[ERROR] Supply '' @ [CHR 0x27] @ supply_key @ [CHR 0x27] @ '' not found.'')))
       else single (say (''[ERROR] '' @ [CHR 0x27] @ ''supplies'' @ [CHR 0x27] @ '' object not found in state summary.'')))"

definition count_in_summary_p :: "'j json_lib \<Rightarrow> 'd kv_lib \<Rightarrow> string \<Rightarrow> 'j \<Rightarrow> ('d, 'm, unit) server_prog" where
  "count_in_summary_p J K alert_string summary =
     pbind (Done (get_json_field J summary ''alerts'')) (\<lambda>alerts.
     case alert_entry alert_string of
       None \<Rightarrow> single (say (''[ERROR] Unrecognized alert string: '' @ alert_string))
     | Some entry \<Rightarrow>
         pbind (Done (jl_ref J alerts entry)) (\<lambda>(alerts1, old).
         if \<not> jl_is_null J old then
           pbind (Done (rbind (jl_get_int J old) int_succ)) (\<lambda>n.
           pbind (Done (jl_set J alerts1 entry (jl_of_int J n))) (\<lambda>alerts2.
           pbind (Done (jl_set J summary ''alerts'' alerts2)) (\<lambda>summary'.
           pbind (store_summary_p J K summary') (\<lambda>_. pret ()))))
         else pthn (single (say ''[ERROR] Alert value is null'')) (phalt (Exit 1))))"

definition modify_alerts_p :: "'j json_lib \<Rightarrow> 'd kv_lib \<Rightarrow> string \<Rightarrow> ('d, 'm, unit) server_prog" where
  "modify_alerts_p J K alert_string = with_summary_p J K (count_in_summary_p J K alert_string)"

definition modify_emergencies_p :: "'j json_lib \<Rightarrow> 'd kv_lib \<Rightarrow> string \<Rightarrow> string \<Rightarrow> ('d, 'm, unit) server_prog" where
  "modify_emergencies_p J K timestamp message =
     with_summary_p J K (\<lambda>summary.
       pbind (Done (get_json_field J summary ''emergency'')) (\<lambda>emergencies.
       pbind (Done (jl_set J emergencies ''last_keepalived'' (jl_of_str J timestamp))) (\<lambda>emergencies1.
       pbind (Done (jl_set J emergencies1 ''last_event'' (jl_of_str J (erase_char (CHR 0x0A) message)))) (\<lambda>emergencies2.
       pbind (Done (jl_set J summary ''emergency'' emergencies2)) (\<lambda>summary'.
       pbind (store_summary_p J K summary') (\<lambda>_. pret ()))))))"

section \<open>The log\<close>

text \<open>\<open>std::localtime\<close> writes the one structure that all threads share.\<close>

definition get_time_stamp_p :: "('d, 'm, string) server_prog" where
  "get_time_stamp_p = atom [Writes Tm_buffer] get_time_stamp"

definition with_log_p :: "string \<Rightarrow> ('d, 'm, unit) server_prog \<Rightarrow> ('d, 'm, unit) server_prog" where
  "with_log_p err body = pbind (single (look log_opens)) (\<lambda>ok. if ok then body else single (say err))"

definition log_event_p :: "sockaddr \<Rightarrow> string \<Rightarrow> string \<Rightarrow> ('d, 'm, unit) server_prog" where
  "log_event_p addr eventType eventDescription =
     with_log_p ''Error opening log file.''
      (pbind get_time_stamp_p (\<lambda>timestamp.
       single (append_log (timestamp @ '', '' @ eventType @ '' from client ('' @ get_ip addr @ '':'' @
         show_int (get_port addr) @ '')'' @
         (if eventDescription \<noteq> [] then '' - '' @ eventDescription else []) @ [CHR 0x0A]))))"

definition log_alert_p :: "bool \<Rightarrow> string \<Rightarrow> ('d, 'm, unit) server_prog" where
  "log_alert_p isAlert message =
     with_log_p ''[ERROR] Error opening log file.''
      (pbind get_time_stamp_p (\<lambda>timestamp.
       single (append_log (timestamp @ '', '' @
         (if isAlert then ''Alert of possible infection in '' @ message @ '' entry.'' @ [CHR 0x0A]
          else ''Emergency notification. '' @ message)))))"

section \<open>The conversation with a client\<close>

definition send_lit_p :: "int \<Rightarrow> string \<Rightarrow> nat \<Rightarrow> ('d, 'm, unit) server_prog" where
  "send_lit_p sock lit n = pbind (Done (literal_bytes lit n)) (\<lambda>bs. single (send sock bs))"

definition get_refuge_state_p :: "'j json_lib \<Rightarrow> 'd kv_lib \<Rightarrow> int \<Rightarrow> string option \<Rightarrow> ('d, 'm, unit) server_prog" where
  "get_refuge_state_p J K client_sock status =
     pbind (show_state_summary_p J K status) (\<lambda>refugeString. single (send client_sock refugeString))"

definition recv_text_p :: "string \<Rightarrow> int \<Rightarrow> string \<Rightarrow> ('d, 'm, string) server_prog" where
  "recv_text_p junk sock err =
     pbind (single (recv sock MAX_BUFFER)) (\<lambda>bs.
     if bs = [] then pthn (single (say err)) (phalt (Exit 1))
     else Done (terminated junk bs))"

definition set_supplies_p :: "'j json_lib \<Rightarrow> 'd kv_lib \<Rightarrow> string \<Rightarrow> int \<Rightarrow> string option \<Rightarrow> ('d, 'm, unit) server_prog" where
  "set_supplies_p J K junk client_sock status =
     pthn (send_lit_p client_sock supply_prompt 32)
     (pbind (recv_text_p junk client_sock ''Error reading from client'') (\<lambda>supplies.
      pbind (Done (substr supplies 0 (str_find supplies (CHR '','')))) (\<lambda>supply_key.
      pbind (Done (substr supplies (size_plus1 (str_find supplies (CHR '',''))) npos)) (\<lambda>new_value.
      pthn (modify_supplies_p J K supply_key new_value)
      (pthn (send_lit_p client_sock ''Supplies updated.'' 17)
           (get_refuge_state_p J K client_sock status))))))"

definition client_login_p :: "string \<Rightarrow> int \<Rightarrow> bool \<Rightarrow> ('d, 'm, bool) server_prog" where
  "client_login_p junk client_sock ubuntu =
     pthn (send_lit_p client_sock ''Enter username: '' 17)
     (pbind (recv_text_p junk client_sock ''[ERROR] Error reading from client.'') (\<lambda>username.
      if username = ''ubuntu'' then
        pthn (send_lit_p client_sock ''Enter password: '' 17)
        (pbind (recv_text_p junk client_sock ''[ERROR] Error reading from client.'') (\<lambda>password.
         if password = ''ubuntu'' then
           pthn (single (say ''[SERVER] Login successful.''))
           (pthn (send_lit_p client_sock ''Login successful.'' 18) (pret True))
         else pthn (single (say ''[SERVER] Login failed.'')) (pret ubuntu)))
      else pret ubuntu))"

function send_pieces_p :: "int \<Rightarrow> string \<Rightarrow> int \<Rightarrow> ('d, 'm, int option) server_prog" where
  "send_pieces_p sock bs bytes_sent =
     (if bs = [] then pret (Some bytes_sent)
      else pbind (single (write_fd sock (take MAX_BUFFER bs))) (\<lambda>num.
        if num < 0 then pret None
        else send_pieces_p sock (drop MAX_BUFFER bs) (bytes_sent + num)))"
  by pat_completeness auto
termination
  by (relation "measure (\<lambda>(sock, bs, bytes_sent). length bs)") auto

declare send_pieces_p.simps [simp del]

definition send_zip_file_p :: "int \<Rightarrow> ('d, 'm, unit) server_prog" where
  "send_zip_file_p client_socket = pbind (single (look zip_file)) (\<lambda>z. case z of
       None \<Rightarrow> single (say ''[EDGE] Error opening zip file.'')
     | Some content \<Rightarrow>
         pbind (send_pieces_p client_socket content 0) (\<lambda>r. case r of
             None \<Rightarrow> single (say ''[EDGE] Error sending zip file.'')
           | Some bytes_sent \<Rightarrow>
               pthn (single (say (''[EDGE] Zip file sent successfully. '' @ show_int bytes_sent @ '' bytes.'')))
               (pbind (single (write_fd client_socket ''EOF'')) (\<lambda>num.
                 if num < 0 then single (say ''[EDGE] Error sending EOF.'') else pret ()))))"

definition client_command_p ::
    "'j json_lib \<Rightarrow> 'd kv_lib \<Rightarrow> string \<Rightarrow> sockaddr \<Rightarrow> string option \<Rightarrow> int \<Rightarrow> bool \<Rightarrow> string
     \<Rightarrow> ('d, 'm, bool) server_prog" where
  "client_command_p J K junk client_addr status client_socket ubuntu cmd =
     (let port = show_int (get_port client_addr) in
      if cmd = ''login'' then
        pthn (single (say (''[SERVER] Client '' @ port @ '' is attempting to login.'')))
            (client_login_p junk client_socket ubuntu)
      else if cmd = ''set_supplies'' then
        (if ubuntu then
           pthn (set_supplies_p J K junk client_socket status)
          (pthn (log_event_p client_addr ''Update of supplies from client''
                  (if ubuntu then ''Authorized'' else ''Denied invalid hostname''))
           (pret ubuntu))
         else
           pthn (single (say (''[SERVER] Client '' @ port @ '' is not authorized to modify the supplies.'')))
          (pthn (send_lit_p client_socket ''You are not authorized to modify the supplies.'' 40)
          (pthn (log_event_p client_addr ''Update of supplies from client''
                  (if ubuntu then ''Authorized'' else ''Denied invalid hostname''))
           (pret ubuntu))))
      else if cmd = ''get_state'' then
        pthn (single (say (''[SERVER] Client '' @ port @ '' requested the state.'')))
       (pthn (get_refuge_state_p J K client_socket status)
       (pthn (log_event_p client_addr ''Request of state from client'' []) (pret ubuntu)))
      else if cmd = ''get_image'' then
        pthn (single (say (''[SERVER] Client '' @ port @ '' requested the image.'')))
       (pthn (log_event_p client_addr ''Request of image from client'' [])
       (pthn (send_zip_file_p client_socket) (pret ubuntu)))
      else if cmd = ''help'' \<or> cmd = ''h'' then
        pthn (single (say (''[SERVER] Client '' @ port @ '' requested help.'')))
       (pthn (single (send client_socket help_text)) (pret ubuntu))
      else
        pthn (single (say (''[SERVER] Invalid command '' @ cmd)))
       (pthn (send_lit_p client_socket ''Invalid command.'' 16) (pret ubuntu)))"

definition client_round_p ::
    "'j json_lib \<Rightarrow> 'd kv_lib \<Rightarrow> string \<Rightarrow> sockaddr \<Rightarrow> string option \<Rightarrow> int \<Rightarrow> bool \<Rightarrow> string
     \<Rightarrow> ('d, 'm, round_end) server_prog" where
  "client_round_p J K junk client_addr status client_socket ubuntu buf =
     pbind (single (recv client_socket (MAX_BUFFER - 1))) (\<lambda>bs.
     if bs = [] then pret Leaves
     else pbind (Done (c_str (buf_fill buf bs))) (\<lambda>text.
     if text = ''exit'' then pret Leaves
     else pbind (Done (terminated buf bs)) (\<lambda>cmd.
     pbind (client_command_p J K junk client_addr status client_socket ubuntu cmd) (\<lambda>ubuntu'.
     pret (Stays ubuntu')))))"

definition client_arrives_p :: "sockaddr \<Rightarrow> int \<Rightarrow> ('d, 'm, unit) server_prog" where
  "client_arrives_p client_addr sock =
     pthn (atom [Writes Clients] (add_client sock))
    (pthn (log_event_p client_addr ''Connection from new client'' [])
         (single (say (''[SERVER] Client connected at port: '' @ show_int (get_port client_addr)))))"

definition client_leaves_p :: "sockaddr \<Rightarrow> int \<Rightarrow> ('d, 'm, unit) server_prog" where
  "client_leaves_p client_addr sock =
     pthn (atom [Writes Clients] (remove_client sock))
    (pthn (single (say (''[SERVER] Client '' @ show_int (get_port client_addr) @ '' disconnected.'')))
    (pthn (log_event_p client_addr ''Connection close from client'' [])
         (single (close_fd sock))))"

section \<open>The pipes\<close>

text \<open>The loops over the list of clients read an element of it in every round.\<close>

fun send_each_p :: "int list \<Rightarrow> string \<Rightarrow> ('d, 'm, unit) server_prog" where
  "send_each_p [] msg = pret ()"
| "send_each_p (c # cs) msg = pthn (atom [Reads Clients] (send c msg)) (send_each_p cs msg)"

fun disconnect_each_p :: "int list \<Rightarrow> ('d, 'm, unit) server_prog" where
  "disconnect_each_p [] = pret ()"
| "disconnect_each_p (c # cs) =
     pthn (atom [Reads Clients] (send c ''exit''))
    (pthn (atom [Reads Clients] (say (''[SERVER] Disconnecting client socket '' @ show_int c)))
    (pthn (atom [Reads Clients] (close_fd c)) (disconnect_each_p cs)))"

definition disconnect_all_clients_p :: "('d, 'm, unit) server_prog" where
  "disconnect_all_clients_p =
     pbind (atom [Reads Clients] (look connected_clients)) (\<lambda>cs.
     pthn (disconnect_each_p cs)
          (atom [Writes Clients] (\<lambda>s. (Inr (), s\<lparr>connected_clients := []\<rparr>))))"

definition handle_alerts_p :: "'j json_lib \<Rightarrow> 'd kv_lib \<Rightarrow> string \<Rightarrow> int \<Rightarrow> ('d, 'm, unit) server_prog" where
  "handle_alerts_p J K junk alert_fifo_fd =
     pbind (recv_text_p junk alert_fifo_fd ''[ERROR] Error reading from alert pipe'') (\<lambda>buf.
     let (entry, rest) = strtok (CHR '','') buf;
         (temperature, _) = strtok (CHR '','') rest
     in case entry of
          None \<Rightarrow> phalt Undefined
        | Some entry \<Rightarrow>
            pthn (pbind (atom [Reads Clients] (look connected_clients)) (\<lambda>cs.
                    send_each_p cs (''Alert of possible infection in '' @ entry @ '' entry.'')))
           (case temperature of
              None \<Rightarrow> phalt Undefined
            | Some temperature \<Rightarrow>
                pthn (single (say (''[ALERT] Alert of possible infection in '' @ entry @ '' entry, '' @ temperature)))
               (pthn (log_alert_p True entry)
                    (modify_alerts_p J K entry))))"

definition handle_emergency_p :: "'j json_lib \<Rightarrow> 'd kv_lib \<Rightarrow> string \<Rightarrow> int \<Rightarrow> ('d, 'm, unit) server_prog" where
  "handle_emergency_p J K junk emgs_fifo_fd =
     pbind get_time_stamp_p (\<lambda>timestamp.
     pbind (recv_text_p junk emgs_fifo_fd ''[ERROR] Error reading from emergency pipe'') (\<lambda>buf.
     pthn (single (say (''[EMERGENCY] '' @ buf)))
    (pthn (log_alert_p False buf)
    (pthn (modify_emergencies_p J K timestamp buf)
         disconnect_all_clients_p))))"

section \<open>The web interface\<close>

definition setup_html_p :: "(string \<rightharpoonup> string) \<Rightarrow> string \<Rightarrow> ('d, 'm, string) server_prog" where
  "setup_html_p html filename =
     (case html filename of
        Some html_content \<Rightarrow> pret html_content
      | None \<Rightarrow> pthn (single (say (''[ERROR] Cannot open file '' @ filename))) (phalt (Exit 1)))"

definition page_p :: "(string \<rightharpoonup> string) \<Rightarrow> string \<Rightarrow> ('d, 'm, response) server_prog" where
  "page_p html filename = pbind (setup_html_p html filename) (\<lambda>t. pret [Set_Content t ''text/html''])"

definition plain_text_p :: "('d, 'm, string) server_prog \<Rightarrow> ('d, 'm, response) server_prog" where
  "plain_text_p m = pbind m (\<lambda>t. pret [Set_Content t ''text/plain''])"

definition post_login_p :: "request \<Rightarrow> ('d, 'm, response) server_prog" where
  "post_login_p req =
     pbind (atom [Writes Web_user] (check_credentials (get_param req ''username'') (get_param req ''password''))) (\<lambda>ok.
     if ok then pret [Set_Redirect ''/modify_form'']
     else pret [Set_Content ''Invalid username or password'' ''text/plain'', Set_Status 401])"

definition post_modify_p :: "'j json_lib \<Rightarrow> 'd kv_lib \<Rightarrow> request \<Rightarrow> ('d, 'm, response) server_prog" where
  "post_modify_p J K req = pbind (atom [Reads Web_user] (look user)) (\<lambda>u.
     if u then
       pthn (modify_supplies_p J K (get_param req ''supply_key'') (get_param req ''new_value''))
           (pret [Set_Redirect ''/modify_form''])
     else pret [Set_Content ''You are not authorized to modify the supplies.'' ''text/plain'', Set_Status 401])"

definition route_p :: "'j json_lib \<Rightarrow> 'd kv_lib \<Rightarrow> (string \<rightharpoonup> string) \<Rightarrow> request \<Rightarrow> ('d, 'm, response) server_prog option" where
  "route_p J K html req =
     (case req_method req of
        Get \<Rightarrow>
          if req_path req = ''/root'' then Some (page_p html ''../html/root.html'')
          else if req_path req = ''/supplies'' then Some (plain_text_p (get_section_p J K ''supplies''))
          else if req_path req = ''/alerts'' then Some (plain_text_p (get_section_p J K ''alerts''))
          else if req_path req = ''/emergencies'' then Some (plain_text_p (get_section_p J K ''emergency''))
          else if req_path req = ''/modify_supply'' then Some (page_p html ''../html/login.html'')
          else if req_path req = ''/modify_form'' then Some (page_p html ''../html/modify.html'')
          else None
      | Post \<Rightarrow>
          if req_path req = ''/login'' then Some (post_login_p req)
          else if req_path req = ''/modify'' then Some (post_modify_p J K req)
          else None)"

section \<open>Without interruption\<close>

lemma act_ext: "(\<And>s. m s = n s) \<Longrightarrow> m = n"
  by (rule ext)

lemma run_case_loop_exit [run_simps]:
  "run (case x of Returned \<Rightarrow> p | Fell b \<Rightarrow> q b) = (case x of Returned \<Rightarrow> run p | Fell b \<Rightarrow> run (q b))"
  by (cases x) simp_all

lemma run_supplies [run_simps]:
  "run (show_state_summary_p J K status) = show_state_summary J K status"
  "run (get_section_p J K field) = get_section J K field"
  "run (store_summary_p J K j) = store_summary J K j"
  "run (with_summary_p J K body) = with_summary J K (\<lambda>j. run (body j))"
  by (simp_all only: show_state_summary_p_def get_section_p_def store_summary_p_def with_summary_p_def run_simps
      show_state_summary_def get_section_def store_summary_def with_summary_def after_read_def [abs_def])

lemma run_supply_loop [run_simps]: "run (supply_loop_p J K key v j cats) = supply_loop J K key v j cats"
  by (induction cats) (simp_all only: supply_loop_p.simps supply_loop.simps run_simps)

lemma run_count [run_simps]: "run (count_in_summary_p J K a j) = count_in_summary J K a j"
  by (simp only: count_in_summary_p_def count_in_summary_def run_simps)

lemma run_modify [run_simps]:
  "run (modify_supplies_p J K key v) = modify_supplies J K key v"
  "run (modify_alerts_p J K a) = modify_alerts J K a"
  "run (modify_emergencies_p J K t m) = modify_emergencies J K t m"
  by (simp_all only: modify_supplies_p_def modify_alerts_p_def modify_emergencies_p_def run_simps
      modify_supplies_def modify_alerts_def modify_emergencies_def)

lemma run_with_log [run_simps]: "run (with_log_p err body) = with_log err (run body)"
  by (rule act_ext) (simp add: with_log_p_def with_log_def run_simps del: say_run)

lemma run_log [run_simps]:
  "run (log_event_p a ty d) = log_event a ty d" "run (log_alert_p b m) = log_alert b m"
  "run (send_lit_p sock lit n) = send_lit sock lit n"
  by (simp_all only: log_event_p_def log_alert_p_def send_lit_p_def get_time_stamp_p_def run_simps log_event_def log_alert_def
      send_lit_def)

lemma run_dialogue [run_simps]:
  "run (get_refuge_state_p J K sock status) = get_refuge_state J K sock status"
  "run (recv_text_p junk sock err) = recv_text junk sock err"
  by (simp_all only: get_refuge_state_p_def recv_text_p_def run_simps get_refuge_state_def recv_text_def)

lemma run_dialogues [run_simps]:
  "run (set_supplies_p J K junk sock status) = set_supplies J K junk sock status"
  "run (client_login_p junk sock u) = client_login_with_bool_return junk sock u"
  by (simp_all only: set_supplies_p_def client_login_p_def run_simps set_supplies_def client_login_with_bool_return_def)

lemma run_send_pieces [run_simps]:
  "run (send_pieces_p sock bs n :: ('d, 'm, int option) server_prog) = send_pieces sock bs n"
proof (induction sock bs n rule: send_pieces_p.induct)
  case (1 sock bs n)
  show ?case
  proof (cases "bs = []")
    case False
    have "run (if num < 0 then pret None else send_pieces_p sock (drop MAX_BUFFER bs) (n + num) :: ('d, 'm, int option) server_prog) =
        (if num < 0 then ret None else send_pieces sock (drop MAX_BUFFER bs) (n + num))" for num
      using 1 [OF False, of num] by (simp add: run_simps)
    with False show ?thesis by (simp only: send_pieces_p.simps [of sock bs n] send_pieces.simps [of sock bs n] if_False run_simps)
  qed (simp add: send_pieces_p.simps send_pieces.simps run_simps)
qed

lemma run_send_zip_file [run_simps]: "run (send_zip_file_p sock) = send_zip_file sock"
  unfolding send_zip_file_p_def send_zip_file_def run_simps by (rule act_ext) (simp split: option.split)

lemma run_command [run_simps]:
  "run (client_command_p J K junk a status sock u cmd) = client_command J K junk a status sock u cmd"
  by (simp only: client_command_p_def client_command_def Let_def run_simps)

lemma run_client [run_simps]:
  "run (client_round_p J K junk a status sock u buf) = client_round J K junk a status sock u buf"
  "run (client_arrives_p a sock) = client_arrives a sock"
  "run (client_leaves_p a sock) = client_leaves a sock"
  by (simp_all only: client_round_p_def client_arrives_p_def client_leaves_p_def run_simps client_round_def client_arrives_def
      client_leaves_def)

lemma run_each [run_simps]:
  "run (send_each_p cs msg) = send_each cs msg" "run (disconnect_each_p cs) = disconnect_each cs"
  by (induction cs) (simp_all only: send_each_p.simps send_each.simps disconnect_each_p.simps disconnect_each.simps run_simps)

lemma run_disconnect_all [run_simps]: "run disconnect_all_clients_p = disconnect_all_clients"
  unfolding disconnect_all_clients_p_def disconnect_all_clients_def run_simps by (rule act_ext) simp

lemma bnd_look: "bnd (look g) f = (\<lambda>s. f (g s) s)"
  by (rule act_ext) simp

lemma run_pipes [run_simps]:
  "run (handle_alerts_p J K junk fd) = handle_alerts J K junk fd"
  "run (handle_emergency_p J K junk fd) = handle_emergency J K junk fd"
  by (simp_all only: handle_alerts_p_def handle_alerts_def handle_emergency_p_def handle_emergency_def get_time_stamp_p_def
      Let_def run_simps bnd_look)

lemma run_web [run_simps]:
  "run (page_p html f) = page html f" "run (plain_text_p p) = plain_text (run p)" "run (post_login_p req) = post_login req"
  "run (post_modify_p J K req) = post_modify J K req"
  by (simp_all only: page_p_def page_def setup_html_p_def setup_html_def plain_text_p_def plain_text_def post_login_p_def
      post_login_def post_modify_p_def post_modify_def run_simps bnd_look if_distribR)

lemma run_route: "map_option run (route_p J K html req) = route J K html req"
  by (simp add: route_p_def route_def run_web run_supplies get_supplies_def get_alerts_def get_emergencies_def
      split: http_method.split)

end
