(* ===== verification/Fine_System.thy ===== *)
theory Fine_System
  imports Fine System
begin

text \<open>
  The running server with its threads interleaved step by step: \<open>main\<close>, a thread for
  every client, and the requests that the web server works on.  The steps of \<open>System\<close>
  are runs of it in which no other thread comes in between (\<open>system_refined\<close>).
\<close>

section \<open>Threads\<close>

text \<open>
  A client thread goes through rounds of its loop: what one round leaves for the next
  is the peer's address, \<open>ubuntu\<close> and the buffer.  The program of a thread is the rest of
  its present round.
\<close>

datatype client_next = Again sockaddr bool string | Gone

record 'd client_thread =
  ct_sock :: int
  ct_prog :: "('d, unit, client_next) server_prog"

record 'd fine =
  memory :: "'d server"
  main_prog :: "('d, unit, unit) server_prog"
  client_threads :: "'d client_thread list"
  web_progs :: "('d, unit, response) server_prog list"

text \<open>\<open>handle_client\<close> up to its loop, and one round of the loop with what follows it.\<close>

definition thread_start :: "('j, 'd) config \<Rightarrow> int \<Rightarrow> ('d, unit, client_next) server_prog" where
  "thread_start C sock = (case cf_peer C sock of
      None \<Rightarrow> pthn (single (say ''[ERROR] Error getting client information.'')) (pthn (single (close_fd sock)) (pret Gone))
    | Some a \<Rightarrow> pthn (client_arrives_p a sock) (pret (Again a False (cf_junk C))))"

definition thread_turn :: "('j, 'd) config \<Rightarrow> int \<Rightarrow> sockaddr \<Rightarrow> bool \<Rightarrow> string \<Rightarrow> ('d, unit, client_next) server_prog" where
  "thread_turn C sock a ubuntu buf =
     pbind (client_round_p (cf_json C) (cf_kv C) (cf_junk C) a None sock ubuntu buf) (\<lambda>e. case e of
         Stays ubuntu' \<Rightarrow> pret (Again a ubuntu' (replicate MAX_BUFFER NUL))
       | Leaves \<Rightarrow> pthn (client_leaves_p a sock) (pret Gone))"

section \<open>Steps\<close>

text \<open>
  What one thread does next, or what comes in from outside.  \<open>main\<close> accepts connections and handles the pipes one after the other, so only when the
  handler before has returned.
\<close>

inductive thread_step :: "('j, 'd) config \<Rightarrow> 'd fine \<Rightarrow> 'd fine \<Rightarrow> bool" for C where
  arrive: "thread_step C q (q\<lparr>memory := deliver fd evs (memory q)\<rparr>)"
    if "fd = emgs_fifo_fd C \<longrightarrow> ascii_stream evs"
| main: "thread_step C q (q\<lparr>main_prog := p, memory := s'\<rparr>)"
    if "main_prog q = Atom ls f" and "f (memory q) = (p, s')"
| alert: "thread_step C q (q\<lparr>main_prog := handle_alerts_p (cf_json C) (cf_kv C) (cf_junk C) (alert_fifo_fd C)\<rparr>)"
    if "main_prog q = Done (Inr ())"
| emergency: "thread_step C q (q\<lparr>main_prog := handle_emergency_p (cf_json C) (cf_kv C) (cf_junk C) (emgs_fifo_fd C)\<rparr>)"
    if "main_prog q = Done (Inr ())"
| accept: "thread_step C q (q\<lparr>client_threads := client_threads q @ [\<lparr>ct_sock = sock, ct_prog = thread_start C sock\<rparr>]\<rparr>)"
    if "main_prog q = Done (Inr ())"
| client: "thread_step C q (q\<lparr>client_threads := (client_threads q)[i := t\<lparr>ct_prog := p\<rparr>], memory := s'\<rparr>)"
    if "i < length (client_threads q)" and "t = client_threads q ! i" and "ct_prog t = Atom ls f" and "f (memory q) = (p, s')"
| turn: "thread_step C q (q\<lparr>client_threads := (client_threads q)[i := t\<lparr>ct_prog := thread_turn C (ct_sock t) a u buf\<rparr>]\<rparr>)"
    if "i < length (client_threads q)" and "t = client_threads q ! i" and "ct_prog t = Done (Inr (Again a u buf))"
| gone: "thread_step C q (q\<lparr>client_threads := take i (client_threads q) @ drop (Suc i) (client_threads q)\<rparr>)"
    if "i < length (client_threads q)" and "ct_prog (client_threads q ! i) = Done (Inr Gone)"
| request: "thread_step C q (q\<lparr>web_progs := web_progs q @ [p]\<rparr>)"
    if "route_p (cf_json C) (cf_kv C) (cf_html C) req = Some p"
| web: "thread_step C q (q\<lparr>web_progs := (web_progs q)[i := p], memory := s'\<rparr>)"
    if "i < length (web_progs q)" and "web_progs q ! i = Atom ls f" and "f (memory q) = (p, s')"
| answer: "thread_step C q (q\<lparr>web_progs := take i (web_progs q) @ drop (Suc i) (web_progs q)\<rparr>)"
    if "i < length (web_progs q)" and "web_progs q ! i = Done r" and "r = Inr out \<or> r = Inl (Throw e)"

text \<open>
  The process ends when \<open>main\<close> or a client thread comes to an \<open>exit\<close>, an exception that
  nobody catches, or undefined behaviour; the web server catches the exceptions of its
  handlers.  After that no thread makes a step.
\<close>

fun crashed :: "('l, 's, 'a) prog \<Rightarrow> bool" where
  "crashed (Done (Inl e)) = True"
| "crashed p = False"

fun web_crashed :: "('l, 's, 'a) prog \<Rightarrow> bool" where
  "web_crashed (Done (Inl (Throw e))) = False"
| "web_crashed (Done (Inl e)) = True"
| "web_crashed p = False"

definition running :: "'d fine \<Rightarrow> bool" where
  "running q \<longleftrightarrow> \<not> crashed (main_prog q) \<and> (\<forall>t \<in> set (client_threads q). \<not> crashed (ct_prog t)) \<and>
     (\<forall>p \<in> set (web_progs q). \<not> web_crashed p)"

definition fine_step :: "('j, 'd) config \<Rightarrow> 'd fine \<Rightarrow> 'd fine \<Rightarrow> bool" where
  "fine_step C q q' \<longleftrightarrow> running q \<and> thread_step C q q'"

lemma fine_stepI: "running q \<Longrightarrow> thread_step C q q' \<Longrightarrow> fine_step C q q'"
  by (simp add: fine_step_def)

lemma not_crashed_atom [simp]: "\<not> crashed (atom ls m)" "\<not> web_crashed (atom ls m)"
  "\<not> crashed (pbind (atom ls m) k)" "\<not> crashed (pthn (atom ls m') p)" "\<not> web_crashed (pbind (atom ls m) k)"
  by (simp_all add: atom_def pthn_def)

text \<open>A run, with the contents of the store after every step, the last first.\<close>

inductive fine_run :: "('j, 'd) config \<Rightarrow> 'd fine \<Rightarrow> 'd list \<Rightarrow> 'd fine \<Rightarrow> bool" for C q0 where
  start: "fine_run C q0 [db (memory q0)] q0"
| step: "fine_run C q0 (db (memory q') # ds) q'" if "fine_run C q0 ds q" and "fine_step C q q'"

abbreviation fine_reach :: "('j, 'd) config \<Rightarrow> 'd fine \<Rightarrow> 'd fine \<Rightarrow> bool" where
  "fine_reach C \<equiv> (fine_step C)\<^sup>*\<^sup>*"

lemma fine_run_reach: "fine_run C q0 ds q \<Longrightarrow> fine_reach C q0 q"
  by (induction rule: fine_run.induct) (auto intro: rtranclp.rtrancl_into_rtrancl)

lemma fine_reach_run: "fine_reach C q0 q \<Longrightarrow> \<exists>ds. fine_run C q0 ds q"
  by (induction rule: rtranclp_induct) (auto intro: fine_run.intros)

section \<open>Races\<close>

text \<open>
  The accesses that the threads are about to make, and a race: two threads are about to
  make accesses that conflict.
\<close>

definition accesses :: "'d fine \<Rightarrow> location access list list" where
  "accesses q = next_accesses (main_prog q) # map (\<lambda>t. next_accesses (ct_prog t)) (client_threads q) @
     map next_accesses (web_progs q)"

definition racy :: "'d fine \<Rightarrow> bool" where
  "racy q \<longleftrightarrow> races (accesses q)"

section \<open>Uninterrupted runs\<close>

text \<open>A program that runs on its own, in each of the three places.\<close>

lemma main_alone:
  assumes "psteps (p, s) (p', s')" and "running (q\<lparr>main_prog := Done (Inr ())\<rparr>)"
  shows "fine_reach C (q\<lparr>main_prog := p, memory := s\<rparr>) (q\<lparr>main_prog := p', memory := s'\<rparr>)"
  using assms(1)
proof (induction "(p, s)" "(p', s')" arbitrary: p s)
  case none
  show ?case by simp
next
  case (some f s ls)
  let ?q = "q\<lparr>main_prog := Atom ls f, memory := s\<rparr>"
  have "fine_step C ?q (?q\<lparr>main_prog := fst (f s), memory := snd (f s)\<rparr>)" by (rule fine_stepI [OF _ thread_step.main]) (use assms(2) in \<open>simp_all add: running_def\<close>)
  moreover have "fine_reach C (q\<lparr>main_prog := fst (f s), memory := snd (f s)\<rparr>) (q\<lparr>main_prog := p', memory := s'\<rparr>)"
    by (rule some(2)) simp
  ultimately show ?case by (simp add: converse_rtranclp_into_rtranclp)
qed

lemma client_alone:
  assumes "psteps (p, s) (p', s')" and "i < length ts"
    and "running (q\<lparr>client_threads := ts[i := \<lparr>ct_sock = k, ct_prog = Done (Inr Gone)\<rparr>]\<rparr>)"
  shows "fine_reach C (q\<lparr>client_threads := ts[i := \<lparr>ct_sock = k, ct_prog = p\<rparr>], memory := s\<rparr>)
    (q\<lparr>client_threads := ts[i := \<lparr>ct_sock = k, ct_prog = p'\<rparr>], memory := s'\<rparr>)"
  using assms(1)
proof (induction "(p, s)" "(p', s')" arbitrary: p s)
  case none
  show ?case by simp
next
  case (some f s ls)
  let ?q = "q\<lparr>client_threads := ts[i := \<lparr>ct_sock = k, ct_prog = Atom ls f\<rparr>], memory := s\<rparr>"
  have "fine_step C ?q (?q\<lparr>client_threads := (client_threads ?q)[i := (client_threads ?q ! i)\<lparr>ct_prog := fst (f s)\<rparr>],
      memory := snd (f s)\<rparr>)"
  proof (rule fine_stepI [OF _ thread_step.client])
    have "\<not> crashed (ct_prog t)" if "t \<in> set (ts[i := \<lparr>ct_sock = k, ct_prog = Atom ls f\<rparr>])" for t
    proof (cases "t = \<lparr>ct_sock = k, ct_prog = Atom ls f\<rparr>")
      case False
      with that assms(2) have "t \<in> set (ts[i := \<lparr>ct_sock = k, ct_prog = Done (Inr Gone)\<rparr>])"
        by (auto simp: in_set_conv_nth nth_list_update split: if_splits)
      with assms(3) show ?thesis by (simp add: running_def)
    qed simp
    then show "running ?q" using assms(3) by (simp add: running_def)
  qed (use assms(2) in simp_all)
  moreover have "fine_reach C (q\<lparr>client_threads := ts[i := \<lparr>ct_sock = k, ct_prog = fst (f s)\<rparr>], memory := snd (f s)\<rparr>)
      (q\<lparr>client_threads := ts[i := \<lparr>ct_sock = k, ct_prog = p'\<rparr>], memory := s'\<rparr>)"
    by (rule some(2)) simp
  ultimately show ?case using assms(2) by (simp add: converse_rtranclp_into_rtranclp)
qed

lemma web_alone:
  assumes "psteps (p, s) (p', s')" and "running (q\<lparr>web_progs := ps @ rs\<rparr>)"
  shows "fine_reach C (q\<lparr>web_progs := ps @ p # rs, memory := s\<rparr>) (q\<lparr>web_progs := ps @ p' # rs, memory := s'\<rparr>)"
  using assms(1)
proof (induction "(p, s)" "(p', s')" arbitrary: p s)
  case none
  show ?case by simp
next
  case (some f s ls)
  let ?q = "q\<lparr>web_progs := ps @ Atom ls f # rs, memory := s\<rparr>"
  have "fine_step C ?q (?q\<lparr>web_progs := (web_progs ?q)[length ps := fst (f s)], memory := snd (f s)\<rparr>)"
    by (rule fine_stepI [OF _ thread_step.web]) (use assms(2) in \<open>simp_all add: running_def\<close>)
  moreover have "fine_reach C (q\<lparr>web_progs := ps @ fst (f s) # rs, memory := snd (f s)\<rparr>) (q\<lparr>web_progs := ps @ p' # rs, memory := s'\<rparr>)"
    by (rule some(2)) simp
  ultimately show ?case by (simp add: converse_rtranclp_into_rtranclp)
qed

text \<open>A state of \<open>System\<close>: no handler is running, and every client thread is between two rounds.\<close>

definition rest_thread :: "thread \<Rightarrow> 'd client_thread" where
  "rest_thread t = \<lparr>ct_sock = th_sock t, ct_prog = Done (Inr (Again (th_addr t) (th_ubuntu t) (th_buf t)))\<rparr>"

definition at_rest :: "'d system \<Rightarrow> 'd fine" where
  "at_rest = (\<lambda>(s, ths). \<lparr>memory = s, main_prog = Done (Inr ()), client_threads = map rest_thread ths, web_progs = []\<rparr>)"

lemma at_rest_simps [simp]:
  "memory (at_rest (s, ths)) = s" "main_prog (at_rest (s, ths)) = Done (Inr ())"
  "client_threads (at_rest (s, ths)) = map rest_thread ths" "web_progs (at_rest (s, ths)) = []"
  "(at_rest (s, ths))\<lparr>memory := s'\<rparr> = at_rest (s', ths)"
  by (simp_all add: at_rest_def)

lemma set_update_cases: "x \<in> set (xs[i := y]) \<Longrightarrow> x = y \<or> x \<in> set xs"
  using set_update_subset_insert by fast

lemma running_rest [simp]:
  fixes s :: "'d server"
  shows "running (at_rest (s, ths))" "running ((at_rest (s, ths))\<lparr>main_prog := Done (Inr ())\<rparr>)"
  "running ((at_rest (s, ths))\<lparr>client_threads := (map rest_thread ths)[i := \<lparr>ct_sock = k, ct_prog = Done (Inr e)\<rparr>]\<rparr>)"
  "running ((at_rest (s, ths))\<lparr>client_threads := map rest_thread ths @ [\<lparr>ct_sock = k, ct_prog = Done (Inr e)\<rparr>]\<rparr>)"
proof -
  have rest: "\<not> crashed (ct_prog (rest_thread t :: 'd client_thread))" for t
    by (simp add: rest_thread_def)
  show "running (at_rest (s, ths))" "running ((at_rest (s, ths))\<lparr>main_prog := Done (Inr ())\<rparr>)"
    "running ((at_rest (s, ths))\<lparr>client_threads := map rest_thread ths @ [\<lparr>ct_sock = k, ct_prog = Done (Inr e)\<rparr>]\<rparr>)"
    by (auto simp: running_def rest)
  let ?x = "\<lparr>ct_sock = k, ct_prog = Done (Inr e)\<rparr>"
  have "\<not> crashed (ct_prog t)" if "t \<in> set ((map rest_thread ths)[i := ?x])" for t :: "'d client_thread"
  proof -
    from that have "t = ?x \<or> t \<in> set (map rest_thread ths)" by (rule set_update_cases)
    then show ?thesis
    proof
      assume "t \<in> set (map rest_thread ths)"
      then obtain u where "t = rest_thread u" by auto
      then show ?thesis by (simp only: rest not_False_eq_True)
    qed simp
  qed
  then show "running ((at_rest (s, ths))\<lparr>client_threads := (map rest_thread ths)[i := ?x]\<rparr>)"
    by (simp add: running_def del: set_map)
qed

lemma fine_eqI:
  "memory q = memory q' \<Longrightarrow> main_prog q = main_prog q' \<Longrightarrow> client_threads q = client_threads q' \<Longrightarrow> web_progs q = web_progs q' \<Longrightarrow>
     q = (q' :: 'd fine)"
  by (cases q; cases q') simp

lemma handler_alone:
  assumes "fine_step C (at_rest (s, ths)) ((at_rest (s, ths))\<lparr>main_prog := p\<rparr>)" and "run p s = (Inr (), s')"
  shows "fine_reach C (at_rest (s, ths)) (at_rest (s', ths))"
proof -
  have "(at_rest (s, ths))\<lparr>main_prog := p\<rparr> = (at_rest (s, ths))\<lparr>main_prog := p, memory := s\<rparr>" by (rule fine_eqI) simp_all
  moreover have "(at_rest (s, ths))\<lparr>main_prog := Done (Inr ()), memory := s'\<rparr> = at_rest (s', ths)" by (rule fine_eqI) simp_all
  ultimately show ?thesis
    using main_alone [OF psteps_run [OF assms(2)] running_rest(2) [of s ths], of C] assms(1)
    by (metis converse_rtranclp_into_rtranclp)
qed

text \<open>A client thread from one point of its life to the next.\<close>

lemma thread_alone:
  fixes s :: "'d server" and C :: "('j, 'd) config"
  assumes "i < length ths" and "run (thread_turn C (th_sock (ths ! i)) (th_addr (ths ! i)) (th_ubuntu (ths ! i)) (th_buf (ths ! i))) s = (Inr e, s')"
  shows "fine_reach C (at_rest (s, ths)) ((at_rest (s', ths))\<lparr>client_threads :=
    (map rest_thread ths)[i := \<lparr>ct_sock = th_sock (ths ! i), ct_prog = Done (Inr e)\<rparr>]\<rparr>)"
proof -
  let ?t = "ths ! i" and ?ts = "map rest_thread ths"
  let ?p = "thread_turn C (th_sock ?t) (th_addr ?t) (th_ubuntu ?t) (th_buf ?t)"
  let ?mk = "\<lambda>p s. (at_rest (s, ths))\<lparr>client_threads := ?ts[i := \<lparr>ct_sock = th_sock ?t, ct_prog = p\<rparr>], memory := s\<rparr>"
  have "fine_step C (at_rest (s, ths)) ((at_rest (s, ths))\<lparr>client_threads :=
      (client_threads (at_rest (s, ths)))[i := (rest_thread ?t)\<lparr>ct_prog := thread_turn C (ct_sock (rest_thread ?t)) (th_addr ?t) (th_ubuntu ?t) (th_buf ?t)\<rparr>]\<rparr>)"
    using assms(1) thread_step.turn [of i "at_rest (s, ths)" "rest_thread ?t" "th_addr ?t" "th_ubuntu ?t" "th_buf ?t" C]
    by (simp add: rest_thread_def fine_step_def)
  moreover have "(at_rest (s, ths))\<lparr>client_threads :=
      (client_threads (at_rest (s, ths)))[i := (rest_thread ?t)\<lparr>ct_prog := thread_turn C (ct_sock (rest_thread ?t)) (th_addr ?t) (th_ubuntu ?t) (th_buf ?t)\<rparr>]\<rparr> = ?mk ?p s"
    by (rule fine_eqI) (simp_all add: rest_thread_def)
  moreover have "fine_reach C (?mk ?p s) ((at_rest (s, ths))\<lparr>client_threads := ?ts[i := \<lparr>ct_sock = th_sock ?t, ct_prog = Done (Inr e)\<rparr>], memory := s'\<rparr>)"
    by (rule client_alone [OF psteps_run [OF assms(2)]]) (use assms(1) in simp_all)
  moreover have "(at_rest (s, ths))\<lparr>client_threads := ?ts[i := \<lparr>ct_sock = th_sock ?t, ct_prog = Done (Inr e)\<rparr>], memory := s'\<rparr> =
      (at_rest (s', ths))\<lparr>client_threads := ?ts[i := \<lparr>ct_sock = th_sock ?t, ct_prog = Done (Inr e)\<rparr>]\<rparr>"
    by (rule fine_eqI) simp_all
  ultimately show ?thesis by (metis (lifting) converse_rtranclp_into_rtranclp)
qed

lemma start_alone:
  fixes s :: "'d server"
  assumes "run (thread_start C sock) s = (Inr e, s')"
  shows "fine_reach C (at_rest (s, ths)) ((at_rest (s', ths))\<lparr>client_threads :=
    map rest_thread ths @ [\<lparr>ct_sock = sock, ct_prog = Done (Inr e)\<rparr>]\<rparr>)"
proof -
  let ?mk = "\<lambda>p s. (at_rest (s, ths))\<lparr>client_threads :=
    (map rest_thread ths @ [undefined])[length ths := \<lparr>ct_sock = sock, ct_prog = p\<rparr>], memory := s\<rparr>"
  have l: "(map rest_thread ths @ [undefined])[length ths := x] = map rest_thread ths @ [x]" for x :: "'d client_thread"
    using list_update_append_length [of "map rest_thread ths" undefined "[]" x] by simp
  have "fine_step C (at_rest (s, ths)) ((at_rest (s, ths))\<lparr>client_threads :=
      client_threads (at_rest (s, ths)) @ [\<lparr>ct_sock = sock, ct_prog = thread_start C sock\<rparr>]\<rparr>)"
    by (rule fine_stepI [OF _ thread_step.accept]) simp_all
  moreover have "(at_rest (s, ths))\<lparr>client_threads :=
      client_threads (at_rest (s, ths)) @ [\<lparr>ct_sock = sock, ct_prog = thread_start C sock\<rparr>]\<rparr> = ?mk (thread_start C sock) s"
    by (rule fine_eqI) (simp_all add: l)
  moreover have "fine_reach C (?mk (thread_start C sock) s) ((at_rest (s, ths))\<lparr>client_threads :=
    (map rest_thread ths @ [undefined])[length ths := \<lparr>ct_sock = sock, ct_prog = Done (Inr e)\<rparr>], memory := s'\<rparr>)"
    by (rule client_alone [OF psteps_run [OF assms]]) (simp_all add: l)
  moreover have "(at_rest (s, ths))\<lparr>client_threads :=
      (map rest_thread ths @ [undefined])[length ths := \<lparr>ct_sock = sock, ct_prog = Done (Inr e)\<rparr>], memory := s'\<rparr> =
    (at_rest (s', ths))\<lparr>client_threads := map rest_thread ths @ [\<lparr>ct_sock = sock, ct_prog = Done (Inr e)\<rparr>]\<rparr>"
    by (rule fine_eqI) (simp_all add: l)
  ultimately show ?thesis by (metis (lifting) converse_rtranclp_into_rtranclp)
qed

lemma thread_gone:
  assumes "fine_reach C q (q'\<lparr>client_threads := ts\<rparr>)" and "i < length ts" and "ct_prog (ts ! i) = Done (Inr Gone)"
    and "running (q'\<lparr>client_threads := ts\<rparr>)"
  shows "fine_reach C q (q'\<lparr>client_threads := take i ts @ drop (Suc i) ts\<rparr>)"
proof -
  have "fine_step C (q'\<lparr>client_threads := ts\<rparr>) ((q'\<lparr>client_threads := ts\<rparr>)\<lparr>client_threads :=
      take i (client_threads (q'\<lparr>client_threads := ts\<rparr>)) @ drop (Suc i) (client_threads (q'\<lparr>client_threads := ts\<rparr>))\<rparr>)"
    by (rule fine_stepI [OF _ thread_step.gone]) (use assms(2-4) in simp_all)
  with assms(1) show ?thesis by simp
qed

end
