(* ===== verification/Fine_Refine.thy ===== *)
theory Fine_Refine
  imports Fine_System
begin

text \<open>
  The interleaved server against the coarser models: every handler run without
  interruption is the action of its component, and every step of \<open>System\<close> is a run of
  the interleaved server.
\<close>

section \<open>What a client thread does between two points of rest\<close>

lemma thread_start_runs:
  "cf_peer C sock = Some a \<Longrightarrow> client_arrives a sock s = (Inr (), s') \<Longrightarrow>
     run (thread_start C sock) s = (Inr (Again a False (cf_junk C)), s')"
  "cf_peer C sock = None \<Longrightarrow> handle_client J K (cf_peer C) junk sock status s = (Inr (), s') \<Longrightarrow>
     run (thread_start C sock) s = (Inr Gone, s')"
  by (auto simp: thread_start_def handle_client_def run_client run_pthn run_pret run_atom split: sum.splits prod.splits)

lemma thread_turn_runs:
  assumes "client_round (cf_json C) (cf_kv C) (cf_junk C) a None sock u buf s = (Inr e, s')"
  shows "e = Stays u' \<Longrightarrow> run (thread_turn C sock a u buf) s = (Inr (Again a u' (replicate MAX_BUFFER NUL)), s')"
    and "e = Leaves \<Longrightarrow> client_leaves a sock s' = (Inr (), s'') \<Longrightarrow> run (thread_turn C sock a u buf) s = (Inr Gone, s'')"
  using assms by (simp_all add: thread_turn_def run_client run_pbind run_pthn run_pret)

lemma rest_thread_update:
  "i < length ths \<Longrightarrow> (map rest_thread ths)[i := \<lparr>ct_sock = th_sock (ths ! i), ct_prog = Done (Inr (Again (th_addr (ths ! i)) u b))\<rparr>] =
     map rest_thread (ths[i := (ths ! i)\<lparr>th_ubuntu := u, th_buf := b\<rparr>])"
  by (simp add: map_update rest_thread_def)

lemma at_rest_clients: "(at_rest (s, ths))\<lparr>client_threads := map rest_thread ths'\<rparr> = at_rest (s, ths')"
  by (rule fine_eqI) simp_all

lemma take_drop_update: "i < length xs \<Longrightarrow> take i (xs[i := x]) @ drop (Suc i) (xs[i := x]) = take i xs @ drop (Suc i) xs"
  by simp

section \<open>Web requests\<close>

text \<open>A state in which only web requests are being worked on, and its steps.\<close>

definition web_at :: "'d server \<Rightarrow> thread list \<Rightarrow> ('d, unit, response) server_prog list \<Rightarrow> 'd fine" where
  "web_at s ths ps = (at_rest (s, ths))\<lparr>web_progs := ps\<rparr>"

lemma web_at_simps [simp]:
  "web_at s ths [] = at_rest (s, ths)" "web_progs (web_at s ths ps) = ps" "memory (web_at s ths ps) = s"
  "client_threads (web_at s ths ps) = map rest_thread ths" "main_prog (web_at s ths ps) = Done (Inr ())"
  by (simp_all add: web_at_def fine_eqI)

lemma web_at_upd: "(web_at s ths ps)\<lparr>web_progs := ps'\<rparr> = web_at s ths ps'" "(web_at s ths ps)\<lparr>memory := s'\<rparr> = web_at s' ths ps"
  by (rule fine_eqI; simp)+

lemma running_web_at: "running (web_at s ths ps) \<longleftrightarrow> (\<forall>p \<in> set ps. \<not> web_crashed p)"
  by (auto simp: running_def rest_thread_def)

lemma web_at_request:
  assumes "\<forall>p \<in> set ps. \<not> web_crashed p" and "route_p (cf_json C) (cf_kv C) (cf_html C) req = Some p"
  shows "fine_step C (web_at s ths ps) (web_at s ths (ps @ [p]))"
  using thread_step.request [OF assms(2), of "web_at s ths ps"] assms(1)
  by (simp add: fine_step_def running_web_at web_at_upd)

lemma web_at_run:
  assumes "psteps (p, s) (p', s')" and "\<forall>p \<in> set (ps @ rs). \<not> web_crashed p"
  shows "fine_reach C (web_at s ths (ps @ p # rs)) (web_at s' ths (ps @ p' # rs))"
proof -
  have u: "q\<lparr>web_progs := xs, memory := m\<rparr> = (q\<lparr>web_progs := xs\<rparr>)\<lparr>memory := m\<rparr>" for q :: "'a fine" and xs m by simp
  have "running ((web_at s ths [])\<lparr>web_progs := ps @ rs\<rparr>)" using assms(2) by (simp only: running_web_at web_at_upd)
  from web_alone [OF assms(1) this, of C] show ?thesis by (simp only: u web_at_upd)
qed

lemma web_at_answer:
  assumes "r = Inr out \<or> r = Inl (Throw e)" and "\<forall>p \<in> set (ps @ rs). \<not> web_crashed p"
  shows "fine_step C (web_at s ths (ps @ Done r # rs)) (web_at s ths (ps @ rs))"
proof -
  have "running (web_at s ths (ps @ Done r # rs))" using assms by (auto simp: running_web_at)
  then show ?thesis
    using thread_step.answer [of "length ps" "web_at s ths (ps @ Done r # rs)" r out e C] assms(1)
    by (simp add: fine_step_def web_at_upd)
qed

lemmas web_at_reply = web_at_answer [OF disjI1 [OF refl]]

lemma not_web_crashed_returns: "run p s = (Inr x, s') \<Longrightarrow> \<not> web_crashed p"
  by (cases p) auto

text \<open>A web request on its own.\<close>

lemma request_alone:
  fixes s :: "'d server"
  assumes "route (cf_json C) (cf_kv C) (cf_html C) req = Some h" and "h s = (r, s')" and "r = Inr out \<or> r = Inl (Throw e)"
  shows "fine_reach C (at_rest (s, ths)) (at_rest (s', ths))"
proof -
  obtain p where p: "route_p (cf_json C) (cf_kv C) (cf_html C) req = Some p" "run p = h"
    using assms(1) by (auto simp: run_route [symmetric])
  have "fine_step C (at_rest (s, ths)) (web_at s ths [p])"
    using web_at_request [of "[]", OF _ p(1)] by simp
  moreover have "fine_reach C (web_at s ths [p]) (web_at s' ths [Done r])"
    using web_at_run [OF psteps_run, of p s r s' "[]" "[]"] p(2) assms(2) by simp
  moreover have "fine_step C (web_at s' ths [Done r]) (at_rest (s', ths))"
    using web_at_answer [OF assms(3), of "[]" "[]"] by simp
  ultimately show ?thesis by (rule converse_rtranclp_into_rtranclp [OF _ rtranclp.rtrancl_into_rtrancl])
qed

section \<open>The simulation\<close>

lemma accept_alone:
  assumes "cf_peer C sock = Some a" and "client_arrives a sock s = (Inr (), s')"
  shows "fine_reach C (at_rest (s, ths))
    (at_rest (s', ths @ [\<lparr>th_sock = sock, th_addr = a, th_ubuntu = False, th_buf = cf_junk C\<rparr>]))"
proof -
  have "(at_rest (s', ths))\<lparr>client_threads := map rest_thread ths @ [\<lparr>ct_sock = sock, ct_prog = Done (Inr (Again a False (cf_junk C)))\<rparr>]\<rparr> =
      at_rest (s', ths @ [\<lparr>th_sock = sock, th_addr = a, th_ubuntu = False, th_buf = cf_junk C\<rparr>])"
    by (rule fine_eqI) (simp_all add: rest_thread_def)
  with start_alone [OF thread_start_runs(1) [OF assms], of ths] show ?thesis by simp
qed

lemma reject_alone:
  fixes s :: "'d server"
  assumes "run (thread_start C sock) s = (Inr Gone, s')"
  shows "fine_reach C (at_rest (s, ths)) (at_rest (s', ths))"
proof -
  let ?ts = "map rest_thread ths @ [\<lparr>ct_sock = sock, ct_prog = Done (Inr Gone)\<rparr>]"
  have "fine_reach C (at_rest (s, ths)) ((at_rest (s', ths))\<lparr>client_threads := take (length ths) ?ts @ drop (Suc (length ths)) ?ts\<rparr>)"
    by (rule thread_gone [OF start_alone [OF assms]]) (simp_all add: nth_append del: set_append)
  then show ?thesis by (simp add: at_rest_clients)
qed

lemma serve_alone:
  assumes "i < length ths"
    and "client_round (cf_json C) (cf_kv C) (cf_junk C) (th_addr (ths ! i)) None (th_sock (ths ! i)) (th_ubuntu (ths ! i)) (th_buf (ths ! i)) s =
      (Inr (Stays u), s')"
  shows "fine_reach C (at_rest (s, ths)) (at_rest (s', ths[i := (ths ! i)\<lparr>th_ubuntu := u, th_buf := replicate MAX_BUFFER NUL\<rparr>]))"
  using thread_alone [OF assms(1) thread_turn_runs(1) [OF assms(2) refl]]
  by (simp only: rest_thread_update [OF assms(1)] at_rest_clients)

lemma leave_alone:
  fixes s :: "'d server"
  assumes "i < length ths" and "run (thread_turn C (th_sock (ths ! i)) (th_addr (ths ! i)) (th_ubuntu (ths ! i)) (th_buf (ths ! i))) s = (Inr Gone, s')"
  shows "fine_reach C (at_rest (s, ths)) (at_rest (s', take i ths @ drop (Suc i) ths))"
proof -
  let ?ts = "(map rest_thread ths)[i := \<lparr>ct_sock = th_sock (ths ! i), ct_prog = Done (Inr Gone)\<rparr>] :: 'd client_thread list"
  have "fine_reach C (at_rest (s, ths)) ((at_rest (s', ths))\<lparr>client_threads := take i ?ts @ drop (Suc i) ?ts\<rparr>)"
    by (rule thread_gone [OF thread_alone [OF assms]]) (use assms(1) in simp_all)
  moreover have "take i ?ts @ drop (Suc i) ?ts = map rest_thread (take i ths @ drop (Suc i) ths)"
    using assms(1) by (simp add: take_map drop_map)
  ultimately show ?thesis by (simp only: at_rest_clients)
qed

lemma system_step_alone:
  fixes q q' :: "'d system"
  assumes "sys_step C q q'"
  shows "fine_reach C (at_rest q) (at_rest q')"
  using assms
proof (cases rule: sys_step.cases)
  case (arrive fd evs s ths)
  then show ?thesis using thread_step.arrive [of fd C evs "at_rest (s, ths)"] by (simp add: fine_step_def r_into_rtranclp)
next
  case (accept sock a s s' ths)
  then show ?thesis using accept_alone by simp
next
  case (reject sock s s' ths)
  then show ?thesis using reject_alone [OF thread_start_runs(2)] by simp
next
  case (serve_client i ths t s u s')
  then show ?thesis using serve_alone by simp
next
  case (leave_client i ths t s s' s'')
  then show ?thesis using leave_alone [OF _ thread_turn_runs(2) [OF _ refl]] by simp
next
  case (alert s s' ths)
  then show ?thesis
    using handler_alone [OF fine_stepI [OF running_rest(1) thread_step.alert], of s ths C s'] by (simp add: run_pipes)
next
  case (emergency s s' ths)
  then show ?thesis
    using handler_alone [OF fine_stepI [OF running_rest(1) thread_step.emergency], of s ths C s'] by (simp add: run_pipes)
next
  case (web req h s r s' out e ths)
  then show ?thesis using request_alone by simp
qed

lemma reachable_alone: "reachable C q0 q \<Longrightarrow> fine_reach C (at_rest q0) (at_rest q)"
proof (induction rule: reachable.induct)
  case (step q q')
  then show ?case using system_step_alone rtranclp_trans by metis
qed simp

end
