(* ===== verification/Fine_Safe.thy ===== *)
theory Fine_Safe
  imports Fine_Refine System_Props
begin

text \<open>
  Every program of \<open>Fine\<close> keeps the summary well formed, whatever the other threads do
  between its steps: what a thread writes is an update of a summary that was in the
  store when the thread read it, which need not be the one it replaces.
\<close>

section \<open>The history of the store\<close>

text \<open>One update of the summary: a quantity set, an alert counted, an emergency noted.\<close>

definition updated :: "refuge \<Rightarrow> refuge \<Rightarrow> bool" where
  "updated r r' \<longleftrightarrow>
     (\<exists>key v. known_supply r key \<and> 0 \<le> v \<and> v \<le> INT_MAX \<and> r' = set_supply key v r) \<or>
     (\<exists>entry n. entry \<in> alert_keys \<and> alerts r entry = Some n \<and> n < INT_MAX \<and> r' = count_alert entry r) \<or>
     (\<exists>ts msg. ascii ts \<and> ascii msg \<and> r' = note_emergency ts msg r)"

lemma updated_wf: "updated r r' \<Longrightarrow> refuge_wf r \<Longrightarrow> refuge_wf r'"
  unfolding updated_def by (elim disjE exE conjE) (auto intro: set_supply_wf count_alert_wf note_emergency_wf)

text \<open>The summaries that the store has held after each step so far, the last first.\<close>

inductive history :: "refuge \<Rightarrow> refuge list \<Rightarrow> bool" for r0 where
  first: "history r0 [r0]"
| same: "history r0 (r # w) \<Longrightarrow> history r0 (r # r # w)"
| update: "history r0 w \<Longrightarrow> r \<in> set w \<Longrightarrow> updated r r' \<Longrightarrow> history r0 (r' # w)"

lemma history_wf: "history r0 w \<Longrightarrow> refuge_wf r0 \<Longrightarrow> \<forall>r \<in> set w. refuge_wf r"
  by (induction rule: history.induct) (auto intro: updated_wf)

lemma history_nonempty: "history r0 w \<Longrightarrow> w \<noteq> []"
  by (induction rule: history.induct) simp_all

definition store_world ::
    "'j json_lib \<Rightarrow> 'd kv_lib \<Rightarrow> ('j \<Rightarrow> bool) \<Rightarrow> ('j \<Rightarrow> bool) \<Rightarrow> ('d \<Rightarrow> bool) \<Rightarrow> int
     \<Rightarrow> refuge list \<Rightarrow> ('d, 'm) server_scheme \<Rightarrow> bool" where
  "store_world J K obj plain open_rw fd w s \<longleftrightarrow>
     w \<noteq> [] \<and> (\<forall>r \<in> set w. refuge_wf r) \<and> store_holds J K obj plain (db s) (hd w) \<and> open_rw (db s) \<and>
     (\<forall>n. ascii (clock s n)) \<and> ascii_stream (inbox s fd)"

definition world_step :: "refuge list \<Rightarrow> refuge list \<Rightarrow> bool" where
  "world_step w w' \<longleftrightarrow> w \<noteq> [] \<and> (\<exists>r'. w' = r' # w \<and> (r' = hd w \<or> (\<exists>r \<in> set w. updated r r')))"

lemma history_step: "history r0 w \<Longrightarrow> world_step w w' \<Longrightarrow> history r0 w'"
  by (cases w) (auto simp: world_step_def intro: history.intros)

lemma world_step_same: "w \<noteq> [] \<Longrightarrow> world_step w (hd w # w)"
  by (simp add: world_step_def)

lemma world_steps_set: "world_step\<^sup>*\<^sup>* w w' \<Longrightarrow> set w \<subseteq> set w'"
  by (induction rule: rtranclp_induct) (auto simp: world_step_def)

section \<open>Steps that leave the store alone\<close>

definition calm :: "int \<Rightarrow> ('d, 'm) server_scheme \<Rightarrow> ('d, 'm) server_scheme \<Rightarrow> bool" where
  "calm fd s s' \<longleftrightarrow> db s' = db s \<and> clock s' = clock s \<and> (ascii_stream (inbox s fd) \<longrightarrow> ascii_stream (inbox s' fd))"

lemma calm_prims:
  "keeps (calm fd) (say t)" "keeps (calm fd) (get_value K k)" "keeps (calm fd) (recv sock amount)"
  "keeps (calm fd) (send sock bs)" "keeps (calm fd) (write_fd sock bs)" "keeps (calm fd) (append_log t)"
  "keeps (calm fd) get_time_stamp" "keeps (calm fd) (close_fd n)" "keeps (calm fd) (add_client n)"
  "keeps (calm fd) (remove_client n)" "keeps (calm fd) (look g)" "keeps (calm fd) (check_credentials u p)"
  "keeps (calm fd) (\<lambda>s. (Inr (), s\<lparr>connected_clients := cs\<rparr>))"
  by (auto simp: keeps_def calm_def say_def get_value_def recv_def write_fd_def append_log_def get_time_stamp_def
      add_client_def remove_client_def check_credentials_def Let_def split: prod.splits dest: ascii_recv_chunk)

lemma calm_world:
  assumes "store_world J K obj plain open_rw fd w s" and "calm fd s s'"
  shows "world_step w (hd w # w) \<and> store_world J K obj plain open_rw fd (hd w # w) s'"
  using assms unfolding store_world_def calm_def by (auto simp: world_step_same)

lemma safe_calm:
  fixes m :: "(('d, 'm) server_scheme, 'a) act"
  assumes "keeps (calm fd) m" and "\<And>w s x. store_world J K obj plain open_rw fd w s \<Longrightarrow> fst (m s) = Inr x \<Longrightarrow> Q (hd w # w) x"
  shows "safe (store_world J K obj plain open_rw fd) world_step Q w (atom ls m)"
proof (rule safe_atom_act)
  fix w1 and s :: "('d, 'm) server_scheme"
  assume w1: "store_world J K obj plain open_rw fd w1 s"
  from calm_world [OF w1 keepsD [OF assms(1)]] assms(2) [OF w1]
  show "\<exists>w2. world_step w1 w2 \<and> store_world J K obj plain open_rw fd w2 (snd (m s)) \<and> (\<forall>x. fst (m s) = Inr x \<longrightarrow> Q w2 x)"
    by blast
qed

lemma secure_calm: "keeps (calm fd) m \<Longrightarrow> secure (store_world J K obj plain open_rw fd) world_step (atom ls m)"
  by (simp add: secure_def safe_calm)

lemmas secure_atoms = calm_prims [THEN secure_calm]

lemmas secure_intros = secure_struct secure_cases secure_atoms

lemma safe_get:
  "safe (store_world J K obj plain open_rw fd :: refuge list \<Rightarrow> ('d, 'm) server_scheme \<Rightarrow> bool) world_step
     (\<lambda>w g. \<exists>v j r. g = Inr v \<and> parse_state_summary J v = Inr j \<and> summary_doc J obj plain j r \<and> r \<in> set w \<and> refuge_wf r)
     w0 (single (get_value K summary_key))"
proof (rule safe_calm [OF calm_prims(2)])
  fix w and s :: "('d, 'm) server_scheme" and g
  assume w: "store_world J K obj plain open_rw fd w s" and g: "fst (get_value K summary_key s) = Inr g"
  from w have "hd w \<in> set (hd w # w)" "refuge_wf (hd w)" "store_holds J K obj plain (db s) (hd w)"
    by (simp_all add: store_world_def)
  with g show "\<exists>v j r. g = Inr v \<and> parse_state_summary J v = Inr j \<and> summary_doc J obj plain j r \<and>
      r \<in> set (hd w # w) \<and> refuge_wf r"
    unfolding get_value_def store_holds_def parse_state_summary_def by auto
qed

section \<open>The updates\<close>

context refuge_env begin

text \<open>A summary that has been read is in the history from then on.\<close>

abbreviation of_history :: "refuge list \<Rightarrow> refuge \<Rightarrow> bool" where
  "of_history w r \<equiv> r \<in> set w \<and> refuge_wf r"

lemma safe_with_summary:
  fixes body :: "'j \<Rightarrow> ('d, 'm, unit) server_prog"
  assumes "\<And>w j r. summary_doc J obj plain j r \<Longrightarrow> of_history w r \<Longrightarrow>
    safe (store_world J K obj plain open_rw fd) world_step (\<lambda>_ _. True) w (body j)"
  shows "secure (store_world J K obj plain open_rw fd) world_step (with_summary_p J K body)"
  unfolding secure_def with_summary_p_def
proof
  fix w
  show "safe (store_world J K obj plain open_rw fd) world_step (\<lambda>_ _. True) w
     (pbind (single (get_value K summary_key)) (\<lambda>g. case g of Inl e \<Rightarrow> single (say (retrieve_error e))
        | Inr value \<Rightarrow> pbind (Done (parse_state_summary J value)) body))"
    by (rule safe_bind_secure [OF safe_get]) (use assms in auto)
qed

text \<open>Writing what was computed from an earlier summary.\<close>

lemma safe_put:
  assumes "jl_dump J j = Inr t" and "jl_parse J t = Inr j" and "summary_doc J obj plain j r'"
    and "of_history w r" and "updated r r'"
  shows "safe (store_world J K obj plain open_rw fd) world_step (\<lambda>_ _. True) w (single (put_value K summary_key t))"
proof (rule safe_atom_act)
  fix w1 and s :: "('d, 'm) server_scheme"
  assume later: "world_step\<^sup>*\<^sup>* w w1" and w1: "store_world J K obj plain open_rw fd w1 s"
  from w1 have "open_rw (db s)" by (simp add: store_world_def)
  then obtain d' where d': "kv_put K (db s) summary_key t = (None, d')" "kv_get K d' summary_key = Inr t" "open_rw d'"
    by (rule put_obtain)
  have r: "r \<in> set w1" using world_steps_set [OF later] assms(4) by blast
  have "store_world J K obj plain open_rw fd (r' # w1) (snd (put_value K summary_key t s))"
    using w1 d' updated_wf [OF assms(5)] assms(4) store_holdsI [OF d'(2) assms(2,3)] by (simp add: store_world_def put_value_def)
  moreover have "world_step w1 (r' # w1)" using w1 r assms(5) by (auto simp: world_step_def store_world_def)
  ultimately show "\<exists>w2. world_step w1 w2 \<and> store_world J K obj plain open_rw fd w2 (snd (put_value K summary_key t s)) \<and>
      (\<forall>x. fst (put_value K summary_key t s) = Inr x \<longrightarrow> True)" by blast
qed

lemma safe_store:
  fixes k :: "bool \<Rightarrow> ('d, 'm, 'a) server_prog"
  assumes "summary_doc J obj plain j r'" and "of_history w r" and "updated r r'"
    and "\<And>x. secure (store_world J K obj plain open_rw fd) world_step (k x)"
  shows "safe (store_world J K obj plain open_rw fd) world_step (\<lambda>_ _. True) w (pbind (store_summary_p J K j) k)"
proof -
  from assms(1) have "plain j" by (simp add: summary_doc_def)
  then obtain t where t: "jl_dump J j = Inr t" "jl_parse J t = Inr j" by (rule dump_ok)
  have "safe (store_world J K obj plain open_rw fd) world_step (\<lambda>_ _. True) w
      (store_summary_p J K j :: ('d, 'm, bool) server_prog)"
    unfolding store_summary_p_def t(1) pbind_simps
    by (rule safe_bind [OF safe_put [OF t assms(1-3)]], rule secure_safe) (intro secure_intros)
  then show ?thesis by (rule safe_bind) (rule secure_safe [OF assms(4)])
qed

lemma updated_supply:
  assumes "known_supply r key" and "stoi val = Inr v" and "\<not> v < 0"
  shows "updated r (set_supply key v r)"
proof -
  have "0 \<le> v \<and> v \<le> INT_MAX" using assms(3) stoi_in_int [OF assms(2)] by (simp add: in_int_def)
  with assms(1) show ?thesis unfolding updated_def by blast
qed

lemma safe_supply_loop:
  fixes r :: refuge
  assumes "summary_doc J obj plain j r" and "of_history w r"
  shows "safe (store_world J K obj plain open_rw fd) world_step (\<lambda>_ _. True) w
    (supply_loop_p J K key val j [''food'', ''medicine''] :: ('d, 'm, loop_exit) server_prog)"
proof -
  let ?safe = "safe (store_world J K obj plain open_rw fd) world_step (\<lambda>_ _. True) w :: ('d, 'm, loop_exit) server_prog \<Rightarrow> bool"
  let ?set = "\<lambda>cat. case stoi val of
         Inl e \<Rightarrow> if e = Throw InvalidArgument
           then pthn (single (say (''[ERROR] Invalid value entered for supply: '' @ val))) (pret Returned)
           else phalt e
       | Inr value_int \<Rightarrow>
         if value_int < 0
         then pthn (single (say ''[ERROR] Value must be greater than or equal to 0.'')) (pret Returned)
         else
           pbind (Done (json_set3 J j ''supplies'' cat key (jl_of_int J value_int))) (\<lambda>summary'.
           pbind (store_summary_p J K summary') (\<lambda>ok.
           if ok then pthn (single (say ''[SUPPLIES] State summary updated successfully.'')) (pret (Fell True))
           else pret Returned))"
  have set: "?safe (?set cat)"
    if "known_supply r key" and "\<And>v. \<exists>j'. json_set3 J j ''supplies'' cat key (jl_of_int J v) = Inr j' \<and>
       summary_doc J obj plain j' (set_supply key v r)" for cat
  proof (cases "stoi val")
    case (Inl e)
    then show ?thesis by (auto intro!: secure_safe secure_intros)
  next
    case (Inr v)
    from that(2) [of v] obtain j' where j': "json_set3 J j ''supplies'' cat key (jl_of_int J v) = Inr j'"
      "summary_doc J obj plain j' (set_supply key v r)" by blast
    show ?thesis
    proof (cases "v < 0")
      case True
      with Inr show ?thesis by (auto intro!: secure_safe secure_intros)
    next
      case False
      have "?safe (pbind (store_summary_p J K j') (\<lambda>ok.
           if ok then pthn (single (say ''[SUPPLIES] State summary updated successfully.'')) (pret (Fell True))
           else pret Returned))"
        by (rule safe_store [OF j'(2) assms(2) updated_supply [OF that(1) Inr False]]) (intro secure_intros)
      with Inr False j'(1) show ?thesis by simp
    qed
  qed
  show ?thesis
  proof (cases "key \<in> dom (food r)")
    case True
    have "\<exists>j'. json_set3 J j ''supplies'' ''food'' key (jl_of_int J v) = Inr j' \<and>
       summary_doc J obj plain j' (set_supply key v r)" for v
      using set_food_doc [OF assms(1) wf_ascii(1) [OF _ True], of v] assms(2) True by (auto simp: set_supply_def)
    then have "?safe (?set ''food'')" using True by (intro set) (simp_all add: known_supply_def)
    with True show ?thesis by (simp add: has_supply_doc [OF assms(1)])
  next
    case food: False
    show ?thesis
    proof (cases "key \<in> dom (medicine r)")
      case True
      have "\<exists>j'. json_set3 J j ''supplies'' ''medicine'' key (jl_of_int J v) = Inr j' \<and>
         summary_doc J obj plain j' (set_supply key v r)" for v
        using set_medicine_doc [OF assms(1) wf_ascii(2) [OF _ True], of v] assms(2) True food by (auto simp: set_supply_def)
      then have "?safe (?set ''medicine'')" using True by (intro set) (simp_all add: known_supply_def)
      with True food show ?thesis by (simp add: has_supply_doc [OF assms(1)])
    next
      case False
      with food show ?thesis by (simp add: has_supply_doc [OF assms(1)] secure_safe secure_struct)
    qed
  qed
qed

lemma secure_modify_supplies:
  "secure (store_world J K obj plain open_rw fd) world_step (modify_supplies_p J K key val :: ('d, 'm, unit) server_prog)"
  unfolding modify_supplies_p_def
proof (rule safe_with_summary)
  fix w j r
  assume j: "summary_doc J obj plain j r" and r: "of_history w r"
  let ?after = "\<lambda>x. (case x of Returned \<Rightarrow> pret () | Fell supply_found \<Rightarrow>
      if supply_found then pret ()
      else single (say (''[ERROR] Supply '' @ [CHR 0x27] @ key @ [CHR 0x27] @ '' not found.''))) :: ('d, 'm, unit) server_prog"
  have "secure (store_world J K obj plain open_rw fd) world_step (?after x)" for x
    by (cases x) (auto intro: secure_intros)
  then have "safe (store_world J K obj plain open_rw fd) world_step (\<lambda>_ _. True) w
      (pbind (supply_loop_p J K key val j [''food'', ''medicine'']) ?after)"
    by (intro safe_bind [OF safe_supply_loop [OF j r]] secure_safe)
  then show "safe (store_world J K obj plain open_rw fd) world_step (\<lambda>_ _. True) w
      (if jl_contains J j ''supplies'' then pbind (supply_loop_p J K key val j [''food'', ''medicine'']) ?after
       else single (say (''[ERROR] '' @ [CHR 0x27] @ ''supplies'' @ [CHR 0x27] @ '' object not found in state summary.'')))"
    by (simp add: contains_supplies [OF j])
qed

lemma secure_modify_alerts:
  "secure (store_world J K obj plain open_rw fd) world_step (modify_alerts_p J K a :: ('d, 'm, unit) server_prog)"
  unfolding modify_alerts_p_def
proof (rule safe_with_summary)
  fix w j r
  assume j: "summary_doc J obj plain j r" and r: "of_history w r"
  let ?safe = "safe (store_world J K obj plain open_rw fd) world_step (\<lambda>_ _. True) w :: ('d, 'm, unit) server_prog \<Rightarrow> bool"
  from j obtain al where al: "jlook J j ''alerts'' = Some al" "counts_doc J obj al (alerts r)" by (rule summary_docE) simp
  show "?safe (count_in_summary_p J K a j)"
  proof (cases "alert_entry a")
    case None
    then show ?thesis
      by (simp add: count_in_summary_p_def get_json_field_def get_look [OF al(1)] secure_safe secure_atoms)
  next
    case (Some entry)
    note key = alert_entry_key [OF Some]
    obtain n where n: "alerts r entry = Some n" "0 \<le> n" by (rule wf_alert [OF conjunct2 [OF r] Some])
    with r have le: "n \<le> INT_MAX" unfolding refuge_wf_def counts_ok_def by blast
    obtain al' j' where d: "jlook J al entry = Some (jl_of_int J n)"
        "jl_set J al entry (jl_of_int J (n + 1)) = Inr al'" "jl_set J j ''alerts'' al' = Inr j'"
        "summary_doc J obj plain j' (count_alert entry r)"
      by (rule count_alert_doc [OF j conjunct1 [OF key] conjunct2 [OF key] n(1)]) (use al(1) in auto)
    have gi: "jl_get_int J (jl_of_int J n) = Inr n"
      using n(2) le by (intro get_int_of_int) (simp add: in_int_nonneg)
    show ?thesis
    proof (cases "n = INT_MAX")
      case True
      with gi show ?thesis
        by (simp add: count_in_summary_p_def get_json_field_def get_look [OF al(1)] Some ref_present [OF d(1)]
            int_not_null int_succ_def safe_halt)
    next
      case False
      with le have lt: "n < INT_MAX" by simp
      with key n(1) have u: "updated r (count_alert entry r)" unfolding updated_def by blast
      have "?safe (pbind (store_summary_p J K j') (\<lambda>_. pret ()))"
        by (rule safe_store [OF d(4) r u]) (intro secure_intros)
      with lt show ?thesis
        by (simp add: count_in_summary_p_def get_json_field_def get_look [OF al(1)] Some ref_present [OF d(1)]
            int_not_null gi int_succ_def d(2,3))
    qed
  qed
qed

lemma secure_modify_emergencies:
  assumes "ascii ts" and "ascii msg"
  shows "secure (store_world J K obj plain open_rw fd) world_step (modify_emergencies_p J K ts msg :: ('d, 'm, unit) server_prog)"
  unfolding modify_emergencies_p_def
proof (rule safe_with_summary)
  fix w j r
  assume j: "summary_doc J obj plain j r" and r: "of_history w r"
  obtain e e1 e2 j' where d: "jlook J j ''emergency'' = Some e"
      "jl_set J e ''last_keepalived'' (jl_of_str J ts) = Inr e1"
      "jl_set J e1 ''last_event'' (jl_of_str J (erase_char (CHR 0x0A) msg)) = Inr e2"
      "jl_set J j ''emergency'' e2 = Inr j'" and doc: "summary_doc J obj plain j' (note_emergency ts msg r)"
    by (rule note_emergency_doc [OF j assms])
  have u: "updated r (note_emergency ts msg r)" using assms unfolding updated_def by blast
  have "safe (store_world J K obj plain open_rw fd) world_step (\<lambda>_ _. True) w
      (pbind (store_summary_p J K j') (\<lambda>_. pret ()) :: ('d, 'm, unit) server_prog)"
    by (rule safe_store [OF doc r u]) (intro secure_intros)
  then show "safe (store_world J K obj plain open_rw fd) world_step (\<lambda>_ _. True) w
     (pbind (Done (get_json_field J j ''emergency'')) (\<lambda>emergencies.
       pbind (Done (jl_set J emergencies ''last_keepalived'' (jl_of_str J ts))) (\<lambda>emergencies1.
       pbind (Done (jl_set J emergencies1 ''last_event'' (jl_of_str J (erase_char (CHR 0x0A) msg)))) (\<lambda>emergencies2.
       pbind (Done (jl_set J j ''emergency'' emergencies2)) (\<lambda>summary'.
       pbind (store_summary_p J K summary') (\<lambda>_. pret ()))))) :: ('d, 'm, unit) server_prog)"
    by (simp add: get_json_field_def get_look [OF d(1)] d(2-4))
qed

end

section \<open>The handlers\<close>

text \<open>What does not write to the store keeps everything, for any interfaces.\<close>

lemma secure_readers:
  "secure (store_world J K obj plain open_rw fd) world_step (show_state_summary_p J' K' status)"
  "secure (store_world J K obj plain open_rw fd) world_step (get_section_p J' K' field)"
  "secure (store_world J K obj plain open_rw fd) world_step (log_event_p a ty d)"
  "secure (store_world J K obj plain open_rw fd) world_step (log_alert_p b m)"
  "secure (store_world J K obj plain open_rw fd) world_step (send_lit_p sock lit n)"
  "secure (store_world J K obj plain open_rw fd) world_step (recv_text_p junk sock err)"
  unfolding show_state_summary_p_def get_section_p_def log_event_p_def log_alert_p_def with_log_p_def get_time_stamp_p_def
    send_lit_p_def recv_text_p_def
  by (intro secure_intros)+

lemma secure_send_pieces:
  "secure (store_world J K obj plain open_rw fd) world_step (send_pieces_p sock bs n)"
proof (induction sock bs n rule: send_pieces_p.induct)
  case (1 sock bs n)
  show ?case by (subst send_pieces_p.simps) (intro secure_intros 1)
qed

lemma secure_talk:
  "secure (store_world J K obj plain open_rw fd) world_step (send_zip_file_p sock)"
  "secure (store_world J K obj plain open_rw fd) world_step (client_login_p junk sock u)"
  "secure (store_world J K obj plain open_rw fd) world_step (get_refuge_state_p J' K' sock status)"
  "secure (store_world J K obj plain open_rw fd) world_step (client_arrives_p a sock)"
  "secure (store_world J K obj plain open_rw fd) world_step (client_leaves_p a sock)"
  "secure (store_world J K obj plain open_rw fd) world_step (page_p html f)"
  "secure (store_world J K obj plain open_rw fd) world_step (post_login_p req)"
  unfolding send_zip_file_p_def client_login_p_def get_refuge_state_p_def client_arrives_p_def client_leaves_p_def
    page_p_def setup_html_p_def post_login_p_def
  by (intro secure_intros secure_send_pieces secure_readers)+

lemma secure_each:
  "secure (store_world J K obj plain open_rw fd) world_step (send_each_p cs msg)"
  "secure (store_world J K obj plain open_rw fd) world_step (disconnect_each_p cs)"
  by (induction cs) (auto intro: secure_intros)

lemma secure_disconnect_all: "secure (store_world J K obj plain open_rw fd) world_step disconnect_all_clients_p"
  unfolding disconnect_all_clients_p_def by (intro secure_intros secure_each)

context refuge_env begin

lemma secure_command:
  "secure (store_world J K obj plain open_rw fd) world_step
     (client_command_p J K junk a status sock u cmd :: ('d, 'm, bool) server_prog)"
  unfolding client_command_p_def Let_def set_supplies_p_def
  by (intro secure_intros secure_readers secure_talk secure_modify_supplies)

lemma secure_round:
  "secure (store_world J K obj plain open_rw fd) world_step
     (client_round_p J K junk a status sock u buf :: ('d, 'm, round_end) server_prog)"
  unfolding client_round_p_def by (intro secure_intros secure_command)

lemma secure_alerts:
  "secure (store_world J K obj plain open_rw fd) world_step (handle_alerts_p J K junk afd :: ('d, 'm, unit) server_prog)"
  unfolding handle_alerts_p_def Let_def
  by (intro secure_intros secure_readers secure_each secure_modify_alerts)

text \<open>The time stamp and the message of an emergency are seven-bit text.\<close>

lemma safe_time_stamp:
  "safe (store_world J K obj plain open_rw fd :: refuge list \<Rightarrow> ('d, 'm) server_scheme \<Rightarrow> bool) world_step
     (\<lambda>_. ascii) w get_time_stamp_p"
  unfolding get_time_stamp_p_def
  by (rule safe_calm [OF calm_prims(7)]) (auto simp: store_world_def get_time_stamp_def)

lemma safe_message:
  "safe (store_world J K obj plain open_rw fd :: refuge list \<Rightarrow> ('d, 'm) server_scheme \<Rightarrow> bool) world_step
     (\<lambda>_. ascii) w (recv_text_p junk fd err)"
  unfolding recv_text_p_def
proof (rule safe_bind)
  show "safe (store_world J K obj plain open_rw fd :: refuge list \<Rightarrow> ('d, 'm) server_scheme \<Rightarrow> bool) world_step
     (\<lambda>_ bs. ascii bs) w (single (recv fd MAX_BUFFER))"
  proof (rule safe_calm [OF calm_prims(3)])
    fix w and s :: "('d, 'm) server_scheme" and bs
    assume "store_world J K obj plain open_rw fd w s" and "fst (recv fd MAX_BUFFER s) = Inr bs"
    then show "ascii bs" using ascii_recv_chunk by (auto simp: store_world_def recv_def split: prod.splits)
  qed
next
  fix w' bs
  assume "ascii bs"
  then show "safe (store_world J K obj plain open_rw fd :: refuge list \<Rightarrow> ('d, 'm) server_scheme \<Rightarrow> bool) world_step
     (\<lambda>_. ascii) w' (if bs = [] then pthn (single (say err)) (phalt (Exit 1)) else Done (terminated junk bs))"
    by (auto simp: terminated_ascii safe_halt intro!: safe_thn secure_safe secure_atoms safe.finished)
qed

lemma secure_emergency:
  "secure (store_world J K obj plain open_rw fd) world_step (handle_emergency_p J K junk fd :: ('d, 'm, unit) server_prog)"
  unfolding handle_emergency_p_def secure_def
proof
  fix w
  have rest: "safe (store_world J K obj plain open_rw fd) world_step (\<lambda>_ _. True) w'
      (pthn (single (say t)) (pthn (log_alert_p False msg)
         (pthn (modify_emergencies_p J K ts msg) disconnect_all_clients_p)) :: ('d, 'm, unit) server_prog)"
    if "ascii ts" "ascii msg" for w' t ts msg
    by (rule secure_safe) (intro secure_intros secure_readers secure_disconnect_all secure_modify_emergencies that)
  show "safe (store_world J K obj plain open_rw fd) world_step (\<lambda>_ _. True) w
     (pbind get_time_stamp_p (\<lambda>timestamp.
      pbind (recv_text_p junk fd ''[ERROR] Error reading from emergency pipe'') (\<lambda>buf.
      pthn (single (say (''[EMERGENCY] '' @ buf)))
     (pthn (log_alert_p False buf)
     (pthn (modify_emergencies_p J K timestamp buf) disconnect_all_clients_p)))) :: ('d, 'm, unit) server_prog)"
    by (rule safe_bind_secure [OF safe_time_stamp], rule safe_bind_secure [OF safe_message], rule rest)
qed

lemma secure_route:
  assumes "route_p J K html req = Some (p :: ('d, 'm, response) server_prog)"
  shows "secure (store_world J K obj plain open_rw fd) world_step p"
proof -
  have "secure (store_world J K obj plain open_rw fd) world_step (post_modify_p J K req :: ('d, 'm, response) server_prog)"
    unfolding post_modify_p_def by (intro secure_intros secure_modify_supplies)
  moreover have "secure (store_world J K obj plain open_rw fd) world_step
      (plain_text_p (get_section_p J K field) :: ('d, 'm, response) server_prog)" for field
    unfolding plain_text_p_def by (intro secure_intros secure_readers)
  ultimately show ?thesis
    using assms secure_talk(6,7) by (auto simp: route_p_def split: http_method.splits if_splits)
qed

end

section \<open>The system\<close>

definition fine_safe :: "('j, 'd) config \<Rightarrow> ('j \<Rightarrow> bool) \<Rightarrow> ('j \<Rightarrow> bool) \<Rightarrow> ('d \<Rightarrow> bool) \<Rightarrow> refuge list \<Rightarrow> 'd fine \<Rightarrow> bool" where
  "fine_safe C obj plain open_rw w q \<longleftrightarrow>
     (let I = store_world (cf_json C) (cf_kv C) obj plain open_rw (emgs_fifo_fd C) in
      I w (memory q) \<and> safe I world_step (\<lambda>_ _. True) w (main_prog q) \<and>
      (\<forall>t \<in> set (client_threads q). safe I world_step (\<lambda>_ _. True) w (ct_prog t)) \<and>
      (\<forall>p \<in> set (web_progs q). safe I world_step (\<lambda>_ _. True) w p))"

text \<open>A step of one thread takes the others along.\<close>

lemma safe_next:
  "safe I G (\<lambda>_ _. True) w p \<Longrightarrow> G w w' \<Longrightarrow> safe I G (\<lambda>_ _. True) w' p"
  by (rule safe_later) (auto simp: lasting_def)

lemma fine_safe_later:
  assumes "fine_safe C obj plain open_rw w q" and "world_step w w'"
    and "store_world (cf_json C) (cf_kv C) obj plain open_rw (emgs_fifo_fd C) w' (memory q')"
    and "main_prog q' = main_prog q" and "client_threads q' = client_threads q" and "web_progs q' = web_progs q"
  shows "fine_safe C obj plain open_rw w' q'"
  using assms unfolding fine_safe_def Let_def by (auto intro: safe_next)

lemma fine_safe_rest:
  assumes "fine_safe C obj plain open_rw w q"
  shows "\<exists>w'. world_step w w' \<and> fine_safe C obj plain open_rw w' q"
proof -
  from assms have w: "store_world (cf_json C) (cf_kv C) obj plain open_rw (emgs_fifo_fd C) w (memory q)"
    by (simp add: fine_safe_def Let_def)
  have "world_step w (hd w # w)" "store_world (cf_json C) (cf_kv C) obj plain open_rw (emgs_fifo_fd C) (hd w # w) (memory q)"
    using calm_world [OF w, of "memory q"] by (simp_all add: calm_def)
  with assms show ?thesis using fine_safe_later by blast
qed

lemma secure_thread:
  assumes "refuge_env (cf_json C) obj plain (cf_kv C) open_rw"
  shows "secure (store_world (cf_json C) (cf_kv C) obj plain open_rw fd) world_step (thread_start C sock)"
    and "secure (store_world (cf_json C) (cf_kv C) obj plain open_rw fd) world_step (thread_turn C sock a u buf)"
proof -
  show "secure (store_world (cf_json C) (cf_kv C) obj plain open_rw fd) world_step (thread_start C sock)"
    unfolding thread_start_def by (intro secure_intros secure_talk)
  have "secure (store_world (cf_json C) (cf_kv C) obj plain open_rw fd) world_step
      (case e of Stays ubuntu' \<Rightarrow> pret (Again a ubuntu' b) | Leaves \<Rightarrow> pthn (client_leaves_p a sock) (pret Gone))" for e b
    by (cases e) (auto intro: secure_intros secure_talk)
  then show "secure (store_world (cf_json C) (cf_kv C) obj plain open_rw fd) world_step (thread_turn C sock a u buf)"
    unfolding thread_turn_def by (intro secure_intros refuge_env.secure_round [OF assms])
qed

text \<open>The three kinds of steps: of the handler in \<open>main\<close>, of a client thread, of a request.\<close>

lemma fine_safe_atom:
  assumes "fine_safe C obj plain open_rw w q"
    and "safe (store_world (cf_json C) (cf_kv C) obj plain open_rw (emgs_fifo_fd C)) world_step (\<lambda>_ _. True) w (Atom ls f)"
    and "f (memory q) = (p, s')"
  obtains w' where "world_step w w'" and "fine_safe C obj plain open_rw w' (q\<lparr>memory := s'\<rparr>)"
    and "safe (store_world (cf_json C) (cf_kv C) obj plain open_rw (emgs_fifo_fd C)) world_step (\<lambda>_ _. True) w' p"
proof -
  from assms(1) have "store_world (cf_json C) (cf_kv C) obj plain open_rw (emgs_fifo_fd C) w (memory q)"
    by (simp add: fine_safe_def Let_def)
  from safe_step [OF assms(2) this assms(3)] obtain w' where w': "world_step w w'"
    "store_world (cf_json C) (cf_kv C) obj plain open_rw (emgs_fifo_fd C) w' s'"
    "safe (store_world (cf_json C) (cf_kv C) obj plain open_rw (emgs_fifo_fd C)) world_step (\<lambda>_ _. True) w' p" .
  have "fine_safe C obj plain open_rw w' (q\<lparr>memory := s'\<rparr>)"
    by (rule fine_safe_later [OF assms(1) w'(1)]) (simp_all add: w'(2))
  with w'(1,3) show thesis using that by blast
qed

lemma fine_safe_replace:
  assumes "fine_safe C obj plain open_rw w q"
  defines "S \<equiv> \<lambda>p. safe (store_world (cf_json C) (cf_kv C) obj plain open_rw (emgs_fifo_fd C)) world_step (\<lambda>_ _. True) w p"
  shows "S p \<Longrightarrow> fine_safe C obj plain open_rw w (q\<lparr>main_prog := p\<rparr>)"
    and "(\<And>t. t \<in> set ts \<Longrightarrow> t \<in> set (client_threads q) \<or>
      safe (store_world (cf_json C) (cf_kv C) obj plain open_rw (emgs_fifo_fd C)) world_step (\<lambda>_ _. True) w (ct_prog t)) \<Longrightarrow>
      fine_safe C obj plain open_rw w (q\<lparr>client_threads := ts\<rparr>)"
    and "(\<And>p. p \<in> set ps \<Longrightarrow> p \<in> set (web_progs q) \<or>
      safe (store_world (cf_json C) (cf_kv C) obj plain open_rw (emgs_fifo_fd C)) world_step (\<lambda>_ _. True) w p) \<Longrightarrow>
      fine_safe C obj plain open_rw w (q\<lparr>web_progs := ps\<rparr>)"
  using assms(1) by (auto simp: fine_safe_def Let_def S_def)

lemma fine_safe_client:
  assumes "fine_safe C obj plain open_rw w q" and "i < length (client_threads q)"
  shows "safe (store_world (cf_json C) (cf_kv C) obj plain open_rw (emgs_fifo_fd C)) world_step (\<lambda>_ _. True) w (ct_prog (client_threads q ! i))"
  using assms by (simp add: fine_safe_def Let_def)

lemma fine_safe_web:
  assumes "fine_safe C obj plain open_rw w q" and "i < length (web_progs q)"
  shows "safe (store_world (cf_json C) (cf_kv C) obj plain open_rw (emgs_fifo_fd C)) world_step (\<lambda>_ _. True) w (web_progs q ! i)"
  using assms by (simp add: fine_safe_def Let_def)

lemma set_remove_cases: "x \<in> set (take i xs @ drop (Suc i) xs) \<Longrightarrow> x \<in> set xs"
  by (auto dest: in_set_takeD in_set_dropD)

text \<open>The order of two updates of the system's state does not matter.\<close>

lemma fine_memory_first:
  "q\<lparr>main_prog := p, memory := s\<rparr> = (q\<lparr>memory := s\<rparr>)\<lparr>main_prog := p\<rparr>"
  "q\<lparr>client_threads := ts, memory := s\<rparr> = (q\<lparr>memory := s\<rparr>)\<lparr>client_threads := ts\<rparr>"
  "q\<lparr>web_progs := ps, memory := s\<rparr> = (q\<lparr>memory := s\<rparr>)\<lparr>web_progs := ps\<rparr>" for q :: "'d fine"
  by (rule fine_eqI; simp)+

lemma fine_safe_step:
  assumes env: "refuge_env (cf_json C) obj plain (cf_kv C) open_rw"
    and safe: "fine_safe C obj plain open_rw w q" and "fine_step C q q'"
  shows "\<exists>w'. world_step w w' \<and> fine_safe C obj plain open_rw w' q'"
proof -
  obtain wr where wr: "world_step w wr" "fine_safe C obj plain open_rw wr q" using fine_safe_rest [OF safe] by blast
  from assms(3) have "thread_step C q q'" by (simp add: fine_step_def)
  then show ?thesis
  proof (cases rule: thread_step.cases)
    case (arrive fd evs)
    from wr(2) have m: "store_world (cf_json C) (cf_kv C) obj plain open_rw (emgs_fifo_fd C) wr (memory q)"
      by (simp add: fine_safe_def Let_def)
    then have "store_world (cf_json C) (cf_kv C) obj plain open_rw (emgs_fifo_fd C) wr (deliver fd evs (memory q))"
      using arrive(2) by (auto simp: store_world_def deliver_def ascii_stream_def)
    with wr arrive(1) show ?thesis by (intro exI [of _ wr]) (auto simp: fine_safe_def Let_def)
  next
    case (main ls f p s')
    have s: "safe (store_world (cf_json C) (cf_kv C) obj plain open_rw (emgs_fifo_fd C)) world_step (\<lambda>_ _. True) w (Atom ls f)"
      using safe main(2) by (simp add: fine_safe_def Let_def)
    obtain w' where w': "world_step w w'" "fine_safe C obj plain open_rw w' (q\<lparr>memory := s'\<rparr>)"
      "safe (store_world (cf_json C) (cf_kv C) obj plain open_rw (emgs_fifo_fd C)) world_step (\<lambda>_ _. True) w' p"
      by (rule fine_safe_atom [OF safe s main(3)])
    from fine_safe_replace(1) [OF w'(2,3)] w'(1) show ?thesis unfolding main(1) fine_memory_first by blast
  next
    case alert
    from wr fine_safe_replace(1) [OF wr(2) secure_safe [OF refuge_env.secure_alerts [OF env]]] alert(1)
    show ?thesis by auto
  next
    case emergency
    from wr fine_safe_replace(1) [OF wr(2) secure_safe [OF refuge_env.secure_emergency [OF env]]] emergency(1)
    show ?thesis by auto
  next
    case (accept sock)
    have "fine_safe C obj plain open_rw wr q'" unfolding accept(1)
      by (rule fine_safe_replace(2) [OF wr(2)]) (auto simp: secure_safe [OF secure_thread(1) [OF env]])
    with wr(1) show ?thesis by blast
  next
    case (client i t ls f p s')
    note s = fine_safe_client [OF safe client(2), folded client(3), unfolded client(4)]
    obtain w' where w': "world_step w w'" "fine_safe C obj plain open_rw w' (q\<lparr>memory := s'\<rparr>)"
      "safe (store_world (cf_json C) (cf_kv C) obj plain open_rw (emgs_fifo_fd C)) world_step (\<lambda>_ _. True) w' p"
      by (rule fine_safe_atom [OF safe s client(5)])
    have "fine_safe C obj plain open_rw w' ((q\<lparr>memory := s'\<rparr>)\<lparr>client_threads := (client_threads q)[i := t\<lparr>ct_prog := p\<rparr>]\<rparr>)"
      by (rule fine_safe_replace(2) [OF w'(2)]) (use w'(3) in \<open>auto dest!: set_update_cases\<close>)
    with w'(1) show ?thesis unfolding client(1) fine_memory_first by blast
  next
    case (turn i t a u buf)
    have "fine_safe C obj plain open_rw wr q'" unfolding turn(1)
      by (rule fine_safe_replace(2) [OF wr(2)])
         (auto dest!: set_update_cases simp: secure_safe [OF secure_thread(2) [OF env]])
    with wr(1) show ?thesis by blast
  next
    case (gone i)
    have "fine_safe C obj plain open_rw wr q'" unfolding gone(1)
      by (rule fine_safe_replace(2) [OF wr(2)]) (blast dest: set_remove_cases)
    with wr(1) show ?thesis by blast
  next
    case (request req p)
    have "fine_safe C obj plain open_rw wr q'" unfolding request(1)
      by (rule fine_safe_replace(3) [OF wr(2)])
         (auto simp: secure_safe [OF refuge_env.secure_route [OF env request(2)]])
    with wr(1) show ?thesis by blast
  next
    case (web i ls f p s')
    note s = fine_safe_web [OF safe web(2), unfolded web(3)]
    obtain w' where w': "world_step w w'" "fine_safe C obj plain open_rw w' (q\<lparr>memory := s'\<rparr>)"
      "safe (store_world (cf_json C) (cf_kv C) obj plain open_rw (emgs_fifo_fd C)) world_step (\<lambda>_ _. True) w' p"
      by (rule fine_safe_atom [OF safe s web(4)])
    have "fine_safe C obj plain open_rw w' ((q\<lparr>memory := s'\<rparr>)\<lparr>web_progs := (web_progs q)[i := p]\<rparr>)"
      by (rule fine_safe_replace(3) [OF w'(2)]) (use w'(3) in \<open>auto dest!: set_update_cases\<close>)
    with w'(1) show ?thesis unfolding web(1) fine_memory_first by blast
  next
    case (answer i r out e)
    have "fine_safe C obj plain open_rw wr q'" unfolding answer(1)
      by (rule fine_safe_replace(3) [OF wr(2)]) (blast dest: set_remove_cases)
    with wr(1) show ?thesis by blast
  qed
qed

end
