(* ===== verification/Fine_Props.thy ===== *)
theory Fine_Props
  imports Fine_Safe
begin

text \<open>
  Properties of the interleaved server: it refines \<open>System\<close> and the components, what its
  store can hold, and the races between its threads.
\<close>

section \<open>Against the coarser models\<close>

text \<open>
  Run without interruption, the program of every function that the server's threads
  call is the action that models the function: the conversation with a client, the
  handlers of the two pipes, and the handler of every route of the web interface.
\<close>

theorem run_handlers:
  "run (client_arrives_p a sock) = client_arrives a sock \<and>
   run (client_round_p J K junk a status sock u buf) = client_round J K junk a status sock u buf \<and>
   run (client_leaves_p a sock) = client_leaves a sock \<and>
   run (handle_alerts_p J K junk fd) = handle_alerts J K junk fd \<and>
   run (handle_emergency_p J K junk fd') = handle_emergency J K junk fd' \<and>
   map_option run (route_p J K html req) = route J K html req"
  by (simp add: run_client run_pipes run_route)

text \<open>
  The interleaved server refines \<open>System\<close>: every state that the server reaches in
  steps of whole commands, alerts, emergencies and requests it also reaches in steps of
  single accesses, from the same state of the process.
\<close>

theorem system_refined:
  assumes "reachable C q0 q"
  shows "fine_reach C (at_rest q0) (at_rest q)"
  using assms by (rule reachable_alone)

theorem system_refined_witness:
  "\<exists>s t. connected_clients s = [7] \<and> fine_reach demo_config (at_rest (demo_server, [])) (at_rest (s, [t]))"
proof -
  obtain s t where "reachable demo_config (demo_server, []) (s, [t])" "connected_clients s = [7]" using demo_run by blast
  with system_refined show ?thesis by blast
qed

section \<open>What the store holds\<close>

lemma fine_history:
  assumes "refuge_env (cf_json C) obj plain (cf_kv C) open_rw"
    and "store_holds (cf_json C) (cf_kv C) obj plain (db (memory q0)) r0" and "refuge_wf r0" and "open_rw (db (memory q0))"
    and "\<forall>n. ascii (clock (memory q0) n)" and "inbox (memory q0) = (\<lambda>_. [])"
    and "main_prog q0 = Done (Inr ())" and "client_threads q0 = []" and "web_progs q0 = []"
    and "fine_run C q0 ds q"
  shows "\<exists>w. history r0 w \<and> list_all2 (store_holds (cf_json C) (cf_kv C) obj plain) ds w \<and> (\<forall>r \<in> set w. refuge_wf r)"
proof -
  let ?I = "store_world (cf_json C) (cf_kv C) obj plain open_rw (emgs_fifo_fd C)"
  have "\<exists>w. history r0 w \<and> list_all2 (store_holds (cf_json C) (cf_kv C) obj plain) ds w \<and> fine_safe C obj plain open_rw w q"
    using assms(10)
  proof (induction rule: fine_run.induct)
    case start
    have "fine_safe C obj plain open_rw [r0] q0"
      using assms(2-9) by (simp add: fine_safe_def Let_def store_world_def ascii_stream_def safe.finished)
    then show ?case using assms(2) by (intro exI [of _ "[r0]"]) (simp add: history.first)
  next
    case (step ds q q')
    then obtain w where w: "history r0 w" "list_all2 (store_holds (cf_json C) (cf_kv C) obj plain) ds w"
      "fine_safe C obj plain open_rw w q" by blast
    from fine_safe_step [OF assms(1) w(3) step.hyps(2)] obtain w' where
      w': "world_step w w'" "fine_safe C obj plain open_rw w' q'" by blast
    from w'(1) obtain r' where r': "w' = r' # w" by (auto simp: world_step_def)
    from w'(2) have "store_holds (cf_json C) (cf_kv C) obj plain (db (memory q')) (hd w')"
      by (simp add: fine_safe_def Let_def store_world_def)
    with w(2) r' have "list_all2 (store_holds (cf_json C) (cf_kv C) obj plain) (db (memory q') # ds) w'" by simp
    with history_step [OF w(1) w'(1)] w'(2) show ?case by blast
  qed
  with history_wf [OF _ assms(3)] show ?thesis by blast
qed

text \<open>
  C1: however the threads are interleaved, and wherever the process is stopped, the store
  holds a well-formed summary.  After every access it holds the same summary as before or
  one update (a supply set to an \<open>int\<close> that is not negative, an alert counted, an
  emergency noted) of a summary that it held earlier, though perhaps not of the last one:
  updates can get lost, but nothing else can happen to the quantities.
\<close>

theorem store_history:
  assumes "refuge_env (cf_json C) obj plain (cf_kv C) open_rw"
    and "store_holds (cf_json C) (cf_kv C) obj plain (db (memory q0)) r0" and "refuge_wf r0" and "open_rw (db (memory q0))"
    and "\<forall>n. ascii (clock (memory q0) n)" and "inbox (memory q0) = (\<lambda>_. [])"
    and "main_prog q0 = Done (Inr ())" and "client_threads q0 = []" and "web_progs q0 = []"
    and "fine_run C q0 ds q"
  shows "\<exists>w. history r0 w \<and> list_all2 (store_holds (cf_json C) (cf_kv C) obj plain) ds w \<and> (\<forall>r \<in> set w. refuge_wf r)"
  by (rule fine_history [OF assms])

theorem store_history_witness:
  "\<exists>s t ds w. fine_run demo_config (at_rest (demo_server, [])) ds (at_rest (s, [t])) \<and> history initial_refuge w \<and>
     list_all2 (store_holds ref_json ref_kv is_obj j_plain) ds w \<and> (\<forall>r \<in> set w. refuge_wf r)"
proof -
  obtain s t where "reachable demo_config (demo_server, []) (s, [t])" using demo_run by blast
  then obtain ds where ds: "fine_run demo_config (at_rest (demo_server, [])) ds (at_rest (s, [t]))"
    using reachable_alone fine_reach_run by blast
  have env: "refuge_env (cf_json demo_config) is_obj j_plain (cf_kv demo_config) ref_open" using demo_env by simp
  have h: "store_holds (cf_json demo_config) (cf_kv demo_config) is_obj j_plain (db (memory (at_rest (demo_server, [])))) initial_refuge"
    "ref_open (db (memory (at_rest (demo_server, []))))" "\<forall>n. ascii (clock (memory (at_rest (demo_server, []))) n)"
    "inbox (memory (at_rest (demo_server, []))) = (\<lambda>_. [])"
    using demo_holds by (simp_all add: demo_server_def ascii_def)
  from store_history [OF env h(1) initial_refuge_wf h(2-4) _ _ _ ds] ds show ?thesis by auto
qed

section \<open>Updates that get lost\<close>

text \<open>
  An update that has read the summary and is then overtaken: what it writes later comes
  from the summary that it has read.
\<close>

context refuge_env begin

lemma modify_supplies_overtaken:
  fixes s :: "('d, 'm) server_scheme"
  assumes "store_holds J K obj plain (db s) r" and "refuge_wf r" and "known_supply r key"
    and "stoi val = Inr v" and "0 \<le> v"
  obtains p where "psteps (modify_supplies_p J K key val, s) (p, s)"
    and "\<And>s1. open_rw (db s1) \<Longrightarrow> \<exists>d'. run p s1 = (Inr (), s1\<lparr>db := d',
          console := console s1 @ [''[SUPPLIES] State summary updated successfully.'']\<rparr>) \<and>
        store_holds J K obj plain d' (set_supply key v r) \<and> open_rw d'"
proof -
  from assms(1) obtain t j where j: "kv_get K (db s) summary_key = Inr t" "jl_parse J t = Inr j"
      "summary_doc J obj plain j r" by (auto simp: store_holds_def)
  define body :: "'j \<Rightarrow> ('d, 'm, unit) server_prog" where "body = (\<lambda>summary.
       if jl_contains J summary ''supplies'' then
         pbind (supply_loop_p J K key val summary [''food'', ''medicine'']) (\<lambda>x.
         case x of
           Returned \<Rightarrow> pret ()
         | Fell supply_found \<Rightarrow>
             if supply_found then pret ()
             else single (say (''[ERROR] Supply '' @ [CHR 0x27] @ key @ [CHR 0x27] @ '' not found.'')))
       else single (say (''[ERROR] '' @ [CHR 0x27] @ ''supplies'' @ [CHR 0x27] @ '' object not found in state summary.'')))"
  have "run (single (get_value K summary_key)) s = (Inr (Inr t), s)" by (simp add: run_atom get_value_def j(1))
  from psteps_value [OF this, of "\<lambda>g. case g of Inl e \<Rightarrow> single (say (retrieve_error e))
     | Inr value \<Rightarrow> pbind (Done (parse_state_summary J value)) body"]
  have "psteps (with_summary_p J K body, s) (body j, s)"
    by (simp add: with_summary_p_def parse_state_summary_def j(2))
  then have "psteps (modify_supplies_p J K key val, s) (body j, s)"
    by (simp only: modify_supplies_p_def body_def)
  moreover have "\<exists>d'. run (body j) s1 = (Inr (), s1\<lparr>db := d',
        console := console s1 @ [''[SUPPLIES] State summary updated successfully.'']\<rparr>) \<and>
      store_holds J K obj plain d' (set_supply key v r) \<and> open_rw d'"
    if opened: "open_rw (db s1)" for s1 :: "('d, 'm) server_scheme"
  proof -
    obtain d' where d': "supply_loop J K key val j [''food'', ''medicine''] s1 = (Inr (Fell True), s1\<lparr>db := d',
        console := console s1 @ [''[SUPPLIES] State summary updated successfully.'']\<rparr>)"
      "store_holds J K obj plain d' (set_supply key v r)" "open_rw d'"
      by (rule supply_loop_sets [OF j(3) assms(2-5) opened])
    have "run (body j) = bnd (supply_loop J K key val j [''food'', ''medicine'']) (\<lambda>x. case x of Returned \<Rightarrow> ret ()
        | Fell found \<Rightarrow> if found then ret () else say (''[ERROR] Supply '' @ [CHR 0x27] @ key @ [CHR 0x27] @ '' not found.''))"
      by (simp only: body_def contains_supplies [OF j(3)] if_True run_simps)
    with d' show ?thesis by auto
  qed
  ultimately show thesis by (rule that)
qed

end

text \<open>One web request begins, another one runs from start to end, then the first goes on.\<close>

lemma web_overtakes:
  fixes s :: "'d server" and p1 p2 p2' :: "('d, unit, response) server_prog"
  assumes "route_p (cf_json C) (cf_kv C) (cf_html C) r1 = Some p1" and "route_p (cf_json C) (cf_kv C) (cf_html C) r2 = Some p2"
    and "psteps (p2, s) (p2', s)" and "psteps (p1, s) (Done (Inr a1), s1)" and "run p2' s1 = (Inr a2, s2)"
  obtains q where "fine_reach C (at_rest (s, ths)) q" and "memory q = s1" and "fine_reach C q (at_rest (s2, ths))"
proof -
  have alive: "\<not> web_crashed p2'" by (rule not_web_crashed_returns [OF assms(5)])
  have "fine_step C (at_rest (s, ths)) (web_at s ths [p2])" using web_at_request [of "[]" C r2] assms(2) by simp
  moreover have "fine_reach C (web_at s ths [p2]) (web_at s ths [p2'])" using web_at_run [OF assms(3), of "[]" "[]"] by simp
  moreover have "fine_step C (web_at s ths [p2']) (web_at s ths [p2', p1])"
    using web_at_request [of "[p2']" C r1] assms(1) alive by simp
  moreover have "fine_reach C (web_at s ths [p2', p1]) (web_at s1 ths [p2', Done (Inr a1)])"
    using web_at_run [OF assms(4), of "[p2']" "[]"] alive by simp
  ultimately have first: "fine_reach C (at_rest (s, ths)) (web_at s1 ths [p2', Done (Inr a1)])"
    by (meson converse_rtranclp_into_rtranclp rtranclp_trans)
  have "fine_step C (web_at s1 ths [p2', Done (Inr a1)]) (web_at s1 ths [p2'])"
    using web_at_reply [of "[p2']" "[]"] alive by simp
  moreover have "fine_reach C (web_at s1 ths [p2']) (web_at s2 ths [Done (Inr a2)])"
    using web_at_run [OF psteps_run [OF assms(5)], of "[]" "[]"] by simp
  moreover have "fine_step C (web_at s2 ths [Done (Inr a2)]) (at_rest (s2, ths))"
    using web_at_reply [of "[]" "[]"] by simp
  ultimately have "fine_reach C (web_at s1 ths [p2', Done (Inr a1)]) (at_rest (s2, ths))"
    by (meson converse_rtranclp_into_rtranclp rtranclp.rtrancl_into_rtrancl)
  with first show thesis by (intro that [of "web_at s1 ths [p2', Done (Inr a1)]"]) simp_all
qed

text \<open>
  C28: updates get lost.  When two users of the web interface, who are logged in, ask at
  the same time to set two supplies, then there is a run in which the store holds the
  first update, both requests are answered and the console reports both updates as
  successful, but in the end only the second supply is changed.
\<close>

theorem update_lost_in_run:
  fixes s :: "'d server" and r1 r2 :: request
  assumes "refuge_env (cf_json C) obj plain (cf_kv C) open_rw"
    and "store_holds (cf_json C) (cf_kv C) obj plain (db s) r" and "refuge_wf r" and "open_rw (db s)" and "user s"
    and "req_method r1 = Post" and "req_path r1 = ''/modify''" and "known_supply r (get_param r1 ''supply_key'')"
    and "stoi (get_param r1 ''new_value'') = Inr v1" and "0 \<le> v1"
    and "req_method r2 = Post" and "req_path r2 = ''/modify''" and "known_supply r (get_param r2 ''supply_key'')"
    and "stoi (get_param r2 ''new_value'') = Inr v2" and "0 \<le> v2"
  shows "\<exists>q s'. fine_reach C (at_rest (s, ths)) q \<and>
    store_holds (cf_json C) (cf_kv C) obj plain (db (memory q)) (set_supply (get_param r1 ''supply_key'') v1 r) \<and>
    fine_reach C q (at_rest (s', ths)) \<and>
    console s' = console s @ [''[SUPPLIES] State summary updated successfully.'', ''[SUPPLIES] State summary updated successfully.''] \<and>
    store_holds (cf_json C) (cf_kv C) obj plain (db s') (set_supply (get_param r2 ''supply_key'') v2 r)"
proof -
  let ?J = "cf_json C" and ?K = "cf_kv C" and ?ok = "''[SUPPLIES] State summary updated successfully.''"
  let ?answer = "Done (Inr [Set_Redirect ''/modify_form'']) :: ('d, unit, response) server_prog"
  let ?p1 = "post_modify_p ?J ?K r1 :: ('d, unit, response) server_prog"
  let ?p2 = "post_modify_p ?J ?K r2 :: ('d, unit, response) server_prog"
  have routes: "route_p ?J ?K (cf_html C) r1 = Some ?p1" "route_p ?J ?K (cf_html C) r2 = Some ?p2"
    using assms(6,7,11,12) by (simp_all add: route_p_def)
  obtain p where p: "psteps (modify_supplies_p ?J ?K (get_param r2 ''supply_key'') (get_param r2 ''new_value''), s) (p, s)"
    "\<And>s1. open_rw (db s1) \<Longrightarrow> \<exists>d'. run p s1 = (Inr (), s1\<lparr>db := d', console := console s1 @ [?ok]\<rparr>) \<and>
        store_holds ?J ?K obj plain d' (set_supply (get_param r2 ''supply_key'') v2 r) \<and> open_rw d'"
    by (rule refuge_env.modify_supplies_overtaken [OF assms(1,2,3,13,14,15)]) blast
  let ?p2' = "pthn p (pret [Set_Redirect ''/modify_form''])"
  have read2: "psteps (?p2, s) (?p2', s)"
  proof -
    have "run (atom [Reads Web_user] (look user)) s = (Inr True, s)" using assms(5) by (simp add: run_atom)
    then have "psteps (?p2, s)
        (pthn (modify_supplies_p ?J ?K (get_param r2 ''supply_key'') (get_param r2 ''new_value'')) (pret [Set_Redirect ''/modify_form'']), s)"
      unfolding post_modify_p_def by (rule psteps_value_to) simp
    from psteps_trans [OF this] psteps_pbind [OF p(1), of "\<lambda>_. pret [Set_Redirect ''/modify_form'']"]
    show ?thesis by (simp add: pthn_def)
  qed
  obtain d1 where d1: "modify_supplies ?J ?K (get_param r1 ''supply_key'') (get_param r1 ''new_value'') s =
      (Inr (), s\<lparr>db := d1, console := console s @ [?ok]\<rparr>)"
    "store_holds ?J ?K obj plain d1 (set_supply (get_param r1 ''supply_key'') v1 r)" "open_rw d1"
    by (rule refuge_env.modify_supplies_sets [OF assms(1,2,3,8,9,10,4)])
  let ?s1 = "s\<lparr>db := d1, console := console s @ [?ok]\<rparr>"
  have all1: "psteps (?p1, s) (?answer, ?s1)"
    by (rule psteps_run) (simp add: run_web post_modify_def assms(5) d1(1))
  obtain d2 where d2: "run p ?s1 = (Inr (), ?s1\<lparr>db := d2, console := console ?s1 @ [?ok]\<rparr>)"
    "store_holds ?J ?K obj plain d2 (set_supply (get_param r2 ''supply_key'') v2 r)"
    using p(2) [of ?s1] d1(3) by auto
  let ?s2 = "?s1\<lparr>db := d2, console := console ?s1 @ [?ok]\<rparr>"
  have r2: "run ?p2' ?s1 = (Inr [Set_Redirect ''/modify_form''], ?s2)" using d2(1) by (simp add: run_pthn run_pret)
  obtain q where "fine_reach C (at_rest (s, ths)) q" "memory q = ?s1" "fine_reach C q (at_rest (?s2, ths))"
    by (rule web_overtakes [OF routes read2 all1 r2, of ths])
  with d1(2) d2(2) show ?thesis by (intro exI [of _ q] exI [of _ ?s2]) simp
qed

theorem update_lost_in_run_witness:
  "\<exists>q s'. fine_reach demo_config (at_rest (demo_server\<lparr>user := True\<rparr>, [])) q \<and>
    store_holds ref_json ref_kv is_obj j_plain (db (memory q)) (set_supply ''meat'' 7 initial_refuge) \<and>
    fine_reach demo_config q (at_rest (s', [])) \<and>
    store_holds ref_json ref_kv is_obj j_plain (db s') (set_supply ''water'' 50 initial_refuge)"
proof -
  define r1 where "r1 = \<lparr>req_method = Post, req_path = ''/modify'', get_param = (\<lambda>k. if k = ''supply_key'' then ''meat'' else ''7'')\<rparr>"
  define r2 where "r2 = \<lparr>req_method = Post, req_path = ''/modify'', get_param = (\<lambda>k. if k = ''supply_key'' then ''water'' else ''50'')\<rparr>"
  let ?s = "demo_server\<lparr>user := True\<rparr>"
  have env: "refuge_env (cf_json demo_config) is_obj j_plain (cf_kv demo_config) ref_open" using demo_env by simp
  have h: "store_holds (cf_json demo_config) (cf_kv demo_config) is_obj j_plain (db ?s) initial_refuge" "ref_open (db ?s)" "user ?s"
    using demo_holds by simp_all
  have k: "known_supply initial_refuge ''meat''" "known_supply initial_refuge ''water''"
    by (simp_all add: known_supply_def initial_refuge_def)
  have n: "stoi ''7'' = Inr 7" "stoi ''50'' = Inr 50" by code_simp+
  from update_lost_in_run [OF env h(1) initial_refuge_wf h(2,3), of r1 7 r2 50 "[]"] k n
  show ?thesis by (auto simp: r1_def r2_def)
qed

section \<open>Races\<close>

lemma racyI:
  "i < length (accesses q) \<Longrightarrow> j < i \<Longrightarrow> clash (accesses q ! i) (accesses q ! j) \<Longrightarrow> racy q"
  unfolding racy_def races_def by blast

text \<open>A new client thread: what it is about to do, and after its first two steps.\<close>

lemma start_accesses:
  assumes "cf_peer C sock = Some a"
  shows "next_accesses (thread_start C sock) = [Writes Clients]"
  using assms by (simp add: thread_start_def client_arrives_p_def pthn_def atom_def)

lemma log_stamp:
  fixes s :: "('d, 'm) server_scheme"
  assumes "log_opens s"
  obtains k where "psteps (log_event_p a ty d, s) (pbind get_time_stamp_p k, s)"
proof -
  have start: "psteps (with_log_p err body, s) (body, s)" for err and body :: "('d, 'm, unit) server_prog"
    using psteps_value [of "single (look log_opens)" s True s "\<lambda>ok. if ok then body else single (say err)"] assms
    by (simp add: with_log_p_def run_atom)
  show thesis by (rule that, unfold log_event_p_def, rule start)
qed

lemma start_stamp:
  fixes s :: "'d server"
  assumes "cf_peer C sock = Some a" and "log_opens s"
  obtains p s' where "psteps (thread_start C sock, s) (p, s')" and "next_accesses p = [Writes Tm_buffer]"
proof -
  let ?s = "snd (add_client sock s)"
  let ?said = "single (say (''[SERVER] Client connected at port: '' @ show_int (get_port a))) :: ('d, unit, unit) server_prog"
  have 1: "psteps (client_arrives_p a sock, s) (pthn (log_event_p a ''Connection from new client'' []) ?said, ?s)"
    unfolding client_arrives_p_def pthn_def by (rule psteps_value) (simp add: run_atom add_client_def)
  obtain k where "psteps (log_event_p a ''Connection from new client'' [], ?s) (pbind get_time_stamp_p k, ?s)"
    by (rule log_stamp [of ?s a "''Connection from new client''" "[]"]) (use assms(2) in \<open>simp_all add: add_client_def\<close>)
  from psteps_trans [OF 1 psteps_pbind [OF this, of "\<lambda>_. ?said", folded pthn_def]]
  have 2: "psteps (client_arrives_p a sock, s) (pthn (pbind get_time_stamp_p k) ?said, ?s)" .
  show thesis
  proof (rule that)
    show "psteps (thread_start C sock, s) (pthn (pthn (pbind get_time_stamp_p k) ?said) (pret (Again a False (cf_junk C))), ?s)"
      using psteps_pbind [OF 2] by (simp add: thread_start_def assms(1) pthn_def)
  qed (simp add: pthn_def get_time_stamp_p_def atom_def)
qed

text \<open>
  A handler of \<open>main\<close> that has come to an access, while a client thread that started
  before has come to another.
\<close>

lemma handler_meets_thread:
  fixes s :: "'d server"
  assumes "psteps (thread_start C sock, s) (p, s1)"
    and "\<And>q. main_prog q = Done (Inr ()) \<Longrightarrow> thread_step C q (q\<lparr>main_prog := h\<rparr>)"
    and "psteps (h, s1) (h', s2)" and "clash (next_accesses p) (next_accesses h')"
  obtains q where "fine_reach C (at_rest (s, ths)) q" and "racy q"
    and "main_prog q = h'" and "ct_prog (last (client_threads q)) = p"
proof -
  let ?ts = "map rest_thread ths"
  let ?mk = "\<lambda>p m. (at_rest (s, ths))\<lparr>client_threads := (?ts @ [undefined])[length ths := \<lparr>ct_sock = sock, ct_prog = p\<rparr>], memory := m\<rparr>"
  have l: "(?ts @ [undefined])[length ths := x] = ?ts @ [x]" for x :: "'d client_thread"
    using list_update_append_length [of ?ts undefined "[]" x] by simp
  have 1: "fine_step C (at_rest (s, ths)) (?mk (thread_start C sock) s)"
  proof -
    have "fine_step C (at_rest (s, ths)) ((at_rest (s, ths))\<lparr>client_threads :=
        client_threads (at_rest (s, ths)) @ [\<lparr>ct_sock = sock, ct_prog = thread_start C sock\<rparr>]\<rparr>)"
      by (rule fine_stepI [OF running_rest(1) thread_step.accept]) simp
    moreover have "(at_rest (s, ths))\<lparr>client_threads :=
        client_threads (at_rest (s, ths)) @ [\<lparr>ct_sock = sock, ct_prog = thread_start C sock\<rparr>]\<rparr> = ?mk (thread_start C sock) s"
      by (rule fine_eqI) (simp_all add: l)
    ultimately show ?thesis by (rule back_subst)
  qed
  have 2: "fine_reach C (?mk (thread_start C sock) s) (?mk p s1)"
    by (rule client_alone [OF assms(1)]) (simp_all add: l)
  have alive: "running ((?mk p s1)\<lparr>main_prog := Done (Inr ())\<rparr>)"
  proof -
    have "\<not> crashed p" using assms(4) by (cases p) (auto simp: clash_def)
    with running_rest(1) [of s ths] show ?thesis by (simp add: running_def l)
  qed
  have 3: "fine_step C (?mk p s1) ((?mk p s1)\<lparr>main_prog := h, memory := s1\<rparr>)"
  proof -
    have "running (?mk p s1)" using alive by (simp add: running_def)
    then have "fine_step C (?mk p s1) ((?mk p s1)\<lparr>main_prog := h\<rparr>)" by (rule fine_stepI) (rule assms(2), simp)
    moreover have "(?mk p s1)\<lparr>main_prog := h\<rparr> = (?mk p s1)\<lparr>main_prog := h, memory := s1\<rparr>" by (rule fine_eqI) simp_all
    ultimately show ?thesis by (rule back_subst)
  qed
  have 4: "fine_reach C ((?mk p s1)\<lparr>main_prog := h, memory := s1\<rparr>) ((?mk p s1)\<lparr>main_prog := h', memory := s2\<rparr>)"
    by (rule main_alone [OF assms(3) alive])
  show thesis
  proof (rule that)
    show "fine_reach C (at_rest (s, ths)) ((?mk p s1)\<lparr>main_prog := h', memory := s2\<rparr>)"
      using 1 2 3 4 by (meson converse_rtranclp_into_rtranclp rtranclp_trans)
    show "racy ((?mk p s1)\<lparr>main_prog := h', memory := s2\<rparr>)"
      by (rule racyI [of "Suc (length ths)" _ 0]) (use assms(4) in \<open>simp_all add: accesses_def l nth_append\<close>)
  qed (simp_all add: l)
qed

text \<open>
  C29: the list of clients is shared without a lock.  Whenever a connection comes in while
  an alert is on the pipe, the server can get to a state in which \<open>main\<close> is about to read
  the list, to announce the alert, and the new client's thread is about to append to it.
\<close>

theorem alert_races_with_connection:
  fixes s :: "'d server"
  assumes "cf_peer C sock = Some a"
    and "recv_text (cf_junk C) (alert_fifo_fd C) ''[ERROR] Error reading from alert pipe'' s = (Inr buf, s1)"
    and "fst (strtok (CHR '','') buf) = Some entry"
  shows "\<exists>q. fine_reach C (at_rest (s, ths)) q \<and> racy q \<and>
    next_accesses (main_prog q) = [Reads Clients] \<and> next_accesses (ct_prog (last (client_threads q))) = [Writes Clients]"
proof -
  let ?h = "handle_alerts_p (cf_json C) (cf_kv C) (cf_junk C) (alert_fifo_fd C)"
  have "run (recv_text_p (cf_junk C) (alert_fifo_fd C) ''[ERROR] Error reading from alert pipe'') s = (Inr buf, s1)"
    using assms(2) by (simp add: run_dialogue)
  from psteps_value [OF this] obtain h' where h: "psteps (?h, s) (h', s1)" "next_accesses h' = [Reads Clients]"
    unfolding handle_alerts_p_def using assms(3) by (fastforce simp: Let_def split_beta pthn_def atom_def)
  have "clash (next_accesses (thread_start C sock)) (next_accesses h')"
    by (simp add: start_accesses [OF assms(1)] h(2) clash_def)
  from handler_meets_thread [OF psteps.none thread_step.alert h(1) this, of ths] obtain q where
    "fine_reach C (at_rest (s, ths)) q" "racy q" "main_prog q = h'" "ct_prog (last (client_threads q)) = thread_start C sock" .
  with h(2) start_accesses [OF assms(1)] show ?thesis by auto
qed

theorem alert_races_with_connection_witness:
  "\<exists>q. fine_reach demo_config (at_rest (deliver 3 [Data ''north,39.5''] demo_server, [])) q \<and> racy q \<and>
    next_accesses (main_prog q) = [Reads Clients] \<and> next_accesses (ct_prog (last (client_threads q))) = [Writes Clients]"
proof -
  have t: "terminated (replicate MAX_BUFFER NUL) ''north,39.5'' = Inr ''north,39.5''"
    by (simp add: terminated_fits MAX_BUFFER_def NUL_def)
  obtain s1 where r: "recv_text (cf_junk demo_config) (alert_fifo_fd demo_config) ''[ERROR] Error reading from alert pipe''
      (deliver 3 [Data ''north,39.5''] demo_server) = (Inr ''north,39.5'', s1)"
    by (simp add: recv_text_def recv_def deliver_def t [unfolded MAX_BUFFER_def] MAX_BUFFER_def)
  show ?thesis
    by (rule alert_races_with_connection [where sock = 7 and a = demo_addr and entry = "''north''", OF _ r])
       (simp_all add: demo_peer_def strtok_def)
qed

text \<open>
  Time stamps are made in the one structure behind \<open>std::localtime\<close>.  Whenever a
  connection comes in and the log can be opened, the server can get to a state in which
  the new client's thread is about to have a time stamp made, for its log entry, and so is
  \<open>main\<close>, for an emergency.
\<close>

theorem time_stamps_race:
  fixes s :: "'d server"
  assumes "cf_peer C sock = Some a" and "log_opens s"
  shows "\<exists>q. fine_reach C (at_rest (s, ths)) q \<and> racy q \<and>
    next_accesses (main_prog q) = [Writes Tm_buffer] \<and> next_accesses (ct_prog (last (client_threads q))) = [Writes Tm_buffer]"
proof -
  let ?h = "handle_emergency_p (cf_json C) (cf_kv C) (cf_junk C) (emgs_fifo_fd C) :: ('d, unit, unit) server_prog"
  have h: "next_accesses ?h = [Writes Tm_buffer]" by (simp add: handle_emergency_p_def get_time_stamp_p_def)
  obtain p s1 where p: "psteps (thread_start C sock, s) (p, s1)" "next_accesses p = [Writes Tm_buffer]"
    by (rule start_stamp [OF assms])
  have "clash (next_accesses p) (next_accesses ?h)" by (simp add: p(2) h clash_def)
  from handler_meets_thread [OF p(1) thread_step.emergency psteps.none this, of ths] obtain q where
    "fine_reach C (at_rest (s, ths)) q" "racy q" "main_prog q = ?h" "ct_prog (last (client_threads q)) = p" .
  with h p(2) show ?thesis by auto
qed

theorem time_stamps_race_witness:
  "\<exists>q. fine_reach demo_config (at_rest (demo_server, [])) q \<and> racy q \<and>
    next_accesses (main_prog q) = [Writes Tm_buffer] \<and> next_accesses (ct_prog (last (client_threads q))) = [Writes Tm_buffer]"
  by (rule time_stamps_race [of demo_config 7 demo_addr]) (simp_all add: demo_peer_def)

text \<open>
  The global \<open>user\<close> is shared without a lock.  Whenever a login and a modification
  are requested, the web server's threads can get to where the one is about to write
  \<open>user\<close> and the other to read it.
\<close>

theorem login_races_with_modify:
  fixes r1 r2 :: request
  assumes "req_method r1 = Post" and "req_path r1 = ''/login''" and "req_method r2 = Post" and "req_path r2 = ''/modify''"
  shows "\<exists>q. fine_reach C (at_rest (s, ths)) q \<and> racy q \<and>
    map next_accesses (web_progs q) = [[Writes Web_user], [Reads Web_user]]"
proof -
  let ?p1 = "post_login_p r1" and ?p2 = "post_modify_p (cf_json C) (cf_kv C) r2"
  have a: "next_accesses ?p1 = [Writes Web_user]" "next_accesses ?p2 = [Reads Web_user]"
    by (simp_all add: post_login_p_def post_modify_p_def)
  have "fine_step C (at_rest (s, ths)) (web_at s ths [?p1])"
    using web_at_request [of "[]" C r1 ?p1] by (simp add: route_p_def assms)
  moreover have "fine_step C (web_at s ths [?p1]) (web_at s ths [?p1, ?p2])"
    using web_at_request [of "[?p1]" C r2 ?p2] by (simp add: route_p_def assms) (simp add: post_login_p_def)
  ultimately have reach: "fine_reach C (at_rest (s, ths)) (web_at s ths [?p1, ?p2])"
    by (meson converse_rtranclp_into_rtranclp r_into_rtranclp)
  have "racy (web_at s ths [?p1, ?p2])"
    by (rule racyI [of "Suc (Suc (length ths))" _ "Suc (length ths)"])
       (simp_all add: accesses_def nth_append a clash_def)
  with reach a show ?thesis by (intro exI [of _ "web_at s ths [?p1, ?p2]"]) simp
qed

theorem login_races_with_modify_witness:
  "\<exists>q. fine_reach demo_config (at_rest (demo_server, [])) q \<and> racy q \<and>
    map next_accesses (web_progs q) = [[Writes Web_user], [Reads Web_user]]"
  by (rule login_races_with_modify
      [of "\<lparr>req_method = Post, req_path = ''/login'', get_param = (\<lambda>_. [])\<rparr>"
          "\<lparr>req_method = Post, req_path = ''/modify'', get_param = (\<lambda>_. [])\<rparr>"]) simp_all

end
