(* ===== verification/Canny_Parallel.thy ===== *)
theory Canny_Parallel
  imports Canny_Props Atoms
begin

text \<open>
  The parallel loop of \<open>nonMaximumSuppression\<close>: OpenMP divides the pixels among
  \<open>NUM_THREADS\<close> threads, which write to the one matrix of edges.  \<open>Canny\<close> runs the
  loop pixel after pixel; here the threads are interleaved.
\<close>

section \<open>The threads\<close>

definition NUM_THREADS :: nat where
  "NUM_THREADS = 4"

text \<open>The pixels of the three matrices that the threads share; the other variables are private.\<close>

datatype pixel = Mag_px int int | Dir_px int int | Edge_px int int

text \<open>What one round reads at most, and what it writes.\<close>

definition nms_reads :: "int \<Rightarrow> int \<Rightarrow> pixel access list" where
  "nms_reads i j = Reads (Dir_px i j) # map (\<lambda>(a, b). Reads (Mag_px (i + a) (j + b)))
     [(0, 0), (0, 1), (0, -1), (1, -1), (-1, 1), (1, 0), (-1, 0), (-1, -1), (1, 1)]"

definition nms_round_p :: "fp_lib \<Rightarrow> rat mat \<Rightarrow> rat mat \<Rightarrow> int \<times> int \<Rightarrow> (pixel, 8 word mat, unit) prog" where
  "nms_round_p F magnitude direction = (\<lambda>(i, j).
     pbind (atom (nms_reads i j) (of_res (nms_pixel F magnitude direction i j))) (\<lambda>v.
     atom [Writes (Edge_px i j)] (\<lambda>edges. case put_px edges i j v of Inl e \<Rightarrow> (Inl e, edges) | Inr edges' \<Rightarrow> (Inr (), edges'))))"

primrec nms_thread_p :: "fp_lib \<Rightarrow> rat mat \<Rightarrow> rat mat \<Rightarrow> (int \<times> int) list \<Rightarrow> (pixel, 8 word mat, unit) prog" where
  "nms_thread_p F magnitude direction [] = pret ()"
| "nms_thread_p F magnitude direction (x # xs) =
     pthn (nms_round_p F magnitude direction x) (nms_thread_p F magnitude direction xs)"

text \<open>
  The schedule: every pair of the two collapsed loops goes to one thread, in an order
  that the standard leaves open.
\<close>

definition nms_schedule :: "rat mat \<Rightarrow> (int \<times> int) list list \<Rightarrow> bool" where
  "nms_schedule magnitude chunks \<longleftrightarrow> length chunks \<le> NUM_THREADS \<and> distinct (concat chunks) \<and>
     set (concat chunks) = {1 ..< nrows magnitude - 1} \<times> {1 ..< ncols magnitude - 1}"

definition nms_team :: "fp_lib \<Rightarrow> rat mat \<Rightarrow> rat mat \<Rightarrow> (int \<times> int) list list \<Rightarrow> (pixel, 8 word mat, unit) prog list" where
  "nms_team F magnitude direction chunks = map (nms_thread_p F magnitude direction) chunks"

section \<open>Where a thread can be\<close>

text \<open>
  A thread has some pixels left; of the first it may have read what it needs.
\<close>

datatype nms_place = Before "(int \<times> int) list" | Between "int \<times> int" "(int \<times> int) list"

fun left :: "nms_place \<Rightarrow> (int \<times> int) list" where
  "left (Before xs) = xs"
| "left (Between x xs) = x # xs"

fun steps_left :: "nms_place \<Rightarrow> nat" where
  "steps_left (Before xs) = 2 * length xs"
| "steps_left (Between x xs) = Suc (2 * length xs)"

definition nms_write :: "fp_lib \<Rightarrow> rat mat \<Rightarrow> rat mat \<Rightarrow> int \<times> int \<Rightarrow> (pixel, 8 word mat, unit) prog" where
  "nms_write F mag dir = (\<lambda>(i, j). atom [Writes (Edge_px i j)] (\<lambda>edges.
     case put_px edges i j (nms_value F mag dir i j) of Inl e \<Rightarrow> (Inl e, edges) | Inr edges' \<Rightarrow> (Inr (), edges')))"

fun at_place :: "fp_lib \<Rightarrow> rat mat \<Rightarrow> rat mat \<Rightarrow> nms_place \<Rightarrow> (pixel, 8 word mat, unit) prog" where
  "at_place F mag dir (Before xs) = nms_thread_p F mag dir xs"
| "at_place F mag dir (Between x xs) = pthn (nms_write F mag dir x) (nms_thread_p F mag dir xs)"

definition place_accesses :: "nms_place \<Rightarrow> pixel access list" where
  "place_accesses c = (case c of Before [] \<Rightarrow> [] | Before ((i, j) # xs) \<Rightarrow> nms_reads i j
     | Between (i, j) xs \<Rightarrow> [Writes (Edge_px i j)])"

lemma at_place_accesses: "next_accesses (at_place F mag dir c) = place_accesses c"
  by (cases c)
     (auto simp: place_accesses_def nms_round_p_def nms_write_def pret_def pthn_def atom_def split: list.split)

text \<open>Two threads with different pixels left do not meet.\<close>

lemma places_apart:
  assumes "set (left c) \<inter> set (left c') = {}"
  shows "\<not> clash (place_accesses c) (place_accesses c')"
proof -
  have "\<not> conflict x y" if "x \<in> set (place_accesses c)" "y \<in> set (place_accesses c')" for x y
    using that assms
    by (cases c; cases c')
       (auto simp: place_accesses_def nms_reads_def split: list.splits prod.splits)
  then show ?thesis by (auto simp: clash_def)
qed

text \<open>A step of a thread: it reads, or it writes its pixel.\<close>

definition inner_px :: "rat mat \<Rightarrow> (int \<times> int) set" where
  "inner_px mag = {1 ..< nrows mag - 1} \<times> {1 ..< ncols mag - 1}"

lemma inner_px_iff: "(r, c) \<in> inner_px mag \<longleftrightarrow> inner mag r c"
  by (auto simp: inner_px_def inner_def)

lemma place_step:
  assumes "at_place F mag dir c = Atom ls f" and "f e = (p, e')" and "set (left c) \<subseteq> inner_px mag"
    and "nrows dir = nrows mag" and "ncols dir = ncols mag" and "nrows e = nrows mag" and "ncols e = ncols mag"
    and "\<forall>r c. inner mag r c \<longrightarrow> 0 \<le> px mag r c \<and> px mag r c < 256"
  obtains c' where "p = at_place F mag dir c'" and "steps_left c = Suc (steps_left c')"
    and "left c' = left c" and "e' = e"
  | c' i j where "p = at_place F mag dir c'" and "steps_left c = Suc (steps_left c')"
    and "left c = (i, j) # left c'" and "e' = upd e i j (nms_value F mag dir i j)"
proof (cases c)
  case (Before xs)
  with assms(1) obtain i j ys where xs: "xs = (i, j) # ys" by (cases xs) (auto simp: pret_def)
  with assms(3) Before have "inner mag i j" by (simp add: inner_px_iff)
  then have v: "nms_pixel F mag dir i j = Inr (nms_value F mag dir i j)"
    using assms(4,5,8) by (simp add: nms_pixel_value)
  show thesis
  proof (rule that(1) [of "Between (i, j) ys"])
    show "p = at_place F mag dir (Between (i, j) ys)" and "e' = e"
      using assms(1,2) Before xs v by (auto simp: nms_round_p_def nms_write_def atom_def pthn_def)
  qed (simp_all add: Before xs)
next
  case (Between x xs)
  obtain i j where x: "x = (i, j)" by fastforce
  with assms(3) Between have "inner mag i j" by (simp add: inner_px_iff)
  then have m: "in_mat e i j" using assms(6,7) by (simp add: inner_def in_mat_def)
  show thesis
  proof (rule that(2) [of "Before xs" i j])
    show "p = at_place F mag dir (Before xs)" and "e' = upd e i j (nms_value F mag dir i j)"
      using assms(1,2) Between x m by (auto simp: nms_write_def atom_def pthn_def)
  qed (simp_all add: Between x)
qed

section \<open>The team\<close>

definition team_at ::
    "fp_lib \<Rightarrow> rat mat \<Rightarrow> rat mat \<Rightarrow> 8 word mat \<Rightarrow> nms_place list \<Rightarrow> (pixel, 8 word mat, unit) prog list \<times> 8 word mat \<Rightarrow> bool" where
  "team_at F mag dir edges cs = (\<lambda>(ps, e). ps = map (at_place F mag dir) cs \<and>
     distinct (concat (map left cs)) \<and> set (concat (map left cs)) \<subseteq> inner_px mag \<and>
     e = nms_filled F mag dir (\<lambda>r c. inner mag r c \<and> (r, c) \<notin> set (concat (map left cs))) edges)"

lemma filled_upd:
  assumes "\<And>r' c'. D' r' c' \<longleftrightarrow> D r' c' \<or> r' = r \<and> c' = c"
  shows "upd (nms_filled F mag dir D edges) r c (nms_value F mag dir r c) = nms_filled F mag dir D' edges"
  by (auto simp: nms_filled_def upd_def fun_eq_iff assms)

lemma team_at_step:
  assumes "team_at F mag dir edges cs (ps, e)" and "team_step (ps, e) (ps', e')"
    and "nrows dir = nrows mag" and "ncols dir = ncols mag" and "nrows edges = nrows mag" and "ncols edges = ncols mag"
    and "\<forall>r c. inner mag r c \<longrightarrow> 0 \<le> px mag r c \<and> px mag r c < 256"
  obtains cs' where "team_at F mag dir edges cs' (ps', e')"
    and "sum_list (map steps_left cs) = Suc (sum_list (map steps_left cs'))"
proof -
  from assms(2) obtain i ls f p where i: "i < length ps" "ps ! i = Atom ls f" "f e = (p, e')" "ps' = ps[i := p]"
    by (auto elim!: team_stepE)
  have ps: "ps = map (at_place F mag dir) cs" and d: "distinct (concat (map left cs))"
    and sub: "set (concat (map left cs)) \<subseteq> inner_px mag"
    and e: "e = nms_filled F mag dir (\<lambda>r c. inner mag r c \<and> (r, c) \<notin> set (concat (map left cs))) edges"
    using assms(1) by (simp_all add: team_at_def)
  from i(1) ps have len: "i < length cs" by simp
  define as bs where "as = take i cs" and "bs = drop (Suc i) cs"
  have cs: "cs = as @ cs ! i # bs" using len unfolding as_def bs_def by (rule id_take_nth_drop)
  have la: "length as = i" using len by (simp add: as_def)
  have upd: "cs[i := c'] = as @ c' # bs" for c'
    by (subst cs) (simp add: la [symmetric])
  have dims: "nrows e = nrows mag" "ncols e = ncols mag" using assms(5,6) by (simp_all add: e nms_filled_def)
  have at: "at_place F mag dir (cs ! i) = Atom ls f" using i(2) ps len by simp
  have inn: "set (left (cs ! i)) \<subseteq> inner_px mag" using sub by (subst (asm) cs) simp
  have map': "ps' = map (at_place F mag dir) (cs[i := c'])" if "p = at_place F mag dir c'" for c'
    using that by (simp add: i(4) ps map_update)
  show thesis
  proof (rule place_step [OF at i(3) inn assms(3,4) dims assms(7)])
    fix c' assume c': "p = at_place F mag dir c'" "steps_left (cs ! i) = Suc (steps_left c')" "left c' = left (cs ! i)" "e' = e"
    have same: "map left (cs[i := c']) = map left cs" using c'(3) len by (simp add: map_update list_update_same_conv)
    have "sum_list (map steps_left cs) = Suc (sum_list (map steps_left (cs[i := c'])))"
      unfolding upd by (subst cs) (simp add: c'(2))
    moreover have "team_at F mag dir edges (cs[i := c']) (ps', e')"
      unfolding team_at_def using map' [OF c'(1)] d sub e c'(4) by (simp only: same prod.case simp_thms)
    ultimately show thesis by (intro that)
  next
    fix c' r k assume c': "p = at_place F mag dir c'" "steps_left (cs ! i) = Suc (steps_left c')"
      "left (cs ! i) = (r, k) # left c'" "e' = upd e r k (nms_value F mag dir r k)"
    have old: "concat (map left cs) = concat (map left as) @ (r, k) # left c' @ concat (map left bs)"
      by (subst cs) (simp add: c'(3))
    have new: "concat (map left (cs[i := c'])) = concat (map left as) @ left c' @ concat (map left bs)"
      by (simp add: upd)
    have sum: "sum_list (map steps_left cs) = Suc (sum_list (map steps_left (cs[i := c'])))"
      unfolding upd by (subst cs) (simp add: c'(2))
    have rk: "inner mag r k" using sub unfolding old by (simp add: inner_px_iff)
    have fresh: "(r, k) \<notin> set (concat (map left (cs[i := c'])))" using d unfolding old new by auto
    have "e' = nms_filled F mag dir (\<lambda>r' c. inner mag r' c \<and> (r', c) \<notin> set (concat (map left (cs[i := c'])))) edges"
      unfolding c'(4) e by (rule filled_upd) (use fresh rk in \<open>auto simp: old new\<close>)
    then have "team_at F mag dir edges (cs[i := c']) (ps', e')"
      unfolding team_at_def using map' [OF c'(1)] d sub by (simp add: old new)
    then show thesis using sum by (rule that)
  qed
qed

lemma team_at_start:
  assumes "nms_schedule mag chunks"
  shows "team_at F mag dir edges (map Before chunks) (nms_team F mag dir chunks, edges)"
    and "sum_list (map steps_left (map Before chunks)) = 2 * length (concat chunks)"
proof -
  have l: "map left (map Before chunks) = chunks" by (simp add: comp_def)
  have "edges = nms_filled F mag dir (\<lambda>r c. inner mag r c \<and> (r, c) \<notin> set (concat chunks)) edges"
  proof -
    have "(\<lambda>r c. inner mag r c \<and> (r, c) \<notin> set (concat chunks)) = (\<lambda>_ _. False)"
      using assms by (auto simp: nms_schedule_def inner_def fun_eq_iff)
    then show ?thesis by (simp only: nms_filled_def) simp
  qed
  moreover have "distinct (concat chunks)" "set (concat chunks) \<subseteq> inner_px mag"
    using assms by (simp_all add: nms_schedule_def inner_px_def)
  moreover have "nms_team F mag dir chunks = map (at_place F mag dir) (map Before chunks)"
    by (simp add: nms_team_def comp_def)
  ultimately show "team_at F mag dir edges (map Before chunks) (nms_team F mag dir chunks, edges)"
    unfolding team_at_def prod.case l by (intro conjI)
  show "sum_list (map steps_left (map Before chunks)) = 2 * length (concat chunks)"
    by (induction chunks) simp_all
qed

lemma team_at_apart:
  assumes "team_at F mag dir edges cs (ps, e)"
  shows "\<not> races (map next_accesses ps)"
proof -
  have "map next_accesses ps = map place_accesses cs" and d: "distinct (concat (map left cs))"
    using assms by (simp_all add: team_at_def at_place_accesses comp_def)
  moreover have "\<not> races (map place_accesses cs)"
  proof (rule races_free)
    fix i j assume ij: "i < length (map place_accesses cs)" "j < i"
    have "set (left (cs ! i)) \<inter> set (left (cs ! j)) = {}"
    proof -
      have "cs = take i cs @ cs ! i # drop (Suc i) cs" using ij by (simp add: id_take_nth_drop)
      then have "concat (map left cs) = concat (map left (take i cs)) @ left (cs ! i) @ concat (map left (drop (Suc i) cs))"
        by (metis concat.simps(2) concat_append list.simps(9) map_append)
      with d have "set (concat (map left (take i cs))) \<inter> set (left (cs ! i)) = {}" by auto
      moreover have "cs ! j \<in> set (take i cs)" using ij by (auto simp: in_set_conv_nth)
      ultimately show ?thesis by fastforce
    qed
    then show "\<not> clash (map place_accesses cs ! i) (map place_accesses cs ! j)" using ij by (simp add: places_apart)
  qed
  ultimately show ?thesis by simp
qed

lemma team_at_run:
  assumes "(team_step ^^ n) c0 (ps, e)" and "team_at F mag dir edges cs0 c0"
    and "nrows dir = nrows mag" and "ncols dir = ncols mag" and "nrows edges = nrows mag" and "ncols edges = ncols mag"
    and "\<forall>r c. inner mag r c \<longrightarrow> 0 \<le> px mag r c \<and> px mag r c < 256"
  shows "\<exists>cs. team_at F mag dir edges cs (ps, e) \<and> sum_list (map steps_left cs0) = n + sum_list (map steps_left cs)"
  using assms(1)
proof (induction n arbitrary: ps e)
  case 0
  with assms(2) show ?case by auto
next
  case (Suc n)
  then obtain ps1 e1 where c1: "(team_step ^^ n) c0 (ps1, e1)" "team_step (ps1, e1) (ps, e)" by auto
  from Suc.IH [OF c1(1)] obtain cs where cs: "team_at F mag dir edges cs (ps1, e1)"
    "sum_list (map steps_left cs0) = n + sum_list (map steps_left cs)" by blast
  obtain cs' where "team_at F mag dir edges cs' (ps, e)" "sum_list (map steps_left cs) = Suc (sum_list (map steps_left cs'))"
    by (rule team_at_step [OF cs(1) c1(2) assms(3-7)])
  with cs(2) show ?case by (intro exI [of _ cs']) simp
qed

text \<open>A team with steps left has a thread that can make one.\<close>

lemma team_at_progress:
  assumes "team_at F mag dir edges cs (ps, e)" and "0 < sum_list (map steps_left cs)"
  shows "\<exists>c. team_step (ps, e) c"
proof -
  from assms(2) obtain c where c: "c \<in> set cs" "steps_left c \<noteq> 0"
    by (metis in_set_conv_nth length_map nth_map not_gr_zero sum_list_eq_0_iff image_eqI list.set_map imageE)
  then have "at_place F mag dir c \<in> set ps" using assms(1) by (auto simp: team_at_def)
  moreover have "\<exists>ls f. at_place F mag dir c = Atom ls f"
    using c(2) by (cases c rule: steps_left.cases; cases "left c")
      (auto simp: nms_round_p_def nms_write_def pthn_def atom_def split: prod.splits)
  ultimately show ?thesis using team_progress by metis
qed

lemma team_at_end:
  assumes "team_at F mag dir edges cs (ps, e)" and "sum_list (map steps_left cs) = 0"
  shows "(\<forall>p \<in> set ps. p = Done (Inr ())) \<and> e = nms_filled F mag dir (inner mag) edges"
proof -
  have c: "c = Before []" if "c \<in> set cs" for c
    using that assms(2) by (cases c rule: steps_left.cases) (auto simp: sum_list_eq_0_iff)
  then have "set (concat (map left cs)) = {}" by fastforce
  with assms(1) have "e = nms_filled F mag dir (inner mag) edges" unfolding team_at_def by simp
  moreover have "\<forall>p \<in> set ps. p = Done (Inr ())" using assms(1) by (auto simp: team_at_def pret_def dest!: c)
  ultimately show ?thesis by blast
qed

section \<open>Property\<close>

text \<open>
  C4: the parallel loop of the non-maximum suppression.  For magnitudes below 256 and
  any division of the pixels among the threads, the threads never come to accesses that
  conflict, always end after the same number of steps, and leave the matrix that the
  loop gives when it runs pixel after pixel.
\<close>

theorem nms_parallel:
  assumes "2 \<le> nrows mag" and "2 \<le> ncols mag" and "nrows dir = nrows mag" and "ncols dir = ncols mag"
    and "nrows edges = nrows mag" and "ncols edges = ncols mag"
    and "\<forall>r c. inner mag r c \<longrightarrow> 0 \<le> px mag r c \<and> px mag r c < 256"
    and "nms_schedule mag chunks" and "(team_step ^^ n) (nms_team F mag dir chunks, edges) (ps, e)"
  shows "\<not> races (map next_accesses ps) \<and> n \<le> 2 * length (concat chunks) \<and>
    (n < 2 * length (concat chunks) \<longrightarrow> (\<exists>c. team_step (ps, e) c)) \<and>
    (n = 2 * length (concat chunks) \<longrightarrow>
       (\<forall>p \<in> set ps. p = Done (Inr ())) \<and> nonMaximumSuppression F mag dir edges = set_borders e 0)"
proof -
  obtain cs where cs: "team_at F mag dir edges cs (ps, e)" "2 * length (concat chunks) = n + sum_list (map steps_left cs)"
    using team_at_run [OF assms(9) team_at_start(1) [OF assms(8)] assms(3-7)] team_at_start(2) [OF assms(8)] by auto
  have "nonMaximumSuppression F mag dir edges = set_borders (nms_filled F mag dir (inner mag) edges) 0"
    using nms_loop [OF assms(1-7), of F] by (simp add: nonMaximumSuppression_def)
  with team_at_apart [OF cs(1)] team_at_progress [OF cs(1)] team_at_end [OF cs(1)] cs(2) show ?thesis by auto
qed

theorem nms_parallel_witness:
  "\<exists>ps e. (team_step ^^ 8) (nms_team coarse (flat 200) (flat 128) [[(1, 1), (2, 2)], [], [(1, 2)], [(2, 1)]], step_image) (ps, e) \<and>
     \<not> races (map next_accesses ps) \<and> (\<forall>p \<in> set ps. p = Done (Inr ())) \<and>
     nonMaximumSuppression coarse (flat 200) (flat 128) step_image = set_borders e 0"
proof -
  let ?chunks = "[[(1, 1), (2, 2)], [], [(1, 2)], [(2, 1)]] :: (int \<times> int) list list"
  let ?c0 = "(nms_team coarse (flat 200) (flat 128) ?chunks, step_image)"
  have "{1 ..< 3 :: int} = {1, 2}" by auto
  then have sched: "nms_schedule (flat 200) ?chunks"
    by (auto simp: nms_schedule_def flat_def NUM_THREADS_def)
  note par = nms_parallel [of "flat 200" "flat 128" step_image ?chunks _ coarse, OF _ _ _ _ _ _ _ sched]
  have run: "\<exists>c. (team_step ^^ n) ?c0 c" if "n \<le> 8" for n
    using that
  proof (induction n)
    case (Suc n)
    then obtain ps e where c: "(team_step ^^ n) ?c0 (ps, e)" by fastforce
    with par [OF _ _ _ _ _ _ _ c] Suc.prems obtain c' where "team_step (ps, e) c'"
      by (auto simp: flat_def step_image_def)
    with c show ?case by (intro exI [of _ c']) (rule relpowp_Suc_I)
  qed simp
  from run [of 8] obtain ps e where c: "(team_step ^^ 8) ?c0 (ps, e)" by fastforce
  with par [OF _ _ _ _ _ _ _ c] show ?thesis by (auto simp: flat_def step_image_def)
qed

end
