(* ===== verification/Satellite.thy ===== *)
theory Satellite
  imports Blur
begin

text \<open>
  \<open>lib/cannyEdgeFilter/src/satelliteImageWrapper.cpp\<close>: the class
  \<open>SatelliteImageWrapper\<close>, which opens a file with GDAL and reads a band of it into
  an image of bytes.  GDAL and the conversion of OpenCV are interfaces.
\<close>

section \<open>The libraries\<close>

text \<open>
  A band: its size, what \<open>RasterIO\<close> reads and whether it succeeds, and what
  \<open>GetMinimum\<close> and \<open>GetMaximum\<close> give.  A dataset gives a band for every number that
  is in range and a null pointer for the others.
\<close>

record gdal_band =
  band_xsize :: int
  band_ysize :: int
  band_px :: "int \<Rightarrow> int \<Rightarrow> rat"
  band_reads :: bool
  band_min :: rat
  band_max :: rat

type_synonym gdal_dataset = "int \<Rightarrow> gdal_band option"

type_synonym gdal_lib = "string \<Rightarrow> gdal_dataset option"

text \<open>The process as GDAL sees it.\<close>

record gdal_state =
  drivers_registered :: bool
  open_datasets :: nat

text \<open>
  \<open>m.convertTo(m, CV_8UC1, alpha, beta)\<close> of a matrix of floats; \<open>None\<close> stands for a
  scale that is not finite.  For a finite scale each entry is multiplied, shifted,
  rounded, and forced into the range of a byte.
\<close>

type_synonym convert_lib = "rat option \<Rightarrow> rat \<Rightarrow> rat mat \<Rightarrow> 8 word mat"

locale convert_api =
  fixes V :: convert_lib
  assumes convert_shape: "nrows (V alpha beta m) = nrows m \<and> ncols (V alpha beta m) = ncols m"
    and convert_low: "in_mat m r c \<Longrightarrow> a * px m r c + b \<le> 0 \<Longrightarrow> px (V (Some a) b m) r c = 0"
    and convert_high: "in_mat m r c \<Longrightarrow> 255 \<le> a * px m r c + b \<Longrightarrow> px (V (Some a) b m) r c = 255"
    and convert_near: "in_mat m r c \<Longrightarrow> 0 \<le> a * px m r c + b \<Longrightarrow> a * px m r c + b \<le> 255 \<Longrightarrow>
      \<bar>of_int (uint (px (V (Some a) b m) r c)) - (a * px m r c + b)\<bar> \<le> 1"

section \<open>The class\<close>

record satellite_wrapper =
  m_dataset :: "gdal_dataset option"

definition openWrapper :: "gdal_lib \<Rightarrow> string \<Rightarrow> (gdal_state, satellite_wrapper) act" where
  "openWrapper G filename = (\<lambda>s.
     let s = s\<lparr>drivers_registered := True\<rparr> in
     case G filename of
       None \<Rightarrow> (Inl (Throw RuntimeError), s)
     | Some dataset \<Rightarrow> (Inr \<lparr>m_dataset = Some dataset\<rparr>, s\<lparr>open_datasets := Suc (open_datasets s)\<rparr>))"

definition closeWrapper :: "satellite_wrapper \<Rightarrow> (gdal_state, unit) act" where
  "closeWrapper w = (\<lambda>s. (Inr (), case m_dataset w of None \<Rightarrow> s | Some _ \<Rightarrow> s\<lparr>open_datasets := open_datasets s - 1\<rparr>))"

text \<open>\<open>255.0 / (band->GetMaximum() - band->GetMinimum())\<close>, infinite for a band of one level.\<close>

definition band_scale :: "dbl_lib \<Rightarrow> gdal_band \<Rightarrow> rat option" where
  "band_scale D band =
     (let range = db_round D (band_max band - band_min band)
      in if range = 0 then None else Some (db_round D (255 / range)))"

definition readBand :: "dbl_lib \<Rightarrow> convert_lib \<Rightarrow> satellite_wrapper \<Rightarrow> int \<Rightarrow> 8 word mat res" where
  "readBand D V w bandNumber =
     (case m_dataset w of
        None \<Rightarrow> Inl Undefined
      | Some dataset \<Rightarrow>
          (case dataset bandNumber of
             None \<Rightarrow> Inl Undefined
           | Some band \<Rightarrow>
               let image = new_mat (band_ysize band) (band_xsize band) (band_px band)
               in if \<not> band_reads band then Inl (Throw RuntimeError)
                  else Inr (V (band_scale D band) (- band_min band) image)))"

definition isValid :: "satellite_wrapper \<Rightarrow> bool" where
  "isValid w \<longleftrightarrow> m_dataset w \<noteq> None"

text \<open>A program that opens a file, reads one band of it, and leaves the scope of the object.\<close>

definition read_file_band :: "dbl_lib \<Rightarrow> convert_lib \<Rightarrow> gdal_lib \<Rightarrow> string \<Rightarrow> int \<Rightarrow> (gdal_state, 8 word mat) act" where
  "read_file_band D V G filename bandNumber =
     bnd (openWrapper G filename) (\<lambda>w s.
       case readBand D V w bandNumber of
         Inl Undefined \<Rightarrow> (Inl Undefined, s)
       | r \<Rightarrow> thn (closeWrapper w) (of_res r) s)"

section \<open>A reference conversion\<close>

definition exact_convert :: convert_lib where
  "exact_convert alpha beta m = \<lparr>nrows = nrows m, ncols = ncols m, px = (\<lambda>r c. case alpha of None \<Rightarrow> 0
     | Some a \<Rightarrow> word_of_int (max 0 (min 255 \<lfloor>a * px m r c + beta\<rfloor>)))\<rparr>"

interpretation exact_convert: convert_api exact_convert
proof
  fix m :: "rat mat" and r c a b
  let ?x = "a * px m r c + b :: rat"
  have u: "uint (word_of_int (max 0 (min 255 k)) :: 8 word) = max 0 (min 255 k)" for k
    by (simp add: unsigned_of_int take_bit_eq_mod)
  show "px (exact_convert (Some a) b m) r c = 0" if "?x \<le> 0"
  proof -
    have "\<lfloor>?x\<rfloor> \<le> 0" using that by linarith
    then show ?thesis by (simp add: exact_convert_def)
  qed
  show "px (exact_convert (Some a) b m) r c = 255" if "255 \<le> ?x"
  proof -
    have "255 \<le> \<lfloor>?x\<rfloor>" using that by linarith
    then show ?thesis by (simp add: exact_convert_def)
  qed
  show "\<bar>of_int (uint (px (exact_convert (Some a) b m) r c)) - ?x\<bar> \<le> 1" if "0 \<le> ?x" "?x \<le> 255"
  proof -
    have "0 \<le> \<lfloor>?x\<rfloor>" "\<lfloor>?x\<rfloor> \<le> 255" using that by linarith+
    then have "max 0 (min 255 \<lfloor>?x\<rfloor>) = \<lfloor>?x\<rfloor>" by simp
    then have v: "uint (px (exact_convert (Some a) b m) r c) = \<lfloor>?x\<rfloor>" using u [of "\<lfloor>?x\<rfloor>"] by (simp add: exact_convert_def)
    have "\<bar>of_int \<lfloor>?x\<rfloor> - ?x\<bar> \<le> 1" by linarith
    then show ?thesis by (simp only: v)
  qed
qed (simp add: exact_convert_def)

section \<open>Properties\<close>

text \<open>
  Opening and closing, and the three ways in which reading a band fails.  A file that
  does not open throws and leaves nothing open, so the test \<open>isValid\<close> never fails on an
  object; a band number out of range is a null pointer that is used; a failing read
  throws, and the object closes its dataset; otherwise the image has the size of the band
  and again nothing is left open.
\<close>

theorem band_outcomes:
  assumes "convert_api V"
  shows "(G filename = None \<longrightarrow> (\<exists>s'. openWrapper G filename s = (Inl (Throw RuntimeError), s') \<and> open_datasets s' = open_datasets s)) \<and>
    (\<forall>dataset. G filename = Some dataset \<longrightarrow>
       (\<exists>w s'. openWrapper G filename s = (Inr w, s') \<and> isValid w) \<and>
       (case dataset n of
          None \<Rightarrow> fst (read_file_band D V G filename n s) = Inl Undefined
        | Some band \<Rightarrow> \<exists>s'. open_datasets s' = open_datasets s \<and>
            (if band_reads band
             then \<exists>pic. read_file_band D V G filename n s = (Inr pic, s') \<and> nrows pic = band_ysize band \<and> ncols pic = band_xsize band
             else read_file_band D V G filename n s = (Inl (Throw RuntimeError), s'))))"
  using convert_api.convert_shape [OF assms]
  by (auto simp: openWrapper_def closeWrapper_def isValid_def read_file_band_def readBand_def new_mat_def Let_def
      split: option.split)

definition demo_band :: gdal_band where
  "demo_band = \<lparr>band_xsize = 3, band_ysize = 2, band_px = (\<lambda>r c. 1000 + 1000 * of_int c), band_reads = True,
     band_min = 1000, band_max = 3000\<rparr>"

definition demo_gdal :: gdal_lib where
  "demo_gdal = [''sat.tif'' \<mapsto> [1 \<mapsto> demo_band, 2 \<mapsto> demo_band\<lparr>band_reads := False\<rparr>]]"

definition demo_gdal_state :: gdal_state where
  "demo_gdal_state = \<lparr>drivers_registered = False, open_datasets = 0\<rparr>"

theorem band_outcomes_witness:
  "(\<exists>s'. openWrapper demo_gdal ''none.tif'' demo_gdal_state = (Inl (Throw RuntimeError), s') \<and> open_datasets s' = 0) \<and>
   (\<exists>pic s'. read_file_band exact_dbl exact_convert demo_gdal ''sat.tif'' 1 demo_gdal_state = (Inr pic, s') \<and>
      nrows pic = 2 \<and> ncols pic = 3 \<and> open_datasets s' = 0) \<and>
   (\<exists>s'. read_file_band exact_dbl exact_convert demo_gdal ''sat.tif'' 2 demo_gdal_state = (Inl (Throw RuntimeError), s')) \<and>
   fst (read_file_band exact_dbl exact_convert demo_gdal ''sat.tif'' 3 demo_gdal_state) = Inl Undefined"
proof -
  note out = band_outcomes [OF exact_convert.convert_api_axioms, of demo_gdal _ demo_gdal_state]
  from out [of "''none.tif''"] out [of "''sat.tif''" exact_dbl 1] out [of "''sat.tif''" exact_dbl 2] out [of "''sat.tif''" exact_dbl 3]
  show ?thesis by (auto simp: demo_gdal_def demo_band_def demo_gdal_state_def)
qed

text \<open>The scale, rounding errors included.\<close>

lemma band_scale_near:
  assumes "dbl_api D" and "1 \<le> band_max band - band_min band" "band_max band - band_min band \<le> 2 ^ 17"
  shows "\<exists>a. band_scale D band = Some a \<and> \<bar>a - 255 / (band_max band - band_min band)\<bar> \<le> 1 / 2 ^ 40"
proof -
  note err = dbl_api.round_err [OF assms(1)]
  define R where "R = band_max band - band_min band"
  define w where "w = db_round D R"
  have R: "1 \<le> R" "R \<le> 2 ^ 17" using assms(2,3) by (simp_all add: R_def)
  have tiny: "1 / 2 ^ 1074 \<le> (1 :: rat) / 2 ^ 60" by (simp add: divide_le_cancel)
  have "\<bar>R\<bar> < 2 ^ 1000" using R by (simp add: abs_of_nonneg)
  then have "\<bar>w - R\<bar> \<le> \<bar>R\<bar> / 2 ^ 53 + 1 / 2 ^ 1074" unfolding w_def by (rule err)
  with R tiny have w: "\<bar>w - R\<bar> \<le> R / 2 ^ 50" by simp
  then have "R - w \<le> R / 2 ^ 50" using abs_ge_minus_self [of "w - R"] by linarith
  then have w2: "R / 2 \<le> w" using R by simp
  then have w3: "0 < w" "1 / 2 \<le> w" using R by linarith+
  have "255 / w - 255 / R = 255 * (R - w) / (R * w)" using R w3 by (simp add: field_simps)
  moreover have "\<bar>R * w\<bar> = R * w" using R w3 by simp
  ultimately have "\<bar>255 / w - 255 / R\<bar> = 255 * \<bar>w - R\<bar> / (R * w)"
    by (simp only: abs_divide abs_mult abs_numeral abs_minus_commute [of R w])
  also have "\<dots> \<le> 255 * (R / 2 ^ 50) / (R * w)" using w R w3 by (intro divide_right_mono mult_left_mono) simp_all
  also have "\<dots> = 255 / 2 ^ 50 / w" using R w3 by (simp add: field_simps)
  also have "\<dots> \<le> 255 / 2 ^ 50 / (1 / 2)" using w3 by (intro divide_left_mono) simp_all
  finally have q: "\<bar>255 / w - 255 / R\<bar> \<le> 510 / 2 ^ 50" by simp
  have "255 / w \<le> 255 / (1 / 2)" using w3 by (intro divide_left_mono) simp_all
  then have qb: "0 \<le> 255 / w" "255 / w \<le> 510" using w3 by simp_all
  then have "\<bar>255 / w\<bar> < 2 ^ 1000" by simp
  then have "\<bar>db_round D (255 / w) - 255 / w\<bar> \<le> \<bar>255 / w\<bar> / 2 ^ 53 + 1 / 2 ^ 1074" by (rule err)
  with qb tiny have "\<bar>db_round D (255 / w) - 255 / w\<bar> \<le> 510 / 2 ^ 50" by simp
  then have "\<bar>db_round D (255 / w) - 255 / R\<bar> \<le> 510 / 2 ^ 50 + 510 / 2 ^ 50"
    using q abs_triangle_ineq [of "db_round D (255 / w) - 255 / w" "255 / w - 255 / R"] by linarith
  then have "\<bar>db_round D (255 / w) - 255 / R\<bar> \<le> 1 / 2 ^ 40" by simp
  moreover have "band_scale D band = Some (db_round D (255 / w))" using w3 by (simp add: band_scale_def w_def R_def Let_def)
  ultimately show ?thesis by (simp add: R_def)
qed

lemma clamp_near:
  fixes v y z :: rat
  assumes "y \<le> 0 \<Longrightarrow> v = 0" "255 \<le> y \<Longrightarrow> v = 255" "0 \<le> y \<Longrightarrow> y \<le> 255 \<Longrightarrow> \<bar>v - y\<bar> \<le> 1" and "\<bar>y - z\<bar> \<le> d"
  shows "\<bar>v - max 0 (min 255 z)\<bar> \<le> 1 + d"
proof -
  consider "y \<le> 0" | "0 < y" "y < 255" | "255 \<le> y" by linarith
  then show ?thesis
    using assms by cases (auto simp: max_def min_def abs_le_iff)
qed

text \<open>
  C33: what \<open>readBand\<close> makes of a band of sixteen-bit levels that contains more than one.
  A pixel of level \<open>x\<close> becomes \<open>255 * x / (maximum - minimum) - minimum\<close>, cut to the range of a byte, up to one
  unit and the rounding of the scale.  For a band whose minimum is zero this is the
  part of 255 that \<open>x\<close> is of the maximum, as it should be.  For another minimum the subtraction
  comes after the scaling instead of before it; if the minimum is above the
  scaled maximum, the image is black, whatever the band shows.
\<close>

theorem band_levels:
  assumes "convert_api V" and "dbl_api D" and "dataset n = Some band" and "band_reads band"
    and "1 \<le> band_max band - band_min band" and "- (2 ^ 16) \<le> band_min band" "band_max band \<le> 2 ^ 16"
    and "\<forall>r c. 0 \<le> r \<and> r < band_ysize band \<and> 0 \<le> c \<and> c < band_xsize band \<longrightarrow>
      band_min band \<le> band_px band r c \<and> band_px band r c \<le> band_max band"
  shows "\<exists>pic. readBand D V \<lparr>m_dataset = Some dataset\<rparr> n = Inr pic \<and>
    nrows pic = band_ysize band \<and> ncols pic = band_xsize band \<and>
    (\<forall>r c. in_mat pic r c \<longrightarrow> \<bar>of_int (uint (px pic r c)) -
        max 0 (min 255 (255 * band_px band r c / (band_max band - band_min band) - band_min band))\<bar> \<le> 1 + 1 / 1000) \<and>
    (band_min band = 0 \<longrightarrow> (\<forall>r c. in_mat pic r c \<longrightarrow>
        \<bar>of_int (uint (px pic r c)) - 255 * (band_px band r c / band_max band)\<bar> \<le> 1 + 1 / 1000)) \<and>
    (255 * band_max band / (band_max band - band_min band) + 1 / 1000 \<le> band_min band \<longrightarrow>
      (\<forall>r c. in_mat pic r c \<longrightarrow> px pic r c = 0))"
proof -
  let ?R = "band_max band - band_min band"
  let ?m = "new_mat (band_ysize band) (band_xsize band) (band_px band)"
  have "?R \<le> 2 ^ 17" using assms(6,7) by simp
  then obtain a where a: "band_scale D band = Some a" "\<bar>a - 255 / ?R\<bar> \<le> 1 / 2 ^ 40"
    using band_scale_near [OF assms(2,5)] by blast
  let ?pic = "V (Some a) (- band_min band) ?m"
  have run: "readBand D V \<lparr>m_dataset = Some dataset\<rparr> n = Inr ?pic" by (simp add: readBand_def assms(3,4) a(1) Let_def)
  have shape: "nrows ?pic = band_ysize band" "ncols ?pic = band_xsize band"
    using convert_api.convert_shape [OF assms(1), of "Some a" "- band_min band" ?m] by (simp_all add: new_mat_def)
  define y where "y r c = a * band_px band r c - band_min band" for r c
  define z where "z r c = 255 * band_px band r c / ?R - band_min band" for r c
  have inside: "in_mat ?m r c" "px ?m r c = band_px band r c" "band_min band \<le> band_px band r c" "band_px band r c \<le> band_max band"
    if "in_mat ?pic r c" for r c
    using that assms(8) shape by (auto simp: in_mat_def new_mat_def)
  have scaled: "\<bar>y r c - z r c\<bar> \<le> 1 / 1000" if "in_mat ?pic r c" for r c
  proof -
    have "\<bar>band_px band r c\<bar> \<le> 2 ^ 16" using inside(3,4) [OF that] assms(6,7) by (auto simp: abs_le_iff)
    then have "\<bar>a - 255 / ?R\<bar> * \<bar>band_px band r c\<bar> \<le> 1 / 2 ^ 40 * 2 ^ 16" using a(2) by (intro mult_mono) simp_all
    also have "\<dots> \<le> 1 / 1000" by simp
    finally have "\<bar>(a - 255 / ?R) * band_px band r c\<bar> \<le> 1 / 1000" by (simp only: abs_mult)
    moreover have "y r c - z r c = (a - 255 / ?R) * band_px band r c" by (simp add: y_def z_def algebra_simps)
    ultimately show ?thesis by simp
  qed
  have conv: "y r c \<le> 0 \<Longrightarrow> px ?pic r c = 0" "255 \<le> y r c \<Longrightarrow> px ?pic r c = 255"
    "0 \<le> y r c \<Longrightarrow> y r c \<le> 255 \<Longrightarrow> \<bar>of_int (uint (px ?pic r c)) - y r c\<bar> \<le> 1" if "in_mat ?pic r c" for r c
    using convert_api.convert_low [OF assms(1) inside(1) [OF that], of a "- band_min band"]
      convert_api.convert_high [OF assms(1) inside(1) [OF that], of a "- band_min band"]
      convert_api.convert_near [OF assms(1) inside(1) [OF that], of a "- band_min band"] inside(2) [OF that]
    by (simp_all add: y_def)
  have near: "\<bar>of_int (uint (px ?pic r c)) - max 0 (min 255 (z r c))\<bar> \<le> 1 + 1 / 1000" if "in_mat ?pic r c" for r c
    using conv [OF that] by (intro clamp_near [OF _ _ _ scaled [OF that]]) simp_all
  have zero: "\<bar>of_int (uint (px ?pic r c)) - 255 * (band_px band r c / band_max band)\<bar> \<le> 1 + 1 / 1000"
    if "band_min band = 0" "in_mat ?pic r c" for r c
  proof -
    have "0 < band_max band" "0 \<le> band_px band r c" "band_px band r c \<le> band_max band"
      using inside [OF that(2)] assms(5) that(1) by simp_all
    then have "0 \<le> band_px band r c / band_max band" "band_px band r c / band_max band \<le> 1" by simp_all
    then have "max 0 (min 255 (z r c)) = 255 * (band_px band r c / band_max band)" using that(1) by (simp add: z_def)
    with near [OF that(2)] show ?thesis by simp
  qed
  have black: "px ?pic r c = 0" if "255 * band_max band / ?R + 1 / 1000 \<le> band_min band" "in_mat ?pic r c" for r c
  proof -
    have "255 * band_px band r c / ?R \<le> 255 * band_max band / ?R"
      using inside(4) [OF that(2)] assms(5) by (intro divide_right_mono) simp_all
    with that(1) have "z r c \<le> - (1 / 1000)" by (simp add: z_def)
    with scaled [OF that(2)] abs_ge_self [of "y r c - z r c"] have "y r c \<le> 0" by linarith
    with conv(1) [OF that(2)] show ?thesis .
  qed
  from run shape near zero black show ?thesis unfolding z_def by blast
qed

definition dark_band :: gdal_band where
  "dark_band = \<lparr>band_xsize = 3, band_ysize = 2, band_px = (\<lambda>r c. 1000 * of_int c), band_reads = True,
     band_min = 0, band_max = 2000\<rparr>"

theorem band_levels_witness:
  "(\<exists>pic. readBand exact_dbl exact_convert \<lparr>m_dataset = demo_gdal ''sat.tif''\<rparr> 1 = Inr pic \<and>
      nrows pic = 2 \<and> ncols pic = 3 \<and> (\<forall>r c. in_mat pic r c \<longrightarrow> px pic r c = 0)) \<and>
   (\<exists>pic. readBand exact_dbl exact_convert \<lparr>m_dataset = Some [1 \<mapsto> dark_band]\<rparr> 1 = Inr pic \<and> 126 \<le> uint (px pic 0 1) \<and> 254 \<le> uint (px pic 0 2))"
proof
  have cols: "0 \<le> (of_int c :: rat)" "(of_int c :: rat) \<le> 2" if "0 \<le> c" "c < 3" for c :: int
    using that of_int_le_iff [of c 2, where ?'a = rat] by simp_all
  let ?sat = "[1 \<mapsto> demo_band, 2 \<mapsto> demo_band\<lparr>band_reads := False\<rparr>]"
  have d: "demo_gdal ''sat.tif'' = Some ?sat" by (simp add: demo_gdal_def)
  have 1: "?sat (1 :: int) = Some demo_band" "band_reads demo_band" "1 \<le> band_max demo_band - band_min demo_band"
    "- (2 ^ 16) \<le> band_min demo_band" "band_max demo_band \<le> 2 ^ 16"
    "\<forall>r c. 0 \<le> r \<and> r < band_ysize demo_band \<and> 0 \<le> c \<and> c < band_xsize demo_band \<longrightarrow>
      band_min demo_band \<le> band_px demo_band r c \<and> band_px demo_band r c \<le> band_max demo_band"
    using cols by (auto simp: demo_band_def)
  from band_levels [where dataset = ?sat, OF exact_convert.convert_api_axioms exact_dbl.dbl_api_axioms 1]
  show "\<exists>pic. readBand exact_dbl exact_convert \<lparr>m_dataset = demo_gdal ''sat.tif''\<rparr> 1 = Inr pic \<and>
      nrows pic = 2 \<and> ncols pic = 3 \<and> (\<forall>r c. in_mat pic r c \<longrightarrow> px pic r c = 0)"
    unfolding d by (auto simp: demo_band_def)
  have 2: "[1 \<mapsto> dark_band] (1 :: int) = Some dark_band" "band_reads dark_band" "1 \<le> band_max dark_band - band_min dark_band"
    "- (2 ^ 16) \<le> band_min dark_band" "band_max dark_band \<le> 2 ^ 16" "band_min dark_band = 0"
    "\<forall>r c. 0 \<le> r \<and> r < band_ysize dark_band \<and> 0 \<le> c \<and> c < band_xsize dark_band \<longrightarrow>
      band_min dark_band \<le> band_px dark_band r c \<and> band_px dark_band r c \<le> band_max dark_band"
    using cols by (auto simp: dark_band_def)
  obtain pic where pic: "readBand exact_dbl exact_convert \<lparr>m_dataset = Some [1 \<mapsto> dark_band]\<rparr> 1 = Inr pic"
    "nrows pic = 2" "ncols pic = 3"
    "\<forall>r c. in_mat pic r c \<longrightarrow> \<bar>of_int (uint (px pic r c)) - 255 * (band_px dark_band r c / band_max dark_band)\<bar> \<le> 1 + 1 / 1000"
    using band_levels [where dataset = "[1 \<mapsto> dark_band]", OF exact_convert.convert_api_axioms exact_dbl.dbl_api_axioms 2(1-5,7)] 2(6)
    by (auto simp: dark_band_def)
  have "in_mat pic 0 1" "in_mat pic 0 2" using pic(2,3) by (simp_all add: in_mat_def)
  with pic(4) have "\<bar>of_int (uint (px pic 0 1)) - 255 / 2\<bar> \<le> (1 + 1 / 1000 :: rat)" "\<bar>of_int (uint (px pic 0 2)) - 255\<bar> \<le> (1 + 1 / 1000 :: rat)"
    by (fastforce simp: dark_band_def)+
  then have "(of_int 125 :: rat) < of_int (uint (px pic 0 1))" "(of_int 253 :: rat) < of_int (uint (px pic 0 2))"
    using abs_ge_minus_self [of "of_int (uint (px pic 0 1)) - 255 / 2 :: rat"]
      abs_ge_minus_self [of "of_int (uint (px pic 0 2)) - 255 :: rat"] by linarith+
  then have "125 < uint (px pic 0 1)" "253 < uint (px pic 0 2)" by (simp_all only: of_int_less_iff)
  with pic(1) show "\<exists>pic. readBand exact_dbl exact_convert \<lparr>m_dataset = Some [1 \<mapsto> dark_band]\<rparr> 1 = Inr pic \<and>
      126 \<le> uint (px pic 0 1) \<and> 254 \<le> uint (px pic 0 2)" by (intro exI [of _ pic]) simp
qed

end
