(* ===== verification/Conversation_Props.thy ===== *)
theory Conversation_Props
  imports Client_Props Pipes_Props
begin

text \<open>
  The terminal client and the server talk to each other: the messages that
  \<open>client.cpp\<close> sends for the lines of its user are what \<open>handle_client\<close> reads, and what
  \<open>handle_client\<close> sends is what the client shows.
\<close>

section \<open>A dialogue at the client\<close>

text \<open>
  The user types a line, the client sends it, and shows the answer in the next
  iteration; the messages arrive one at a time.
\<close>

definition typed :: "string list \<Rightarrow> key_event list" where
  "typed ls = concat (map (\<lambda>l. [Line (l @ [CHR 0x0A]), NoKey]) ls)"

definition answers :: "string list \<Rightarrow> recv_event list" where
  "answers ms = concat (map (\<lambda>m. [Quiet, Data m]) ms)"

definition shown :: "string list \<Rightarrow> string list" where
  "shown ms = map (\<lambda>m. ''[SERVER] '' @ text_of m) ms"

text \<open>A line that the client sends whole, and a message that it shows.\<close>

definition line_fits :: "string \<Rightarrow> bool" where
  "line_fits l \<longleftrightarrow> Suc (length l) < CLIENT_MAX \<and> NUL \<notin> set l \<and> l \<noteq> ''get_image''"

definition reply_fits :: "string \<Rightarrow> bool" where
  "reply_fits m \<longleftrightarrow> 4 \<le> length m \<and> length m < CLIENT_MAX \<and> take 4 m \<noteq> ''exit''"

lemma client_shows:
  assumes "net c = Data m # evs" and "keys c = NoKey # ks" and "reply_fits m" and "length (buffer c) = CLIENT_MAX"
  shows "main_step G c = Some (Inr True, c\<lparr>net := evs, keys := ks, errno_is := EAGAIN,
    out := out c @ shown [m], buffer := replicate CLIENT_MAX NUL\<rparr>)"
  using client_replies [OF assms(1) _ _ assms(2,4), of G] assms(3) by (simp add: reply_fits_def shown_def)

lemma client_sends:
  assumes "keys c = Line (l @ [CHR 0x0A]) # ks" and "net c = Quiet # evs" and "line_fits l"
  shows "main_step G c = Some (Inr True, c\<lparr>net := evs, keys := ks, uplink := uplink c @ [l], errno_is := EAGAIN\<rparr>)"
  using client_sends_line [of c "l @ [CHR 0x0A]" ks evs G] assms by (simp add: line_fits_def NUL_def)

lemma client_dialogue:
  assumes "length ls = length ms" and "\<forall>l \<in> set ls. line_fits l" and "\<forall>m \<in> set ms. reply_fits m"
    and "length (buffer c) = CLIENT_MAX"
  shows "main_loop G (2 * length ls + n) (c\<lparr>keys := typed ls @ ks, net := answers ms @ evs\<rparr>) =
    main_loop G n (c\<lparr>keys := ks, net := evs, uplink := uplink c @ ls, out := out c @ shown ms,
      buffer := (if ls = [] then buffer c else replicate CLIENT_MAX NUL),
      errno_is := (if ls = [] then errno_is c else EAGAIN)\<rparr>)"
  using assms
proof (induction ls ms arbitrary: c rule: list_induct2)
  case Nil
  show ?case by (simp add: typed_def answers_def shown_def)
next
  case (Cons l ls m ms)
  let ?c = "c\<lparr>keys := typed (l # ls) @ ks, net := answers (m # ms) @ evs\<rparr>"
  let ?c1 = "c\<lparr>keys := NoKey # typed ls @ ks, net := Data m # answers ms @ evs, uplink := uplink c @ [l], errno_is := EAGAIN\<rparr>"
  let ?c2 = "c\<lparr>uplink := uplink c @ [l], errno_is := EAGAIN, out := out c @ shown [m], buffer := replicate CLIENT_MAX NUL\<rparr>"
  have 1: "main_step G ?c = Some (Inr True, ?c1)"
    using client_sends [of ?c l "NoKey # typed ls @ ks" "Data m # answers ms @ evs" G] Cons.prems(1)
    by (simp add: typed_def answers_def)
  have 2: "main_step G ?c1 = Some (Inr True, ?c2\<lparr>keys := typed ls @ ks, net := answers ms @ evs\<rparr>)"
    using client_shows [of ?c1 m "answers ms @ evs" "typed ls @ ks" G] Cons.prems(2,3) by simp
  have "main_loop G (2 * length (l # ls) + n) ?c = main_loop G (2 * length ls + n) (?c2\<lparr>keys := typed ls @ ks, net := answers ms @ evs\<rparr>)"
    using 1 2 by simp
  also have "\<dots> = main_loop G n (?c2\<lparr>keys := ks, net := evs, uplink := uplink ?c2 @ ls, out := out ?c2 @ shown ms,
      buffer := (if ls = [] then buffer ?c2 else replicate CLIENT_MAX NUL),
      errno_is := (if ls = [] then errno_is ?c2 else EAGAIN)\<rparr>)"
    by (rule Cons.IH) (use Cons.prems in simp_all)
  finally show ?case by (simp add: shown_def)
qed

section \<open>An update of the supplies from the keyboard to the store and back\<close>

definition update_lines :: "string \<Rightarrow> string \<Rightarrow> string list" where
  "update_lines key val = [''login'', ''ubuntu'', ''ubuntu'', ''set_supplies'', key @ CHR '','' # val]"

definition update_replies :: "string list" where
  "update_replies = [''Enter username: '' @ [NUL], ''Enter password: '' @ [NUL], ''Login successful.'' @ [NUL],
     take 32 supply_prompt, ''Supplies updated.'']"

lemma update_replies_fit: "\<forall>m \<in> set update_replies. reply_fits m"
  by (simp add: update_replies_def reply_fits_def supply_prompt_def CLIENT_MAX_def)

lemma update_lines_fit:
  assumes "NUL \<notin> set (key @ val)" and "length key + length val + 2 < CLIENT_MAX"
  shows "\<forall>l \<in> set (update_lines key val). line_fits l"
proof -
  have "key @ CHR '','' # val \<noteq> ''get_image''"
  proof
    assume "key @ CHR '','' # val = ''get_image''"
    then have "CHR '','' \<in> set ''get_image''" by (metis in_set_conv_decomp)
    then show False by simp
  qed
  with assms show ?thesis by (auto simp: update_lines_def line_fits_def NUL_def CLIENT_MAX_def)
qed

lemma length_update: "length (update_lines key val) = length update_replies"
  by (simp add: update_lines_def update_replies_def)

text \<open>The summary of the store of the witnesses, with a number for the water, as the instance prints it.\<close>

definition demo_doc :: "int \<Rightarrow> json" where
  "demo_doc water = JObj (m_of_list [
     (''alerts'', JObj (m_of_list (map (\<lambda>e. (e, JInt 0)) [''north_entry'', ''east_entry'', ''west_entry'', ''south_entry'']))),
     (''supplies'', JObj (m_of_list [
        (''food'', JObj (m_of_list [(''meat'', JInt 100), (''vegetables'', JInt 100), (''fruits'', JInt 100), (''water'', JInt water)])),
        (''medicine'', JObj (m_of_list (map (\<lambda>m. (m, JInt 100)) [''antibiotics'', ''analgesics'', ''bandages''])))])),
     (''emergency'', JObj (m_of_list [(''last_keepalived'', JStr ''NONE''), (''last_event'', JStr ''NONE'')]))])"

lemma demo_doc_plain: "j_plain (demo_doc n)"
  by (simp add: demo_doc_def ascii_def)

lemma demo_doc_printed: "ref_dump (demo_doc n) = Inr (j_text (demo_doc n))" "ref_parse (j_text (demo_doc n)) = Inr (demo_doc n)"
  using ref_dump_parse [OF demo_doc_plain] by simp_all

lemma demo_doc_initial: "create_initial_state_summary ref_json = Inr (demo_doc 100)"
  by (simp add: create_initial_state_summary_def json_set2_def demo_doc_def)

lemma demo_doc_stored: "ref_get (db demo_store) summary_key = Inr (j_text (demo_doc 100))" "rd_readonly (db demo_store) = False"
  by (simp_all add: demo_store_def demo_start_def create_state_summary_def demo_doc_initial demo_doc_printed put_value_def
      ref_put_def empty_db_def ref_get_def of_res_app bnd_app)

lemma demo_doc_water:
  "has_supply ref_json (demo_doc n) ''food'' ''water'' = Inr True"
  "json_set3 ref_json (demo_doc n) ''supplies'' ''food'' ''water'' (JInt w) = Inr (demo_doc w)"
  "\<exists>j. m_look (members_of (demo_doc n)) ''supplies'' = Some j"
  by (simp_all add: has_supply_def json_set3_def json_set2_def demo_doc_def)

lemma demo_summary_after:
  assumes "db s1 = db demo_store"
  shows "fst (summary_after ref_json ref_kv ''water'' ''50'' s1) = Inr (j_text (demo_doc 50))"
proof -
  have n: "stoi ''50'' = Inr 50" by code_simp
  obtain j where j: "m_look (members_of (demo_doc 100)) ''supplies'' = Some j" using demo_doc_water(3) by blast
  show ?thesis
    using assms demo_doc_stored
    by (simp add: summary_after_def modify_supplies_def with_summary_def after_read_def get_value_def parse_state_summary_def
       store_summary_def put_value_def ref_put_def ref_get_def show_state_summary_def n demo_doc_water(1,2) j demo_doc_printed of_res_app bnd_app)
qed

lemma demo_summary_fits: "reply_fits (j_text (demo_doc 50))"
  unfolding reply_fits_def CLIENT_MAX_def demo_doc_def by code_simp
text \<open>
  C9: an update goes from the keyboard of the terminal client to the store and its
  answers come back to the screen.  The user types the login and the update; the
  client sends the lines as they are; the server handles them, sets exactly this
  supply and closes the connection in the end; and the client, to which its messages
  arrive one by one, shows the prompts, the confirmation and the new summary, provided
  that what the server prints after the update fits into the array of the client.
\<close>

theorem update_from_keyboard_to_store_and_back:
  fixes s :: "('d, 'm) server_scheme" and G :: "('w, 'r) gz_lib"
  assumes env: "refuge_env J obj plain K open_rw" and "store_holds J K obj plain (db s) r"
    and "refuge_wf r" and "open_rw (db s)"
    and "known_supply r key" and "stoi val = Inr v" and "0 \<le> v"
    and "NUL \<notin> set (key @ val)" and "CHR '','' \<notin> set key"
    and "length key + length val + 2 < CLIENT_MAX" and "buffer_ok junk" and "peer sock = Some a"
    and "sock \<notin> set (connected_clients s)"
    and "\<forall>(s1 :: ('d, 'm) server_scheme) t. db s1 = db s \<longrightarrow> fst (summary_after J K key val s1) = Inr t \<longrightarrow> reply_fits t"
    and "length (buffer c) = CLIENT_MAX" and "uplink c = []"
  shows "\<exists>c' s' t j. uplink c' = update_lines key val \<and>
    handle_client J K peer junk sock None (s\<lparr>inbox := (inbox s)(sock := pieces (uplink c'))\<rparr>) = (Inr (), s') \<and>
    store_holds J K obj plain (db s') (set_supply key v r) \<and> closed_fds s' = closed_fds s @ [sock] \<and>
    sent s' = sent s @ map (Pair sock) (update_replies @ [t]) \<and>
    jl_parse J t = Inr j \<and> summary_doc J obj plain j (set_supply key v r) \<and>
    main_loop G 11 (c\<lparr>keys := typed (update_lines key val) @ [NoKey], net := answers update_replies @ [Data t]\<rparr>) =
      Some (Inr True, c') \<and>
    out c' = out c @ shown (update_replies @ [t])"
proof -
  let ?ls = "update_lines key val"
  let ?s = "s\<lparr>inbox := (inbox s)(sock := pieces ?ls)\<rparr>"
  have h: "store_holds J K obj plain (db ?s) r" "open_rw (db ?s)" "sock \<notin> set (connected_clients ?s)"
    "Suc (length key + length val) < MAX_BUFFER"
    "inbox ?s sock = pieces [''login'', ''ubuntu'', ''ubuntu'', ''set_supplies'', key @ CHR '','' # val]"
    using assms(2,4,10,13) by (simp_all add: MAX_BUFFER_def CLIENT_MAX_def update_lines_def)
  from authorised_session [where open_rw = open_rw and s = ?s and peer = peer and sock = sock,
      OF env h(1) assms(3) h(2) assms(5-7) h(5) assms(8,9) h(4) assms(11,12) h(3)]
  obtain s' t j s1 where server: "handle_client J K peer junk sock None ?s = (Inr (), s')"
    "store_holds J K obj plain (db s') (set_supply key v r)"
    "sent s' = sent s @ map (Pair sock) (update_replies @ [t])"
    "jl_parse J t = Inr j" "summary_doc J obj plain j (set_supply key v r)" "closed_fds s' = closed_fds s @ [sock]"
    and t: "db (s1 :: ('d, 'm) server_scheme) = db s" "fst (summary_after J K key val s1) = Inr t"
    by (auto simp: update_replies_def)
  have fits: "reply_fits t" using assms(14) t by blast
  let ?c1 = "c\<lparr>keys := [NoKey], net := [Data t], uplink := ?ls, out := out c @ shown update_replies,
    buffer := replicate CLIENT_MAX NUL, errno_is := EAGAIN\<rparr>"
  let ?c2 = "?c1\<lparr>keys := [], net := [], out := out ?c1 @ shown [t]\<rparr>"
  have "main_loop G (2 * length ?ls + 1) (c\<lparr>keys := typed ?ls @ [NoKey], net := answers update_replies @ [Data t]\<rparr>) =
      main_loop G 1 ?c1"
    using client_dialogue [OF length_update update_lines_fit [OF assms(8,10)] update_replies_fit assms(15), where n = 1 and ks = "[NoKey]" and evs = "[Data t]"]
      assms(16) by (simp add: update_lines_def)
  moreover have "main_step G ?c1 = Some (Inr True, ?c2)"
    using client_shows [of ?c1 t "[]" "[]" G] fits by simp
  ultimately have "main_loop G 11 (c\<lparr>keys := typed ?ls @ [NoKey], net := answers update_replies @ [Data t]\<rparr>) = Some (Inr True, ?c2)"
    by (simp add: update_lines_def)
  with server show ?thesis
    by (intro exI [of _ ?c2] exI [of _ s'] exI [of _ t] exI [of _ j]) (simp add: shown_def)
qed

theorem update_from_keyboard_to_store_and_back_witness:
  "\<exists>c' s' t. uplink c' = [''login'', ''ubuntu'', ''ubuntu'', ''set_supplies'', ''water,50''] \<and>
    handle_client ref_json ref_kv demo_peer (replicate MAX_BUFFER NUL) 7 None
      (demo_server\<lparr>inbox := (\<lambda>_. [])(7 := pieces (uplink c'))\<rparr>) = (Inr (), s') \<and>
    store_holds ref_json ref_kv is_obj j_plain (db s') (set_supply ''water'' 50 initial_refuge) \<and>
    main_loop stored 11 (demo_client\<lparr>keys := typed (update_lines ''water'' ''50'') @ [NoKey], net := answers update_replies @ [Data t]\<rparr>) =
      Some (Inr True, c') \<and>
    out c' = shown (update_replies @ [t])"
proof -
  have n: "stoi ''50'' = Inr 50" by code_simp
  have k: "known_supply initial_refuge ''water''" by (simp add: known_supply_def initial_refuge_def)
  have h: "store_holds ref_json ref_kv is_obj j_plain (db demo_server) initial_refuge" "ref_open (db demo_server)"
    using demo_holds by simp_all
  have l: "NUL \<notin> set (''water'' @ ''50'')" "CHR '','' \<notin> set ''water''" "length ''water'' + length ''50'' + 2 < CLIENT_MAX"
    by (simp_all add: NUL_def CLIENT_MAX_def)
  have b: "buffer_ok (replicate MAX_BUFFER NUL)" "demo_peer 7 = Some demo_addr" "7 \<notin> set (connected_clients demo_server)"
    by (simp_all add: buffer_ok_def demo_peer_def)
  have f: "\<forall>(s1 :: ref_db server) t. db s1 = db demo_server \<longrightarrow>
      fst (summary_after ref_json ref_kv ''water'' ''50'' s1) = Inr t \<longrightarrow> reply_fits t"
    using demo_summary_after demo_summary_fits by fastforce
  have c: "length (buffer demo_client) = CLIENT_MAX" "uplink demo_client = []" "out demo_client = []"
    by (simp_all add: demo_client_def)
  from update_from_keyboard_to_store_and_back [where open_rw = ref_open and G = stored and s = demo_server
      and key = "''water''" and val = "''50''" and sock = 7 and peer = demo_peer, OF demo_env h(1) initial_refuge_wf h(2) k n _ l b f c(1,2)] c(3)
  show ?thesis by (auto simp: update_lines_def)
qed

section \<open>From the sensors to the screens\<close>

definition messages_to :: "int \<Rightarrow> (int \<times> string) list \<Rightarrow> string list" where
  "messages_to k ms = map snd (filter (\<lambda>m. fst m = k) ms)"

lemma messages_to_all:
  "distinct cs \<Longrightarrow> k \<in> set cs \<Longrightarrow> messages_to k (map (\<lambda>c. (c, m)) cs @ ms) = m # messages_to k ms"
proof (induction cs)
  case (Cons c cs)
  then show ?case by (cases "c = k") (auto simp: messages_to_def filter_empty_conv)
qed simp

definition alarm :: "string \<Rightarrow> string" where
  "alarm entry = ''Alert of possible infection in '' @ entry @ '' entry.''"

lemma alarm_fits:
  assumes "entry \<in> entry_names"
  shows "reply_fits (alarm entry)" and "reply_fits (alarm entry @ ''exit'')" and "NUL \<notin> set (alarm entry @ ''exit'')"
  using assms by (auto simp: alarm_def entry_names_def reply_fits_def CLIENT_MAX_def NUL_def)

text \<open>The message \<open>exit\<close> as a piece of its own ends the loop.\<close>

lemma client_exits:
  assumes "net c = Data ''exit'' # evs" and "keys c = NoKey # ks"
  shows "\<exists>c'. main_loop G (Suc n) c = Some (Inr False, c') \<and> sock_closed c' \<and>
    out c' = out c @ [''[EMERGENCY] Emergency detected, all clients disconnected.'']"
proof -
  have "take 4 (buf_fill (buffer c) ''exit'') = ''exit''" by (simp add: take4_fill)
  with main_step_message [OF assms(1) _ _ assms(2), of G] show ?thesis
    by (simp add: handle_reply_def print_def CLIENT_MAX_def)
qed

text \<open>
  C10: an alert and an emergency go from the sensor processes over the server to the
  screens.  Each connected client is sent the alarm and \<open>exit\<close>, and its socket is
  closed.  A client that gets the two messages one by one shows the alarm, reports the
  emergency, closes its socket and ends.  When both have arrived before its next read,
  it shows them as one message, does not recognise the emergency, and goes on, for any
  number of iterations, without noticing that the connection is gone.
\<close>

theorem emergency_reaches_terminals:
  fixes s :: "('d, 'm) server_scheme" and G :: "('w, 'r) gz_lib"
  assumes "random_source R" and "(t1, line1) \<in> set (snd (run_invasion_alerts R opens1 seed1 n1))" and "line1 \<noteq> []"
    and "(t2, line2) \<in> set (snd (run_emergencies R opens2 seed2 n2))"
    and env: "refuge_env J obj plain K open_rw" and "store_holds J K obj plain (db s) r"
    and "refuge_wf r" and "open_rw (db s)" and "\<forall>k v. alerts r k = Some v \<longrightarrow> v < INT_MAX"
    and "\<forall>i. ascii (clock s i)" and "alert_fd \<noteq> emgs_fd" and "inbox s alert_fd = Data line1 # evs1"
    and "inbox s emgs_fd = Data line2 # evs2" and "length junk = MAX_BUFFER"
    and "distinct (connected_clients s)" and "k \<in> set (connected_clients s)" and "length (buffer c) = CLIENT_MAX"
  shows "\<exists>entry \<in> entry_names. \<exists>s1 s2 new c1 c2.
    handle_alerts J K junk alert_fd s = (Inr (), s1) \<and> handle_emergency J K junk emgs_fd s1 = (Inr (), s2) \<and>
    sent s2 = sent s @ new \<and> messages_to k new = [alarm entry, ''exit''] \<and> k \<in> set (closed_fds s2) \<and>
    main_loop G 2 (c\<lparr>net := pieces (messages_to k new), keys := [NoKey, NoKey]\<rparr>) = Some (Inr False, c1) \<and>
    out c1 = out c @ [''[SERVER] '' @ alarm entry, ''[EMERGENCY] Emergency detected, all clients disconnected.''] \<and>
    sock_closed c1 \<and>
    main_loop G (Suc n) (c\<lparr>net := [Data (concat (messages_to k new))], keys := replicate (Suc n) NoKey\<rparr>) = Some (Inr True, c2) \<and>
    out c2 = out c @ [''[SERVER] '' @ alarm entry @ ''exit''] \<and> sock_closed c2 = sock_closed c"
proof -
  obtain entry where l: "alert_line entry line1" by (rule alert_written [OF assms(1-3)])
  obtain msg where m: "msg \<in> emergency_names" "line2 = msg @ [CHR 0x0A]" by (rule emergency_written [OF assms(1,4)])
  note e = alert_line_named [OF l]
  obtain v where v: "alerts r (entry @ ''_entry'') = Some v" "0 \<le> v" by (rule refuge_entry [OF assms(7) e])
  with assms(9) have "v < INT_MAX" by blast
  have "inbox s alert_fd = Data (line1 @ []) # evs1" "length (line1 @ []) < MAX_BUFFER"
    using assms(12) alert_line_short [OF l] by (simp_all add: MAX_BUFFER_def)
  from handle_alerts_first_line [OF env assms(6,8) this(1) l _ this(2) assms(14) v \<open>v < INT_MAX\<close>]
  obtain s1 where s1: "handle_alerts J K junk alert_fd s = (Inr (), s1)"
    "store_holds J K obj plain (db s1) (count_alert (entry @ ''_entry'') r)" "open_rw (db s1)"
    "inbox s1 = (inbox s)(alert_fd := evs1)" "connected_clients s1 = connected_clients s" "clock s1 = clock s"
    "sent s1 = sent s @ map (\<lambda>k. (k, alarm entry)) (connected_clients s)"
    by (auto simp: alarm_def)
  have "ascii (clock s1 (ticks s1))" "inbox s1 emgs_fd = Data (msg @ [CHR 0x0A]) # evs2"
    using s1(4,6) assms(10,11,13) m(2) by simp_all
  from handle_emergency_line [OF env s1(2,3) this assms(14) m(1)]
  obtain s2 where s2: "handle_emergency J K junk emgs_fd s1 = (Inr (), s2)"
    "sent s2 = sent s1 @ map (\<lambda>c. (c, ''exit'')) (connected_clients s)" "closed_fds s2 = closed_fds s1 @ connected_clients s"
    using s1(5) by auto
  let ?new = "map (\<lambda>c. (c, alarm entry)) (connected_clients s) @ map (\<lambda>c. (c, ''exit'')) (connected_clients s) @ []"
  have new: "messages_to k ?new = [alarm entry, ''exit'']"
    by (simp only: messages_to_all [OF assms(15,16)]) (simp add: messages_to_def)
  note fits = alarm_fits [OF e]
  have texts: "shown [alarm entry] = [''[SERVER] '' @ alarm entry]" "shown [alarm entry @ ''exit''] = [''[SERVER] '' @ alarm entry @ ''exit'']"
    using fits(3) by (simp_all add: shown_def text_of_plain)
  let ?c = "c\<lparr>net := pieces [alarm entry, ''exit''], keys := [NoKey, NoKey]\<rparr>"
  let ?c' = "c\<lparr>net := [Data (alarm entry @ ''exit'')], keys := replicate (Suc n) NoKey\<rparr>"
  have step: "main_step G ?c = Some (Inr True, ?c\<lparr>net := pieces [''exit''], keys := [NoKey], errno_is := EAGAIN,
      out := out ?c @ shown [alarm entry], buffer := replicate CLIENT_MAX NUL\<rparr>)"
    "main_step G ?c' = Some (Inr True, ?c'\<lparr>net := [], keys := replicate n NoKey, errno_is := EAGAIN,
      out := out ?c' @ shown [alarm entry @ ''exit''], buffer := replicate CLIENT_MAX NUL\<rparr>)"
    using client_shows [of ?c "alarm entry" _ _ G] client_shows [of ?c' "alarm entry @ ''exit''" _ _ G] fits assms(17) by simp_all
  obtain c1 where c1: "main_loop G 2 ?c = Some (Inr False, c1)" "sock_closed c1"
    "out c1 = out c @ [''[SERVER] '' @ alarm entry, ''[EMERGENCY] Emergency detected, all clients disconnected.'']"
    using client_exits [of "?c\<lparr>net := pieces [''exit''], keys := [NoKey], errno_is := EAGAIN,
      out := out ?c @ shown [alarm entry], buffer := replicate CLIENT_MAX NUL\<rparr>" "[]" "[]" G 0] step(1) texts(1)
    by (auto simp: numeral_2_eq_2)
  obtain c2 where c2: "main_loop G (Suc n) ?c' = Some (Inr True, c2)" "sock_closed c2 = sock_closed c"
    "out c2 = out c @ [''[SERVER] '' @ alarm entry @ ''exit'']"
    using client_idles [of "?c'\<lparr>net := [], keys := replicate n NoKey, errno_is := EAGAIN,
      out := out ?c' @ shown [alarm entry @ ''exit''], buffer := replicate CLIENT_MAX NUL\<rparr>" n "[]" G] step(2) texts(2)
    by auto
  show ?thesis
    using s1(1,7) s2 new c1 c2 assms(16)
    by (intro bexI [OF _ e] exI [of _ s1] exI [of _ s2] exI [of _ ?new] exI [of _ c1] exI [of _ c2]) simp
qed

theorem emergency_reaches_terminals_witness:
  "\<exists>entry s1 s2 c1 c2.
    handle_alerts ref_json ref_kv (replicate MAX_BUFFER NUL) 3 (demo_server\<lparr>connected_clients := [7, 8],
      inbox := (\<lambda>fd. [Data (if fd = 3 then ''north,39.5'' @ [CHR 0x0A] else ''Power Outage'' @ [CHR 0x0A])])\<rparr>) = (Inr (), s1) \<and>
    handle_emergency ref_json ref_kv (replicate MAX_BUFFER NUL) 4 s1 = (Inr (), s2) \<and>
    messages_to 8 (sent s2) = [alarm entry, ''exit''] \<and>
    main_loop stored 2 (demo_client\<lparr>net := pieces (messages_to 8 (sent s2)), keys := [NoKey, NoKey]\<rparr>) = Some (Inr False, c1) \<and>
    main_loop stored 5 (demo_client\<lparr>net := [Data (concat (messages_to 8 (sent s2)))], keys := replicate 5 NoKey\<rparr>) = Some (Inr True, c2)"
proof -
  let ?l1 = "''north,39.5'' @ [CHR 0x0A]" and ?l2 = "''Power Outage'' @ [CHR 0x0A]" and ?junk = "replicate MAX_BUFFER NUL"
  let ?s = "demo_server\<lparr>connected_clients := [7, 8], inbox := (\<lambda>fd. [Data (if fd = 3 then ?l1 else ?l2)])\<rparr>"
  have h: "store_holds ref_json ref_kv is_obj j_plain (db ?s) initial_refuge" "ref_open (db ?s)"
    using demo_holds by simp_all
  have w1: "(10, ?l1) \<in> set (snd (run_invasion_alerts warm_north True () 1))" by (simp only: warm_north_round) simp
  have w2: "(60, ?l2) \<in> set (snd (run_emergencies warm_north True () 1))"
    by (simp add: run_emergencies_writes generate_emergency_message_def write_emergency_message_def warm_north_def)
  have c: "\<forall>i. ascii (clock ?s i)" by (simp add: demo_server_def ascii_def)
  have i: "?l1 \<noteq> []" "(3 :: int) \<noteq> 4" "inbox ?s 3 = Data ?l1 # []" "inbox ?s 4 = Data ?l2 # []" "length ?junk = MAX_BUFFER"
    "distinct (connected_clients ?s)" "8 \<in> set (connected_clients ?s)" "length (buffer demo_client) = CLIENT_MAX"
    by (simp_all add: demo_client_def)
  have "sent ?s = []" by simp
  with emergency_reaches_terminals [where G = stored and n = 4 and open_rw = ref_open and s = ?s,
      OF warm_north_source w1 i(1) w2 demo_env h(1) initial_refuge_wf h(2) initial_room c i(2-8)]
  show ?thesis by (auto simp: numeral_eq_Suc)
qed

end
