(* ===== verification/Signals.thy ===== *)
theory Signals
  imports Fine_Refine
begin

text \<open>
  \<open>SIGPIPE\<close>.  \<open>src/server.cpp\<close> hands no \<open>MSG_NOSIGNAL\<close> to \<open>send\<close> and installs no handler,
  so a transfer to a connection that its peer has reset ends the whole process.  This
  theory puts the signal around the interleaved server of \<open>Fine_System\<close>.
\<close>

section \<open>A program that a signal may end\<close>

text \<open>The sockets to which a step transfers something.\<close>

definition transfers :: "('d, 'm) server_scheme \<Rightarrow> ('d, 'm) server_scheme \<Rightarrow> int list" where
  "transfers s s' = map fst (drop (length (sent s)) (sent s'))"

text \<open>
  A transfer to one of the \<open>broken\<close> sockets ends the process in the state before it; the
  result is \<open>None\<close> then.
\<close>

primrec run_until_death ::
    "int set \<Rightarrow> ('l, ('d, 'm) server_scheme, 'a) prog \<Rightarrow> ('d, 'm) server_scheme \<Rightarrow> 'a res option \<times> ('d, 'm) server_scheme" where
  "run_until_death broken (Done r) = (\<lambda>s. (Some r, s))"
| "run_until_death broken (Atom ls f) = (\<lambda>s. case (map_prod (run_until_death broken) id \<circ> f) s of (m, s') \<Rightarrow>
     if \<exists>c \<in> set (transfers s s'). c \<in> broken then (None, s) else m s')"

lemma transfers_same [simp]: "sent s' = sent s \<Longrightarrow> transfers s s' = []"
  by (simp add: transfers_def)

lemma death_Atom:
  "run_until_death B (Atom ls f) s = (if \<exists>c \<in> set (transfers s (snd (f s))). c \<in> B then (None, s)
     else run_until_death B (fst (f s)) (snd (f s)))"
  by (simp add: split_beta)

named_theorems death_simps \<open>programs that a signal may end\<close>

lemma death_atom [death_simps]:
  "run_until_death B (atom ls m) s = (if \<exists>c \<in> set (transfers s (snd (m s))). c \<in> B then (None, s) else (Some (fst (m s)), snd (m s)))"
  by (simp add: atom_def split_beta)

lemma death_pret [death_simps]: "run_until_death B (pret x) s = (Some (Inr x), s)"
  by (simp add: pret_def)

lemma death_phalt [death_simps]: "run_until_death B (phalt e) s = (Some (Inl e), s)"
  by (simp add: phalt_def)

lemma death_pbind [death_simps]:
  "run_until_death B (pbind p k) s = (case run_until_death B p s of
      (Some (Inr x), s') \<Rightarrow> run_until_death B (k x) s' | (Some (Inl e), s') \<Rightarrow> (Some (Inl e), s') | (None, s') \<Rightarrow> (None, s'))"
proof (induction p arbitrary: s)
  case (Done r)
  then show ?case by (cases r) simp_all
next
  case (Atom ls f)
  show ?case
  proof (cases "\<exists>c \<in> set (transfers s (snd (f s))). c \<in> B")
    case False
    have "run_until_death B (pbind (fst (f s)) k) (snd (f s)) = (case run_until_death B (fst (f s)) (snd (f s)) of
        (Some (Inr x), s') \<Rightarrow> run_until_death B (k x) s' | (Some (Inl e), s') \<Rightarrow> (Some (Inl e), s') | (None, s') \<Rightarrow> (None, s'))"
      by (rule Atom) (auto simp: fsts.simps split_beta)
    with False show ?thesis by (simp add: split_beta)
  qed (simp add: split_beta)
qed

lemma death_pthn [death_simps]:
  "run_until_death B (pthn p q) s = (case run_until_death B p s of
      (Some (Inr x), s') \<Rightarrow> run_until_death B q s' | (Some (Inl e), s') \<Rightarrow> (Some (Inl e), s') | (None, s') \<Rightarrow> (None, s'))"
  by (simp add: pthn_def death_pbind)

text \<open>Nobody is broken: nothing happens.\<close>

lemma death_none: "run_until_death {} p s = (Some (fst (run p s)), snd (run p s))"
  by (induction p arbitrary: s) (auto simp: fsts.simps split_beta)

section \<open>Programs without transfers\<close>

primrec silent :: "('l, ('d, 'm) server_scheme, 'a) prog \<Rightarrow> bool" where
  "silent (Done r) = True"
| "silent (Atom ls f) = (\<forall>s. case (map_prod silent id \<circ> f) s of (ok, s') \<Rightarrow> ok \<and> sent s' = sent s)"

lemma silent_death: "silent p \<Longrightarrow> run_until_death B p s = (Some (fst (run p s)), snd (run p s))"
proof (induction p arbitrary: s)
  case (Atom ls f)
  from Atom.prems have "silent (fst (f s))" "sent (snd (f s)) = sent s" by (simp_all add: split_beta)
  moreover from this(1) have "run_until_death B (fst (f s)) (snd (f s)) =
      (Some (fst (run (fst (f s)) (snd (f s)))), snd (run (fst (f s)) (snd (f s))))"
    by (intro Atom.IH) (auto simp: fsts.simps split_beta)
  ultimately show ?case by (simp add: split_beta)
qed simp

definition same_sent :: "('d, 'm) server_scheme \<Rightarrow> ('d, 'm) server_scheme \<Rightarrow> bool" where
  "same_sent s s' \<longleftrightarrow> sent s' = sent s"

lemma same_sent_prims:
  "keeps same_sent (say t)" "keeps same_sent (get_value K k)" "keeps same_sent (put_value K k v)" "keeps same_sent (recv sock amount)"
  "keeps same_sent (append_log t)" "keeps same_sent get_time_stamp" "keeps same_sent (close_fd n)" "keeps same_sent (look g)"
  by (auto simp: keeps_def same_sent_def say_def get_value_def put_value_def recv_def append_log_def get_time_stamp_def
      split: prod.splits)

lemma silent_atom: "keeps same_sent m \<Longrightarrow> silent (atom ls m)"
  by (simp add: atom_def keeps_def same_sent_def split_beta)

lemma silent_pbind: "silent p \<Longrightarrow> (\<And>x. silent (k x)) \<Longrightarrow> silent (pbind p k)"
proof (induction p)
  case (Done r)
  then show ?case by (cases r) simp_all
next
  case (Atom ls f)
  have "silent (pbind (fst (f s)) k)" for s
    using Atom.prems by (intro Atom.IH) (auto simp: fsts.simps split_beta)
  with Atom.prems(1) show ?case by (simp add: split_beta)
qed

lemma silent_struct:
  "silent (pret x)" "silent (phalt e)" "silent (Done r)" "silent p \<Longrightarrow> silent q \<Longrightarrow> silent (pthn p q)"
  by (simp_all add: pret_def phalt_def pthn_def silent_pbind)

lemma silent_cases:
  "(b \<Longrightarrow> silent p) \<Longrightarrow> (\<not> b \<Longrightarrow> silent q) \<Longrightarrow> silent (if b then p else q)"
  "silent n \<Longrightarrow> (\<And>y. silent (c y)) \<Longrightarrow> silent (case_option n c opt)"
  "(\<And>y. silent (l y)) \<Longrightarrow> (\<And>z. silent (r z)) \<Longrightarrow> silent (case_sum l r sm)"
  "(\<And>y z. silent (g y z)) \<Longrightarrow> silent (case_prod g pr)"
  by (simp_all split: option.split sum.split prod.split)

lemmas silent_rules = silent_pbind silent_struct silent_cases same_sent_prims [THEN silent_atom]

lemma silent_parts:
  "silent get_time_stamp_p" "silent (recv_text_p junk fd err)" "silent (log_alert_p b t)"
  "silent (modify_alerts_p J K a)" "silent (modify_emergencies_p J K t m)"
  unfolding get_time_stamp_p_def recv_text_p_def log_alert_p_def with_log_p_def modify_alerts_p_def modify_emergencies_p_def
    with_summary_p_def count_in_summary_p_def store_summary_p_def
  by (intro silent_rules)+

section \<open>The process\<close>

text \<open>
  The interleaved server with the set of sockets whose peers have reset the connection,
  which may change at any time, and whether a signal has ended it.  A \<open>write\<close> that fails
  without transferring anything is left to its other errors.
\<close>

record 'd process =
  threads :: "'d fine"
  broken :: "int set"
  killed :: bool

inductive signal_step :: "('j, 'd) config \<Rightarrow> 'd process \<Rightarrow> 'd process \<Rightarrow> bool" for C where
  peers: "signal_step C P (P\<lparr>broken := B\<rparr>)"
| works: "signal_step C P (P\<lparr>threads := q\<rparr>)"
    if "\<not> killed P" and "fine_step C (threads P) q"
      and "\<forall>c \<in> set (transfers (memory (threads P)) (memory q)). c \<notin> broken P"
| dies: "signal_step C P (P\<lparr>killed := True\<rparr>)"
    if "\<not> killed P" and "fine_step C (threads P) q"
      and "c \<in> set (transfers (memory (threads P)) (memory q))" and "c \<in> broken P"

inductive_cases signal_stepE: "signal_step C P P'"

abbreviation signal_reach :: "('j, 'd) config \<Rightarrow> 'd process \<Rightarrow> 'd process \<Rightarrow> bool" where
  "signal_reach C \<equiv> (signal_step C)\<^sup>*\<^sup>*"

definition process_at :: "'d fine \<Rightarrow> int set \<Rightarrow> 'd process" where
  "process_at q B = \<lparr>threads = q, broken = B, killed = False\<rparr>"

text \<open>What the threads have done when the signal comes, the interleaved server does as well.\<close>

lemma signal_fine: "signal_reach C P P' \<Longrightarrow> fine_reach C (threads P) (threads P')"
proof (induction rule: rtranclp_induct)
  case (step P' P'')
  from step.hyps(2) have "fine_reach C (threads P') (threads P'')" by (cases rule: signal_step.cases) auto
  with step.IH show ?case by (rule rtranclp_trans)
qed simp

text \<open>After it nothing is done.\<close>

lemma killed_rests: "signal_reach C P P' \<Longrightarrow> killed P \<Longrightarrow> killed P' \<and> threads P' = threads P"
  by (induction rule: rtranclp_induct) (auto elim!: signal_stepE)

text \<open>A thread on its own: \<open>put p s\<close> is the server in which it is about to run \<open>p\<close>.\<close>

definition thread_place :: "('j, 'd) config \<Rightarrow> (('d, unit, 'a) server_prog \<Rightarrow> 'd server \<Rightarrow> 'd fine) \<Rightarrow> bool" where
  "thread_place C put \<longleftrightarrow> (\<forall>p s. memory (put p s) = s) \<and>
     (\<forall>ls f s. fine_step C (put (Atom ls f) s) (put (fst (f s)) (snd (f s))))"

lemma place_works:
  assumes "thread_place C put" and "psteps (p, s) (p', s')"
  shows "signal_reach C (process_at (put p s) {}) (process_at (put p' s') {})"
  using assms(2)
proof (induction "(p, s)" "(p', s')" arbitrary: p s)
  case (some f s ls)
  have "signal_step C (process_at (put (Atom ls f) s) {}) (process_at (put (fst (f s)) (snd (f s))) {})"
    using signal_step.works [of "process_at (put (Atom ls f) s) {}" C "put (fst (f s)) (snd (f s))"] assms(1)
    by (simp add: thread_place_def process_at_def)
  moreover have "signal_reach C (process_at (put (fst (f s)) (snd (f s))) {}) (process_at (put p' s') {})"
    by (rule some(2)) simp
  ultimately show ?case by (rule converse_rtranclp_into_rtranclp)
qed simp

lemma place_dies:
  assumes "thread_place C put" and "run_until_death B p s = (None, s')"
  shows "\<exists>P. signal_reach C (process_at (put p s) B) P \<and> killed P \<and> broken P = B \<and> memory (threads P) = s'"
  using assms(2)
proof (induction p arbitrary: s)
  case (Atom ls f)
  let ?P = "process_at (put (Atom ls f) s) B" and ?q = "put (fst (f s)) (snd (f s))"
  have step: "fine_step C (threads ?P) ?q" "memory (threads ?P) = s" "memory ?q = snd (f s)" "\<not> killed ?P" "broken ?P = B"
    using assms(1) by (simp_all add: thread_place_def process_at_def)
  show ?case
  proof (cases "\<exists>c \<in> set (transfers s (snd (f s))). c \<in> B")
    case True
    then obtain c where "c \<in> set (transfers s (snd (f s)))" "c \<in> B" by blast
    with step signal_step.dies [of ?P C ?q c] have "signal_step C ?P (?P\<lparr>killed := True\<rparr>)" by simp
    moreover have "s' = s" using Atom.prems True by (simp add: split_beta)
    ultimately show ?thesis using step(2,5) by (intro exI [of _ "?P\<lparr>killed := True\<rparr>"]) auto
  next
    case False
    then have "signal_step C ?P (?P\<lparr>threads := ?q\<rparr>)" using step by (intro signal_step.works) auto
    moreover have "?P\<lparr>threads := ?q\<rparr> = process_at ?q B" by (simp add: process_at_def)
    moreover have "\<exists>P. signal_reach C (process_at ?q B) P \<and> killed P \<and> broken P = B \<and> memory (threads P) = s'"
      by (rule Atom.IH) (use Atom.prems False in \<open>auto simp: fsts.simps split_beta\<close>)
    ultimately show ?thesis by (metis converse_rtranclp_into_rtranclp)
  qed
qed simp

text \<open>The places of \<open>main\<close> and of the client threads.\<close>

definition main_at :: "thread list \<Rightarrow> ('d, unit, unit) server_prog \<Rightarrow> 'd server \<Rightarrow> 'd fine" where
  "main_at ths p s = (at_rest (s, ths))\<lparr>main_prog := p\<rparr>"

definition client_at :: "thread list \<Rightarrow> nat \<Rightarrow> ('d, unit, client_next) server_prog \<Rightarrow> 'd server \<Rightarrow> 'd fine" where
  "client_at ths i p s = (at_rest (s, ths))\<lparr>client_threads := (map rest_thread ths)[i := \<lparr>ct_sock = th_sock (ths ! i), ct_prog = p\<rparr>]\<rparr>"

lemma main_place: "thread_place C (main_at ths)"
proof -
  have r: "running (main_at ths (Atom ls f) s)" for ls and f :: "'b server \<Rightarrow> ('b, unit, unit) server_prog \<times> 'b server" and s
    by (auto simp: running_def main_at_def rest_thread_def)
  have "thread_step C (main_at ths (Atom ls f) s) (main_at ths (fst (f s)) (snd (f s)))" for ls f and s :: "'b server"
  proof -
    have "(main_at ths (Atom ls f) s)\<lparr>main_prog := fst (f s), memory := snd (f s)\<rparr> = main_at ths (fst (f s)) (snd (f s))"
      by (rule fine_eqI) (simp_all add: main_at_def)
    moreover have "thread_step C (main_at ths (Atom ls f) s) ((main_at ths (Atom ls f) s)\<lparr>main_prog := fst (f s), memory := snd (f s)\<rparr>)"
      by (rule thread_step.main [where f = f and ls = ls]) (simp_all add: main_at_def)
    ultimately show ?thesis by (simp only:)
  qed
  then show ?thesis by (simp add: thread_place_def fine_step_def r) (simp add: main_at_def)
qed

lemma client_place:
  assumes "i < length ths"
  shows "thread_place C (client_at ths i)"
proof -
  have r: "running (client_at ths i (Atom ls f) s)" for ls and f :: "'b server \<Rightarrow> ('b, unit, client_next) server_prog \<times> 'b server" and s
  proof -
    have "\<not> crashed (ct_prog t)" if "t \<in> set ((map rest_thread ths)[i := \<lparr>ct_sock = k, ct_prog = Atom ls f\<rparr>])" for t k
    proof -
      from that have "t = \<lparr>ct_sock = k, ct_prog = Atom ls f\<rparr> \<or> t \<in> set (map rest_thread ths)" by (rule set_update_cases)
      then show ?thesis by (auto simp: rest_thread_def)
    qed
    then show ?thesis by (simp add: running_def client_at_def del: set_map)
  qed
  have "thread_step C (client_at ths i (Atom ls f) s) (client_at ths i (fst (f s)) (snd (f s)))" for ls f and s :: "'b server"
  proof -
    let ?q = "client_at ths i (Atom ls f) s" and ?t = "\<lparr>ct_sock = th_sock (ths ! i), ct_prog = Atom ls f\<rparr>"
    have "?q\<lparr>client_threads := (client_threads ?q)[i := ?t\<lparr>ct_prog := fst (f s)\<rparr>], memory := snd (f s)\<rparr> =
        client_at ths i (fst (f s)) (snd (f s))"
      by (rule fine_eqI) (simp_all add: client_at_def)
    moreover have "thread_step C ?q (?q\<lparr>client_threads := (client_threads ?q)[i := ?t\<lparr>ct_prog := fst (f s)\<rparr>], memory := snd (f s)\<rparr>)"
      by (rule thread_step.client [where f = f and ls = ls]) (use assms in \<open>simp_all add: client_at_def\<close>)
    ultimately show ?thesis by (simp only:)
  qed
  then show ?thesis by (simp add: thread_place_def fine_step_def r) (simp add: client_at_def)
qed

end
