(* ===== verification/Signal_Props.thy ===== *)
theory Signal_Props
  imports Signals Fine_Props
begin

text \<open>
  What a connection that its peer has reset does to the server: the next alarm, the next
  emergency, or the image that this client has asked for ends the whole process.
\<close>

section \<open>Transfers that end the process\<close>

lemma death_run: "silent p \<Longrightarrow> run p s = (r, s') \<Longrightarrow> run_until_death B p s = (Some r, s')"
  by (simp add: silent_death)

lemma transfers_send [simp]: "transfers s (s\<lparr>sent := sent s @ ms\<rparr>) = map fst ms"
  by (simp add: transfers_def)

lemma death_send_each:
  assumes "k \<in> B" and "set cs1 \<inter> B = {}"
  shows "run_until_death B (send_each_p (cs1 @ k # cs2) m) s = (None, s\<lparr>sent := sent s @ map (\<lambda>c. (c, m)) cs1\<rparr>)"
  using assms(2)
proof (induction cs1 arbitrary: s)
  case Nil
  then show ?case using assms(1) by (simp add: death_simps)
next
  case (Cons c cs1)
  then show ?case by (simp add: death_simps)
qed

lemma death_disconnect_each:
  assumes "k \<in> B" and "set cs1 \<inter> B = {}"
  shows "run_until_death B (disconnect_each_p (cs1 @ k # cs2)) s = (None, s\<lparr>sent := sent s @ map (\<lambda>c. (c, ''exit'')) cs1,
    console := console s @ map (\<lambda>c. ''[SERVER] Disconnecting client socket '' @ show_int c) cs1,
    closed_fds := closed_fds s @ cs1\<rparr>)"
  using assms(2)
proof (induction cs1 arbitrary: s)
  case Nil
  then show ?case using assms(1) by (simp add: death_simps)
next
  case (Cons c cs1)
  then show ?case by (simp add: death_simps)
qed

text \<open>An alarm: the signal comes before the alert is logged or counted.\<close>

lemma alert_dies:
  fixes s :: "('d, 'm) server_scheme"
  assumes "alert_line entry line" and "inbox s fd = Data line # evs" and "length junk = MAX_BUFFER"
    and "connected_clients s = cs1 @ k # cs2" and "k \<in> B" and "set cs1 \<inter> B = {}"
  shows "run_until_death B (handle_alerts_p J K junk fd) s = (None, s\<lparr>inbox := (inbox s)(fd := evs),
    sent := sent s @ map (\<lambda>c. (c, ''Alert of possible infection in '' @ entry @ '' entry.'')) cs1\<rparr>)"
proof -
  obtain temp where t: "line = entry @ CHR '','' # temp" "temp \<noteq> []" "NUL \<notin> set line"
    "CHR '','' \<notin> set entry" "CHR '','' \<notin> set temp" "entry \<noteq> []"
    by (rule alert_line_fields [OF assms(1)])
  have n: "line \<noteq> []" "length line < MAX_BUFFER" using t(1) alert_line_short [OF assms(1)] by (auto simp: MAX_BUFFER_def)
  let ?s1 = "s\<lparr>inbox := (inbox s)(fd := evs)\<rparr>"
  have "run (recv_text_p junk fd err) s = (Inr line, ?s1)" for err
    using recv_text_data [OF assms(2) n assms(3), of err] text_of_plain [OF t(3)] by (simp add: run_dialogue)
  note recv = death_run [OF silent_parts(2) this]
  have tok1: "strtok (CHR '','') line = (Some entry, temp)" using strtok_field [OF t(4,6), of temp] t(1) by simp
  obtain temperature rest where tok2: "strtok (CHR '','') temp = (Some temperature, rest)"
    using t(2,5) by (cases temp) (auto simp: strtok_def Let_def)
  show ?thesis
    using death_send_each [OF assms(5,6), of cs2 _ ?s1] assms(4)
    by (simp add: handle_alerts_p_def death_pbind death_pthn death_atom recv tok1 tok2)
qed

text \<open>An emergency: it is recorded before the signal comes.\<close>

lemma emergency_dies:
  fixes s :: "('d, 'm) server_scheme"
  assumes env: "refuge_env J obj plain K open_rw" and "store_holds J K obj plain (db s) r"
    and "open_rw (db s)" and "ascii (clock s (ticks s))"
    and "inbox s fd = Data (msg @ [CHR 0x0A]) # evs" and "length junk = MAX_BUFFER" and "msg \<in> emergency_names"
    and "connected_clients s = cs1 @ k # cs2" and "k \<in> B" and "set cs1 \<inter> B = {}"
  shows "\<exists>s'. run_until_death B (handle_emergency_p J K junk fd) s = (None, s') \<and>
    store_holds J K obj plain (db s') (r\<lparr>last_keepalived := clock s (ticks s), last_event := msg\<rparr>) \<and>
    sent s' = sent s @ map (\<lambda>c. (c, ''exit'')) cs1"
proof -
  let ?line = "msg @ [CHR 0x0A]" and ?t = "clock s (ticks s)"
  have l: "?line \<noteq> []" "NUL \<notin> set ?line" "length ?line < MAX_BUFFER" "ascii ?line" "erase_char (CHR 0x0A) ?line = msg"
    using assms(7) by (auto simp: emergency_names_def NUL_def MAX_BUFFER_def ascii_def erase_char_def)
  let ?s0 = "s\<lparr>ticks := Suc (ticks s)\<rparr>"
  let ?s1 = "?s0\<lparr>inbox := (inbox s)(fd := evs)\<rparr>"
  let ?s2 = "?s1\<lparr>console := console s @ [''[EMERGENCY] '' @ ?line]\<rparr>"
  have "run (get_time_stamp_p :: ('d, 'm, string) server_prog) s = (Inr ?t, ?s0)"
    by (simp add: get_time_stamp_p_def run_atom get_time_stamp_def)
  note stamp = death_run [OF silent_parts(1) this]
  have "run (recv_text_p junk fd err) ?s0 = (Inr ?line, ?s1)" for err
    using recv_text_data [of ?s0 fd ?line evs junk err] assms(5,6) l(1,3) text_of_plain [OF l(2)] by (simp add: run_dialogue)
  note recv = death_run [OF silent_parts(2) this]
  define s3 where "s3 = snd (log_alert False ?line ?s2)"
  have s3: "log_alert False ?line ?s2 = (Inr (), s3)" "db s3 = db s" "sent s3 = sent s" "connected_clients s3 = connected_clients s"
    by (simp_all add: s3_def log_alert_run)
  have said: "run_until_death B (single (say (''[EMERGENCY] '' @ ?line))) ?s1 = (Some (Inr ()), ?s2)"
    by (simp add: death_atom)
  from s3(1) have "run (log_alert_p False ?line) ?s2 = (Inr (), s3)" by (simp add: run_log)
  note logged = death_run [OF silent_parts(3) this]
  have h: "store_holds J K obj plain (db s3) r" "open_rw (db s3)" using s3(2) assms(2,3) by simp_all
  obtain d' where d': "modify_emergencies J K ?t ?line s3 = (Inr (), s3\<lparr>db := d'\<rparr>)"
      "store_holds J K obj plain d' (note_emergency ?t ?line r)"
    using refuge_env.modify_emergencies_notes [OF env h(1) assms(4) l(4) h(2)] by metis
  from d'(1) have "run (modify_emergencies_p J K ?t ?line) s3 = (Inr (), s3\<lparr>db := d'\<rparr>)" by (simp add: run_modify)
  note noted = death_run [OF silent_parts(5) this]
  have "run_until_death B (handle_emergency_p J K junk fd) s = run_until_death B disconnect_all_clients_p (s3\<lparr>db := d'\<rparr>)"
    by (simp only: handle_emergency_p_def death_pbind death_pthn stamp recv said logged noted prod.case option.case sum.case)
  then show ?thesis
    using death_disconnect_each [OF assms(9,10), of cs2 "s3\<lparr>db := d'\<rparr>"] d'(2) s3(3,4) assms(8) l(5)
    by (simp add: disconnect_all_clients_p_def death_pbind death_pthn death_atom note_emergency_def)
qed

text \<open>Wherever a signal ends the process, the store holds a well-formed summary.\<close>

lemma fine_run_last: "fine_run C q0 ds q \<Longrightarrow> \<exists>rest. ds = db (memory q) # rest"
  by (cases rule: fine_run.cases) auto

lemma signals_keep_summary:
  assumes "refuge_env (cf_json C) obj plain (cf_kv C) open_rw"
    and "store_holds (cf_json C) (cf_kv C) obj plain (db (memory q0)) r0" and "refuge_wf r0" and "open_rw (db (memory q0))"
    and "\<forall>n. ascii (clock (memory q0) n)" and "inbox (memory q0) = (\<lambda>_. [])"
    and "main_prog q0 = Done (Inr ())" and "client_threads q0 = []" and "web_progs q0 = []"
    and "signal_reach C (process_at q0 B) P"
  shows "\<exists>r. store_holds (cf_json C) (cf_kv C) obj plain (db (memory (threads P))) r \<and> refuge_wf r"
proof -
  from signal_fine [OF assms(10)] obtain ds where ds: "fine_run C q0 ds (threads P)"
    using fine_reach_run by (fastforce simp: process_at_def)
  from fine_history [OF assms(1-9) ds] fine_run_last [OF ds] show ?thesis by (fastforce simp: list_all2_Cons1)
qed

lemma main_begins:
  assumes "thread_step C (at_rest (s, ths)) ((at_rest (s, ths))\<lparr>main_prog := p\<rparr>)"
  shows "signal_step C (process_at (at_rest (s, ths)) B) (process_at (main_at ths p s) B)"
  using signal_step.works [of "process_at (at_rest (s, ths)) B" C "main_at ths p s"] fine_stepI [OF running_rest(1) assms]
  by (simp add: process_at_def main_at_def)

lemma main_dies:
  assumes "thread_step C (at_rest (s, ths)) ((at_rest (s, ths))\<lparr>main_prog := p\<rparr>)" and "run_until_death B p s = (None, s')"
  shows "\<exists>P. signal_reach C (process_at (at_rest (s, ths)) B) P \<and> killed P \<and> memory (threads P) = s'"
proof -
  from place_dies [OF main_place assms(2), of C ths] obtain P where
    "signal_reach C (process_at (main_at ths p s) B) P" "killed P" "memory (threads P) = s'" by blast
  with main_begins [OF assms(1), of B] show ?thesis by (intro exI [of _ P]) (simp add: converse_rtranclp_into_rtranclp)
qed

text \<open>
  C37: one connection that its peer has reset, and that is still on the list of clients,
  ends the server with the next alarm or emergency.  The clients before it on the list get
  the message, those behind it do not.  The alert is lost: the store and the log are as
  they were.  The emergency is recorded first, but no client behind the broken connection
  learns of it.
\<close>

theorem dead_client_kills_server:
  fixes s :: "'d server"
  assumes env: "refuge_env (cf_json C) obj plain (cf_kv C) open_rw"
    and "store_holds (cf_json C) (cf_kv C) obj plain (db s) r" and "open_rw (db s)" and "ascii (clock s (ticks s))"
    and "alert_line entry line" and "inbox s (alert_fifo_fd C) = Data line # evs1"
    and "msg \<in> emergency_names" and "inbox s (emgs_fifo_fd C) = Data (msg @ [CHR 0x0A]) # evs2"
    and "length (cf_junk C) = MAX_BUFFER"
    and "connected_clients s = cs1 @ k # cs2" and "k \<in> B" and "set cs1 \<inter> B = {}"
  shows "(\<exists>P. signal_reach C (process_at (at_rest (s, ths)) B) P \<and> killed P \<and>
      sent (memory (threads P)) = sent s @ map (\<lambda>c. (c, ''Alert of possible infection in '' @ entry @ '' entry.'')) cs1 \<and>
      db (memory (threads P)) = db s \<and> log_file (memory (threads P)) = log_file s) \<and>
    (\<exists>P. signal_reach C (process_at (at_rest (s, ths)) B) P \<and> killed P \<and>
      sent (memory (threads P)) = sent s @ map (\<lambda>c. (c, ''exit'')) cs1 \<and>
      store_holds (cf_json C) (cf_kv C) obj plain (db (memory (threads P)))
        (r\<lparr>last_keepalived := clock s (ticks s), last_event := msg\<rparr>))"
proof
  have "thread_step C (at_rest (s, ths)) ((at_rest (s, ths))\<lparr>main_prog := handle_alerts_p (cf_json C) (cf_kv C) (cf_junk C) (alert_fifo_fd C)\<rparr>)"
    by (rule thread_step.alert) simp
  from main_dies [OF this alert_dies [OF assms(5,6,9-12)]]
  show "\<exists>P. signal_reach C (process_at (at_rest (s, ths)) B) P \<and> killed P \<and>
      sent (memory (threads P)) = sent s @ map (\<lambda>c. (c, ''Alert of possible infection in '' @ entry @ '' entry.'')) cs1 \<and>
      db (memory (threads P)) = db s \<and> log_file (memory (threads P)) = log_file s"
    by fastforce
  obtain s' where s': "run_until_death B (handle_emergency_p (cf_json C) (cf_kv C) (cf_junk C) (emgs_fifo_fd C)) s = (None, s')"
    "store_holds (cf_json C) (cf_kv C) obj plain (db s') (r\<lparr>last_keepalived := clock s (ticks s), last_event := msg\<rparr>)"
    "sent s' = sent s @ map (\<lambda>c. (c, ''exit'')) cs1"
    using emergency_dies [OF env assms(2,3,4,8,9,7,10-12)] by blast
  have "thread_step C (at_rest (s, ths)) ((at_rest (s, ths))\<lparr>main_prog := handle_emergency_p (cf_json C) (cf_kv C) (cf_junk C) (emgs_fifo_fd C)\<rparr>)"
    by (rule thread_step.emergency) simp
  from main_dies [OF this s'(1)] s'(2,3)
  show "\<exists>P. signal_reach C (process_at (at_rest (s, ths)) B) P \<and> killed P \<and>
      sent (memory (threads P)) = sent s @ map (\<lambda>c. (c, ''exit'')) cs1 \<and>
      store_holds (cf_json C) (cf_kv C) obj plain (db (memory (threads P)))
        (r\<lparr>last_keepalived := clock s (ticks s), last_event := msg\<rparr>)" by auto
qed

theorem dead_client_kills_server_witness:
  "\<exists>s P P'. s = demo_server\<lparr>connected_clients := [7, 8, 9],
      inbox := (\<lambda>fd. [Data (if fd = 3 then ''north,39.5'' @ [CHR 0x0A] else ''Power Outage'' @ [CHR 0x0A])])\<rparr> \<and>
    signal_reach demo_config (process_at (at_rest (s, [])) {8}) P \<and> killed P \<and>
    map fst (sent (memory (threads P))) = [7] \<and> db (memory (threads P)) = db demo_server \<and>
    signal_reach demo_config (process_at (at_rest (s, [])) {8}) P' \<and> killed P' \<and> sent (memory (threads P')) = [(7, ''exit'')] \<and>
    store_holds ref_json ref_kv is_obj j_plain (db (memory (threads P')))
      (initial_refuge\<lparr>last_keepalived := clock demo_server 0, last_event := ''Power Outage''\<rparr>)"
proof -
  let ?s = "demo_server\<lparr>connected_clients := [7, 8, 9],
      inbox := (\<lambda>fd. [Data (if fd = 3 then ''north,39.5'' @ [CHR 0x0A] else ''Power Outage'' @ [CHR 0x0A])])\<rparr>"
  have env: "refuge_env (cf_json demo_config) is_obj j_plain (cf_kv demo_config) ref_open" using demo_env by simp
  have h: "store_holds (cf_json demo_config) (cf_kv demo_config) is_obj j_plain (db ?s) initial_refuge" "ref_open (db ?s)"
    using demo_holds by simp_all
  have c: "ascii (clock ?s (ticks ?s))" by (simp_all add: demo_server_def ascii_def)
  have i: "inbox ?s (alert_fifo_fd demo_config) = Data (''north,39.5'' @ [CHR 0x0A]) # []"
    "''Power Outage'' \<in> emergency_names" "inbox ?s (emgs_fifo_fd demo_config) = Data (''Power Outage'' @ [CHR 0x0A]) # []"
    "length (cf_junk demo_config) = MAX_BUFFER" "connected_clients ?s = [7] @ 8 # [9]" "(8 :: int) \<in> {8}" "set [7] \<inter> {8 :: int} = {}"
    by (simp_all add: emergency_names_def)
  note d = dead_client_kills_server [OF env h c demo_alert_line i, of "[]"]
  obtain P where P: "signal_reach demo_config (process_at (at_rest (?s, [])) {8}) P" "killed P"
      "sent (memory (threads P)) = sent ?s @ map (\<lambda>c. (c, ''Alert of possible infection in '' @ ''north'' @ '' entry.'')) [7]"
      "db (memory (threads P)) = db ?s"
    by (rule exE [OF conjunct1 [OF d]]) (elim conjE, rule that)
  obtain P' where P': "signal_reach demo_config (process_at (at_rest (?s, [])) {8}) P'" "killed P'" "sent (memory (threads P')) = sent ?s @ map (\<lambda>c. (c, ''exit'')) [7]"
      "store_holds (cf_json demo_config) (cf_kv demo_config) is_obj j_plain (db (memory (threads P')))
        (initial_refuge\<lparr>last_keepalived := clock ?s (ticks ?s), last_event := ''Power Outage''\<rparr>)"
    by (rule exE [OF conjunct2 [OF d]]) (elim conjE, rule that)
  have e: "sent ?s = []" "db ?s = db demo_server" "clock ?s (ticks ?s) = clock demo_server 0" by (simp_all add: demo_server_def)
  have "map fst (sent (memory (threads P))) = [7]" "sent (memory (threads P')) = [(7, ''exit'')]"
    by (simp_all only: P(3) P'(3) e) simp_all
  then show ?thesis
    using P(1,2) P(4) [unfolded e(2)] P'(1,2) P'(4) [unfolded e(3) demo_config_simps]
    by (intro exI [of _ ?s] exI [of _ P] exI [of _ P']) (simp only: simp_thms)
qed

section \<open>A client that does not wait for its image\<close>

lemma silent_log_event: "silent (log_event_p a ty d)"
  unfolding log_event_p_def with_log_p_def get_time_stamp_p_def by (intro silent_rules)

lemma zip_dies:
  assumes "zip_file s = Some content" and "content \<noteq> []" and "write_results s = []" and "sock \<in> B"
  shows "run_until_death B (send_zip_file_p sock) s = (None, s)"
  using assms
  by (simp add: send_zip_file_p_def send_pieces_p.simps [of sock content] death_pbind death_atom write_fd_def transfers_def)

lemma image_request_dies:
  fixes s :: "('d, 'm) server_scheme"
  assumes "zip_file s = Some content" and "content \<noteq> []" and "write_results s = []"
  shows "\<exists>s'. run_until_death {sock} (client_command_p J K junk a None sock u ''get_image'') s = (None, s') \<and>
    db s' = db s \<and> sent s' = sent s"
proof -
  let ?s1 = "s\<lparr>console := console s @ [''[SERVER] Client '' @ show_int (get_port a) @ '' requested the image.'']\<rparr>"
  let ?ty = "''Request of image from client''"
  define s2 where "s2 = snd (log_event a ?ty [] ?s1)"
  have s2: "run (log_event_p a ?ty []) ?s1 = (Inr (), s2)" "db s2 = db s" "sent s2 = sent s" "zip_file s2 = zip_file s"
    "write_results s2 = write_results s"
    by (simp_all add: s2_def run_log log_event_run)
  have say: "run_until_death {sock} (single (say (''[SERVER] Client '' @ show_int (get_port a) @ '' requested the image.''))) s =
      (Some (Inr ()), ?s1)" by (simp add: death_atom)
  have zip: "run_until_death {sock} (send_zip_file_p sock) s2 = (None, s2)"
    using assms s2(4,5) by (intro zip_dies [of _ content]) simp_all
  have "client_command_p J K junk a None sock u ''get_image'' =
      pthn (single (say (''[SERVER] Client '' @ show_int (get_port a) @ '' requested the image.'')))
     (pthn (log_event_p a ?ty []) (pthn (send_zip_file_p sock) (pret u) :: ('d, 'm, bool) server_prog))"
    by (simp add: client_command_p_def Let_def)
  then have "run_until_death {sock} (client_command_p J K junk a None sock u ''get_image'') s = (None, s2)"
    by (simp only: death_pthn say death_run [OF silent_log_event s2(1)] zip prod.case option.case sum.case)
  with s2(2,3) show ?thesis by blast
qed

text \<open>The turn of its thread, up to the reading of the request and from there on.\<close>

lemma image_request_turn:
  fixes s :: "'d server"
  assumes "inbox s sock = Data ''get_image'' # evs" and "zip_file s = Some content" and "content \<noteq> []" and "write_results s = []"
  obtains p where "psteps (thread_turn C sock a u (replicate MAX_BUFFER NUL), s) (p, s\<lparr>inbox := (inbox s)(sock := evs)\<rparr>)"
    and "\<exists>s'. run_until_death {sock} p (s\<lparr>inbox := (inbox s)(sock := evs)\<rparr>) = (None, s') \<and> db s' = db s \<and> sent s' = sent s"
proof -
  let ?buf = "replicate MAX_BUFFER NUL" and ?bs = "''get_image''" and ?s1 = "s\<lparr>inbox := (inbox s)(sock := evs)\<rparr>"
  let ?ends = "\<lambda>e. case e of Stays ubuntu' \<Rightarrow> pret (Again a ubuntu' ?buf) | Leaves \<Rightarrow> pthn (client_leaves_p a sock) (pret Gone)"
  let ?cmd = "pbind (client_command_p (cf_json C) (cf_kv C) (cf_junk C) a None sock u ?bs) (\<lambda>ubuntu'. pret (Stays ubuntu'))"
  have recv: "run (single (recv sock (MAX_BUFFER - 1))) s = (Inr ?bs, ?s1)"
    using assms(1) by (simp add: run_atom recv_data MAX_BUFFER_def)
  have "text_of ?bs = ?bs" by (rule text_of_plain) (simp add: NUL_def)
  moreover have "length ?bs < MAX_BUFFER" by (simp add: MAX_BUFFER_def)
  ultimately have "c_str (buf_fill ?buf ?bs) = Inr ?bs" "terminated ?buf ?bs = Inr ?bs"
    using c_str_fill [OF buffer_ok_cleared, of ?bs] text_of_fill_cleared [of ?bs "length ?bs" MAX_BUFFER]
      terminated_fits [of ?bs ?buf] by simp_all
  then have "psteps (client_round_p (cf_json C) (cf_kv C) (cf_junk C) a None sock u ?buf, s) (?cmd, ?s1)"
    unfolding client_round_p_def by (intro psteps_value_to [OF recv]) simp
  from psteps_pbind [OF this, of ?ends] have "psteps (thread_turn C sock a u ?buf, s) (pbind ?cmd ?ends, ?s1)"
    by (simp only: thread_turn_def)
  moreover obtain s' where "run_until_death {sock} (client_command_p (cf_json C) (cf_kv C) (cf_junk C) a None sock u ?bs) ?s1 = (None, s')"
    "db s' = db s" "sent s' = sent s"
    using image_request_dies [of ?s1 content sock "cf_json C" "cf_kv C" "cf_junk C" a u] assms(2-4) by auto
  then have "run_until_death {sock} (pbind ?cmd ?ends) ?s1 = (None, s')"
    by (simp only: death_pbind prod.case option.case)
  ultimately show thesis using \<open>db s' = db s\<close> \<open>sent s' = sent s\<close> by (intro that [of "pbind ?cmd ?ends"]) blast+
qed

lemma client_begins:
  fixes s :: "'d server"
  assumes "i < length ths" and "p = thread_turn C (th_sock (ths ! i)) (th_addr (ths ! i)) (th_ubuntu (ths ! i)) (th_buf (ths ! i))"
  shows "signal_step C (process_at (at_rest (s, ths)) B) (process_at (client_at ths i p s) B)"
proof -
  let ?q = "at_rest (s, ths)" and ?t = "rest_thread (ths ! i) :: 'd client_thread"
  have "thread_step C ?q (?q\<lparr>client_threads := (client_threads ?q)[i := ?t\<lparr>ct_prog :=
      thread_turn C (ct_sock ?t) (th_addr (ths ! i)) (th_ubuntu (ths ! i)) (th_buf (ths ! i))\<rparr>]\<rparr>)"
    by (rule thread_step.turn) (use assms(1) in \<open>simp_all add: rest_thread_def\<close>)
  moreover have "?q\<lparr>client_threads := (client_threads ?q)[i := ?t\<lparr>ct_prog :=
      thread_turn C (ct_sock ?t) (th_addr (ths ! i)) (th_ubuntu (ths ! i)) (th_buf (ths ! i))\<rparr>]\<rparr> = client_at ths i p s"
    by (rule fine_eqI) (simp_all add: client_at_def rest_thread_def assms(2))
  ultimately have "fine_step C ?q (client_at ths i p s)" by (simp add: fine_step_def)
  then show ?thesis
    using signal_step.works [of "process_at ?q B" C "client_at ths i p s"] by (simp add: process_at_def client_at_def)
qed

text \<open>
  C38: a client that asks for the image and resets its connection before it has been sent
  ends the server.  Its thread has read the request; then the connection breaks; the first
  \<open>write\<close> of \<open>send_zip_file\<close> raises the signal, and nothing has been sent or stored.
\<close>

theorem image_request_kills_server:
  fixes s :: "'d server"
  assumes "i < length ths" and "th_buf (ths ! i) = replicate MAX_BUFFER NUL"
    and "inbox s (th_sock (ths ! i)) = Data ''get_image'' # evs"
    and "zip_file s = Some content" and "content \<noteq> []" and "write_results s = []"
  shows "\<exists>P. signal_reach C (process_at (at_rest (s, ths)) {}) P \<and> killed P \<and> broken P = {th_sock (ths ! i)} \<and>
    db (memory (threads P)) = db s \<and> sent (memory (threads P)) = sent s"
proof -
  let ?t = "ths ! i"
  let ?sock = "th_sock ?t" and ?a = "th_addr ?t" and ?u = "th_ubuntu ?t"
  let ?J = "cf_json C" and ?K = "cf_kv C" and ?buf = "replicate MAX_BUFFER NUL"
  let ?turn = "thread_turn C ?sock ?a ?u ?buf"
  let ?s1 = "s\<lparr>inbox := (inbox s)(?sock := evs)\<rparr>"
  obtain p where p: "psteps (?turn, s) (p, ?s1)"
    "\<exists>s'. run_until_death {?sock} p ?s1 = (None, s') \<and> db s' = db s \<and> sent s' = sent s"
    by (rule image_request_turn [OF assms(3-6), of C ?a ?u])
  have "signal_step C (process_at (at_rest (s, ths)) {}) (process_at (client_at ths i ?turn s) {})"
    by (rule client_begins) (use assms(1,2) in simp_all)
  moreover have "signal_reach C (process_at (client_at ths i ?turn s) {}) (process_at (client_at ths i p ?s1) {})"
    by (rule place_works [OF client_place [OF assms(1)] p(1)])
  moreover have "signal_step C (process_at (client_at ths i p ?s1) {}) (process_at (client_at ths i p ?s1) {?sock})"
    using signal_step.peers [of C "process_at (client_at ths i p ?s1) {}" "{?sock}"] by (simp add: process_at_def)
  moreover obtain P where "signal_reach C (process_at (client_at ths i p ?s1) {?sock}) P" "killed P" "broken P = {?sock}"
    "db (memory (threads P)) = db s" "sent (memory (threads P)) = sent s"
    using p(2) place_dies [OF client_place [OF assms(1)], of "{?sock}" p ?s1 _ C] by fastforce
  ultimately show ?thesis by (meson converse_rtranclp_into_rtranclp rtranclp_trans)
qed

theorem image_request_kills_server_witness:
  "\<exists>s P. s = demo_server\<lparr>zip_file := Some ''PNG'', inbox := (\<lambda>_. [Data ''get_image''])\<rparr> \<and>
    signal_reach demo_config (process_at (at_rest (s,
      [\<lparr>th_sock = 7, th_addr = demo_addr, th_ubuntu = False, th_buf = replicate MAX_BUFFER NUL\<rparr>])) {}) P \<and>
    killed P \<and> sent (memory (threads P)) = []"
proof -
  let ?s = "demo_server\<lparr>zip_file := Some ''PNG'', inbox := (\<lambda>_. [Data ''get_image''])\<rparr>"
  let ?ths = "[\<lparr>th_sock = 7, th_addr = demo_addr, th_ubuntu = False, th_buf = replicate MAX_BUFFER NUL\<rparr>]"
  have h: "0 < length ?ths" "th_buf (?ths ! 0) = replicate MAX_BUFFER NUL" "inbox ?s (th_sock (?ths ! 0)) = Data ''get_image'' # []"
    "zip_file ?s = Some ''PNG''" "''PNG'' \<noteq> []" "write_results ?s = []" "sent ?s = []"
    by (simp_all add: demo_server_def)
  obtain P where P: "signal_reach demo_config (process_at (at_rest (?s, ?ths)) {}) P" "killed P" "sent (memory (threads P)) = sent ?s"
    by (rule exE [OF image_request_kills_server [OF h(1-6), of demo_config]]) (elim conjE, rule that)
  show ?thesis using P [unfolded h(7)] by (intro exI [of _ ?s] exI [of _ P]) (simp only: simp_thms)
qed

end
