(* ===== verification/Test_Suite.thy ===== *)
theory Test_Suite
  imports Supplies_Props Sensors Lab1_Props
begin

text \<open>
  The unit tests of the two laboratories as lemmas about the model:
  \<open>tests/unit/test_unit.cpp\<close> of the second, \<open>tests/unit/test_unit.c\<close> of the first.  A
  test runs on one library, one generator and one run of it; the lemmas hold for every
  library that meets the interface, and for every state of the generator.
\<close>

section \<open>Second laboratory: supplies\<close>

context refuge_env begin

text \<open>\<open>CreateStateSummaryTest\<close> and \<open>ShowStateSummaryTest\<close>\<close>

lemma test_create_and_show:
  assumes "open_rw (db s)"
  shows "\<exists>s' t j a su f. create_state_summary J K s = (Inr (), s') \<and> show_state_summary J K None s' = (Inr t, s') \<and>
    jl_parse J t = Inr j \<and> jlook J j ''alerts'' = Some a \<and> jlook J a ''north_entry'' = Some (jl_of_int J 0) \<and>
    jlook J j ''supplies'' = Some su \<and> jlook J su ''food'' = Some f \<and> jlook J f ''meat'' = Some (jl_of_int J 100)"
proof -
  obtain d' where c: "create_state_summary J K s = (Inr (), s\<lparr>db := d'\<rparr>)" "store_holds J K obj plain d' initial_refuge"
    by (rule create_state_summary_holds [OF assms])
  from c(2) have "store_holds J K obj plain (db (s\<lparr>db := d'\<rparr>)) initial_refuge" by simp
  then obtain t j where j: "show_state_summary J K None (s\<lparr>db := d'\<rparr>) = (Inr t, s\<lparr>db := d'\<rparr>)" "jl_parse J t = Inr j"
      "summary_doc J obj plain j initial_refuge" by (rule show_state_summary_reads)
  from j(3) show ?thesis
  proof (rule summary_docE)
    fix a su f m e
    assume "jlook J j = [''alerts'' \<mapsto> a, ''supplies'' \<mapsto> su, ''emergency'' \<mapsto> e]" "counts_doc J obj a (alerts initial_refuge)"
      "jlook J su = [''food'' \<mapsto> f, ''medicine'' \<mapsto> m]" "counts_doc J obj f (food initial_refuge)"
    with c(1) j(1,2) show ?thesis by (auto simp: counts_doc_def initial_refuge_def)
  qed
qed

text \<open>\<open>GetSuppliesTest\<close>, and what it asks after any updates\<close>

lemma supplies_show_food:
  assumes "store_holds J K obj plain (db s) r" and "food r key = Some n"
  shows "\<exists>t v f. get_supplies J K s = (Inr t, s) \<and> jl_parse J t = Inr v \<and> jlook J v ''food'' = Some f \<and>
    jlook J f key = Some (jl_of_int J n)"
proof -
  obtain t v f m where "get_supplies J K s = (Inr t, s)" "jl_parse J t = Inr v"
      "jlook J v = [''food'' \<mapsto> f, ''medicine'' \<mapsto> m]" "counts_doc J obj f (food r)"
    using sections_read(1) [OF assms(1)] by blast
  with assms(2) show ?thesis by (auto simp: counts_doc_def)
qed

text \<open>\<open>ModifySuppliesTest\<close>\<close>

lemma test_modify_supplies:
  assumes "open_rw (db s)"
  shows "\<exists>s1 s2 t v f. create_state_summary J K s = (Inr (), s1) \<and> modify_supplies J K ''meat'' ''50'' s1 = (Inr (), s2) \<and>
    get_supplies J K s2 = (Inr t, s2) \<and> jl_parse J t = Inr v \<and> jlook J v ''food'' = Some f \<and>
    jlook J f ''meat'' = Some (jl_of_int J 50)"
proof -
  obtain d' where c: "create_state_summary J K s = (Inr (), s\<lparr>db := d'\<rparr>)" "store_holds J K obj plain d' initial_refuge" "open_rw d'"
    by (rule create_state_summary_holds [OF assms])
  let ?s1 = "s\<lparr>db := d'\<rparr>"
  have h: "store_holds J K obj plain (db ?s1) initial_refuge" "open_rw (db ?s1)" using c(2,3) by simp_all
  have k: "known_supply initial_refuge ''meat''" "stoi ''50'' = Inr 50"
    by (simp add: known_supply_def initial_refuge_def) code_simp
  obtain d2 where d2: "modify_supplies J K ''meat'' ''50'' ?s1 =
      (Inr (), ?s1\<lparr>db := d2, console := console ?s1 @ [''[SUPPLIES] State summary updated successfully.'']\<rparr>)"
      "store_holds J K obj plain d2 (set_supply ''meat'' 50 initial_refuge)"
    by (rule modify_supplies_sets [OF h(1) initial_refuge_wf k _ h(2)]) simp_all
  let ?s2 = "?s1\<lparr>db := d2, console := console ?s1 @ [''[SUPPLIES] State summary updated successfully.'']\<rparr>"
  have "store_holds J K obj plain (db ?s2) (set_supply ''meat'' 50 initial_refuge)" using d2(2) by simp
  from supplies_show_food [OF this, of "''meat''" 50] c(1) d2(1) show ?thesis
    by (auto simp: set_supply_def initial_refuge_def)
qed

end

section \<open>Second laboratory: sensors\<close>

context random_source begin

text \<open>\<open>GenerateEmergencyMessage\<close>, \<open>GenerateEntryPoint\<close>, \<open>GenerateTemperature\<close>, \<open>GenerateSleepDuration\<close>\<close>

lemma test_generators:
  "fst (generate_emergency_message R g) \<in> {''Power Outage'', ''Server Overload'', ''Network Disruption'', ''System Failure''}"
  "fst (generate_entry_point R g) \<in> {''north'', ''east'', ''west'', ''south''}"
  "36 \<le> fst (generate_temperature R g) \<and> fst (generate_temperature R g) \<le> 42"
  "10 \<le> fst (generate_sleep_duration R g) \<and> fst (generate_sleep_duration R g) \<le> 30"
  using emergency_named entry_point_named real_range [of 36 42 g] int_range [of 10 30 g]
  by (auto simp: emergency_names_def entry_names_def generate_temperature_def generate_sleep_duration_def)

end

text \<open>
  \<open>WriteEmergencyMessage\<close>, \<open>WriteAlert_TemperatureAboveThreshold\<close> and
  \<open>WriteAlert_TemperatureBelowThreshold\<close>, and a pipe that does not open.  The test of the
  last redefines \<open>EMGS_PIPE\<close> for its own file only; the function is compiled with the
  path of its header.
\<close>

lemma test_writers:
  "write_emergency_message ''Power Outage'' = ''Power Outage'' @ [CHR 0x0A]"
  "write_alert ''north'' (395 / 10) = ''north,39.5'' @ [CHR 0x0A]"
  "write_alert ''south'' 37 = []"
  by code_simp+

lemma test_pipes:
  "fst (open_emergency_pipe True)" "\<not> fst (open_emergency_pipe False)" "fst (open_alert_pipe True)" "\<not> fst (open_alert_pipe False)"
  by (simp_all add: open_emergency_pipe_def open_alert_pipe_def)

section \<open>First laboratory: the state document\<close>

lemma scanned_supplies:
  "scan_supply ''meat 10'' = Inr (Some (''meat'', 10))" "scan_supply ''water 5'' = Inr (Some (''water'', 5))"
  "scan_supply ''antibiotics 3'' = Inr (Some (''antibiotics'', 3))"
  by code_simp+

lemma scanned_alert:
  "scan_alert ''Alert of possible infection in north_entry, 39.0'' = Some ''north_entry''"
  "find (\<lambda>k. same_key k ''north_entry'') alert_names = Some ''north_entry''"
  by code_simp+

context lab1_doc begin

text \<open>\<open>test_create_state_summary\<close>\<close>

lemma test_create_state_summary:
  assumes "room (heap s)"
  shows "\<exists>s'. create_state_summary1 E s = (Inr (), s') \<and> summary_is cells room s' empty_shelter"
proof -
  obtain n h' where "\<forall>s'. create_state_summary1 E (s'\<lparr>heap := heap s\<rparr>) = (Inr (), s'\<lparr>state_summary := Some n, heap := h'\<rparr>)"
      "room h'" "holds (cells h') n empty_shelter"
    using create_state_summary1_establishes [OF assms] by blast
  moreover from spec [OF this(1), of s] have "create_state_summary1 E s = (Inr (), s\<lparr>state_summary := Some n, heap := h'\<rparr>)" by simp
  ultimately show ?thesis by (simp add: summary_is_def)
qed

lemma ops_did:
  assumes "summary_is cells room s r" and "ops_effect (stamp_c E) (ticks1 s) ops r = Inr (ms, r')"
  shows "\<exists>s'. run_ops E ops s = (Inr (), s') \<and> summary_is cells room s' r' \<and> terminal s' = terminal s @ ms"
  using run_ops_refines [OF assms(1), of ops] assms(2) by simp

text \<open>\<open>test_modify_supplies\<close>\<close>

lemma test_modify_supplies1:
  assumes "summary_is cells room s empty_shelter"
  shows "\<exists>s' r. run_ops E [Op_supply ''meat 10'', Op_supply ''water 5'', Op_supply ''antibiotics 3''] s = (Inr (), s') \<and>
    summary_is cells room s' r \<and> count r ''meat'' = 10 \<and> count r ''water'' = 5 \<and> count r ''antibiotics'' = 3 \<and>
    terminal s' = terminal s"
proof -
  have "ops_effect (stamp_c E) (ticks1 s) [Op_supply ''meat 10'', Op_supply ''water 5'', Op_supply ''antibiotics 3''] empty_shelter =
      Inr ([], empty_shelter\<lparr>count := (count empty_shelter)(''meat'' := 10, ''water'' := 5, ''antibiotics'' := 3)\<rparr>)"
    by (simp add: supply_effect_def scanned_supplies name_defs)
  from ops_did [OF assms this] show ?thesis by fastforce
qed

text \<open>\<open>test_modify_alerts\<close>\<close>

lemma test_modify_alerts1:
  assumes "summary_is cells room s empty_shelter"
  shows "\<exists>s1 s2 r1 r2. modify_alerts1 E ''Alert of possible infection in north_entry, 39.0'' s = (Inr (), s1) \<and>
    summary_is cells room s1 r1 \<and> count r1 ''north_entry'' = 1 \<and>
    modify_alerts1 E ''Alert of possible infection in north_entry, 39.0'' s1 = (Inr (), s2) \<and>
    summary_is cells room s2 r2 \<and> count r2 ''north_entry'' = 2"
proof -
  let ?m = "''Alert of possible infection in north_entry, 39.0''"
  have step: "\<exists>s'. modify_alerts1 E ?m s = (Inr (), s') \<and> summary_is cells room s' (r\<lparr>count := (count r)(''north_entry'' := count r ''north_entry'' + 1)\<rparr>)"
    if "summary_is cells room s r" "count r ''north_entry'' < INT_MAX" for s r
    using modify_alerts1_refines [OF that(1), of ?m] that(2) did_frame(1)
    by (auto simp: alert_effect_def scanned_alert)
  obtain s1 where s1: "modify_alerts1 E ?m s = (Inr (), s1)" "summary_is cells room s1 (empty_shelter\<lparr>count := (count empty_shelter)(''north_entry'' := 1)\<rparr>)"
    using step [OF assms] by (auto simp: empty_shelter_def INT_MAX_def)
  obtain s2 where s2: "modify_alerts1 E ?m s1 = (Inr (), s2)" "summary_is cells room s2 (empty_shelter\<lparr>count := (count empty_shelter)(''north_entry'' := 2)\<rparr>)"
    using step [OF s1(2)] by (auto simp: INT_MAX_def)
  from s1 s2 show ?thesis by fastforce
qed

text \<open>\<open>test_modify_emergencies\<close>\<close>

lemma test_modify_emergencies1:
  assumes "summary_is cells room s empty_shelter" and "stamp_c E (ticks1 s) = Inr t"
  shows "\<exists>s' r. modify_emergencies1 E ''Test emergency message'' s = (Inr (), s') \<and> summary_is cells room s' r \<and>
    event r = ''Test emergency message'' \<and> keepalived r = t"
proof -
  have "ops_effect (stamp_c E) (ticks1 s) [Op_emergency ''Test emergency message''] empty_shelter =
      Inr ([], empty_shelter\<lparr>keepalived := t, event := ''Test emergency message''\<rparr>)"
    by (simp add: emergency_effect_def assms(2))
  from ops_did [OF assms(1) this] show ?thesis by (auto simp: thn_def bnd_def ret_def split: prod.splits sum.splits)
qed

end

end
