(* ===== verification/Spec2Isabelle.thy ===== *)
theory Spec2Isabelle
  imports Supplies_Props Session_Props Http_Props Pipes_Props Client_Props System_Props Edge_Props Setup_Props
    Lab1_Login_Props Lab1_Pipe_Props Lab1_Pipe_End Fine_Props Canny_Parallel Satellite Conversation_Props Signal_Props Test_Suite
begin

text \<open>
  A verification of the two refuge servers of the repository, \<open>lab1_-manugcr\<close> (C,
  the first laboratory) and \<open>h-p-cpp-hope-programming-cpp-manugcr\<close> (C++, the
  second), with their clients, sensor processes and libraries.  Paths below are
  relative to the directory of the server they belong to.

  \<^bold>\<open>The second program.\<close>  The server (\<open>src/server.cpp\<close>) keeps the state of a refuge,
  its supplies, alert counters and last emergency, as one JSON document under
  one key of a RocksDB store (\<open>lib/libsta/src/supplies.cpp\<close>).  Two child
  processes write random infection alerts (\<open>lib/libsta/src/alerts.cpp\<close>) and
  emergencies (\<open>lib/libdyn/src/emergency.cpp\<close>) into named pipes that the main
  loop reads.  Every terminal client (\<open>src/client.cpp\<close>) has a thread that
  answers its commands; an HTTP server in another thread answers web requests.
  At the start the server runs an edge detector over a satellite image
  (\<open>lib/cannyEdgeFilter\<close>), compresses the result, and sends the file to the
  clients that ask for it.

  \<^bold>\<open>The first program.\<close>  One process (\<open>src/server.c\<close>) waits in \<open>select\<close> for new
  connections, messages and the two pipes.  It keeps the clients in an array, with a
  role that they get when they log in, and the shelter as a tree of cJSON objects
  (\<open>lib/libdyn/src/supplies.c\<close>), which only clients of role 1 may modify.  Alerts
  (\<open>lib/libdyn/src/alerts.c\<close>) are counted and passed on to all clients; an emergency
  (\<open>lib/libsta/src/emergency.c\<close>) is recorded, passed on, and ends every connection.
  The client (\<open>src/client.c\<close>) sends its credentials and then copies lines in both
  directions.

  \<^bold>\<open>Conventions.\<close>  A C++ function is a function from the state to how the call
  ended and the state it left: by a value, by an exception, by \<open>exit\<close>, or with
  undefined behaviour (\<open>Prelude\<close>).  Strings are byte strings; fixed arrays,
  \<open>strtok\<close>, \<open>find\<close>/\<open>substr\<close> with \<open>npos\<close> and \<open>std::stoi\<close> are those of
  \<open>Cxx_Strings\<close>.  Uninitialised memory is an argument \<open>junk\<close>.  Libraries
  that are not part of the sources are arguments, and what the program relies on
  is a locale: \<open>json_api\<close> (nlohmann::json), \<open>kv_api\<close> and \<open>kv_writable\<close> (RocksDB),
  \<open>gz_api\<close> (zlib), \<open>random_source\<close> (the random distributions), \<open>fp_api\<close> and
  \<open>dbl_api\<close> (single and double precision and the matrix operations of OpenCV),
  \<open>convert_api\<close> (the conversion of a matrix to bytes in OpenCV),
  \<open>cjson_api\<close> (cJSON as a heap of cells whose objects the program shares by pointer)
  and \<open>c_random\<close> (\<open>rand\<close> and the rounding of single precision in C).
  Each has a reference instance on which the witnesses run.

  \<^bold>\<open>Theories.\<close>
  \<^item> \<open>Prelude\<close>, \<open>Cxx_Strings\<close>, \<open>Net\<close>: results and actions, counting loops, C
    strings, byte streams and \<open>recv\<close>.
  \<^item> \<open>Json_Api\<close>, \<open>Json_Ref\<close>, \<open>Kv_Api\<close>, \<open>Gz_Api\<close>: the library interfaces, with a
    JSON printer and parser, an in-memory store and a plain container as
    instances.
  \<^item> \<open>Supplies\<close>: every function of \<open>supplies.cpp\<close>.  \<open>Refuge\<close>: the abstract record
    \<open>refuge\<close> and the lemmas that each operation implements its counterpart on it,
    for every JSON library and store that meet their interfaces (\<open>refuge_env\<close>).
    \<open>Supplies_Frame\<close>: the operations change store and console only.
    \<open>Supplies_Props\<close>: the properties.
  \<^item> \<open>Sensors\<close>: \<open>alerts.cpp\<close> and \<open>emergency.cpp\<close>.  The endless loops run a given
    number of rounds, which is no restriction since every round is covered.
  \<^item> \<open>Server_State\<close>: the state of \<open>server.cpp\<close>, with its sockets, log, clock and
    globals, as an extension of the supplies state.  \<open>Session\<close>: \<open>handle_client\<close>,
    its loop (total: each round uses up input), the login dialogue and the
    commands.  \<open>Image_Transfer\<close>: \<open>compress_image\<close>, \<open>send_zip_file\<close>.  \<open>Http\<close>: \<open>http_functions\<close> and its handlers.  \<open>Pipes\<close>:
    \<open>handle_alerts\<close>, \<open>handle_emergency\<close>, \<open>disconnect_all_clients\<close>.
  \<^item> \<open>System\<close>: the loop of \<open>main\<close> (\<open>main_round\<close>) and the relation \<open>sys_step\<close> that
    interleaves it with the client threads and the web server.  One command of a
    client is one step.
  \<^item> \<open>Atoms\<close>: programs of atomic steps, with the accesses to unsynchronised memory that
    each step makes, their uninterrupted run, the rely-guarantee rules for programs
    among others, and teams of threads.  \<open>Fine\<close>: every function that a thread of the
    running server calls, as a program of single accesses; without interruption each
    is the function of the theories above.  \<open>Fine_System\<close>: the relation \<open>fine_step\<close>, in
    which \<open>main\<close>, the client threads and the web requests make single accesses in any
    order, until one of them ends the process (\<open>running\<close>), and what a race is.  \<open>Fine_Refine\<close>: the steps of \<open>System\<close> are runs of it.
    \<open>Fine_Safe\<close>: every program keeps the history of the store (\<open>history\<close>).
    \<open>Fine_Props\<close>: the properties.
  \<^item> \<open>Signals\<close>: the process around \<open>fine_step\<close>: peers may reset their connections at any
    time, and as nothing handles \<open>SIGPIPE\<close>, a transfer to such a connection ends the
    process in the state before it (\<open>signal_step\<close>, \<open>run_until_death\<close>).
    \<open>Signal_Props\<close>: the properties; the summary in the store is well formed
    wherever the signal comes (\<open>signals_keep_summary\<close>).
  \<^item> \<open>Client\<close>: \<open>client.cpp\<close>.  The receiving loop is total; unpacking is a partial
    function, since nothing bounds an arbitrary library, and is proved to return
    for libraries that meet \<open>gz_api\<close>; the main loop runs a given number of
    iterations.  \<open>Conversation_Props\<close> joins it to the server: what the one sends is
    what the other reads.
  \<^item> \<open>Mat\<close>, \<open>Blur\<close>, \<open>Canny\<close>: matrices with checked accesses, \<open>applyGaussianBlur\<close>,
    and the three stages of \<open>cannyEdgeFilter.cpp\<close> after it.  \<open>Edge\<close>:
    \<open>cannyEdgeDetection\<close>, which runs the four stages between loading and saving an
    image, \<open>start_canny_edge_detection\<close> and the stand-alone program
    (\<open>edge_main\<close>).  The loops count over the rows and columns of a matrix and are total; the recursion of \<open>checkContours\<close> goes up one
    row with every call.  \<open>Canny_Parallel\<close>: the loop of \<open>nonMaximumSuppression\<close> that
    OpenMP divides among four threads, as a team of \<open>Atoms\<close>.  \<open>Satellite\<close>: the class
    \<open>SatelliteImageWrapper\<close> on an abstract GDAL.
  \<^item> \<open>Setup\<close>: the set-up functions of \<open>server.cpp\<close>, \<open>main\<close> up to its loop, and
    \<open>main\<close> of \<open>client.cpp\<close> up to its loop; the answers of the operating system are
    a record.
  \<^item> \<open>Stdio\<close>, \<open>Cjson_Api\<close>: the conversions of \<open>sscanf\<close>, \<open>snprintf\<close>, \<open>strcat\<close> and
    the two kinds of \<open>read\<close>; the interface of cJSON with a heap of trees as its
    instance.
  \<^item> \<open>Lab1_State\<close>: the globals of the first server, with its streams and output, and
    its shared functions.  \<open>Lab1_Supplies\<close>: \<open>supplies.c\<close>.  \<open>Lab1_Server\<close>: the functions
    of \<open>server.c\<close> behind \<open>main\<close>; the loop of \<open>handle_alerts\<close> is total, since every
    \<open>read\<close> uses up some of the stream.  \<open>Lab1_Main\<close>: \<open>main\<close> with its set-up
    (\<open>main_start1\<close>) and one round of its loop (\<open>main_round1\<close>), and the relations
    \<open>step1\<close> and \<open>reach1\<close> of all rounds, before each of which the kernel may deliver any
    bytes and \<open>accept\<close> may return any descriptor that is not open; they carry the set of
    the open connections.  \<open>Lab1_Sensors\<close>, \<open>Lab1_Client\<close>: the sensor processes and the client, whose
    endless loops run a given number of rounds.
  \<^item> \<open>Lab1_Doc\<close>: the abstract record \<open>shelter\<close>, the tree it stands for, and the effect
    of each operation on it.  \<open>Lab1_Refine\<close>: the operations on the shared heap implement
    these effects, for every library that meets \<open>cjson_api\<close> (locale \<open>lab1_doc\<close>).
    \<open>Lab1_Table\<close>: the array of clients as a list, with the frames of every function.
    \<open>Lab1_Watch\<close>: the loop that fills the set for \<open>select\<close>.  \<open>Lab1_Round\<close>: what one round
    preserves (locale \<open>lab1_inv\<close>).  \<open>Lab1_Open\<close>: the table lists exactly the open
    connections (\<open>tracks\<close>).  \<open>Lab1_Props\<close>, \<open>Lab1_Login_Props\<close>, \<open>Lab1_Pipe_Props\<close>,
    \<open>Lab1_Pipe_End\<close>: the properties.
  \<^item> \<open>Test_Suite\<close>: the assertions of \<open>tests/unit\<close> of both laboratories, for every library
    and generator instead of one.
  \<^item> The theories ending in \<open>Props\<close> hold the properties, each with a witness that
    applies it to concrete data.

  \<^bold>\<open>What the lemmas show.\<close>  The store always holds a well-formed summary, through
  any interleaving of the single accesses of all threads and at any point where the
  process may be stopped: what it holds is always one update of a summary that it held
  before.  The server in whole commands is refined by the server in single accesses.
  Each update has exactly its effect and each refusal none;
  without the password a client changes nothing; an update travels from the keyboard to
  the store and its answers back to the screen, alerts and emergencies from the sensor
  to the store and to the screens of all clients; the image arrives unchanged;
  the detector stays inside the image, its blur inside the range of its levels,
  rounding included, and on dark images it ends without undefined behaviour; its
  parallel loop is free of races and gives what the sequential loop gives; the
  server starts when no check of its set-up fails.  The same theorems show where the code
  falls short: uncaught overflow, lost updates, races on the list of clients, the login
  flag and the buffer of \<open>std::localtime\<close>, a login shared by all web clients, an
  emergency that a client overlooks behind an alarm,
  buffers overrun by one byte, clients that can end the server, an end marker
  that file contents can contain, a hysteresis step that is a plain threshold, satellite
  bands scaled before they are shifted, which come out too dark or black, and one reset connection that ends the server with the next
  alarm.

  For the first server: in every reachable state its array of clients is well formed and
  lists exactly the open connections, and its document is the complete, typed summary of a shelter, which every sequence
  of updates follows; without a login as root the supplies never change; alerts
  reach every client and are counted once for each read, and the loop that reads them ends; an emergency is
  recorded and empties the table.  Where it falls short: buffers that full messages
  overrun, its own client's among them, sockets closed twice, a loop that reads behind the
  array of clients from 98 clients on, a check that never fires, alerts lost when one read gets several, and clients
  that can end the server by resetting their connection or by closing it before they log in.

  \<^bold>\<open>Not modelled.\<close>  Signals in the first laboratory, and errors of \<open>send\<close>
  other than a reset connection, which the second server ignores; what a race does to the
  memory, which the language leaves undefined: the interleaved server shows where races
  are and treats each access as atomic; double-precision overflow and underflow of the
  blur for deviations other than one; the seed of \<open>rand\<close> in the first
  laboratory, whose generator starts in any state; what follows the endless loops of the two
  servers and is never reached; the tests of the edge detector, which do not
  compile against its header; web pages and the third
  laboratory, two web services in Go.
\<close>

end
